(* ===== verification/Prelude.thy ===== *)
theory Prelude
  imports Main "HOL-Library.Word" "HOL-Library.AList"
begin

text \<open>
  Shared vocabulary of the development: results as sums, hash maps and hash sets as
  association lists and lists, the string operations of the Rust standard library that the
  sources use, and machine integers at their width.

  \<^item> \<open>Result<T, E>\<close> is the sum \<open>'e + 'a\<close>, \<open>Inl\<close> the error; the \<open>?\<close> operator is \<open>res_bind\<close>.
  \<^item> \<open>HashMap<K, V>\<close> is an association list with distinct keys (\<open>hm_wf\<close>). The order of the
    list is the iteration order of the map, which Rust leaves open: a statement for every
    list holds for every iteration order.
  \<^item> \<open>HashSet<T>\<close> is a distinct list where it is iterated, a set where it is not.
  \<^item> \<open>String\<close> is a list of characters; the character classes are those of ASCII text.
\<close>

named_theorems hm_simps \<open>look-up after an update of a hash map\<close>
named_theorems wf_intros \<open>preservation of the well-formedness invariants\<close>

type_synonym u16 = "16 word"
type_synonym u32 = "32 word"
type_synonym u64 = "64 word"
type_synonym u128 = "128 word"

section \<open>Results\<close>

definition res_bind :: "'e + 'a \<Rightarrow> ('a \<Rightarrow> 'e + 'b) \<Rightarrow> 'e + 'b" where
  "res_bind m f = (case m of Inl e \<Rightarrow> Inl e | Inr x \<Rightarrow> f x)"

definition ok_or :: "'a option \<Rightarrow> 'e \<Rightarrow> 'e + 'a" where
  "ok_or m e = (case m of None \<Rightarrow> Inl e | Some x \<Rightarrow> Inr x)"

definition map_err :: "('e \<Rightarrow> 'f) \<Rightarrow> 'e + 'a \<Rightarrow> 'f + 'a" where
  "map_err f m = (case m of Inl e \<Rightarrow> Inl (f e) | Inr x \<Rightarrow> Inr x)"

definition is_ok :: "'e + 'a \<Rightarrow> bool" where
  "is_ok m = (case m of Inl _ \<Rightarrow> False | Inr _ \<Rightarrow> True)"

lemma res_bind_simps [simp]:
  "res_bind (Inl e) f = Inl e" "res_bind (Inr x) f = f x"
  by (simp_all add: res_bind_def)

lemma ok_or_simps [simp]:
  "ok_or None e = Inl e" "ok_or (Some x) e = Inr x"
  by (simp_all add: ok_or_def)

lemma map_err_simps [simp]:
  "map_err f (Inl e) = Inl (f e)" "map_err f (Inr x) = Inr x"
  by (simp_all add: map_err_def)

lemma is_ok_simps [simp]: "\<not> is_ok (Inl e)" "is_ok (Inr x)"
  by (simp_all add: is_ok_def)

lemma res_bind_Inr_iff:
  "res_bind m f = Inr y \<longleftrightarrow> (\<exists>x. m = Inr x \<and> f x = Inr y)"
  by (cases m) auto

lemma res_bind_Inl_iff:
  "res_bind m f = Inl e \<longleftrightarrow> m = Inl e \<or> (\<exists>x. m = Inr x \<and> f x = Inl e)"
  by (cases m) auto

lemma ok_or_Inr_iff [simp]: "ok_or m e = Inr x \<longleftrightarrow> m = Some x"
  by (cases m) auto

lemma ok_or_Inl_iff [simp]: "ok_or m e = Inl e' \<longleftrightarrow> m = None \<and> e' = e"
  by (cases m) auto

lemma map_err_Inr_iff [simp]: "map_err f m = Inr x \<longleftrightarrow> m = Inr x"
  by (cases m) auto

lemma map_sum_Inr_iff [simp]: "map_sum f g z = Inr y \<longleftrightarrow> (\<exists>x. z = Inr x \<and> y = g x)"
  by (cases z) auto

lemma map_sum_Inl_iff [simp]: "map_sum f g z = Inl y \<longleftrightarrow> (\<exists>x. z = Inl x \<and> y = f x)"
  by (cases z) auto

section \<open>Hash maps\<close>

type_synonym ('k, 'v) hmap = "('k \<times> 'v) list"

definition hm_wf :: "('k, 'v) hmap \<Rightarrow> bool" where
  "hm_wf m \<longleftrightarrow> distinct (map fst m)"

definition hm_get :: "('k, 'v) hmap \<Rightarrow> 'k \<Rightarrow> 'v option" where
  "hm_get m k = map_of m k"

definition hm_has :: "('k, 'v) hmap \<Rightarrow> 'k \<Rightarrow> bool" where
  "hm_has m k = (k \<in> set (map fst m))"

definition hm_insert :: "'k \<Rightarrow> 'v \<Rightarrow> ('k, 'v) hmap \<Rightarrow> ('k, 'v) hmap" where
  "hm_insert k v m = AList.update k v m"

definition hm_remove :: "'k \<Rightarrow> ('k, 'v) hmap \<Rightarrow> ('k, 'v) hmap" where
  "hm_remove k m = AList.delete k m"

definition hm_keys :: "('k, 'v) hmap \<Rightarrow> 'k list" where
  "hm_keys m = map fst m"

definition hm_values :: "('k, 'v) hmap \<Rightarrow> 'v list" where
  "hm_values m = map snd m"

definition hm_extend :: "('k, 'v) hmap \<Rightarrow> ('k \<times> 'v) list \<Rightarrow> ('k, 'v) hmap" where
  "hm_extend m kvs = foldl (\<lambda>acc (k, v). hm_insert k v acc) m kvs"

lemma hm_get_empty [simp]: "hm_get [] k = None"
  by (simp add: hm_get_def)

lemma hm_get_insert [hm_simps, simp]:
  "hm_get (hm_insert k v m) k' = (if k' = k then Some v else hm_get m k')"
  by (simp add: hm_get_def hm_insert_def update_conv')

lemma hm_get_remove [hm_simps, simp]:
  "hm_get (hm_remove k m) k' = (if k' = k then None else hm_get m k')"
  by (simp add: hm_get_def hm_remove_def delete_conv')

lemma hm_has_iff: "hm_has m k \<longleftrightarrow> hm_get m k \<noteq> None"
  by (auto simp: hm_has_def hm_get_def map_of_eq_None_iff)

lemma hm_has_insert [hm_simps, simp]: "hm_has (hm_insert k v m) k' \<longleftrightarrow> k' = k \<or> hm_has m k'"
  by (simp add: hm_has_iff)

lemma hm_has_remove [hm_simps, simp]: "hm_has (hm_remove k m) k' \<longleftrightarrow> k' \<noteq> k \<and> hm_has m k'"
  by (simp add: hm_has_iff)

lemma hm_has_empty [simp]: "\<not> hm_has [] k"
  by (simp add: hm_has_def)

lemma hm_keys_set [simp]: "k \<in> set (hm_keys m) \<longleftrightarrow> hm_has m k"
  by (simp add: hm_keys_def hm_has_def)

lemma hm_wf_empty [wf_intros, simp]: "hm_wf []"
  by (simp add: hm_wf_def)

lemma hm_wf_insert [wf_intros, simp]: "hm_wf m \<Longrightarrow> hm_wf (hm_insert k v m)"
  by (simp add: hm_wf_def hm_insert_def distinct_update)

lemma hm_wf_remove [wf_intros, simp]: "hm_wf m \<Longrightarrow> hm_wf (hm_remove k m)"
  by (simp add: hm_wf_def hm_remove_def distinct_delete)

lemma hm_get_iff_mem: "hm_wf m \<Longrightarrow> hm_get m k = Some v \<longleftrightarrow> (k, v) \<in> set m"
  by (simp add: hm_wf_def hm_get_def)

lemma hm_get_mem: "hm_get m k = Some v \<Longrightarrow> (k, v) \<in> set m"
  by (simp add: hm_get_def map_of_SomeD)

lemma hm_get_value: "hm_get m k = Some v \<Longrightarrow> v \<in> set (hm_values m)"
  by (force simp: hm_values_def dest: hm_get_mem)

lemma hm_wf_extend [wf_intros, simp]: "hm_wf m \<Longrightarrow> hm_wf (hm_extend m kvs)"
  unfolding hm_extend_def by (induction kvs arbitrary: m) auto

lemma hm_extend_Nil [simp]: "hm_extend m [] = m"
  by (simp add: hm_extend_def)

lemma hm_extend_Cons [simp]: "hm_extend m ((k, v) # kvs) = hm_extend (hm_insert k v m) kvs"
  by (simp add: hm_extend_def)

lemma hm_get_extend:
  "hm_get (hm_extend m kvs) k = (case map_of (rev kvs) k of None \<Rightarrow> hm_get m k | Some v \<Rightarrow> Some v)"
  by (induction kvs arbitrary: m) (auto simp: map_add_def split: option.splits)

lemma hm_values_insert_subset:
  "set (hm_values (hm_insert k v m)) \<subseteq> insert v (set (hm_values m))"
  unfolding hm_values_def hm_insert_def by (induction m) auto

lemma hm_values_remove_subset: "set (hm_values (hm_remove k m)) \<subseteq> set (hm_values m)"
  unfolding hm_values_def hm_remove_def AList.delete_eq by auto

section \<open>Hash sets that are iterated\<close>

definition hs_insert :: "'a \<Rightarrow> 'a list \<Rightarrow> 'a list" where
  "hs_insert x xs = (if x \<in> set xs then xs else xs @ [x])"

definition hs_remove :: "'a \<Rightarrow> 'a list \<Rightarrow> 'a list" where
  "hs_remove x xs = removeAll x xs"

lemma set_hs_insert [simp]: "set (hs_insert x xs) = insert x (set xs)"
  by (auto simp: hs_insert_def)

lemma set_hs_remove [simp]: "set (hs_remove x xs) = set xs - {x}"
  by (simp add: hs_remove_def)

lemma distinct_hs_insert [simp]: "distinct xs \<Longrightarrow> distinct (hs_insert x xs)"
  by (simp add: hs_insert_def)

lemma distinct_hs_remove [simp]: "distinct xs \<Longrightarrow> distinct (hs_remove x xs)"
  by (simp add: hs_remove_def distinct_removeAll)

section \<open>Strings\<close>

text \<open>
  The string functions of the Rust standard library on ASCII text: \<open>trim\<close>, \<open>to_uppercase\<close>,
  \<open>to_lowercase\<close>, \<open>replace\<close>, \<open>split\<close>, \<open>find\<close>, \<open>join\<close> and the decimal printing of numbers.
\<close>

definition is_space :: "char \<Rightarrow> bool" where
  "is_space c = (c \<in> {CHR '' '', CHR 0x09, CHR 0x0A, CHR 0x0B, CHR 0x0C, CHR 0x0D})"

definition is_digit :: "char \<Rightarrow> bool" where
  "is_digit c = (of_char c \<ge> (48::nat) \<and> of_char c \<le> (57::nat))"

definition is_upper :: "char \<Rightarrow> bool" where
  "is_upper c = (of_char c \<ge> (65::nat) \<and> of_char c \<le> (90::nat))"

definition is_lower :: "char \<Rightarrow> bool" where
  "is_lower c = (of_char c \<ge> (97::nat) \<and> of_char c \<le> (122::nat))"

definition is_alpha :: "char \<Rightarrow> bool" where
  "is_alpha c = (is_upper c \<or> is_lower c)"

definition is_alnum :: "char \<Rightarrow> bool" where
  "is_alnum c = (is_alpha c \<or> is_digit c)"

definition upper_char :: "char \<Rightarrow> char" where
  "upper_char c = (if is_lower c then char_of ((of_char c :: nat) - 32) else c)"

definition lower_char :: "char \<Rightarrow> char" where
  "lower_char c = (if is_upper c then char_of ((of_char c :: nat) + 32) else c)"

definition str_trim :: "string \<Rightarrow> string" where
  "str_trim s = rev (dropWhile is_space (rev (dropWhile is_space s)))"

definition str_blank :: "string \<Rightarrow> bool" where
  "str_blank s = list_all is_space s"

definition to_uppercase :: "string \<Rightarrow> string" where
  "to_uppercase s = map upper_char s"

definition to_lowercase :: "string \<Rightarrow> string" where
  "to_lowercase s = map lower_char s"

definition quoted :: "string \<Rightarrow> string" where
  "quoted s = CHR 0x27 # s @ [CHR 0x27]"

definition replace_char :: "char \<Rightarrow> char \<Rightarrow> string \<Rightarrow> string" where
  "replace_char a b s = map (\<lambda>c. if c = a then b else c) s"

fun str_starts_with :: "string \<Rightarrow> string \<Rightarrow> bool" where
  "str_starts_with s [] = True"
| "str_starts_with [] (p # ps) = False"
| "str_starts_with (c # s) (p # ps) = (c = p \<and> str_starts_with s ps)"

definition str_ends_with :: "string \<Rightarrow> string \<Rightarrow> bool" where
  "str_ends_with s p = str_starts_with (rev s) (rev p)"

fun str_contains :: "string \<Rightarrow> string \<Rightarrow> bool" where
  "str_contains [] p = (p = [])"
| "str_contains (c # s) p = (str_starts_with (c # s) p \<or> str_contains s p)"

text \<open>\<open>split(sep)\<close>, and \<open>split_once\<close> at a character and at a string.\<close>

fun str_split :: "char \<Rightarrow> string \<Rightarrow> string list" where
  "str_split sep [] = [[]]"
| "str_split sep (c # s) =
     (if c = sep then [] # str_split sep s
      else (case str_split sep s of [] \<Rightarrow> [[c]] | w # ws \<Rightarrow> (c # w) # ws))"

fun str_split_once :: "char \<Rightarrow> string \<Rightarrow> (string \<times> string) option" where
  "str_split_once sep [] = None"
| "str_split_once sep (c # s) =
     (if c = sep then Some ([], s)
      else map_option (\<lambda>(a, b). (c # a, b)) (str_split_once sep s))"

fun split_at_str :: "string \<Rightarrow> string \<Rightarrow> (string \<times> string) option" where
  "split_at_str p [] = (if p = [] then Some ([], []) else None)"
| "split_at_str p (c # s) =
     (if str_starts_with (c # s) p then Some ([], drop (length p) (c # s))
      else map_option (\<lambda>(a, b). (c # a, b)) (split_at_str p s))"

text \<open>\<open>lines\<close>: cut at line feeds, a carriage return before one goes with it, no empty last line.\<close>

definition chop_cr :: "string \<Rightarrow> string" where
  "chop_cr s = (if s \<noteq> [] \<and> last s = CHR 0x0D then butlast s else s)"

definition str_lines :: "string \<Rightarrow> string list" where
  "str_lines s =
     (let parts = str_split (CHR 0x0A) s in
      map chop_cr (butlast parts) @ (if last parts = [] then [] else [last parts]))"

fun str_join :: "string \<Rightarrow> string list \<Rightarrow> string" where
  "str_join sep [] = []"
| "str_join sep [s] = s"
| "str_join sep (s # t # ss) = s @ sep @ str_join sep (t # ss)"

fun show_nat :: "nat \<Rightarrow> string" where
  "show_nat n = (if n < 10 then [char_of (48 + n)] else show_nat (n div 10) @ [char_of (48 + n mod 10)])"

declare show_nat.simps [simp del]

definition show_int :: "int \<Rightarrow> string" where
  "show_int i = (if i < 0 then CHR ''-'' # show_nat (nat (- i)) else show_nat (nat i))"

fun read_digits :: "nat \<Rightarrow> string \<Rightarrow> nat option" where
  "read_digits acc [] = Some acc"
| "read_digits acc (c # s) =
     (if is_digit c then read_digits (acc * 10 + (of_char c - 48)) s else None)"

text \<open>\<open>str::parse\<close> for an unsigned integer of a given bound: digits, an optional leading plus.\<close>

definition parse_unsigned :: "nat \<Rightarrow> string \<Rightarrow> nat option" where
  "parse_unsigned bound s =
     (let ds = (case s of c # r \<Rightarrow> if c = CHR ''+'' then r else s | [] \<Rightarrow> []) in
      if ds = [] then None
      else case read_digits 0 ds of None \<Rightarrow> None | Some n \<Rightarrow> if n < bound then Some n else None)"

lemma str_starts_with_iff: "str_starts_with s p \<longleftrightarrow> (\<exists>t. s = p @ t)"
  by (induction s p rule: str_starts_with.induct) auto

lemma str_contains_iff: "str_contains s p \<longleftrightarrow> (\<exists>a b. s = a @ p @ b)"
proof (induction s)
  case Nil
  then show ?case by auto
next
  case (Cons c s)
  have "str_starts_with (c # s) p \<longleftrightarrow> (\<exists>b. c # s = [] @ p @ b)" by (simp add: str_starts_with_iff)
  moreover have "(\<exists>a b. c # s = a @ p @ b) \<longleftrightarrow>
      (\<exists>b. c # s = [] @ p @ b) \<or> (\<exists>a b. c # s = (c # a) @ p @ b)"
    by (metis append_Cons hd_append2 list.sel(1) neq_Nil_conv)
  ultimately show ?case using Cons by auto
qed

lemma str_trim_empty: "str_trim s = [] \<longleftrightarrow> str_blank s"
proof (cases "dropWhile is_space s")
  case Nil
  then show ?thesis
    by (simp add: str_trim_def str_blank_def list_all_iff) (simp flip: dropWhile_eq_Nil_conv)
next
  case (Cons a t)
  then have "\<not> is_space a" by (simp add: dropWhile_eq_Cons_conv)
  moreover have "a \<in> set s" by (metis Cons list.set_intros(1) set_dropWhileD)
  ultimately show ?thesis using Cons by (auto simp: str_trim_def str_blank_def list_all_iff dropWhile_eq_Nil_conv)
qed

lemma str_split_nonempty [simp]: "str_split sep s \<noteq> []"
  by (induction s) (auto split: list.splits)

lemma str_split_join: "str_join [sep] (str_split sep s) = s"
proof (induction s)
  case Nil
  then show ?case by simp
next
  case (Cons c s)
  then show ?case by (cases "str_split sep s") (auto, (cases "tl (str_split sep s)"; auto)+)
qed

lemma str_split_once_Some: "str_split_once sep s = Some (a, b) \<Longrightarrow> s = a @ sep # b \<and> sep \<notin> set a"
  by (induction s arbitrary: a b) (auto split: if_splits)

lemma str_split_once_None: "str_split_once sep s = None \<longleftrightarrow> sep \<notin> set s"
  by (induction s) auto

lemma str_split_once_append: "sep \<notin> set a \<Longrightarrow> str_split_once sep (a @ sep # b) = Some (a, b)"
  by (induction a) auto

lemma read_digits_append:
  "read_digits acc (s @ t) = (case read_digits acc s of None \<Rightarrow> None | Some n \<Rightarrow> read_digits n t)"
  by (induction s arbitrary: acc) auto

lemma digit_char:
  "(d::nat) < 10 \<Longrightarrow> is_digit (char_of (48 + d)) \<and> of_char (char_of (48 + d) :: char) = 48 + d"
  by (simp add: is_digit_def)

lemma read_show_nat: "read_digits 0 (show_nat n) = Some n"
proof (induction n rule: show_nat.induct)
  case (1 n)
  have d: "read_digits acc [char_of (48 + n mod 10)] = Some (acc * 10 + n mod 10)" for acc
    using digit_char [of "n mod 10"] by simp
  show ?case
  proof (cases "n < 10")
    case True
    with digit_char [of n] show ?thesis by (simp add: show_nat.simps [of n])
  next
    case False
    have "show_nat n = show_nat (n div 10) @ [char_of (48 + n mod 10)]"
      using False by (simp add: show_nat.simps [of n])
    with 1 [OF False] show ?thesis by (simp only: read_digits_append d option.case) simp
  qed
qed

lemma show_nat_nonempty [simp]: "show_nat n \<noteq> []"
  by (subst show_nat.simps) simp

lemma show_nat_digits: "c \<in> set (show_nat n) \<Longrightarrow> is_digit c"
proof (induction n rule: show_nat.induct)
  case (1 n)
  from "1.prems" show ?case
  proof (subst (asm) show_nat.simps, cases "n < 10")
    assume "n < 10" and "c \<in> set (if n < 10 then [char_of (48 + n)] else show_nat (n div 10) @ [char_of (48 + n mod 10)])"
    then show "is_digit c" using digit_char [of n] by simp
  next
    assume n: "\<not> n < 10" and c: "c \<in> set (if n < 10 then [char_of (48 + n)] else show_nat (n div 10) @ [char_of (48 + n mod 10)])"
    then have "c \<in> set (show_nat (n div 10)) \<or> c = char_of (48 + n mod 10)" by auto
    then show "is_digit c"
    proof
      assume "c = char_of (48 + n mod 10)"
      then show ?thesis using digit_char [of "n mod 10"] by simp
    qed (rule "1.IH" [OF n])
  qed
qed

lemma show_nat_inject: "show_nat m = show_nat n \<Longrightarrow> m = n"
  by (metis option.inject read_show_nat)

lemma parse_show_nat: "n < bound \<Longrightarrow> parse_unsigned bound (show_nat n) = Some n"
proof -
  assume n: "n < bound"
  have "show_nat n = (c # r) \<Longrightarrow> c \<noteq> CHR ''+''" for c r
    using show_nat_digits [of c n] by (auto simp: is_digit_def)
  with n read_show_nat [of n] show ?thesis
    by (cases "show_nat n") (auto simp: parse_unsigned_def Let_def)
qed

section \<open>Fallible operations on a state\<close>

text \<open>
  An operation that reads and changes a state and may return early with an error: what it
  changed before the error stays changed, as in the sources.
\<close>

type_synonym ('s, 'e, 'a) act = "'s \<Rightarrow> ('e + 'a) \<times> 's"

definition act_ret :: "'a \<Rightarrow> ('s, 'e, 'a) act" where
  "act_ret x s = (Inr x, s)"

definition act_err :: "'e \<Rightarrow> ('s, 'e, 'a) act" where
  "act_err e s = (Inl e, s)"

definition act_bind :: "('s, 'e, 'a) act \<Rightarrow> ('a \<Rightarrow> ('s, 'e, 'b) act) \<Rightarrow> ('s, 'e, 'b) act" where
  "act_bind m f s = (case m s of (Inl e, s') \<Rightarrow> (Inl e, s') | (Inr x, s') \<Rightarrow> f x s')"

definition act_lift :: "'e + 'a \<Rightarrow> ('s, 'e, 'a) act" where
  "act_lift r s = (r, s)"

text \<open>An operation whose error is turned into a value: \<open>if let Err(e) = \<dots>\<close>.\<close>

definition act_try :: "('s, 'e, 'a) act \<Rightarrow> ('s, 'f, 'e + 'a) act" where
  "act_try m s = (case m s of (r, s') \<Rightarrow> (Inr r, s'))"

lemma act_run [simp]:
  "act_ret x s = (Inr x, s)" "act_err e s = (Inl e, s)" "act_lift r s = (r, s)"
  by (simp_all add: act_ret_def act_err_def act_lift_def)

lemma act_bind_Inr [simp]: "m s = (Inr x, s') \<Longrightarrow> act_bind m f s = f x s'"
  by (simp add: act_bind_def)

lemma act_bind_Inl [simp]: "m s = (Inl e, s') \<Longrightarrow> act_bind m f s = (Inl e, s')"
  by (simp add: act_bind_def)

lemma act_try_run [simp]: "m s = (r, s') \<Longrightarrow> act_try m s = (Inr r, s')"
  by (simp add: act_try_def)

lemma act_bind_cases:
  assumes "act_bind m f s = (r, s')"
  obtains (fail) e where "m s = (Inl e, s')" "r = Inl e"
  | (ok) x t where "m s = (Inr x, t)" "f x t = (r, s')"
  using assms by (auto simp: act_bind_def split: prod.splits sum.splits)

lemma act_bind_Inr_iff:
  "act_bind m f s = (Inr y, s') \<longleftrightarrow> (\<exists>x t. m s = (Inr x, t) \<and> f x t = (Inr y, s'))"
  by (auto simp: act_bind_def split: prod.splits sum.splits)

lemma act_bind_Inl_iff:
  "act_bind m f s = (Inl e, s') \<longleftrightarrow>
     m s = (Inl e, s') \<or> (\<exists>x t. m s = (Inr x, t) \<and> f x t = (Inl e, s'))"
  by (auto simp: act_bind_def split: prod.splits sum.splits)

end
