(* ===== verification/Cfg_Types.thy ===== *)
theory Cfg_Types
  imports Prelude
begin

text \<open>
  The configuration data model of \<^verbatim>\<open>crates/harness-config/src/lib.rs\<close>: the parsed form of a
  \<^verbatim>\<open>services.yaml\<close> file. Field names carry the prefix of their struct; the serde attributes
  describe the YAML form, which serde reads and which is outside the model.
\<close>

section \<open>Errors\<close>

datatype ConfigError =
    ReadError string
  | YamlError string
  | ValidationError string
  | EnvVarNotFound string
  | ConfigServiceNotFound string

section \<open>Health checks\<close>

definition default_interval :: u64 where "default_interval = 30"

definition default_retries :: u32 where "default_retries = 3"

definition default_timeout :: u64 where "default_timeout = 10"

record TcpCheck =
  tcp_port :: u16
  tcp_timeout :: u64

datatype HealthCheckType =
    CheckCommand (check_command: string) (check_args: "string list")
  | CheckHttp (check_http: string)
  | CheckTcp (check_tcp: TcpCheck)

record CfgHealthCheck =
  chc_check_type :: HealthCheckType
  chc_interval :: u64
  chc_retries :: u32
  chc_timeout :: u64
  chc_start_period :: u64

section \<open>Services\<close>

datatype PortMapping = SimplePort u16 | FullPort string

datatype ServiceType =
    TyDocker (ty_image: string) (ty_ports: "PortMapping list") (ty_volumes: "string list")
      (ty_command: "string list option") (ty_entrypoint: "string list option")
  | TyProcess (ty_binary: string) (ty_args: "string list") (ty_working_dir: "string option")
      (ty_user: "string option")
  | TyRemote (ty_host: string) (ty_rbinary: string) (ty_rargs: "string list")
      (ty_rworking_dir: "string option")
  | TyPackage (ty_phost: string) (ty_package: string) (ty_version: "string option")
      (ty_install_path: "string option")

record CfgService =
  svc_type :: ServiceType
  svc_network :: string
  svc_env :: "(string, string) hmap"
  svc_dependencies :: "string list"
  svc_health_check :: "CfgHealthCheck option"
  svc_startup_timeout :: "u64 option"
  svc_shutdown_timeout :: "u64 option"

section \<open>Networks and settings\<close>

record LanNode =
  lan_host :: string
  lan_name :: "string option"
  lan_ssh_user :: string
  lan_ssh_key :: "string option"

record WireGuardNode =
  wg_host :: string
  wg_name :: "string option"
  wg_ssh_user :: string
  wg_ssh_key :: "string option"
  wg_package_deploy :: bool

datatype Network =
    NetLocal "string option"
  | NetLan string "LanNode list"
  | NetWireGuard string "string option" "WireGuardNode list"

record Settings =
  set_log_level :: "string option"
  set_health_check_interval :: "u64 option"
  set_startup_timeout :: "u64 option"
  set_shutdown_timeout :: "u64 option"

definition settings_default :: Settings where
  "settings_default = \<lparr>set_log_level = None, set_health_check_interval = None,
     set_startup_timeout = None, set_shutdown_timeout = None\<rparr>"

definition settings_is_default :: "Settings \<Rightarrow> bool" where
  "settings_is_default s = (s = settings_default)"

section \<open>The root structure\<close>

record Config =
  cfg_version :: string
  cfg_name :: "string option"
  cfg_description :: "string option"
  cfg_settings :: Settings
  cfg_networks :: "(string, Network) hmap"
  cfg_services :: "(string, CfgService) hmap"

text \<open>
  The dependencies a service name stands for in a configuration; a name the configuration
  does not define has none, as in every \<open>if let Some(\<dots>)\<close> of the sources.
\<close>

definition cfg_deps :: "Config \<Rightarrow> string \<Rightarrow> string list" where
  "cfg_deps cfg s = (case hm_get (cfg_services cfg) s of None \<Rightarrow> [] | Some sc \<Rightarrow> svc_dependencies sc)"

lemma cfg_deps_some [simp]:
  "hm_get (cfg_services cfg) s = Some sc \<Longrightarrow> cfg_deps cfg s = svc_dependencies sc"
  by (simp add: cfg_deps_def)

lemma cfg_deps_none [simp]: "hm_get (cfg_services cfg) s = None \<Longrightarrow> cfg_deps cfg s = []"
  by (simp add: cfg_deps_def)

text \<open>A service with no type-specific settings, for examples.\<close>

definition plain_service :: "string list \<Rightarrow> CfgService" where
  "plain_service deps = \<lparr>svc_type = TyProcess ''svc'' [] None None, svc_network = ''local'',
     svc_env = [], svc_dependencies = deps, svc_health_check = None,
     svc_startup_timeout = None, svc_shutdown_timeout = None\<rparr>"

definition plain_config :: "(string \<times> string list) list \<Rightarrow> Config" where
  "plain_config gs = \<lparr>cfg_version = ''1.0'', cfg_name = None, cfg_description = None,
     cfg_settings = settings_default, cfg_networks = [(''local'', NetLocal None)],
     cfg_services = map (\<lambda>(s, ds). (s, plain_service ds)) gs\<rparr>"

lemma plain_config_services [simp]:
  "cfg_services (plain_config gs) = map (\<lambda>(s, ds). (s, plain_service ds)) gs"
  by (simp add: plain_config_def)

lemma plain_config_deps [simp]:
  "cfg_deps (plain_config gs) s = (case map_of gs s of None \<Rightarrow> [] | Some ds \<Rightarrow> ds)"
  by (induction gs) (auto simp: cfg_deps_def hm_get_def plain_service_def split: option.splits)

end
