(* ===== verification/Cfg_Resolver.thy ===== *)
theory Cfg_Resolver
  imports Cfg_Types
begin

text \<open>
  The resolver of variables, \<^verbatim>\<open>crates/harness-config/src/resolver.rs\<close>: \<open>${VAR}\<close>, \<open>${VAR:-default}\<close> and
  \<open>${service.property}\<close> in a string, their positions, their values in a context, and the references of
  a configuration. The parser combinators of nom are the record \<open>nom\<close>; the locale
  \<open>nom_library\<close> states what its documentation says of them.
\<close>

section \<open>Parser combinators\<close>

text \<open>
  A parser takes an input to the rest of it and a result. One field for each type at which the
  source uses a combinator; the complete parsers used here have one kind of failure.
\<close>

type_synonym 'a parser = "string \<Rightarrow> (string \<times> 'a) option"

datatype Variable =
    EnvVar (var_name: string) (var_default: "string option")
  | ServiceRef (var_service: string) (var_property: string)

record nom =
  nm_tag :: "string \<Rightarrow> string parser"
  nm_char :: "char \<Rightarrow> char parser"
  nm_take_while1 :: "(char \<Rightarrow> bool) \<Rightarrow> string parser"
  nm_take_until :: "string \<Rightarrow> string parser"
  nm_alpha1 :: "string parser"
  nm_alphanumeric1 :: "string parser"
  nm_rest :: "string parser"
  nm_verify :: "string parser \<Rightarrow> (string \<Rightarrow> bool) \<Rightarrow> string parser"
  nm_alt :: "string parser list \<Rightarrow> string parser"
  nm_alt_var :: "Variable parser list \<Rightarrow> Variable parser"
  nm_many0 :: "string parser \<Rightarrow> string list parser"
  nm_pair :: "string parser \<Rightarrow> string list parser \<Rightarrow> (string \<times> string list) parser"
  nm_recognize :: "(string \<times> string list) parser \<Rightarrow> string parser"
  nm_separated_by_tag :: "string parser \<Rightarrow> string parser \<Rightarrow> string parser \<Rightarrow> (string \<times> string) parser"
  nm_separated_by_char :: "string parser \<Rightarrow> char parser \<Rightarrow> string parser \<Rightarrow> (string \<times> string) parser"
  nm_all_consuming :: "string parser \<Rightarrow> string parser"
  nm_all_consuming_pair :: "(string \<times> string) parser \<Rightarrow> (string \<times> string) parser"
  nm_map :: "string parser \<Rightarrow> (string \<Rightarrow> Variable) \<Rightarrow> Variable parser"
  nm_map_pair :: "(string \<times> string) parser \<Rightarrow> (string \<times> string \<Rightarrow> Variable) \<Rightarrow> Variable parser"

section \<open>Parsing a variable\<close>

definition env_char :: "char \<Rightarrow> bool" where
  "env_char c = (is_upper c \<or> is_digit c \<or> c = CHR ''_'')"

definition first_is :: "(char \<Rightarrow> bool) \<Rightarrow> string \<Rightarrow> bool" where
  "first_is P s = (case s of [] \<Rightarrow> False | c # _ \<Rightarrow> P c)"

definition env_var_name :: "nom \<Rightarrow> string parser" where
  "env_var_name N = nm_verify N (nm_take_while1 N env_char) (first_is is_upper)"

definition service_name :: "nom \<Rightarrow> string parser" where
  "service_name N = nm_verify N
     (nm_recognize N (nm_pair N (nm_alpha1 N)
        (nm_many0 N (nm_alt N [nm_alphanumeric1 N, nm_tag N ''_'', nm_tag N ''-'']))))
     (first_is is_alpha)"

definition service_property :: "nom \<Rightarrow> string parser" where
  "service_property N = nm_alt N [nm_tag N ''ip'', nm_tag N ''port'', nm_tag N ''host'']"

definition parse_env_var :: "nom \<Rightarrow> Variable parser" where
  "parse_env_var N = nm_alt_var N
     [nm_map_pair N (nm_separated_by_tag N (env_var_name N) (nm_tag N '':-'') (nm_rest N))
        (\<lambda>(name, dflt). EnvVar name (Some dflt)),
      nm_map N (nm_all_consuming N (env_var_name N)) (\<lambda>name. EnvVar name None)]"

definition parse_service_ref :: "nom \<Rightarrow> Variable parser" where
  "parse_service_ref N = nm_map_pair N
     (nm_all_consuming_pair N
        (nm_separated_by_char N (service_name N) (nm_char N (CHR ''.'')) (service_property N)))
     (\<lambda>(service, property). ServiceRef service property)"

text \<open>The expression parser never fails and leaves nothing: its result is the inner one.\<close>

definition parse_variable_expr :: "nom \<Rightarrow> string \<Rightarrow> ConfigError + Variable" where
  "parse_variable_expr N input =
     (if CHR ''.'' \<in> set input then
        case parse_service_ref N input of
          Some (_, var) \<Rightarrow> Inr var
        | None \<Rightarrow>
            (case str_split_once (CHR ''.'') input of
               Some (service, property) \<Rightarrow>
                 if service_name N service = None then
                   Inl (ValidationError (''Invalid service name '' @ quoted service @ '' in reference '' @ quoted input))
                 else
                   Inl (ValidationError (''Invalid service reference type '' @ quoted property @ '' in '' @ quoted input))
             | None \<Rightarrow> Inl (ValidationError (''Invalid service reference format: '' @ quoted input)))
      else
        case parse_env_var N input of
          Some (_, var) \<Rightarrow> Inr var
        | None \<Rightarrow>
            Inl (ValidationError (''Invalid environment variable name '' @ quoted input @
              ''. Environment variables must be uppercase with underscores'')))"

definition parse_variable :: "nom \<Rightarrow> (ConfigError + Variable) parser" where
  "parse_variable N input =
     (case nm_tag N ''${'' input of None \<Rightarrow> None | Some (input, _) \<Rightarrow>
      case nm_take_until N ''}'' input of None \<Rightarrow> None | Some (input, content) \<Rightarrow>
      case nm_tag N ''}'' input of None \<Rightarrow> None | Some (input, _) \<Rightarrow>
        Some (input, parse_variable_expr N content))"

section \<open>Finding variables\<close>

type_synonym located = "ConfigError + (nat \<times> nat \<times> Variable)"

text \<open>The loop of \<open>find_variables\<close>; \<open>None\<close> if it does not return.\<close>

partial_function (option) find_variables_loop :: "nom \<Rightarrow> string \<Rightarrow> nat \<Rightarrow> located list \<Rightarrow> located list option" where
  "find_variables_loop N remaining pos results =
     (if remaining = [] then Some results
      else case split_at_str ''${'' remaining of
        None \<Rightarrow> Some results
      | Some (before, _) \<Rightarrow>
          (let pos = pos + length before; remaining = drop (length before) remaining in
           case parse_variable N remaining of
             Some (rest, var_result) \<Rightarrow>
               (let end = pos + (length remaining - length rest) in
                find_variables_loop N rest end (results @ [map_sum id (\<lambda>var. (pos, end, var)) var_result]))
           | None \<Rightarrow> find_variables_loop N (drop 2 remaining) (pos + 2) results))"

definition find_variables :: "nom \<Rightarrow> string \<Rightarrow> located list option" where
  "find_variables N input = find_variables_loop N input 0 []"

section \<open>Resolving\<close>

record ResolutionContext =
  ctx_env_vars :: "(string, string) hmap"
  ctx_service_ips :: "(string, string) hmap"
  ctx_service_ports :: "(string, u16) hmap"
  ctx_service_hosts :: "(string, string) hmap"

text \<open>The variables of the process are a parameter of the calls that read them.\<close>

definition resolution_context_new :: "(string \<times> string) list \<Rightarrow> ResolutionContext" where
  "resolution_context_new vars = \<lparr>ctx_env_vars = hm_extend [] vars, ctx_service_ips = [], ctx_service_ports = [],
     ctx_service_hosts = []\<rparr>"

definition context_set_env :: "string \<Rightarrow> string \<Rightarrow> ResolutionContext \<Rightarrow> ResolutionContext" where
  "context_set_env key value ctx = ctx\<lparr>ctx_env_vars := hm_insert key value (ctx_env_vars ctx)\<rparr>"

definition add_service :: "string \<Rightarrow> string \<Rightarrow> u16 option \<Rightarrow> string \<Rightarrow> ResolutionContext \<Rightarrow> ResolutionContext" where
  "add_service name ip port host ctx =
     (let ctx = ctx\<lparr>ctx_service_ips := hm_insert name ip (ctx_service_ips ctx),
            ctx_service_hosts := hm_insert name host (ctx_service_hosts ctx)\<rparr> in
      case port of
        Some p \<Rightarrow> ctx\<lparr>ctx_service_ports := hm_insert name p (ctx_service_ports ctx)\<rparr>
      | None \<Rightarrow> ctx)"

text \<open>A slice \<open>&s[a..b]\<close>; \<open>None\<close> where it panics.\<close>

definition str_slice :: "string \<Rightarrow> nat \<Rightarrow> nat \<Rightarrow> string option" where
  "str_slice s a b = (if a \<le> b \<and> b \<le> length s then Some (take (b - a) (drop a s)) else None)"

text \<open>The text a variable stands for, or the name that is reported missing.\<close>

definition ref_name :: "string \<Rightarrow> string \<Rightarrow> string" where
  "ref_name service property = service @ ''.'' @ property"

definition resolve_variable :: "(string \<Rightarrow> string option) \<Rightarrow> ResolutionContext \<Rightarrow> Variable \<Rightarrow> string + string" where
  "resolve_variable env ctx var =
     (case var of
        EnvVar name dflt \<Rightarrow>
          (case hm_get (ctx_env_vars ctx) name of
             Some value \<Rightarrow> Inr value
           | None \<Rightarrow>
               (case env name of
                  Some value \<Rightarrow> Inr value
                | None \<Rightarrow> ok_or dflt name))
      | ServiceRef service property \<Rightarrow>
          ok_or
            (if property = ''ip'' then hm_get (ctx_service_ips ctx) service
             else if property = ''host'' then hm_get (ctx_service_hosts ctx) service
             else if property = ''port'' then map_option (\<lambda>p. show_nat (unat p)) (hm_get (ctx_service_ports ctx) service)
             else None)
            (ref_name service property))"

text \<open>The loop over the variables found; \<open>None\<close> where a slice panics.\<close>

fun resolve_loop ::
    "(string \<Rightarrow> string option) \<Rightarrow> ResolutionContext \<Rightarrow> string \<Rightarrow> located list \<Rightarrow> string \<Rightarrow> nat \<Rightarrow> string list \<Rightarrow>
      (ConfigError + string) option" where
  "resolve_loop env ctx input [] result last_end errors =
     map_option (\<lambda>tail.
       if errors \<noteq> [] then Inl (EnvVarNotFound (str_join '', '' errors)) else Inr (result @ tail))
       (str_slice input last_end (length input))"
| "resolve_loop env ctx input (Inl e # vars) result last_end errors = Some (Inl e)"
| "resolve_loop env ctx input (Inr (start, end, var) # vars) result last_end errors =
     (case str_slice input last_end start of
        None \<Rightarrow> None
      | Some part \<Rightarrow>
          (case resolve_variable env ctx var of
             Inr value \<Rightarrow> resolve_loop env ctx input vars (result @ part @ value) end errors
           | Inl name \<Rightarrow> resolve_loop env ctx input vars (result @ part) end (errors @ [name])))"

definition resolve_string ::
    "nom \<Rightarrow> (string \<Rightarrow> string option) \<Rightarrow> ResolutionContext \<Rightarrow> string \<Rightarrow> (ConfigError + string) option" where
  "resolve_string N env ctx input =
     (case find_variables N input of
        None \<Rightarrow> None
      | Some variables \<Rightarrow> resolve_loop env ctx input variables [] 0 [])"

fun resolve_env_loop ::
    "nom \<Rightarrow> (string \<Rightarrow> string option) \<Rightarrow> ResolutionContext \<Rightarrow> (string, string) hmap \<Rightarrow> (string, string) hmap \<Rightarrow>
      (ConfigError + (string, string) hmap) option" where
  "resolve_env_loop N env ctx [] resolved = Some (Inr resolved)"
| "resolve_env_loop N env ctx ((key, value) # kvs) resolved =
     (case resolve_string N env ctx value of
        None \<Rightarrow> None
      | Some (Inl e) \<Rightarrow> Some (Inl e)
      | Some (Inr v) \<Rightarrow> resolve_env_loop N env ctx kvs (hm_insert key v resolved))"

definition resolve_service_env ::
    "nom \<Rightarrow> (string \<Rightarrow> string option) \<Rightarrow> CfgService \<Rightarrow> ResolutionContext \<Rightarrow> (ConfigError + (string, string) hmap) option" where
  "resolve_service_env N env service ctx = resolve_env_loop N env ctx (svc_env service) []"

section \<open>The references of a configuration\<close>

fun note_references ::
    "located list \<Rightarrow> string list \<times> string list \<Rightarrow> ConfigError + (string list \<times> string list)" where
  "note_references [] acc = Inr acc"
| "note_references (Inl e # vars) acc = Inl e"
| "note_references (Inr (_, _, EnvVar name _) # vars) (env_vars, refs) =
     note_references vars (hs_insert name env_vars, refs)"
| "note_references (Inr (_, _, ServiceRef service property) # vars) (env_vars, refs) =
     note_references vars (env_vars, hs_insert (ref_name service property) refs)"

fun references_of_values ::
    "nom \<Rightarrow> string list \<Rightarrow> string list \<times> string list \<Rightarrow> (ConfigError + (string list \<times> string list)) option" where
  "references_of_values N [] acc = Some (Inr acc)"
| "references_of_values N (value # vs) acc =
     (case find_variables N value of
        None \<Rightarrow> None
      | Some vars \<Rightarrow>
          (case note_references vars acc of
             Inl e \<Rightarrow> Some (Inl e)
           | Inr acc \<Rightarrow> references_of_values N vs acc))"

definition env_values :: "Config \<Rightarrow> string list" where
  "env_values config = concat (map (\<lambda>service. hm_values (svc_env service)) (hm_values (cfg_services config)))"

definition find_all_references :: "nom \<Rightarrow> Config \<Rightarrow> (ConfigError + (string list \<times> string list)) option" where
  "find_all_references N config = references_of_values N (env_values config) ([], [])"

fun check_service_refs :: "Config \<Rightarrow> string list \<Rightarrow> ConfigError + unit" where
  "check_service_refs config [] = Inr ()"
| "check_service_refs config (service_ref # refs) =
     (case str_split_once (CHR ''.'') service_ref of
        None \<Rightarrow> check_service_refs config refs
      | Some (name, _) \<Rightarrow>
          if hm_has (cfg_services config) name then check_service_refs config refs
          else Inl (ValidationError (''Service reference '' @ quoted service_ref @ '' refers to unknown service'')))"

definition validate_references :: "nom \<Rightarrow> Config \<Rightarrow> (ConfigError + unit) option" where
  "validate_references N config =
     (case find_all_references N config of
        None \<Rightarrow> None
      | Some (Inl e) \<Rightarrow> Some (Inl e)
      | Some (Inr (env_vars, service_refs)) \<Rightarrow> Some (check_service_refs config service_refs))"

section \<open>The combinators, as documented\<close>

locale nom_library =
  fixes N :: nom
  assumes tag: "nm_tag N p s = (if str_starts_with s p then Some (drop (length p) s, p) else None)"
    and char: "nm_char N c s = (case s of [] \<Rightarrow> None | d # t \<Rightarrow> if d = c then Some (t, c) else None)"
    and take_while1: "nm_take_while1 N P s =
      (if first_is P s then Some (dropWhile P s, takeWhile P s) else None)"
    and take_until: "nm_take_until N p s =
      (case split_at_str p s of None \<Rightarrow> None | Some (a, _) \<Rightarrow> Some (drop (length a) s, a))"
    and alpha1: "nm_alpha1 N s = (if first_is is_alpha s then Some (dropWhile is_alpha s, takeWhile is_alpha s) else None)"
    and alphanumeric1: "nm_alphanumeric1 N s =
      (if first_is is_alnum s then Some (dropWhile is_alnum s, takeWhile is_alnum s) else None)"
    and rest: "nm_rest N s = Some ([], s)"
    and verify: "nm_verify N f Q s = (case f s of None \<Rightarrow> None | Some (r, x) \<Rightarrow> if Q x then Some (r, x) else None)"
    and alt: "nm_alt N fs s = (case fs of [] \<Rightarrow> None | f # fs' \<Rightarrow> (case f s of Some rx \<Rightarrow> Some rx | None \<Rightarrow> nm_alt N fs' s))"
    and alt_var: "nm_alt_var N vs s =
      (case vs of [] \<Rightarrow> None | v # vs' \<Rightarrow> (case v s of Some rx \<Rightarrow> Some rx | None \<Rightarrow> nm_alt_var N vs' s))"
    and many0: "(\<And>t r x. f t = Some (r, x) \<Longrightarrow> \<exists>u. t = u @ r) \<Longrightarrow> nm_many0 N f s =
      (case f s of
         None \<Rightarrow> Some (s, [])
       | Some (r, x) \<Rightarrow> if r = s then None else map_option (\<lambda>(r', xs). (r', x # xs)) (nm_many0 N f r))"
    and pair: "nm_pair N f g' s = (case f s of None \<Rightarrow> None | Some (r, x) \<Rightarrow> map_option (\<lambda>(r', y). (r', x, y)) (g' r))"
    and recognize: "nm_recognize N h s = map_option (\<lambda>(r, _). (r, take (length s - length r) s)) (h s)"
    and separated_by_tag: "nm_separated_by_tag N f t g s =
      (case f s of None \<Rightarrow> None | Some (r, x) \<Rightarrow>
       case t r of None \<Rightarrow> None | Some (r', _) \<Rightarrow> map_option (\<lambda>(r'', y). (r'', x, y)) (g r'))"
    and separated_by_char: "nm_separated_by_char N f k g s =
      (case f s of None \<Rightarrow> None | Some (r, x) \<Rightarrow>
       case k r of None \<Rightarrow> None | Some (r', _) \<Rightarrow> map_option (\<lambda>(r'', y). (r'', x, y)) (g r'))"
    and all_consuming: "nm_all_consuming N f s = (case f s of Some ([], x) \<Rightarrow> Some ([], x) | _ \<Rightarrow> None)"
    and all_consuming_pair: "nm_all_consuming_pair N q s = (case q s of Some ([], x) \<Rightarrow> Some ([], x) | _ \<Rightarrow> None)"
    and map_var: "nm_map N f m s = map_option (\<lambda>(r, x). (r, m x)) (f s)"
    and map_pair: "nm_map_pair N q m' s = map_option (\<lambda>(r, x). (r, m' x)) (q s)"

text \<open>The combinators written out, for the examples: they satisfy the documentation.\<close>

fun ref_many0 :: "string parser \<Rightarrow> string list parser" where
  "ref_many0 f s =
     (case f s of
        None \<Rightarrow> Some (s, [])
      | Some (r, x) \<Rightarrow>
          if length r < length s then map_option (\<lambda>(r', xs). (r', x # xs)) (ref_many0 f r) else None)"

declare ref_many0.simps [simp del]

fun ref_alt :: "'a parser list \<Rightarrow> 'a parser" where
  "ref_alt [] s = None"
| "ref_alt (f # fs) s = (case f s of Some rx \<Rightarrow> Some rx | None \<Rightarrow> ref_alt fs s)"

definition ref_take1 :: "(char \<Rightarrow> bool) \<Rightarrow> string parser" where
  "ref_take1 P s = (if first_is P s then Some (dropWhile P s, takeWhile P s) else None)"

definition ref_consume :: "'a parser \<Rightarrow> 'a parser" where
  "ref_consume f s = (case f s of Some ([], x) \<Rightarrow> Some ([], x) | _ \<Rightarrow> None)"

definition ref_map :: "'a parser \<Rightarrow> ('a \<Rightarrow> 'b) \<Rightarrow> 'b parser" where
  "ref_map f m s = map_option (\<lambda>(r, x). (r, m x)) (f s)"

definition ref_pair :: "'a parser \<Rightarrow> 'b parser \<Rightarrow> ('a \<times> 'b) parser" where
  "ref_pair f g s = (case f s of None \<Rightarrow> None | Some (r, x) \<Rightarrow> map_option (\<lambda>(r', y). (r', x, y)) (g r))"

definition ref_separated :: "'a parser \<Rightarrow> 'b parser \<Rightarrow> 'c parser \<Rightarrow> ('a \<times> 'c) parser" where
  "ref_separated f t g s =
     (case f s of None \<Rightarrow> None | Some (r, x) \<Rightarrow>
      case t r of None \<Rightarrow> None | Some (r', _) \<Rightarrow> map_option (\<lambda>(r'', y). (r'', x, y)) (g r'))"

definition nom_reference :: nom where
  "nom_reference = \<lparr>
     nm_tag = (\<lambda>p s. if str_starts_with s p then Some (drop (length p) s, p) else None),
     nm_char = (\<lambda>c s. case s of [] \<Rightarrow> None | d # t \<Rightarrow> if d = c then Some (t, c) else None),
     nm_take_while1 = ref_take1,
     nm_take_until = (\<lambda>p s. case split_at_str p s of None \<Rightarrow> None | Some (a, _) \<Rightarrow> Some (drop (length a) s, a)),
     nm_alpha1 = ref_take1 is_alpha, nm_alphanumeric1 = ref_take1 is_alnum, nm_rest = (\<lambda>s. Some ([], s)),
     nm_verify = (\<lambda>f P s. case f s of None \<Rightarrow> None | Some (r, x) \<Rightarrow> if P x then Some (r, x) else None),
     nm_alt = ref_alt, nm_alt_var = ref_alt, nm_many0 = ref_many0, nm_pair = ref_pair,
     nm_recognize = (\<lambda>h s. map_option (\<lambda>(r, _). (r, take (length s - length r) s)) (h s)),
     nm_separated_by_tag = ref_separated, nm_separated_by_char = ref_separated,
     nm_all_consuming = ref_consume, nm_all_consuming_pair = ref_consume,
     nm_map = ref_map, nm_map_pair = ref_map\<rparr>"

lemma ref_many0_step:
  assumes "\<And>t r x. f t = Some (r, x) \<Longrightarrow> \<exists>u. t = u @ r"
  shows "ref_many0 f s = (case f s of None \<Rightarrow> Some (s, [])
    | Some (r, x) \<Rightarrow> if r = s then None else map_option (\<lambda>(r', xs). (r', x # xs)) (ref_many0 f r))"
proof (cases "f s")
  case (Some rx)
  then obtain r x where rx: "f s = Some (r, x)" by (cases rx) simp
  with assms obtain u where "s = u @ r" by blast
  then have "length r < length s \<longleftrightarrow> r \<noteq> s" by (cases u) auto
  with rx show ?thesis by (simp add: ref_many0.simps [of f s])
qed (simp add: ref_many0.simps)

interpretation nom_ref: nom_library nom_reference
proof (rule nom_library.intro, goal_cases)
  case (11 f s)
  have "nm_many0 nom_reference = ref_many0" by (simp add: nom_reference_def)
  then show ?case using ref_many0_step [of f s] 11 by (simp only:)
qed (simp_all add: nom_reference_def ref_take1_def ref_consume_def ref_map_def ref_pair_def ref_separated_def
    split: list.split option.split)

section \<open>What the parsers accept\<close>

definition name_char :: "char \<Rightarrow> bool" where
  "name_char c = (is_alnum c \<or> c = CHR ''_'' \<or> c = CHR ''-'')"

definition env_ok :: "string \<Rightarrow> bool" where
  "env_ok s = (first_is is_upper s \<and> list_all env_char s)"

definition service_ok :: "string \<Rightarrow> bool" where
  "service_ok s = (first_is is_alpha s \<and> list_all name_char s)"

text \<open>A variable that can be written, and how.\<close>

definition var_ok :: "Variable \<Rightarrow> bool" where
  "var_ok v = (case v of
     EnvVar name dflt \<Rightarrow> env_ok name \<and> (case dflt of None \<Rightarrow> True | Some d \<Rightarrow> CHR ''.'' \<notin> set d)
   | ServiceRef service property \<Rightarrow> service_ok service \<and> property \<in> {''ip'', ''port'', ''host''})"

definition show_var :: "Variable \<Rightarrow> string" where
  "show_var v = (case v of
     EnvVar name None \<Rightarrow> name
   | EnvVar name (Some d) \<Rightarrow> name @ '':-'' @ d
   | ServiceRef service property \<Rightarrow> ref_name service property)"

lemma first_is_append: "first_is P s \<Longrightarrow> first_is P (s @ t)"
  by (auto simp: first_is_def split: list.splits)

lemma first_is_dropWhile [simp]: "first_is P (dropWhile P s) = False"
  by (induction s) (auto simp: first_is_def)

lemma first_is_not: "first_is P s \<longleftrightarrow> s \<noteq> [] \<and> P (hd s)"
  by (cases s) (auto simp: first_is_def)

lemma list_all_takeWhile [simp]: "list_all P (takeWhile P s)"
  by (auto simp: list_all_iff dest: set_takeWhileD)

lemma take_prefix: "take (length s - length (dropWhile P s)) s = takeWhile P s"
  by (metis add_diff_cancel_right' append_take_drop_id length_append takeWhile_dropWhile_id take_append
      append_eq_conv_conj)

lemma starts_with_char: "str_starts_with s [c] \<longleftrightarrow> s \<noteq> [] \<and> hd s = c"
  by (cases s) auto

lemma takeWhile_weaker: "(\<And>c. P c \<Longrightarrow> Q c) \<Longrightarrow> dropWhile Q (dropWhile P s) = dropWhile Q s"
  by (induction s) auto

lemma split_at_str_Some: "split_at_str p s = Some (a, b) \<Longrightarrow> s = a @ p @ b"
  by (induction p s arbitrary: a b rule: split_at_str.induct)
    (auto simp: str_starts_with_iff split: if_splits)

text \<open>Where variables are found: in the text after \<open>p\<close>, in order, without overlap.\<close>

fun placed :: "string \<Rightarrow> nat \<Rightarrow> located list \<Rightarrow> bool" where
  "placed input p [] = True"
| "placed input p (Inl e # rs) = placed input p rs"
| "placed input p (Inr (a, b, v) # rs) =
     (p \<le> a \<and> var_ok v \<and> str_slice input a b = Some (''${'' @ show_var v @ ''}'') \<and> placed input b rs)"

lemma placed_mono: "placed input q rs \<Longrightarrow> p \<le> q \<Longrightarrow> placed input p rs"
  by (induction input q rs arbitrary: p rule: placed.induct) auto

lemma str_slice_at: "input = a @ b @ c \<Longrightarrow> str_slice input (length a) (length a + length b) = Some b"
  by (simp add: str_slice_def)

context nom_library
begin

lemma env_var_name_run:
  "env_var_name N s =
     (if first_is is_upper s then Some (dropWhile env_char s, takeWhile env_char s) else None)"
  by (cases s) (auto simp: env_var_name_def verify take_while1 first_is_def env_char_def)

lemma name_part:
  "nm_alt N [nm_alphanumeric1 N, nm_tag N ''_'', nm_tag N ''-''] s =
     (if first_is is_alnum s then Some (dropWhile is_alnum s, takeWhile is_alnum s)
      else if first_is name_char s then Some (tl s, [hd s]) else None)"
  by (cases s) (auto simp: alt alphanumeric1 tag first_is_def name_char_def)

lemma name_part_suffix:
  "nm_alt N [nm_alphanumeric1 N, nm_tag N ''_'', nm_tag N ''-''] s = Some (r, x) \<Longrightarrow> \<exists>u. s = u @ r"
  by (cases s) (auto simp: name_part first_is_def Cons_eq_append_conv split: if_splits
      intro: takeWhile_dropWhile_id [symmetric])

lemma name_parts:
  "\<exists>xs. nm_many0 N (nm_alt N [nm_alphanumeric1 N, nm_tag N ''_'', nm_tag N ''-'']) s =
     Some (dropWhile name_char s, xs)"
proof (induction "length s" arbitrary: s rule: less_induct)
  case less
  let ?f = "nm_alt N [nm_alphanumeric1 N, nm_tag N ''_'', nm_tag N ''-'']"
  have step: "nm_many0 N ?f t = (case ?f t of None \<Rightarrow> Some (t, []) | Some (r, x) \<Rightarrow>
      if r = t then None else map_option (\<lambda>(r', xs). (r', x # xs)) (nm_many0 N ?f r))" for t
    by (rule many0) (rule name_part_suffix)
  show ?case
  proof (cases "first_is name_char s")
    case False
    then have "\<not> first_is is_alnum s" by (auto simp: first_is_not name_char_def)
    with False have "?f s = None" by (simp add: name_part)
    moreover have "dropWhile name_char s = s" using False by (cases s) (auto simp: first_is_def)
    ultimately show ?thesis by (simp add: step [of s])
  next
    case True
    then obtain c t where s: "s = c # t" "name_char c" by (cases s) (auto simp: first_is_def)
    define r where "r = (if is_alnum c then dropWhile is_alnum t else t)"
    have "length r < length s" by (simp add: r_def s le_imp_less_Suc length_dropWhile_le)
    from less [OF this] obtain xs where xs: "nm_many0 N (nm_alt N [nm_alphanumeric1 N, nm_tag N ''_'', nm_tag N ''-'']) r
        = Some (dropWhile name_char r, xs)" by blast
    have "dropWhile name_char r = dropWhile name_char s"
      using s(2) by (auto simp: r_def s(1) takeWhile_weaker name_char_def)
    moreover have "r \<noteq> s" using \<open>length r < length s\<close> by auto
    moreover have "?f s = Some (r, if is_alnum c then takeWhile is_alnum s else [c])"
      using s by (simp add: name_part first_is_def r_def)
    ultimately show ?thesis using xs by (simp add: step [of s])
  qed
qed

lemma service_name_run:
  "service_name N s =
     (if first_is is_alpha s then Some (dropWhile name_char s, takeWhile name_char s) else None)"
proof (cases "first_is is_alpha s")
  case True
  obtain xs where "nm_many0 N (nm_alt N [nm_alphanumeric1 N, nm_tag N ''_'', nm_tag N ''-'']) (dropWhile is_alpha s)
      = Some (dropWhile name_char (dropWhile is_alpha s), xs)" using name_parts by blast
  moreover have "dropWhile name_char (dropWhile is_alpha s) = dropWhile name_char s"
    by (rule takeWhile_weaker) (simp add: name_char_def is_alnum_def)
  moreover have "first_is is_alpha (takeWhile name_char s)"
    using True by (cases s) (auto simp: first_is_def name_char_def is_alnum_def)
  ultimately show ?thesis using True
    by (simp add: service_name_def verify recognize pair alpha1 take_prefix)
qed (simp add: service_name_def verify recognize pair alpha1)

lemma service_property_run:
  "service_property N s =
     (if str_starts_with s ''ip'' then Some (drop 2 s, ''ip'')
      else if str_starts_with s ''port'' then Some (drop 4 s, ''port'')
      else if str_starts_with s ''host'' then Some (drop 4 s, ''host'') else None)"
  by (simp add: service_property_def alt tag numeral_eq_Suc)

lemma property_exact: "t \<in> {''ip'', ''port'', ''host''} \<Longrightarrow> service_property N t = Some ([], t)"
  by (auto simp: service_property_run)

lemma property_rest: "service_property N t = Some ([], p) \<Longrightarrow> t \<in> {''ip'', ''port'', ''host''}"
  by (auto simp: service_property_run str_starts_with_iff split: if_splits)

lemma parse_service_ref_run:
  "parse_service_ref N s =
     (if first_is is_alpha s \<and> dropWhile name_char s \<in> {''.ip'', ''.port'', ''.host''}
      then Some ([], ServiceRef (takeWhile name_char s) (tl (dropWhile name_char s))) else None)"
proof (cases "dropWhile name_char s")
  case Nil
  then show ?thesis
    by (simp add: parse_service_ref_def map_pair all_consuming_pair separated_by_char service_name_run char
        del: dropWhile_eq_Nil_conv)
next
  case (Cons c t)
  have run: "parse_service_ref N s =
      (if first_is is_alpha s \<and> c = CHR ''.'' then
         case service_property N t of Some ([], p) \<Rightarrow> Some ([], ServiceRef (takeWhile name_char s) p) | _ \<Rightarrow> None
       else None)"
    using Cons by (cases "service_property N t")
      (auto simp: parse_service_ref_def map_pair all_consuming_pair separated_by_char service_name_run char
        split: list.split)
  show ?thesis
  proof (cases "t \<in> {''ip'', ''port'', ''host''}")
    case True
    with property_exact [OF this] Cons show ?thesis by (auto simp: run)
  next
    case False
    then have "service_property N t \<noteq> Some ([], p)" for p using property_rest by blast
    with False Cons show ?thesis by (auto simp: run split: option.split list.split)
  qed
qed

lemma parse_env_var_run:
  "parse_env_var N s =
     (if first_is is_upper s then
        if str_starts_with (dropWhile env_char s) '':-''
        then Some ([], EnvVar (takeWhile env_char s) (Some (drop 2 (dropWhile env_char s))))
        else if dropWhile env_char s = [] then Some ([], EnvVar (takeWhile env_char s) None) else None
      else None)"
  by (cases "dropWhile env_char s")
    (simp_all add: parse_env_var_def alt_var map_pair map_var separated_by_tag all_consuming env_var_name_run tag rest
      numeral_eq_Suc del: dropWhile_eq_Nil_conv)

lemma parse_variable_expr_iff:
  "parse_variable_expr N e = Inr v \<longleftrightarrow> var_ok v \<and> e = show_var v"
proof (cases "CHR ''.'' \<in> set e")
  case True
  then have "parse_variable_expr N e = Inr v \<longleftrightarrow> (\<exists>r. parse_service_ref N e = Some (r, v))"
    by (auto simp: parse_variable_expr_def split: option.splits)
  also have "\<dots> \<longleftrightarrow> var_ok v \<and> e = show_var v"
  proof
    assume "\<exists>r. parse_service_ref N e = Some (r, v)"
    then have e: "first_is is_alpha e" "dropWhile name_char e \<in> {''.ip'', ''.port'', ''.host''}"
      and v: "v = ServiceRef (takeWhile name_char e) (tl (dropWhile name_char e))"
      by (auto simp: parse_service_ref_run split: if_splits)
    obtain p where p: "p \<in> {''ip'', ''port'', ''host''}" "dropWhile name_char e = CHR ''.'' # p" using e(2) by blast
    have "e = takeWhile name_char e @ CHR ''.'' # p" by (metis p(2) takeWhile_dropWhile_id)
    moreover have "first_is is_alpha (takeWhile name_char e)"
      using e(1) by (cases e) (auto simp: first_is_def name_char_def is_alnum_def)
    ultimately show "var_ok v \<and> e = show_var v"
      using p by (simp add: v var_ok_def show_var_def ref_name_def service_ok_def)
  next
    assume v: "var_ok v \<and> e = show_var v"
    have "\<exists>s p. v = ServiceRef s p"
      using v True by (cases v) (auto simp: var_ok_def show_var_def env_ok_def list_all_iff env_char_def
          is_upper_def is_digit_def split: option.splits)
    then obtain s p where sp: "v = ServiceRef s p" by blast
    with v have s: "first_is is_alpha s" "list_all name_char s" and p: "p \<in> {''ip'', ''port'', ''host''}"
      and e: "e = s @ CHR ''.'' # p"
      by (auto simp: var_ok_def service_ok_def show_var_def ref_name_def)
    have "\<not> name_char (CHR ''.'')" by (simp add: name_char_def is_alnum_def is_alpha_def is_upper_def is_lower_def is_digit_def)
    with s have "takeWhile name_char e = s" "dropWhile name_char e = CHR ''.'' # p"
      by (simp_all add: e list_all_iff)
    with s p sp show "\<exists>r. parse_service_ref N e = Some (r, v)"
      by (auto simp: parse_service_ref_run e first_is_append)
  qed
  finally show ?thesis .
next
  case False
  then have "parse_variable_expr N e = Inr v \<longleftrightarrow> (\<exists>r. parse_env_var N e = Some (r, v))"
    by (auto simp: parse_variable_expr_def split: option.splits)
  also have "\<dots> \<longleftrightarrow> var_ok v \<and> e = show_var v"
  proof
    assume "\<exists>r. parse_env_var N e = Some (r, v)"
    then obtain d where v: "v = EnvVar (takeWhile env_char e) d" and up: "first_is is_upper e"
      and e: "dropWhile env_char e = (case d of None \<Rightarrow> [] | Some t \<Rightarrow> '':-'' @ t)"
      by (auto simp: parse_env_var_run str_starts_with_iff simp del: dropWhile_eq_Nil_conv split: if_splits)
    define n where "n = takeWhile env_char e"
    have vn: "v = EnvVar n d" by (simp add: v n_def)
    have n: "list_all env_char n" "first_is is_upper n"
      using up by (cases e; auto simp: n_def first_is_def env_char_def)+
    have "e = n @ (case d of None \<Rightarrow> [] | Some t \<Rightarrow> '':-'' @ t)"
      unfolding n_def by (metis e takeWhile_dropWhile_id)
    with False n show "var_ok v \<and> e = show_var v"
      by (auto simp: vn var_ok_def show_var_def env_ok_def split: option.splits)
  next
    assume v: "var_ok v \<and> e = show_var v"
    then obtain n d where nd: "v = EnvVar n d"
      using False by (cases v) (auto simp: var_ok_def show_var_def ref_name_def)
    with v have n: "first_is is_upper n" "list_all env_char n"
      and e: "e = n @ (case d of None \<Rightarrow> [] | Some t \<Rightarrow> '':-'' @ t)"
      by (auto simp: var_ok_def env_ok_def show_var_def split: option.splits)
    have "\<not> env_char (CHR '':'')" by (simp add: env_char_def is_upper_def is_digit_def)
    with n have "takeWhile env_char e = n" "dropWhile env_char e = (case d of None \<Rightarrow> [] | Some t \<Rightarrow> '':-'' @ t)"
      by (auto simp: e list_all_iff takeWhile_append2 dropWhile_append2 split: option.splits)
    with n nd show "\<exists>r. parse_env_var N e = Some (r, v)"
      by (auto simp: parse_env_var_run e first_is_append split: option.splits)
  qed
  finally show ?thesis .
qed

lemma parse_variable_run:
  "parse_variable N s =
     (if str_starts_with s ''${'' then
        case split_at_str ''}'' (drop 2 s) of
          None \<Rightarrow> None
        | Some (content, rest) \<Rightarrow> Some (rest, parse_variable_expr N content)
      else None)"
proof (cases "split_at_str ''}'' (drop 2 s)")
  case None
  then show ?thesis by (simp add: parse_variable_def tag take_until numeral_2_eq_2)
next
  case (Some ab)
  then obtain a b where ab: "split_at_str ''}'' (drop 2 s) = Some (a, b)" by (cases ab) simp
  with split_at_str_Some [OF ab] show ?thesis
    by (simp add: parse_variable_def tag take_until numeral_2_eq_2)
qed

lemma find_variables_loop_placed:
  "\<exists>rs. find_variables_loop N remaining (length pre) acc = Some (acc @ rs) \<and> placed (pre @ remaining) (length pre) rs"
proof (induction "length remaining" arbitrary: remaining pre acc rule: less_induct)
  case less
  note step = find_variables_loop.simps [of N remaining "length pre" acc]
  show ?case
  proof (cases "split_at_str ''${'' remaining")
    case None
    then show ?thesis by (simp add: step)
  next
    case (Some ab)
    then obtain before after where ab: "split_at_str ''${'' remaining = Some (before, after)" by (cases ab) simp
    from split_at_str_Some [OF ab] have rem: "remaining = before @ ''${'' @ after" .
    show ?thesis
    proof (cases "split_at_str ''}'' after")
      case None
      let ?pre = "pre @ before @ ''${''"
      have "length after < length remaining" by (simp add: rem)
      from less [OF this, of ?pre acc] obtain rs where
        "find_variables_loop N after (length ?pre) acc = Some (acc @ rs)" "placed (?pre @ after) (length ?pre) rs" by blast
      moreover have "find_variables_loop N remaining (length pre) acc = find_variables_loop N after (length ?pre) acc"
        unfolding step using None ab by (simp add: rem parse_variable_run numeral_2_eq_2 add.commute add.left_commute)
      moreover have "placed (?pre @ after) (length pre) rs" by (rule placed_mono) (use calculation in auto)
      ultimately show ?thesis by (simp add: rem)
    next
      case (Some cr)
      then obtain content rest where cr: "split_at_str ''}'' after = Some (content, rest)" by (cases cr) simp
      from split_at_str_Some [OF cr] have after: "after = content @ ''}'' @ rest" .
      let ?pre = "pre @ before @ ''${'' @ content @ ''}''"
      let ?r = "map_sum id (\<lambda>var. (length (pre @ before), length ?pre, var)) (parse_variable_expr N content)"
      have "length rest < length remaining" by (simp add: rem after)
      from less [OF this, of ?pre "acc @ [?r]"] obtain rs where
        rs: "find_variables_loop N rest (length ?pre) (acc @ [?r]) = Some (acc @ ?r # rs)"
          "placed (?pre @ rest) (length ?pre) rs" by auto
      have run: "find_variables_loop N remaining (length pre) acc = Some (acc @ ?r # rs)"
        unfolding step using ab cr rs(1) by (simp add: rem after parse_variable_run Let_def numeral_3_eq_3 add.assoc)
      have "placed (pre @ remaining) (length pre) (?r # rs)"
      proof (cases "parse_variable_expr N content")
        case (Inl e)
        then show ?thesis using rs(2) by (auto simp: rem after intro: placed_mono)
      next
        case (Inr v)
        then have "var_ok v" "content = show_var v" by (simp_all add: parse_variable_expr_iff)
        with Inr rs(2) show ?thesis by (simp add: rem after str_slice_def numeral_3_eq_3)
      qed
      with run show ?thesis by blast
    qed
  qed
qed

lemma find_variables_placed: "\<exists>rs. find_variables N input = Some rs \<and> placed input 0 rs"
  using find_variables_loop_placed [of input "[]" "[]"] by (simp add: find_variables_def)

end

lemma resolve_loop_total:
  "placed input p rs \<Longrightarrow> p \<le> length input \<Longrightarrow> \<exists>r. resolve_loop env ctx input rs result p errors = Some r"
proof (induction env ctx input rs result p errors rule: resolve_loop.induct)
  case (3 env ctx input start "end" var vars result last_end errors)
  then have "last_end \<le> start" "start \<le> end" "end \<le> length input" "placed input end vars"
    by (auto simp: str_slice_def split: if_splits)
  with 3 show ?case
    by (cases "resolve_variable env ctx var") (auto simp: str_slice_def)
qed (auto simp: str_slice_def)

section \<open>Templates\<close>

text \<open>A text with holes: each hole has the literal text before it; a last literal text ends it.\<close>

type_synonym template = "(string \<times> Variable) list \<times> string"

definition show_hole :: "string \<times> Variable \<Rightarrow> string" where
  "show_hole h = fst h @ ''${'' @ show_var (snd h) @ ''}''"

definition show_template :: "template \<Rightarrow> string" where
  "show_template t = concat (map show_hole (fst t)) @ snd t"

definition template_ok :: "template \<Rightarrow> bool" where
  "template_ok t = ((\<forall>(l, v)\<in>set (fst t). \<not> str_contains l ''${'' \<and> var_ok v \<and> CHR ''}'' \<notin> set (show_var v)) \<and>
     \<not> str_contains (snd t) ''${'')"

fun hole_positions :: "nat \<Rightarrow> (string \<times> Variable) list \<Rightarrow> located list" where
  "hole_positions p [] = []"
| "hole_positions p ((l, v) # hs) =
     (let a = p + length l; b = a + length (show_var v) + 3 in Inr (a, b, v) # hole_positions b hs)"

text \<open>
  What a variable stands for, said without the order of the look-ups: an environment variable is
  read from the context laid over the process's environment, itself laid over the default; a
  property of a service is one of the three the context has tables for.
\<close>

fun variable_value :: "(string \<Rightarrow> string option) \<Rightarrow> ResolutionContext \<Rightarrow> Variable \<Rightarrow> string option" where
  "variable_value env ctx (EnvVar name dflt) = ((\<lambda>_. dflt) ++ env ++ hm_get (ctx_env_vars ctx)) name"
| "variable_value env ctx (ServiceRef service property) =
     Option.bind (map_of [(''port'', map_option (show_nat \<circ> unat) (hm_get (ctx_service_ports ctx) service)),
         (''host'', hm_get (ctx_service_hosts ctx) service),
         (''ip'', hm_get (ctx_service_ips ctx) service)] property) id"

text \<open>The name that is reported when it stands for nothing.\<close>

fun variable_name :: "Variable \<Rightarrow> string" where
  "variable_name (EnvVar name dflt) = name"
| "variable_name (ServiceRef service property) = service @ ''.'' @ property"

definition missing_names :: "(string \<Rightarrow> string option) \<Rightarrow> ResolutionContext \<Rightarrow> template \<Rightarrow> string list" where
  "missing_names env ctx t =
     map variable_name (filter (\<lambda>v. variable_value env ctx v = None) (map snd (fst t)))"

definition fill :: "(string \<Rightarrow> string option) \<Rightarrow> ResolutionContext \<Rightarrow> template \<Rightarrow> string" where
  "fill env ctx t = concat (map (\<lambda>(l, v). l @ the (variable_value env ctx v)) (fst t)) @ snd t"

lemma resolve_variable_value:
  "resolve_variable env ctx v = ok_or (variable_value env ctx v) (variable_name v)"
  by (cases v) (auto simp: resolve_variable_def ref_name_def map_add_def comp_def split: option.splits)

lemma split_at_brace: "CHR ''}'' \<notin> set a \<Longrightarrow> split_at_str ''}'' (a @ CHR ''}'' # b) = Some (a, b)"
  by (induction a) auto

lemma split_at_dollar: "\<not> str_contains a ''${'' \<Longrightarrow> split_at_str ''${'' (a @ CHR ''$'' # CHR ''{'' # b) = Some (a, b)"
proof (induction a)
  case (Cons c a)
  then have "\<not> str_starts_with ((c # a) @ CHR ''$'' # CHR ''{'' # b) ''${''" by (cases a) auto
  with Cons show ?case by simp
qed simp

lemma split_at_None: "split_at_str p s = None \<longleftrightarrow> \<not> str_contains s p"
  by (induction p s rule: split_at_str.induct) auto

lemma show_template_Cons:
  "show_template ((l, v) # hs, t) = l @ ''${'' @ show_var v @ ''}'' @ show_template (hs, t)"
  by (simp add: show_template_def show_hole_def)

lemma resolve_loop_template:
  "resolve_loop env ctx (pre @ show_template (hs, t)) (hole_positions (length pre) hs) result (length pre) errors =
     Some (if errors @ missing_names env ctx (hs, t) \<noteq> [] then
         Inl (EnvVarNotFound (str_join '', '' (errors @ missing_names env ctx (hs, t))))
       else Inr (result @ fill env ctx (hs, t)))"
proof (induction hs arbitrary: pre result errors)
  case Nil
  show ?case by (simp add: show_template_def missing_names_def fill_def str_slice_def)
next
  case (Cons h hs)
  obtain l v where h: "h = (l, v)" by (cases h)
  let ?pre = "pre @ l @ ''${'' @ show_var v @ ''}''"
  let ?input = "pre @ show_template (h # hs, t)"
  have input: "?input = ?pre @ show_template (hs, t)" by (simp add: h show_template_Cons)
  have slice: "str_slice ?input (length pre) (length pre + length l) = Some l"
    by (simp add: str_slice_def h show_template_Cons)
  have pos: "hole_positions (length pre) (h # hs) =
      Inr (length pre + length l, length ?pre, v) # hole_positions (length ?pre) hs"
    by (simp add: h Let_def numeral_3_eq_3 add.assoc)
  note IH = Cons [of ?pre, folded input]
  show ?case
  proof (cases "variable_value env ctx v")
    case None
    then have "missing_names env ctx (h # hs, t) = variable_name v # missing_names env ctx (hs, t)"
      by (simp add: h missing_names_def)
    with None IH show ?thesis by (simp add: pos slice resolve_variable_value)
  next
    case (Some s)
    then have "missing_names env ctx (h # hs, t) = missing_names env ctx (hs, t)"
      and "fill env ctx (h # hs, t) = l @ s @ fill env ctx (hs, t)"
      by (simp_all add: h missing_names_def fill_def)
    with Some IH show ?thesis by (simp add: pos slice resolve_variable_value)
  qed
qed

context nom_library
begin

lemma find_variables_loop_template:
  "template_ok (hs, t) \<Longrightarrow>
     find_variables_loop N (show_template (hs, t)) p acc = Some (acc @ hole_positions p hs)"
proof (induction hs arbitrary: p acc)
  case Nil
  then have "split_at_str ''${'' t = None" by (simp add: template_ok_def split_at_None)
  then show ?case by (simp add: find_variables_loop.simps [of N] show_template_def)
next
  case (Cons h hs)
  obtain l v where h: "h = (l, v)" by (cases h)
  from Cons(2) have ok: "\<not> str_contains l ''${''" "var_ok v" "CHR ''}'' \<notin> set (show_var v)" "template_ok (hs, t)"
    by (auto simp: template_ok_def h)
  let ?s = "show_template (h # hs, t)"
  have s: "?s = l @ CHR ''$'' # CHR ''{'' # show_var v @ CHR ''}'' # show_template (hs, t)"
    by (simp add: h show_template_Cons)
  have "parse_variable_expr N (show_var v) = Inr v" using ok(2) by (simp add: parse_variable_expr_iff)
  then have "parse_variable N (drop (length l) ?s) = Some (show_template (hs, t), Inr v)"
    using split_at_brace [OF ok(3)] by (simp add: parse_variable_run s)
  then have "find_variables_loop N ?s p acc =
      find_variables_loop N (show_template (hs, t)) (p + length l + length (show_var v) + 3)
        (acc @ [Inr (p + length l, p + length l + length (show_var v) + 3, v)])"
    using split_at_dollar [OF ok(1)] by (subst find_variables_loop.simps) (simp add: s Let_def add.commute add.left_commute)
  with Cons(1) [OF ok(4)] show ?case by (simp add: h Let_def)
qed

lemma resolve_template_run:
  "template_ok (hs, t) \<Longrightarrow> resolve_string N env ctx (show_template (hs, t)) =
     Some (if missing_names env ctx (hs, t) \<noteq> [] then
         Inl (EnvVarNotFound (str_join '', '' (missing_names env ctx (hs, t))))
       else Inr (fill env ctx (hs, t)))"
  using resolve_loop_template [of env ctx "[]" hs t "[]" "[]"]
  by (simp add: resolve_string_def find_variables_def find_variables_loop_template)

end

section \<open>Properties\<close>

text \<open>
  C13. What \<open>${...}\<close> may hold. With the combinators as documented, the parser of an expression accepts
  exactly the texts of the variables that can be written, each as the variable it stands for:
  an upper-case name, alone or with a default, or a service and one of three properties. A default with a
  dot in it is not among them: the text is then read as a service reference, and refused.
\<close>

theorem variable_expr_exact:
  assumes nom: "nom_library N"
  shows "(parse_variable_expr N e = Inr v \<longleftrightarrow> var_ok v \<and> e = show_var v) \<and>
    (CHR ''.'' \<in> set d \<longrightarrow> \<not> is_ok (parse_variable_expr N (n @ '':-'' @ d)))"
proof (intro conjI impI)
  show "parse_variable_expr N e = Inr v \<longleftrightarrow> var_ok v \<and> e = show_var v"
    by (rule nom_library.parse_variable_expr_iff [OF nom])
next
  assume dot: "CHR ''.'' \<in> set d"
  have "\<not> (var_ok w \<and> n @ '':-'' @ d = show_var w)" for w
  proof
    assume w: "var_ok w \<and> n @ '':-'' @ d = show_var w"
    show False
    proof (cases w)
      case (EnvVar m c)
      with w have "CHR ''.'' \<notin> set (show_var w)"
        by (auto simp: var_ok_def show_var_def env_ok_def list_all_iff env_char_def is_upper_def is_digit_def
            split: option.splits)
      with w dot show False by (metis Un_iff set_append)
    next
      case (ServiceRef s q)
      with w have "CHR '':'' \<notin> set (show_var w)"
        by (auto simp: var_ok_def show_var_def ref_name_def service_ok_def list_all_iff name_char_def is_alnum_def
            is_alpha_def is_upper_def is_lower_def is_digit_def)
      with w show False by (metis Un_iff list.set_intros(1) set_append)
    qed
  qed
  then show "\<not> is_ok (parse_variable_expr N (n @ '':-'' @ d))"
    using nom_library.parse_variable_expr_iff [OF nom, of "n @ '':-'' @ d"]
    by (metis is_ok_simps(1) old.sum.exhaust)
qed

theorem variable_expr_exact_witness:
  "parse_variable_expr nom_reference ''DB_PASS:-secret'' = Inr (EnvVar ''DB_PASS'' (Some ''secret'')) \<and>
     \<not> is_ok (parse_variable_expr nom_reference (''VERSION'' @ '':-'' @ ''1.2.3''))"
proof
  have "var_ok (EnvVar ''DB_PASS'' (Some ''secret'')) \<and> ''DB_PASS:-secret'' = show_var (EnvVar ''DB_PASS'' (Some ''secret''))"
    by code_simp
  with conjunct1 [OF variable_expr_exact [OF nom_ref.nom_library_axioms]]
  show "parse_variable_expr nom_reference ''DB_PASS:-secret'' = Inr (EnvVar ''DB_PASS'' (Some ''secret''))" by blast
  show "\<not> is_ok (parse_variable_expr nom_reference (''VERSION'' @ '':-'' @ ''1.2.3''))"
    by (rule mp [OF conjunct2 [OF variable_expr_exact [OF nom_ref.nom_library_axioms]]]) simp
qed

text \<open>
  The positions of variables are safe to cut at. On every text the search returns; what it
  finds is in order and without overlap, within the text, and each slice is \<open>${...}\<close> around the
  variable reported. So resolving never cuts out of bounds: on every text, in every context, it
  returns a result or an error.
\<close>

theorem variables_in_bounds:
  assumes nom: "nom_library N"
  shows "(\<exists>rs. find_variables N input = Some rs \<and> placed input 0 rs) \<and>
    (\<exists>r. resolve_string N env ctx input = Some r)"
proof -
  obtain rs where rs: "find_variables N input = Some rs" "placed input 0 rs"
    using nom_library.find_variables_placed [OF nom] by blast
  from resolve_loop_total [OF rs(2)] obtain r where "resolve_loop env ctx input rs [] 0 [] = Some r" by blast
  with rs show ?thesis by (simp add: resolve_string_def)
qed

theorem variables_in_bounds_witness:
  "\<exists>r. resolve_string nom_reference (\<lambda>_. None) (resolution_context_new []) ''a ${B} ${c ${d.ip}'' = Some r"
  using conjunct2 [OF variables_in_bounds [OF nom_ref.nom_library_axioms]] by blast

text \<open>
  C12. Resolving fills the holes. For a template, literal texts with variables between them, the
  result is the literal texts with the values in place of the variables: the context's before the
  process's before the default for an environment variable, the service's address, host or port
  otherwise. If any value is missing, the error names every missing one, in order. The values are
  those of \<open>variable_value\<close>, which is not the code's look-up but the overriding of one environment
  by another.
\<close>

theorem resolve_template:
  assumes nom: "nom_library N" and ok: "template_ok t"
  shows "resolve_string N env ctx (show_template t) =
    Some (if missing_names env ctx t \<noteq> [] then Inl (EnvVarNotFound (str_join '', '' (missing_names env ctx t)))
      else Inr (fill env ctx t))"
proof (cases t)
  case (Pair hs e)
  with nom_library.resolve_template_run [OF nom] ok show ?thesis by simp
qed

theorem resolve_template_witness:
  "resolve_string nom_reference (map_of [(''USER'', ''root''), (''HOME'', ''/root'')])
     (context_set_env ''USER'' ''me''
       (add_service ''pg'' ''10.0.0.2'' (Some 5432) ''pg.local'' (resolution_context_new [])))
     ''${HOME:-/tmp}:${USER:-you}@${pg.ip}:${pg.port}'' = Some (Inr ''/root:me@10.0.0.2:5432'')"
proof -
  let ?t = "([([], EnvVar ''HOME'' (Some ''/tmp'')), ('':'', EnvVar ''USER'' (Some ''you'')),
      (''@'', ServiceRef ''pg'' ''ip''), ('':'', ServiceRef ''pg'' ''port'')], []) :: template"
  let ?env = "map_of [(''USER'', ''root''), (''HOME'', ''/root'')] :: string \<Rightarrow> string option"
  let ?ctx = "context_set_env ''USER'' ''me''
      (add_service ''pg'' ''10.0.0.2'' (Some 5432) ''pg.local'' (resolution_context_new []))"
  have show_port: "show_nat 5432 = ''5432''" by (simp add: show_nat.simps, code_simp)
  have ok: "template_ok ?t" by code_simp
  have "show_template ?t = ''${HOME:-/tmp}:${USER:-you}@${pg.ip}:${pg.port}''" by code_simp
  moreover have "missing_names ?env ?ctx ?t = []"
    by (simp add: missing_names_def map_add_def context_set_env_def add_service_def resolution_context_new_def)
  moreover have "fill ?env ?ctx ?t = ''/root:me@10.0.0.2:5432''"
    using show_port
    by (simp add: fill_def map_add_def context_set_env_def add_service_def resolution_context_new_def)
  ultimately show ?thesis using resolve_template [OF nom_ref.nom_library_axioms ok, of ?env ?ctx] by simp
qed

end
