(* ===== verification/Depth_First.thy ===== *)
theory Depth_First
  imports Prelude
begin

text \<open>
  The depth-first traversal that both sorting directions of
  \<^verbatim>\<open>crates/harness/src/commands/dependencies.rs\<close> run: a node under visit is in \<open>visiting\<close>,
  a finished one in \<open>visited\<close> and at the end of \<open>order\<close>. The locale states what one step of
  the traversal does for any successor function; its lemmas say what the finished order is,
  when the traversal reports a cycle, and how much fuel it needs.
\<close>

record 'a dfs_state =
  visited :: "'a set"
  visiting :: "'a set"
  order :: "'a list"

definition dfs_start :: "'a dfs_state" where
  "dfs_start = \<lparr>visited = {}, visiting = {}, order = []\<rparr>"

definition dfs_enter :: "'a \<Rightarrow> 'a dfs_state \<Rightarrow> 'a dfs_state" where
  "dfs_enter s st = st\<lparr>visiting := insert s (visiting st)\<rparr>"

definition dfs_leave :: "'a \<Rightarrow> 'a dfs_state \<Rightarrow> 'a dfs_state" where
  "dfs_leave s st = st\<lparr>visiting := visiting st - {s}, visited := insert s (visited st),
     order := order st @ [s]\<rparr>"

definition edges_of :: "('a \<Rightarrow> 'a list) \<Rightarrow> ('a \<times> 'a) set" where
  "edges_of succ = {(x, y). y \<in> set (succ x)}"

fun deps_first :: "('a \<Rightarrow> 'a list) \<Rightarrow> 'a set \<Rightarrow> 'a list \<Rightarrow> bool" where
  "deps_first succ seen [] = True"
| "deps_first succ seen (x # xs) = (set (succ x) \<subseteq> seen \<and> deps_first succ (insert x seen) xs)"

definition dfs_ok :: "('a \<Rightarrow> 'a list) \<Rightarrow> 'a dfs_state \<Rightarrow> bool" where
  "dfs_ok succ st \<longleftrightarrow> distinct (order st) \<and> set (order st) = visited st \<and>
     visited st \<inter> visiting st = {} \<and> deps_first succ {} (order st)"

lemma edges_of_iff [simp]: "(x, y) \<in> edges_of succ \<longleftrightarrow> y \<in> set (succ x)"
  by (simp add: edges_of_def)

lemma edges_reach: "d \<in> set (succ s) \<Longrightarrow> (d, x) \<in> (edges_of succ)\<^sup>* \<Longrightarrow> (s, x) \<in> (edges_of succ)\<^sup>*"
  by (rule converse_rtrancl_into_rtrancl) simp_all

lemma dfs_sel [simp]:
  "visited dfs_start = {}" "visiting dfs_start = {}" "order dfs_start = []"
  "visited (dfs_enter s st) = visited st" "visiting (dfs_enter s st) = insert s (visiting st)"
  "order (dfs_enter s st) = order st"
  "visited (dfs_leave s st) = insert s (visited st)"
  "visiting (dfs_leave s st) = visiting st - {s}" "order (dfs_leave s st) = order st @ [s]"
  by (simp_all add: dfs_start_def dfs_enter_def dfs_leave_def)

lemma deps_first_append:
  "deps_first succ S (xs @ ys) \<longleftrightarrow> deps_first succ S xs \<and> deps_first succ (S \<union> set xs) ys"
  by (induction xs arbitrary: S) auto

lemma deps_first_closed: "deps_first succ {} xs \<Longrightarrow> edges_of succ `` set xs \<subseteq> set xs"
  by (induction xs rule: rev_induct) (auto simp: deps_first_append)

lemma rtrancl_closed: "r `` A \<subseteq> A \<Longrightarrow> (x, y) \<in> r\<^sup>* \<Longrightarrow> x \<in> A \<Longrightarrow> y \<in> A"
  by (erule rtrancl_induct) auto

lemma deps_first_index:
  "deps_first succ S xs \<Longrightarrow> i < length xs \<Longrightarrow> d \<in> set (succ (xs ! i)) \<Longrightarrow>
     d \<in> S \<or> (\<exists>j<i. xs ! j = d)"
proof (induction xs arbitrary: S i)
  case Nil
  then show ?case by simp
next
  case (Cons x xs)
  show ?case
  proof (cases i)
    case 0
    with Cons.prems show ?thesis by auto
  next
    case (Suc k)
    with Cons.IH [of "insert x S" k] Cons.prems
    have "d \<in> insert x S \<or> (\<exists>j<k. xs ! j = d)" by auto
    with Suc show ?thesis by (metis insert_iff nth_Cons_0 nth_Cons_Suc Suc_mono zero_less_Suc)
  qed
qed

text \<open>An order in which dependencies come first has no cycle through any of its elements.\<close>

lemma deps_first_acyclic: "deps_first succ {} xs \<Longrightarrow> x \<in> set xs \<Longrightarrow> (x, x) \<notin> (edges_of succ)\<^sup>+"
proof (induction xs rule: rev_induct)
  case Nil
  then show ?case by simp
next
  case (snoc y xs)
  then have old: "deps_first succ {} xs" and new: "set (succ y) \<subseteq> set xs"
    by (auto simp: deps_first_append)
  show ?case
  proof (cases "x \<in> set xs")
    case True
    with snoc.IH old show ?thesis by blast
  next
    case False
    with snoc.prems have "x = y" by simp
    show ?thesis
    proof
      assume "(x, x) \<in> (edges_of succ)\<^sup>+"
      then obtain z where z: "z \<in> set (succ x)" and "(z, x) \<in> (edges_of succ)\<^sup>*"
        by (auto dest: tranclD)
      with new \<open>x = y\<close> rtrancl_closed [OF deps_first_closed [OF old]] have "x \<in> set xs" by blast
      with False show False by blast
    qed
  qed
qed

lemma dfs_ok_start [simp]: "dfs_ok succ dfs_start"
  by (simp add: dfs_ok_def)

lemma dfs_ok_enter [wf_intros]:
  "dfs_ok succ st \<Longrightarrow> s \<notin> visited st \<Longrightarrow> dfs_ok succ (dfs_enter s st)"
  by (auto simp: dfs_ok_def)

lemma dfs_ok_leave [wf_intros]:
  "dfs_ok succ st \<Longrightarrow> s \<in> visiting st \<Longrightarrow> set (succ s) \<subseteq> visited st \<Longrightarrow>
     dfs_ok succ (dfs_leave s st)"
  by (auto simp: dfs_ok_def deps_first_append)

locale depth_first =
  fixes succ :: "'a \<Rightarrow> 'a list"
    and circular :: "'a \<Rightarrow> 'e"
    and dfs :: "nat \<Rightarrow> 'a \<Rightarrow> 'a dfs_state \<Rightarrow> ('e + 'a dfs_state) option"
    and visit :: "nat \<Rightarrow> 'a list \<Rightarrow> 'a dfs_state \<Rightarrow> ('e + 'a dfs_state) option"
  assumes dfs_0: "dfs 0 s st = None"
    and dfs_Suc: "dfs (Suc n) s st =
      (if s \<in> visiting st then Some (Inl (circular s))
       else (case visit n (succ s) (dfs_enter s st) of
               None \<Rightarrow> None
             | Some (Inl e) \<Rightarrow> Some (Inl e)
             | Some (Inr st') \<Rightarrow> Some (Inr (dfs_leave s st'))))"
    and visit_Nil: "visit n [] st = Some (Inr st)"
    and visit_Cons: "visit n (d # ds) st =
      (if d \<in> visited st then visit n ds st
       else (case dfs n d st of
               None \<Rightarrow> None
             | Some (Inl e) \<Rightarrow> Some (Inl e)
             | Some (Inr st') \<Rightarrow> visit n ds st'))"
begin

text \<open>What a finished visit has done, from the state \<open>st\<close> to the state \<open>st'\<close>.\<close>

definition grown :: "'a list \<Rightarrow> 'a dfs_state \<Rightarrow> 'a dfs_state \<Rightarrow> bool" where
  "grown ds st st' \<longleftrightarrow> dfs_ok succ st' \<and> visiting st' = visiting st \<and> visited st \<subseteq> visited st' \<and>
     set ds \<subseteq> visited st' \<and> visited st' \<subseteq> visited st \<union> (edges_of succ)\<^sup>* `` set ds"

lemma grown_Cons:
  "grown [d] st st1 \<Longrightarrow> grown ds st1 st' \<Longrightarrow> grown (d # ds) st st'"
  unfolding grown_def by (auto simp: Image_def)

lemma grown_skip: "d \<in> visited st \<Longrightarrow> grown ds st st' \<Longrightarrow> grown (d # ds) st st'"
  by (auto simp: grown_def)

lemma grown_leave:
  assumes "s \<notin> visiting st" and "s \<notin> visited st"
    and g: "grown (succ s) (dfs_enter s st) st'"
  shows "grown [s] st (dfs_leave s st')"
proof -
  have "(edges_of succ)\<^sup>* `` set (succ s) \<subseteq> (edges_of succ)\<^sup>* `` {s}"
    by (auto intro: edges_reach)
  moreover have "dfs_ok succ (dfs_leave s st')"
    using g by (intro dfs_ok_leave) (auto simp: grown_def)
  moreover from g have "visiting st' = insert s (visiting st)" "visited st \<subseteq> visited st'"
    "visited st' \<subseteq> visited st \<union> (edges_of succ)\<^sup>* `` set (succ s)"
    by (simp_all add: grown_def)
  ultimately show ?thesis using assms(1) unfolding grown_def by simp blast
qed

lemma visit_grown_step:
  assumes step: "\<And>s st st'. dfs_ok succ st \<Longrightarrow> s \<notin> visited st \<Longrightarrow> dfs n s st = Some (Inr st') \<Longrightarrow>
      grown [s] st st'"
  shows "dfs_ok succ st \<Longrightarrow> visit n ds st = Some (Inr st') \<Longrightarrow> grown ds st st'"
proof (induction ds arbitrary: st)
  case Nil
  then show ?case by (auto simp: visit_Nil grown_def)
next
  case (Cons d ds)
  show ?case
  proof (cases "d \<in> visited st")
    case True
    with Cons show ?thesis by (auto simp: visit_Cons intro: grown_skip)
  next
    case False
    with Cons.prems obtain st1 where d: "dfs n d st = Some (Inr st1)" and ds: "visit n ds st1 = Some (Inr st')"
      by (auto simp: visit_Cons split: option.splits sum.splits)
    from step [OF Cons.prems(1) False d] have "grown [d] st st1" .
    moreover from this have "dfs_ok succ st1" by (simp add: grown_def)
    then have "grown ds st1 st'" using ds by (rule Cons.IH)
    ultimately show ?thesis by (rule grown_Cons)
  qed
qed

lemma dfs_grown: "dfs_ok succ st \<Longrightarrow> s \<notin> visited st \<Longrightarrow> dfs n s st = Some (Inr st') \<Longrightarrow> grown [s] st st'"
proof (induction n arbitrary: s st st')
  case 0
  then show ?case by (simp add: dfs_0)
next
  case (Suc n)
  from Suc.prems obtain st1 where s: "s \<notin> visiting st"
    and v: "visit n (succ s) (dfs_enter s st) = Some (Inr st1)" and st': "st' = dfs_leave s st1"
    by (auto simp: dfs_Suc split: if_splits option.splits sum.splits)
  have "grown (succ s) (dfs_enter s st) st1"
    by (rule visit_grown_step [OF _ dfs_ok_enter [OF Suc.prems(1,2)] v]) (rule Suc.IH)
  with s Suc.prems(2) show ?case unfolding st' by (intro grown_leave)
qed

lemma visit_grown: "dfs_ok succ st \<Longrightarrow> visit n ds st = Some (Inr st') \<Longrightarrow> grown ds st st'"
  by (rule visit_grown_step) (rule dfs_grown)

text \<open>A reported cycle is one: the node named by the error lies on a cycle it can reach.\<close>

lemma visit_error_step:
  assumes step: "\<And>s st e. dfs_ok succ st \<Longrightarrow> s \<notin> visited st \<Longrightarrow>
      \<forall>g\<in>visiting st. (g, s) \<in> (edges_of succ)\<^sup>+ \<Longrightarrow> dfs n s st = Some (Inl e) \<Longrightarrow>
      \<exists>x. e = circular x \<and> (s, x) \<in> (edges_of succ)\<^sup>* \<and> (x, x) \<in> (edges_of succ)\<^sup>+"
  shows "dfs_ok succ st \<Longrightarrow> \<forall>g\<in>visiting st. \<forall>d\<in>set ds. (g, d) \<in> (edges_of succ)\<^sup>+ \<Longrightarrow>
      visit n ds st = Some (Inl e) \<Longrightarrow>
      \<exists>x. e = circular x \<and> (\<exists>d\<in>set ds. (d, x) \<in> (edges_of succ)\<^sup>*) \<and> (x, x) \<in> (edges_of succ)\<^sup>+"
proof (induction ds arbitrary: st)
  case Nil
  then show ?case by (simp add: visit_Nil)
next
  case (Cons d ds)
  show ?case
  proof (cases "d \<in> visited st")
    case True
    with Cons.IH [of st] Cons.prems show ?thesis by (auto simp: visit_Cons)
  next
    case False
    show ?thesis
    proof (cases "dfs n d st = Some (Inl e)")
      case True
      from step [OF Cons.prems(1) False _ True] Cons.prems(2) show ?thesis by auto
    next
      case no_error: False
      with Cons.prems False obtain st1 where d: "dfs n d st = Some (Inr st1)" and ds: "visit n ds st1 = Some (Inl e)"
        by (auto simp: visit_Cons split: option.splits sum.splits)
      from dfs_grown [OF Cons.prems(1) False d] have "dfs_ok succ st1" "visiting st1 = visiting st"
        by (simp_all add: grown_def)
      with Cons.IH [of st1] Cons.prems(2) ds show ?thesis by auto
    qed
  qed
qed

lemma dfs_error:
  "dfs_ok succ st \<Longrightarrow> s \<notin> visited st \<Longrightarrow> \<forall>g\<in>visiting st. (g, s) \<in> (edges_of succ)\<^sup>+ \<Longrightarrow>
     dfs n s st = Some (Inl e) \<Longrightarrow>
     \<exists>x. e = circular x \<and> (s, x) \<in> (edges_of succ)\<^sup>* \<and> (x, x) \<in> (edges_of succ)\<^sup>+"
proof (induction n arbitrary: s st e)
  case 0
  then show ?case by (simp add: dfs_0)
next
  case (Suc n)
  show ?case
  proof (cases "s \<in> visiting st")
    case True
    with Suc.prems show ?thesis by (auto simp: dfs_Suc)
  next
    case False
    with Suc.prems(4) have v: "visit n (succ s) (dfs_enter s st) = Some (Inl e)"
      by (auto simp: dfs_Suc split: option.splits sum.splits)
    have g: "\<forall>g\<in>visiting (dfs_enter s st). \<forall>d\<in>set (succ s). (g, d) \<in> (edges_of succ)\<^sup>+"
      using Suc.prems(3) by (auto intro: trancl_into_trancl)
    have "\<exists>x. e = circular x \<and> (\<exists>d\<in>set (succ s). (d, x) \<in> (edges_of succ)\<^sup>*) \<and>
        (x, x) \<in> (edges_of succ)\<^sup>+"
      by (rule visit_error_step [OF _ dfs_ok_enter [OF Suc.prems(1,2)] g v]) (rule Suc.IH)
    then show ?thesis using edges_reach by metis
  qed
qed

lemma visit_error:
  "dfs_ok succ st \<Longrightarrow> \<forall>g\<in>visiting st. \<forall>d\<in>set ds. (g, d) \<in> (edges_of succ)\<^sup>+ \<Longrightarrow>
     visit n ds st = Some (Inl e) \<Longrightarrow>
     \<exists>x. e = circular x \<and> (\<exists>d\<in>set ds. (d, x) \<in> (edges_of succ)\<^sup>*) \<and> (x, x) \<in> (edges_of succ)\<^sup>+"
  by (rule visit_error_step) (rule dfs_error)

text \<open>
  Fuel bounds the depth of the recursion, and every level of it adds a node to \<open>visiting\<close>:
  the number of nodes plus one is always enough.
\<close>

lemma visit_returns_step:
  assumes step: "\<And>s st. dfs_ok succ st \<Longrightarrow> s \<notin> visited st \<Longrightarrow> s \<in> N \<Longrightarrow> card (N - visiting st) < n \<Longrightarrow>
      dfs n s st \<noteq> None"
  shows "dfs_ok succ st \<Longrightarrow> set ds \<subseteq> N \<Longrightarrow> card (N - visiting st) < n \<Longrightarrow> visit n ds st \<noteq> None"
proof (induction ds arbitrary: st)
  case Nil
  then show ?case by (simp add: visit_Nil)
next
  case (Cons d ds)
  show ?case
  proof (cases "d \<in> visited st")
    case True
    with Cons show ?thesis by (auto simp: visit_Cons)
  next
    case False
    with step Cons.prems have "dfs n d st \<noteq> None" by auto
    moreover have "visit n ds st1 \<noteq> None" if d: "dfs n d st = Some (Inr st1)" for st1
    proof (rule Cons.IH)
      from dfs_grown [OF Cons.prems(1) False d]
      show "dfs_ok succ st1" "card (N - visiting st1) < n" using Cons.prems by (auto simp: grown_def)
      from Cons.prems show "set ds \<subseteq> N" by simp
    qed
    ultimately show ?thesis using False by (auto simp: visit_Cons split: option.splits sum.splits)
  qed
qed

lemma dfs_returns:
  assumes fin: "finite N" and closed: "edges_of succ `` N \<subseteq> N"
  shows "dfs_ok succ st \<Longrightarrow> s \<notin> visited st \<Longrightarrow> s \<in> N \<Longrightarrow> card (N - visiting st) < n \<Longrightarrow> dfs n s st \<noteq> None"
proof (induction n arbitrary: s st)
  case 0
  then show ?case by simp
next
  case (Suc n)
  show ?case
  proof (cases "s \<in> visiting st")
    case True
    then show ?thesis by (simp add: dfs_Suc)
  next
    case False
    have "N - visiting (dfs_enter s st) = (N - visiting st) - {s}" by auto
    moreover have "card (N - visiting st - {s}) < card (N - visiting st)"
      using fin Suc.prems(3) False by (intro card_Diff1_less) auto
    ultimately have c: "card (N - visiting (dfs_enter s st)) < n" using Suc.prems(4) by simp
    have sub: "set (succ s) \<subseteq> N" using closed Suc.prems(3) by (auto simp: Image_def)
    have "visit n (succ s) (dfs_enter s st) \<noteq> None"
      by (rule visit_returns_step [OF _ dfs_ok_enter [OF Suc.prems(1,2)] sub c]) (rule Suc.IH)
    then show ?thesis by (auto simp: dfs_Suc split: option.splits sum.splits)
  qed
qed

lemma visit_returns:
  assumes "finite N" and "edges_of succ `` N \<subseteq> N" and "dfs_ok succ st" and "set ds \<subseteq> N"
    and "card (N - visiting st) < n"
  shows "visit n ds st \<noteq> None"
  by (rule visit_returns_step [OF _ assms(3-5)]) (rule dfs_returns [OF assms(1,2)])

text \<open>The whole sort: what its result is, and when it fails.\<close>

lemma sort_result:
  assumes "visit n ds dfs_start = Some (Inr st)"
  shows "distinct (order st)" and "deps_first succ {} (order st)"
    and "set (order st) = (edges_of succ)\<^sup>* `` set ds"
proof -
  from visit_grown [OF _ assms] have ok: "dfs_ok succ st" and ds: "set ds \<subseteq> visited st"
    and up: "visited st \<subseteq> (edges_of succ)\<^sup>* `` set ds"
    by (auto simp: grown_def)
  from ok show "distinct (order st)" and df: "deps_first succ {} (order st)"
    by (simp_all add: dfs_ok_def)
  from ok have "set (order st) = visited st" by (simp add: dfs_ok_def)
  with ds up rtrancl_closed [OF deps_first_closed [OF df]]
  show "set (order st) = (edges_of succ)\<^sup>* `` set ds" by blast
qed

lemma sort_fails_iff:
  assumes "visit n ds dfs_start \<noteq> None"
  shows "(\<exists>e. visit n ds dfs_start = Some (Inl e)) \<longleftrightarrow>
    (\<exists>d\<in>set ds. \<exists>x. (d, x) \<in> (edges_of succ)\<^sup>* \<and> (x, x) \<in> (edges_of succ)\<^sup>+)"
proof
  assume "\<exists>e. visit n ds dfs_start = Some (Inl e)"
  then show "\<exists>d\<in>set ds. \<exists>x. (d, x) \<in> (edges_of succ)\<^sup>* \<and> (x, x) \<in> (edges_of succ)\<^sup>+"
    using visit_error [where st = dfs_start and ds = ds and n = n] by fastforce
next
  assume cycle: "\<exists>d\<in>set ds. \<exists>x. (d, x) \<in> (edges_of succ)\<^sup>* \<and> (x, x) \<in> (edges_of succ)\<^sup>+"
  show "\<exists>e. visit n ds dfs_start = Some (Inl e)"
  proof (rule ccontr)
    assume "\<nexists>e. visit n ds dfs_start = Some (Inl e)"
    with assms obtain st where st: "visit n ds dfs_start = Some (Inr st)"
      by (metis not_None_eq sum.exhaust)
    from cycle sort_result(3) [OF st] obtain x where "x \<in> set (order st)" "(x, x) \<in> (edges_of succ)\<^sup>+"
      by auto
    with deps_first_acyclic [OF sort_result(2) [OF st]] show False by blast
  qed
qed

lemma sort_error_names_cycle:
  "visit n ds dfs_start = Some (Inl e) \<Longrightarrow>
     \<exists>x. e = circular x \<and> (\<exists>d\<in>set ds. (d, x) \<in> (edges_of succ)\<^sup>*) \<and> (x, x) \<in> (edges_of succ)\<^sup>+"
  using visit_error [where st = dfs_start and ds = ds and n = n and e = e] by simp

end

section \<open>Collecting everything a node reaches\<close>

text \<open>
  The recursion that gathers the dependencies (or the dependents) of a service into a hash
  set: a node already in the set is skipped, an unknown one is an error, a new one is added
  and its own successors are gathered next.
\<close>

locale reach_collect =
  fixes succ :: "'a \<Rightarrow> 'a list"
    and known :: "'a \<Rightarrow> bool"
    and unknown :: "'a \<Rightarrow> 'a \<Rightarrow> 'e"
    and collect :: "nat \<Rightarrow> 'a \<Rightarrow> 'a list \<Rightarrow> ('e + 'a list) option"
    and each :: "nat \<Rightarrow> 'a \<Rightarrow> 'a list \<Rightarrow> 'a list \<Rightarrow> ('e + 'a list) option"
  assumes collect_0: "collect 0 s C = None"
    and collect_Suc: "collect (Suc n) s C = each n s (succ s) C"
    and each_Nil: "each n s [] C = Some (Inr C)"
    and each_Cons: "each n s (d # ds) C =
      (if d \<in> set C then each n s ds C
       else if \<not> known d then Some (Inl (unknown s d))
       else (case collect n d (hs_insert d C) of
               None \<Rightarrow> None
             | Some (Inl e) \<Rightarrow> Some (Inl e)
             | Some (Inr C') \<Rightarrow> each n s ds C'))"
begin

text \<open>\<open>C'\<close> holds \<open>C\<close> and \<open>ds\<close>, nothing else but what \<open>ds\<close> reaches, and is closed under successors.\<close>

definition gathered :: "'a list \<Rightarrow> 'a list \<Rightarrow> 'a list \<Rightarrow> bool" where
  "gathered ds C C' \<longleftrightarrow> (distinct C \<longrightarrow> distinct C') \<and> set C \<subseteq> set C' \<and> set ds \<subseteq> set C' \<and>
     set C' \<subseteq> set C \<union> (edges_of succ)\<^sup>* `` set ds \<and>
     (\<forall>x\<in>set C' - set C. set (succ x) \<subseteq> set C')"

lemma gathered_skip: "d \<in> set C \<Longrightarrow> gathered ds C C' \<Longrightarrow> gathered (d # ds) C C'"
  by (auto simp: gathered_def)

lemma gathered_Cons:
  assumes d: "gathered (succ d) (hs_insert d C) C1" and ds: "gathered ds C1 C'"
  shows "gathered (d # ds) C C'"
proof -
  have "(edges_of succ)\<^sup>* `` set (succ d) \<subseteq> (edges_of succ)\<^sup>* `` {d}"
    by (auto intro: edges_reach)
  moreover have "set C' \<subseteq> set C1 \<union> (edges_of succ)\<^sup>* `` set ds"
    "set C1 \<subseteq> insert d (set C) \<union> (edges_of succ)\<^sup>* `` set (succ d)"
    using d ds by (simp_all add: gathered_def)
  moreover have "(edges_of succ)\<^sup>* `` set (d # ds) = (edges_of succ)\<^sup>* `` {d} \<union> (edges_of succ)\<^sup>* `` set ds"
    "d \<in> (edges_of succ)\<^sup>* `` {d}" by auto
  ultimately have "set C' \<subseteq> set C \<union> (edges_of succ)\<^sup>* `` set (d # ds)" by blast
  moreover have "set (succ x) \<subseteq> set C'" if "x \<in> set C'" "x \<notin> set C" for x
  proof (cases "x \<in> set C1")
    case True
    have "set (succ x) \<subseteq> set C1"
      using d True that(2) by (cases "x = d") (simp_all add: gathered_def)
    with ds show ?thesis by (auto simp: gathered_def)
  next
    case False
    with ds that(1) show ?thesis by (simp add: gathered_def)
  qed
  moreover have "distinct C \<longrightarrow> distinct C'" "set C \<subseteq> set C'" "set (d # ds) \<subseteq> set C'"
    using d ds by (auto simp: gathered_def)
  ultimately show ?thesis unfolding gathered_def by simp
qed

lemma each_gathered_step:
  assumes step: "\<And>s C C'. collect n s C = Some (Inr C') \<Longrightarrow> gathered (succ s) C C'"
  shows "each n s ds C = Some (Inr C') \<Longrightarrow> gathered ds C C'"
proof (induction ds arbitrary: C)
  case Nil
  then show ?case by (simp add: each_Nil gathered_def)
next
  case (Cons d ds)
  show ?case
  proof (cases "d \<in> set C")
    case True
    with Cons show ?thesis by (auto simp: each_Cons intro: gathered_skip)
  next
    case False
    with Cons.prems obtain C1 where "collect n d (hs_insert d C) = Some (Inr C1)" "each n s ds C1 = Some (Inr C')"
      by (auto simp: each_Cons split: if_splits option.splits sum.splits)
    then show ?thesis using step Cons.IH gathered_Cons by blast
  qed
qed

lemma collect_gathered: "collect n s C = Some (Inr C') \<Longrightarrow> gathered (succ s) C C'"
proof (induction n arbitrary: s C C')
  case 0
  then show ?case by (simp add: collect_0)
next
  case (Suc n)
  then have "each n s (succ s) C = Some (Inr C')" by (simp add: collect_Suc)
  then show ?case by (rule each_gathered_step [rotated]) (rule Suc.IH)
qed

lemma each_error_step:
  assumes step: "\<And>s C e. collect n s C = Some (Inl e) \<Longrightarrow>
      \<exists>x d. e = unknown x d \<and> (s, x) \<in> (edges_of succ)\<^sup>* \<and> d \<in> set (succ x) \<and> \<not> known d"
  shows "set ds \<subseteq> set (succ s) \<Longrightarrow> each n s ds C = Some (Inl e) \<Longrightarrow>
      \<exists>x d. e = unknown x d \<and> (s, x) \<in> (edges_of succ)\<^sup>* \<and> d \<in> set (succ x) \<and> \<not> known d"
proof (induction ds arbitrary: C)
  case Nil
  then show ?case by (simp add: each_Nil)
next
  case (Cons d ds)
  consider "d \<in> set C" | "d \<notin> set C" "\<not> known d" | C1 where "d \<notin> set C" "known d"
      "collect n d (hs_insert d C) = Some (Inr C1)"
    | "collect n d (hs_insert d C) = Some (Inl e)"
    using Cons.prems(2) by (auto simp: each_Cons split: if_splits option.splits sum.splits)
  then show ?case
  proof cases
    case 4
    from step [OF this] Cons.prems(1) show ?thesis by (auto intro: edges_reach)
  qed (use Cons in \<open>auto simp: each_Cons\<close>)
qed

lemma collect_error:
  "collect n s C = Some (Inl e) \<Longrightarrow>
     \<exists>x d. e = unknown x d \<and> (s, x) \<in> (edges_of succ)\<^sup>* \<and> d \<in> set (succ x) \<and> \<not> known d"
proof (induction n arbitrary: s C e)
  case 0
  then show ?case by (simp add: collect_0)
next
  case (Suc n)
  then have "each n s (succ s) C = Some (Inl e)" by (simp add: collect_Suc)
  then show ?case by (rule each_error_step [rotated 2]) (auto dest: Suc.IH)
qed

lemma each_returns_step:
  assumes step: "\<And>s C. s \<in> N \<Longrightarrow> card (N - set C) < n \<Longrightarrow> collect n s C \<noteq> None"
    and fin: "finite N"
  shows "set ds \<subseteq> N \<Longrightarrow> card (N - set C) \<le> n \<Longrightarrow> each n s ds C \<noteq> None"
proof (induction ds arbitrary: C)
  case Nil
  then show ?case by (simp add: each_Nil)
next
  case (Cons d ds)
  show ?case
  proof (cases "d \<in> set C")
    case True
    with Cons show ?thesis by (auto simp: each_Cons)
  next
    case False
    have "N - set (hs_insert d C) = (N - set C) - {d}" by auto
    moreover have "card (N - set C - {d}) < card (N - set C)"
      using fin False Cons.prems(1) by (intro card_Diff1_less) auto
    ultimately have "collect n d (hs_insert d C) \<noteq> None" using step Cons.prems by simp
    moreover have "each n s ds C1 \<noteq> None" if "collect n d (hs_insert d C) = Some (Inr C1)" for C1
    proof (rule Cons.IH)
      from collect_gathered [OF that] have "N - set C1 \<subseteq> N - set C" by (auto simp: gathered_def)
      then show "card (N - set C1) \<le> n" using fin Cons.prems(2)
        by (meson card_mono finite_Diff order_trans)
    qed (use Cons.prems in simp)
    ultimately show ?thesis using False by (auto simp: each_Cons split: option.splits sum.splits)
  qed
qed

lemma collect_returns:
  assumes fin: "finite N" and closed: "edges_of succ `` N \<subseteq> N"
  shows "s \<in> N \<Longrightarrow> card (N - set C) < n \<Longrightarrow> collect n s C \<noteq> None"
proof (induction n arbitrary: s C)
  case 0
  then show ?case by simp
next
  case (Suc n)
  have sub: "set (succ s) \<subseteq> N" using closed Suc.prems(1) by (auto simp: Image_def)
  show ?case unfolding collect_Suc
    by (rule each_returns_step [OF _ fin sub]) (use Suc in auto)
qed

text \<open>Gathering for a whole request: each requested node is added and its successors gathered.\<close>

fun gather :: "nat \<Rightarrow> 'a list \<Rightarrow> 'a list \<Rightarrow> ('e + 'a list) option" where
  "gather n [] C = Some (Inr C)"
| "gather n (s # ss) C =
     (case collect n s (hs_insert s C) of
        None \<Rightarrow> None
      | Some (Inl e) \<Rightarrow> Some (Inl e)
      | Some (Inr C') \<Rightarrow> gather n ss C')"

lemma gather_gathered: "gather n ss C = Some (Inr C') \<Longrightarrow> gathered ss C C'"
proof (induction ss arbitrary: C)
  case Nil
  then show ?case by (simp add: gathered_def)
next
  case (Cons s ss)
  then obtain C1 where "collect n s (hs_insert s C) = Some (Inr C1)" "gather n ss C1 = Some (Inr C')"
    by (auto split: option.splits sum.splits)
  then show ?case using collect_gathered Cons.IH gathered_Cons by blast
qed

lemma gathered_append:
  assumes a: "gathered as C C1" and b: "gathered bs C1 C'"
  shows "gathered (as @ bs) C C'"
proof -
  have "set (succ x) \<subseteq> set C'" if "x \<in> set C'" "x \<notin> set C" for x
  proof (cases "x \<in> set C1")
    case True
    with a that(2) have "set (succ x) \<subseteq> set C1" by (simp add: gathered_def)
    with b show ?thesis by (auto simp: gathered_def)
  next
    case False
    with b that(1) show ?thesis by (simp add: gathered_def)
  qed
  moreover have "(edges_of succ)\<^sup>* `` set (as @ bs) =
      (edges_of succ)\<^sup>* `` set as \<union> (edges_of succ)\<^sup>* `` set bs" by auto
  then have "set C' \<subseteq> set C \<union> (edges_of succ)\<^sup>* `` set (as @ bs)"
    using a b unfolding gathered_def by blast
  moreover have "distinct C \<longrightarrow> distinct C'" "set C \<subseteq> set C'" "set (as @ bs) \<subseteq> set C'"
    using a b by (auto simp: gathered_def)
  ultimately show ?thesis unfolding gathered_def by simp
qed

lemma gathered_empty:
  assumes g: "gathered ss [] C'"
  shows "distinct C'" and "set C' = (edges_of succ)\<^sup>* `` set ss"
proof -
  from g show "distinct C'" by (simp add: gathered_def)
  from g have "edges_of succ `` set C' \<subseteq> set C'" by (auto simp: gathered_def subset_iff)
  then have "(edges_of succ)\<^sup>* `` set ss \<subseteq> set C'"
    using rtrancl_closed [of "edges_of succ" "set C'"] g by (auto simp: gathered_def)
  with g show "set C' = (edges_of succ)\<^sup>* `` set ss" by (auto simp: gathered_def)
qed

lemmas gather_result = gathered_empty [OF gather_gathered]

lemma gather_error:
  "gather n ss C = Some (Inl e) \<Longrightarrow>
     \<exists>s\<in>set ss. \<exists>x d. e = unknown x d \<and> (s, x) \<in> (edges_of succ)\<^sup>* \<and> d \<in> set (succ x) \<and> \<not> known d"
proof (induction ss arbitrary: C)
  case Nil
  then show ?case by simp
next
  case (Cons s ss)
  then show ?case
    by (auto split: option.splits sum.splits dest: collect_error)
qed

lemma gather_returns:
  assumes fin: "finite N" and closed: "edges_of succ `` N \<subseteq> N"
  shows "set ss \<subseteq> N \<Longrightarrow> card N < n \<Longrightarrow> gather n ss C \<noteq> None"
proof (induction ss arbitrary: C)
  case Nil
  then show ?case by simp
next
  case (Cons s ss)
  have "card (N - set (hs_insert s C)) < n"
    using Cons.prems(2) card_mono [OF fin, of "N - set (hs_insert s C)"] by auto
  with collect_returns [OF fin closed] Cons.prems(1) have "collect n s (hs_insert s C) \<noteq> None" by simp
  with Cons show ?case by (auto split: option.splits sum.splits)
qed

end

end
