(* ===== verification/Cli_Deps.thy ===== *)
theory Cli_Deps
  imports Depth_First Cfg_Types "HOL-Library.List_Lexorder" "HOL-Library.Char_ord"
begin

text \<open>
  Dependency resolution of the CLI, \<^verbatim>\<open>crates/harness/src/commands/dependencies.rs\<close>: the
  dependency graph, the start order (\<open>topological_sort\<close>), the stop order
  (\<open>reverse_topological_sort\<close>) and the services a stop affects. The recursions carry fuel,
  \<open>None\<close> when it runs out; \<open>dep_fuel\<close> exceeds the number of names there are and is proved
  enough. The argument \<open>ord\<close> is the iteration order of a hash set, any function that keeps
  the elements of the list it is given.
\<close>

datatype dep_error =
    CircularDependency string
  | UnknownDependency string string

definition iteration_order :: "('a list \<Rightarrow> 'a list) \<Rightarrow> bool" where
  "iteration_order ord \<longleftrightarrow> (\<forall>xs. set (ord xs) = set xs)"

lemma iteration_order_set [simp]: "iteration_order ord \<Longrightarrow> set (ord xs) = set xs"
  by (simp add: iteration_order_def)

lemma iteration_order_rev: "iteration_order rev"
  by (simp add: iteration_order_def)

definition dep_names :: "Config \<Rightarrow> string list \<Rightarrow> string list" where
  "dep_names cfg services = hm_keys (cfg_services cfg) @
     concat (map svc_dependencies (hm_values (cfg_services cfg))) @ services"

definition dep_fuel :: "Config \<Rightarrow> string list \<Rightarrow> nat" where
  "dep_fuel cfg services = Suc (length (dep_names cfg services))"

section \<open>The dependency graph\<close>

definition add_dependent :: "string \<Rightarrow> (string, string list) hmap \<Rightarrow> string \<Rightarrow> (string, string list) hmap" where
  "add_dependent service_name graph dep =
     (case hm_get graph dep of
        None \<Rightarrow> graph
      | Some dependents \<Rightarrow> hm_insert dep (hs_insert service_name dependents) graph)"

definition build_dependency_graph :: "Config \<Rightarrow> (string, string list) hmap" where
  "build_dependency_graph cfg =
     foldl (\<lambda>graph (service_name, service).
              foldl (add_dependent service_name) graph (svc_dependencies service))
       (foldl (\<lambda>graph service_name. hm_insert service_name [] graph) []
          (hm_keys (cfg_services cfg)))
       (cfg_services cfg)"

definition dependents_of :: "(string, string list) hmap \<Rightarrow> string \<Rightarrow> string list" where
  "dependents_of graph s = (case hm_get graph s of None \<Rightarrow> [] | Some ds \<Rightarrow> ds)"

section \<open>Collecting dependents and dependencies\<close>

fun collect_dependents ::
    "nat \<Rightarrow> (string, string list) hmap \<Rightarrow> string \<Rightarrow> string list \<Rightarrow> string list option"
  and collect_dependents_each ::
    "nat \<Rightarrow> (string, string list) hmap \<Rightarrow> string list \<Rightarrow> string list \<Rightarrow> string list option" where
  "collect_dependents 0 graph service collected = None"
| "collect_dependents (Suc n) graph service collected =
     (case hm_get graph service of
        None \<Rightarrow> Some collected
      | Some dependents \<Rightarrow> collect_dependents_each n graph dependents collected)"
| "collect_dependents_each n graph [] collected = Some collected"
| "collect_dependents_each n graph (dependent # ds) collected =
     (if dependent \<in> set collected then collect_dependents_each n graph ds collected
      else (case collect_dependents n graph dependent (hs_insert dependent collected) of
              None \<Rightarrow> None
            | Some collected' \<Rightarrow> collect_dependents_each n graph ds collected'))"

fun collect_dependencies ::
    "nat \<Rightarrow> Config \<Rightarrow> string \<Rightarrow> string list \<Rightarrow> (dep_error + string list) option"
  and collect_dependencies_each ::
    "nat \<Rightarrow> Config \<Rightarrow> string \<Rightarrow> string list \<Rightarrow> string list \<Rightarrow> (dep_error + string list) option" where
  "collect_dependencies 0 cfg service collected = None"
| "collect_dependencies (Suc n) cfg service collected =
     (case hm_get (cfg_services cfg) service of
        None \<Rightarrow> Some (Inr collected)
      | Some service_config \<Rightarrow>
          collect_dependencies_each n cfg service (svc_dependencies service_config) collected)"
| "collect_dependencies_each n cfg service [] collected = Some (Inr collected)"
| "collect_dependencies_each n cfg service (dep # ds) collected =
     (if dep \<in> set collected then collect_dependencies_each n cfg service ds collected
      else if \<not> hm_has (cfg_services cfg) dep then Some (Inl (UnknownDependency service dep))
      else (case collect_dependencies n cfg dep (hs_insert dep collected) of
              None \<Rightarrow> None
            | Some (Inl e) \<Rightarrow> Some (Inl e)
            | Some (Inr collected') \<Rightarrow> collect_dependencies_each n cfg service ds collected'))"

section \<open>The two depth-first traversals\<close>

fun dfs_forward ::
    "nat \<Rightarrow> Config \<Rightarrow> string \<Rightarrow> string dfs_state \<Rightarrow> (dep_error + string dfs_state) option"
  and dfs_forward_each ::
    "nat \<Rightarrow> Config \<Rightarrow> string list \<Rightarrow> string dfs_state \<Rightarrow> (dep_error + string dfs_state) option" where
  "dfs_forward 0 cfg service st = None"
| "dfs_forward (Suc n) cfg service st =
     (if service \<in> visiting st then Some (Inl (CircularDependency service))
      else (case (case hm_get (cfg_services cfg) service of
                    None \<Rightarrow> Some (Inr (dfs_enter service st))
                  | Some service_config \<Rightarrow>
                      dfs_forward_each n cfg (svc_dependencies service_config) (dfs_enter service st)) of
              None \<Rightarrow> None
            | Some (Inl e) \<Rightarrow> Some (Inl e)
            | Some (Inr st') \<Rightarrow> Some (Inr (dfs_leave service st'))))"
| "dfs_forward_each n cfg [] st = Some (Inr st)"
| "dfs_forward_each n cfg (dep # ds) st =
     (if dep \<in> visited st then dfs_forward_each n cfg ds st
      else (case dfs_forward n cfg dep st of
              None \<Rightarrow> None
            | Some (Inl e) \<Rightarrow> Some (Inl e)
            | Some (Inr st') \<Rightarrow> dfs_forward_each n cfg ds st'))"

fun dfs_reverse ::
    "nat \<Rightarrow> (string, string list) hmap \<Rightarrow> string \<Rightarrow> string dfs_state \<Rightarrow>
      (dep_error + string dfs_state) option"
  and dfs_reverse_each ::
    "nat \<Rightarrow> (string, string list) hmap \<Rightarrow> string list \<Rightarrow> string dfs_state \<Rightarrow>
      (dep_error + string dfs_state) option" where
  "dfs_reverse 0 graph service st = None"
| "dfs_reverse (Suc n) graph service st =
     (if service \<in> visiting st then Some (Inl (CircularDependency service))
      else (case (case hm_get graph service of
                    None \<Rightarrow> Some (Inr (dfs_enter service st))
                  | Some dependents \<Rightarrow> dfs_reverse_each n graph dependents (dfs_enter service st)) of
              None \<Rightarrow> None
            | Some (Inl e) \<Rightarrow> Some (Inl e)
            | Some (Inr st') \<Rightarrow> Some (Inr (dfs_leave service st'))))"
| "dfs_reverse_each n graph [] st = Some (Inr st)"
| "dfs_reverse_each n graph (dependent # ds) st =
     (if dependent \<in> visited st then dfs_reverse_each n graph ds st
      else (case dfs_reverse n graph dependent st of
              None \<Rightarrow> None
            | Some (Inl e) \<Rightarrow> Some (Inl e)
            | Some (Inr st') \<Rightarrow> dfs_reverse_each n graph ds st'))"

section \<open>The entry points\<close>

fun gather_dependencies ::
    "nat \<Rightarrow> Config \<Rightarrow> string list \<Rightarrow> string list \<Rightarrow> (dep_error + string list) option" where
  "gather_dependencies n cfg [] to_start = Some (Inr to_start)"
| "gather_dependencies n cfg (service # ss) to_start =
     (case collect_dependencies n cfg service (hs_insert service to_start) of
        None \<Rightarrow> None
      | Some (Inl e) \<Rightarrow> Some (Inl e)
      | Some (Inr to_start') \<Rightarrow> gather_dependencies n cfg ss to_start')"

fun gather_dependents ::
    "nat \<Rightarrow> (string, string list) hmap \<Rightarrow> string list \<Rightarrow> string list \<Rightarrow> string list option" where
  "gather_dependents n graph [] to_stop = Some to_stop"
| "gather_dependents n graph (service # ss) to_stop =
     (case collect_dependents n graph service (hs_insert service to_stop) of
        None \<Rightarrow> None
      | Some to_stop' \<Rightarrow> gather_dependents n graph ss to_stop')"

definition topological_sort ::
    "(string list \<Rightarrow> string list) \<Rightarrow> Config \<Rightarrow> string list \<Rightarrow> (dep_error + string list) option" where
  "topological_sort ord cfg services =
     (let n = dep_fuel cfg services in
      case (if services = [] then Some (Inr (hm_keys (cfg_services cfg)))
            else map_option (map_sum id ord) (gather_dependencies n cfg services [])) of
        None \<Rightarrow> None
      | Some (Inl e) \<Rightarrow> Some (Inl e)
      | Some (Inr services_to_start) \<Rightarrow>
          map_option (map_sum id order) (dfs_forward_each n cfg services_to_start dfs_start))"

definition reverse_topological_sort ::
    "(string list \<Rightarrow> string list) \<Rightarrow> Config \<Rightarrow> string list \<Rightarrow> (dep_error + string list) option" where
  "reverse_topological_sort ord cfg services =
     (let n = dep_fuel cfg services; graph = build_dependency_graph cfg in
      case (if services = [] then Some (hm_keys (cfg_services cfg))
            else map_option ord (gather_dependents n graph services [])) of
        None \<Rightarrow> None
      | Some services_to_stop \<Rightarrow>
          map_option (map_sum id order) (dfs_reverse_each n graph services_to_stop dfs_start))"

fun gather_affected ::
    "nat \<Rightarrow> (string, string list) hmap \<Rightarrow> string list \<Rightarrow> string list \<Rightarrow> string list option" where
  "gather_affected n graph [] affected = Some affected"
| "gather_affected n graph (service # ss) affected =
     (case collect_dependents n graph service affected of
        None \<Rightarrow> None
      | Some affected' \<Rightarrow> gather_affected n graph ss affected')"

definition get_affected_services :: "Config \<Rightarrow> string list \<Rightarrow> string list option" where
  "get_affected_services cfg services =
     map_option (\<lambda>affected. sort (foldl (\<lambda>acc s. hs_remove s acc) affected services))
       (gather_affected (dep_fuel cfg services) (build_dependency_graph cfg) services [])"

section \<open>The graph inverts the dependencies\<close>

lemma dependents_of_insert:
  "dependents_of (hm_insert d ds g) d' = (if d' = d then ds else dependents_of g d')"
  by (simp add: dependents_of_def)

lemma add_dependent_has [simp]: "hm_has (add_dependent s g dep) d = hm_has g d"
  by (auto simp: add_dependent_def hm_has_iff split: option.splits)

lemma add_dependent_set:
  "set (dependents_of (add_dependent s g dep) d) =
     set (dependents_of g d) \<union> (if d = dep \<and> hm_has g d then {s} else {})"
  by (auto simp: add_dependent_def hm_has_iff dependents_of_def split: option.splits)

lemma add_dependents_has [simp]: "hm_has (foldl (add_dependent s) g deps) d = hm_has g d"
  by (induction deps arbitrary: g) simp_all

lemma add_dependents_set:
  "set (dependents_of (foldl (add_dependent s) g deps) d) =
     set (dependents_of g d) \<union> (if d \<in> set deps \<and> hm_has g d then {s} else {})"
  by (induction deps arbitrary: g) (auto simp: add_dependent_set)

lemma graph_fold_set:
  "set (dependents_of (foldl (\<lambda>g (s, svc). foldl (add_dependent s) g (svc_dependencies svc)) g svcs) d) =
     set (dependents_of g d) \<union> {s. hm_has g d \<and> (\<exists>svc. (s, svc) \<in> set svcs \<and> d \<in> set (svc_dependencies svc))}"
  by (induction svcs arbitrary: g) (auto simp: add_dependents_set split: if_splits)

lemma graph_init:
  "hm_has (foldl (\<lambda>g s. hm_insert s [] g) g keys) d \<longleftrightarrow> d \<in> set keys \<or> hm_has g d"
  "dependents_of (foldl (\<lambda>g s. hm_insert s [] g) g keys) d =
     (if d \<in> set keys then [] else dependents_of g d)"
  by (induction keys arbitrary: g) (auto simp: dependents_of_insert)

lemma cfg_deps_iff_mem:
  assumes "hm_wf (cfg_services cfg)"
  shows "d \<in> set (cfg_deps cfg s) \<longleftrightarrow>
    (\<exists>svc. (s, svc) \<in> set (cfg_services cfg) \<and> d \<in> set (svc_dependencies svc))"
  using assms by (cases "hm_get (cfg_services cfg) s") (auto simp: cfg_deps_def simp flip: hm_get_iff_mem)

lemma graph_dependents:
  assumes "hm_wf (cfg_services cfg)"
  shows "s \<in> set (dependents_of (build_dependency_graph cfg) d) \<longleftrightarrow>
    hm_has (cfg_services cfg) d \<and> d \<in> set (cfg_deps cfg s)"
  using assms by (auto simp: build_dependency_graph_def graph_fold_set graph_init cfg_deps_iff_mem)
    (auto simp: dependents_of_def)

section \<open>The traversals as instances of the generic ones\<close>

interpretation fwd: depth_first "cfg_deps cfg" CircularDependency
  "\<lambda>n. dfs_forward n cfg" "\<lambda>n. dfs_forward_each n cfg" for cfg
  by unfold_locales (auto simp: cfg_deps_def split: option.splits)

interpretation bwd: depth_first "dependents_of graph" CircularDependency
  "\<lambda>n. dfs_reverse n graph" "\<lambda>n. dfs_reverse_each n graph" for graph
  by unfold_locales (auto simp: dependents_of_def split: option.splits)

interpretation fwdc: reach_collect "cfg_deps cfg" "hm_has (cfg_services cfg)" UnknownDependency
  "\<lambda>n. collect_dependencies n cfg" "\<lambda>n. collect_dependencies_each n cfg" for cfg
  by unfold_locales (auto simp: cfg_deps_def split: option.splits)

interpretation bwdc: reach_collect "dependents_of graph" "\<lambda>_. True" UnknownDependency
  "\<lambda>n s C. map_option Inr (collect_dependents n graph s C)"
  "\<lambda>n _ ds C. map_option Inr (collect_dependents_each n graph ds C)" for graph
  by unfold_locales (auto simp: dependents_of_def split: option.splits)

lemma gather_dependencies_eq: "gather_dependencies n cfg ss C = fwdc.gather cfg n ss C"
  by (induction ss arbitrary: C) (auto split: option.splits sum.splits)

lemma gather_dependents_eq: "map_option Inr (gather_dependents n g ss C) = bwdc.gather g n ss C"
  by (induction ss arbitrary: C) (auto split: option.splits sum.splits)

section \<open>The fuel is enough\<close>

lemma dep_names_closed:
  assumes "hm_wf (cfg_services cfg)"
  shows "edges_of (cfg_deps cfg) `` set (dep_names cfg ss) \<subseteq> set (dep_names cfg ss)"
  using assms by (force simp: dep_names_def cfg_deps_iff_mem hm_values_def)

lemma dep_names_closed_reverse:
  assumes "hm_wf (cfg_services cfg)"
  shows "edges_of (dependents_of (build_dependency_graph cfg)) `` set (dep_names cfg ss)
    \<subseteq> set (dep_names cfg ss)"
  using assms by (auto simp: dep_names_def graph_dependents cfg_deps_def hm_has_iff split: option.splits)

lemma dep_fuel_card: "card (set (dep_names cfg ss)) < dep_fuel cfg ss"
  unfolding dep_fuel_def using card_length le_imp_less_Suc by blast

lemma dep_fuel_diff: "card (set (dep_names cfg ss) - A) < dep_fuel cfg ss"
  using dep_fuel_card [of cfg ss] card_mono [of "set (dep_names cfg ss)" "set (dep_names cfg ss) - A"]
  by auto

section \<open>What the sorts compute\<close>

definition requested :: "Config \<Rightarrow> string list \<Rightarrow> string list" where
  "requested cfg services = (if services = [] then hm_keys (cfg_services cfg) else services)"

definition deps_known :: "Config \<Rightarrow> bool" where
  "deps_known cfg \<longleftrightarrow> (\<forall>svc\<in>set (hm_values (cfg_services cfg)).
     \<forall>d\<in>set (svc_dependencies svc). hm_has (cfg_services cfg) d)"

definition cycle_from :: "('a \<Rightarrow> 'a list) \<Rightarrow> 'a list \<Rightarrow> bool" where
  "cycle_from succ ss \<longleftrightarrow>
     (\<exists>s\<in>set ss. \<exists>x. (s, x) \<in> (edges_of succ)\<^sup>* \<and> (x, x) \<in> (edges_of succ)\<^sup>+)"

abbreviation dependents :: "Config \<Rightarrow> string \<Rightarrow> string list" where
  "dependents cfg \<equiv> dependents_of (build_dependency_graph cfg)"

lemma deps_knownD: "deps_known cfg \<Longrightarrow> d \<in> set (cfg_deps cfg s) \<Longrightarrow> hm_has (cfg_services cfg) d"
  by (cases "hm_get (cfg_services cfg) s") (auto simp: deps_known_def dest: hm_get_value)

lemma requested_in_names: "set (requested cfg ss) \<subseteq> set (dep_names cfg ss)"
  by (auto simp: requested_def dep_names_def)

lemma reach_in_names:
  assumes "edges_of succ `` N \<subseteq> N" and "set ss \<subseteq> N"
  shows "(edges_of succ)\<^sup>* `` set ss \<subseteq> N"
  using rtrancl_closed [OF assms(1)] assms(2) by auto

lemma reach_reach: "r\<^sup>* `` (r\<^sup>* `` A) = r\<^sup>* `` A"
  by (auto simp flip: relcomp_Image)

lemma cycle_from_reach:
  "set ys = (edges_of succ)\<^sup>* `` set ss \<Longrightarrow> cycle_from succ ys = cycle_from succ ss"
  unfolding cycle_from_def by (metis ImageE ImageI rtrancl.rtrancl_refl rtrancl_trans)

text \<open>The nodes the forward sort visits, when gathering them succeeds.\<close>

definition start_nodes ::
    "(string list \<Rightarrow> string list) \<Rightarrow> Config \<Rightarrow> string list \<Rightarrow> (dep_error + string list) option" where
  "start_nodes ord cfg ss =
     (if ss = [] then Some (Inr (hm_keys (cfg_services cfg)))
      else map_option (map_sum id ord) (fwdc.gather cfg (dep_fuel cfg ss) ss []))"

lemma topological_sort_eq:
  "topological_sort ord cfg ss =
     (case start_nodes ord cfg ss of
        None \<Rightarrow> None
      | Some (Inl e) \<Rightarrow> Some (Inl e)
      | Some (Inr ns) \<Rightarrow> map_option (map_sum id order) (dfs_forward_each (dep_fuel cfg ss) cfg ns dfs_start))"
  by (simp add: topological_sort_def start_nodes_def gather_dependencies_eq Let_def)

lemma start_nodes_returns: "hm_wf (cfg_services cfg) \<Longrightarrow> start_nodes ord cfg ss \<noteq> None"
  using fwdc.gather_returns [OF _ dep_names_closed [of cfg ss], of ss "dep_fuel cfg ss" "[]"] dep_fuel_card
  by (auto simp: start_nodes_def dep_names_def)

lemma start_nodes_reach:
  assumes ord: "iteration_order ord" and ns: "start_nodes ord cfg ss = Some (Inr ns)"
  shows "(edges_of (cfg_deps cfg))\<^sup>* `` set ns = (edges_of (cfg_deps cfg))\<^sup>* `` set (requested cfg ss)"
proof (cases "ss = []")
  case True
  with ns show ?thesis by (auto simp: start_nodes_def requested_def)
next
  case False
  with ns obtain C where C: "fwdc.gather cfg (dep_fuel cfg ss) ss [] = Some (Inr C)" and "ns = ord C"
    by (auto simp: start_nodes_def)
  with ord fwdc.gather_result(2) [OF C] False show ?thesis by (simp add: requested_def reach_reach)
qed

lemma start_nodes_error:
  "start_nodes ord cfg ss = Some (Inl e) \<Longrightarrow>
     \<exists>x d. e = UnknownDependency x d \<and> x \<in> (edges_of (cfg_deps cfg))\<^sup>* `` set (requested cfg ss) \<and>
       d \<in> set (cfg_deps cfg x) \<and> \<not> hm_has (cfg_services cfg) d"
  by (fastforce simp: start_nodes_def requested_def split: if_splits dest!: fwdc.gather_error)

lemma dfs_forward_returns:
  assumes "hm_wf (cfg_services cfg)" and "iteration_order ord" and "start_nodes ord cfg ss = Some (Inr ns)"
  shows "dfs_forward_each (dep_fuel cfg ss) cfg ns dfs_start \<noteq> None"
proof (rule fwd.visit_returns)
  show "set ns \<subseteq> set (dep_names cfg ss)"
    using reach_in_names [OF dep_names_closed [OF assms(1)] requested_in_names]
      start_nodes_reach [OF assms(2,3)] by blast
  show "card (set (dep_names cfg ss) - visiting dfs_start) < dep_fuel cfg ss" by (rule dep_fuel_diff)
qed (use dep_names_closed [OF assms(1)] in auto)

definition stop_nodes :: "(string list \<Rightarrow> string list) \<Rightarrow> Config \<Rightarrow> string list \<Rightarrow> string list option" where
  "stop_nodes ord cfg ss =
     (if ss = [] then Some (hm_keys (cfg_services cfg))
      else map_option ord (gather_dependents (dep_fuel cfg ss) (build_dependency_graph cfg) ss []))"

lemma reverse_topological_sort_eq:
  "reverse_topological_sort ord cfg ss =
     (case stop_nodes ord cfg ss of
        None \<Rightarrow> None
      | Some ns \<Rightarrow> map_option (map_sum id order)
          (dfs_reverse_each (dep_fuel cfg ss) (build_dependency_graph cfg) ns dfs_start))"
  by (simp add: reverse_topological_sort_def stop_nodes_def Let_def)

lemma stop_nodes_returns: "hm_wf (cfg_services cfg) \<Longrightarrow> stop_nodes ord cfg ss \<noteq> None"
  using bwdc.gather_returns [OF _ dep_names_closed_reverse [of cfg ss], of ss "dep_fuel cfg ss" "[]"]
    dep_fuel_card [of cfg ss]
  by (auto simp: stop_nodes_def dep_names_def simp flip: gather_dependents_eq)

lemma stop_nodes_reach:
  assumes ord: "iteration_order ord" and ns: "stop_nodes ord cfg ss = Some ns"
  shows "(edges_of (dependents cfg))\<^sup>* `` set ns = (edges_of (dependents cfg))\<^sup>* `` set (requested cfg ss)"
proof (cases "ss = []")
  case True
  with ns show ?thesis by (auto simp: stop_nodes_def requested_def)
next
  case False
  with ns obtain C where C: "gather_dependents (dep_fuel cfg ss) (build_dependency_graph cfg) ss [] = Some C"
    and "ns = ord C"
    by (auto simp: stop_nodes_def)
  from C have "bwdc.gather (build_dependency_graph cfg) (dep_fuel cfg ss) ss [] = Some (Inr C)"
    by (simp flip: gather_dependents_eq)
  from ord bwdc.gather_result(2) [OF this] False \<open>ns = ord C\<close>
  show ?thesis by (simp add: requested_def reach_reach)
qed

lemma dfs_reverse_returns:
  assumes "hm_wf (cfg_services cfg)" and "iteration_order ord" and "stop_nodes ord cfg ss = Some ns"
  shows "dfs_reverse_each (dep_fuel cfg ss) (build_dependency_graph cfg) ns dfs_start \<noteq> None"
proof (rule bwd.visit_returns)
  show "set ns \<subseteq> set (dep_names cfg ss)"
    using reach_in_names [OF dep_names_closed_reverse [OF assms(1)] requested_in_names]
      stop_nodes_reach [OF assms(2,3)] by blast
  show "card (set (dep_names cfg ss) - visiting dfs_start) < dep_fuel cfg ss" by (rule dep_fuel_diff)
qed (use dep_names_closed_reverse [OF assms(1)] in auto)

lemma cycle_from_same_reach:
  "(edges_of succ)\<^sup>* `` set xs = (edges_of succ)\<^sup>* `` set ys \<Longrightarrow> cycle_from succ xs = cycle_from succ ys"
  unfolding cycle_from_def by blast

lemma cycle_from_keys:
  "cycle_from (cfg_deps cfg) (hm_keys (cfg_services cfg)) \<longleftrightarrow>
     (\<exists>x. (x, x) \<in> (edges_of (cfg_deps cfg))\<^sup>+)"
proof
  assume "\<exists>x. (x, x) \<in> (edges_of (cfg_deps cfg))\<^sup>+"
  then obtain x where x: "(x, x) \<in> (edges_of (cfg_deps cfg))\<^sup>+" by blast
  then have "cfg_deps cfg x \<noteq> []" by (auto dest: tranclD)
  then have "hm_has (cfg_services cfg) x" by (auto simp: cfg_deps_def hm_has_iff split: option.splits)
  with x show "cycle_from (cfg_deps cfg) (hm_keys (cfg_services cfg))"
    unfolding cycle_from_def by auto
qed (auto simp: cycle_from_def)

lemma graph_edges_converse:
  assumes "hm_wf (cfg_services cfg)" and "deps_known cfg"
  shows "edges_of (dependents cfg) = (edges_of (cfg_deps cfg))\<inverse>"
  using assms by (auto simp: edges_of_def graph_dependents dest: deps_knownD)

lemma cycle_from_keys_reverse:
  assumes wf: "hm_wf (cfg_services cfg)" and known: "deps_known cfg"
  shows "cycle_from (dependents cfg) (hm_keys (cfg_services cfg)) \<longleftrightarrow>
    cycle_from (cfg_deps cfg) (hm_keys (cfg_services cfg))"
proof -
  have "(\<exists>x. (x, x) \<in> (edges_of (dependents cfg))\<^sup>+) \<longleftrightarrow> (\<exists>x. (x, x) \<in> (edges_of (cfg_deps cfg))\<^sup>+)"
    by (simp add: graph_edges_converse [OF wf known] trancl_converse)
  moreover have "hm_has (cfg_services cfg) x" if "(x, x) \<in> (edges_of (dependents cfg))\<^sup>+" for x
    using that wf by (auto dest!: tranclD simp: graph_dependents)
  ultimately show ?thesis
    unfolding cycle_from_keys by (auto simp: cycle_from_def)
qed

lemma gather_affected_gathered:
  "gather_affected n g ss C = Some C' \<Longrightarrow>
     bwdc.gathered g (concat (map (dependents_of g) ss)) C C'"
proof (induction ss arbitrary: C)
  case Nil
  then show ?case by (simp add: bwdc.gathered_def)
next
  case (Cons s ss)
  then obtain C1 where "collect_dependents n g s C = Some C1" "gather_affected n g ss C1 = Some C'"
    by (auto split: option.splits)
  with bwdc.collect_gathered [of n g s C C1] Cons.IH bwdc.gathered_append show ?case by auto
qed

lemma gather_affected_returns:
  assumes "finite N" and "edges_of (dependents_of g) `` N \<subseteq> N"
  shows "set ss \<subseteq> N \<Longrightarrow> card N < n \<Longrightarrow> gather_affected n g ss C \<noteq> None"
proof (induction ss arbitrary: C)
  case Nil
  then show ?case by simp
next
  case (Cons s ss)
  have "card (N - set C) < n" using Cons.prems(2) card_mono [OF assms(1), of "N - set C"] by auto
  with bwdc.collect_returns [OF assms, of s C n] Cons.prems(1)
  have "collect_dependents n g s C \<noteq> None" by simp
  with Cons show ?case by (auto split: option.splits)
qed

lemma remove_all_requested:
  "set (foldl (\<lambda>acc s. hs_remove s acc) xs ss) = set xs - set ss"
  "distinct xs \<Longrightarrow> distinct (foldl (\<lambda>acc s. hs_remove s acc) xs ss)"
  by (induction ss arbitrary: xs) auto

lemma reach_of_successors:
  "(edges_of succ)\<^sup>* `` set (concat (map succ ss)) = (edges_of succ)\<^sup>+ `` set ss" (is "?l = ?r")
proof
  show "?l \<subseteq> ?r" by (auto intro: rtrancl_into_trancl2 [OF iffD2 [OF edges_of_iff]])
  show "?r \<subseteq> ?l" by (force dest!: tranclD)
qed

section \<open>Properties\<close>

lemma start_order:
  assumes wf: "hm_wf (cfg_services cfg)" and ord: "iteration_order ord"
    and ok: "topological_sort ord cfg services = Some (Inr result)"
  shows "distinct result \<and>
    set result = (edges_of (cfg_deps cfg))\<^sup>* `` set (requested cfg services) \<and>
    (\<forall>i<length result. \<forall>d\<in>set (cfg_deps cfg (result ! i)). \<exists>j<i. result ! j = d)"
proof -
  from ok obtain ns st where ns: "start_nodes ord cfg services = Some (Inr ns)"
    and st: "dfs_forward_each (dep_fuel cfg services) cfg ns dfs_start = Some (Inr st)" "result = order st"
    by (auto simp: topological_sort_eq split: option.splits sum.splits)
  show ?thesis
    using fwd.sort_result [OF st(1)] deps_first_index start_nodes_reach [OF ord ns] st(2) by fastforce
qed

lemma start_sort_returns:
  assumes wf: "hm_wf (cfg_services cfg)" and ord: "iteration_order ord"
  shows "topological_sort ord cfg ss \<noteq> None"
proof -
  from start_nodes_returns [OF wf] obtain r where r: "start_nodes ord cfg ss = Some r" by blast
  show ?thesis using dfs_forward_returns [OF wf ord] r by (cases r) (auto simp: topological_sort_eq)
qed

lemma stop_sort_returns:
  assumes wf: "hm_wf (cfg_services cfg)" and ord: "iteration_order ord"
  shows "reverse_topological_sort ord cfg ss \<noteq> None"
  using stop_nodes_returns [OF wf] dfs_reverse_returns [OF wf ord]
  by (auto simp: reverse_topological_sort_eq split: option.splits)

text \<open>
  C1. The start order. Whatever the hash set's iteration order, a start order that
  \<open>topological_sort\<close> returns has no duplicate, holds exactly the requested services and
  everything they depend on, directly or not, and puts every dependency of a service at an
  earlier index than the service.
\<close>

theorem topological_sort_order:
  assumes wf: "hm_wf (cfg_services cfg)" and ord: "iteration_order ord"
    and ok: "topological_sort ord cfg services = Some (Inr result)"
  shows "distinct result \<and>
    set result = (edges_of (cfg_deps cfg))\<^sup>* `` set (requested cfg services) \<and>
    (\<forall>i<length result. \<forall>d\<in>set (cfg_deps cfg (result ! i)). \<exists>j<i. result ! j = d)"
  by (rule start_order [OF assms])

theorem topological_sort_order_witness:
  "\<exists>result. topological_sort rev (plain_config [(''app'', [''api'']), (''api'', [''db'']), (''db'', [])]) [''app'']
      = Some (Inr result) \<and> distinct result \<and> result = [''db'', ''api'', ''app'']"
proof -
  let ?c = "plain_config [(''app'', [''api'']), (''api'', [''db'']), (''db'', [])]"
  have ok: "topological_sort rev ?c [''app''] = Some (Inr [''db'', ''api'', ''app''])" by code_simp
  have wf: "hm_wf (cfg_services ?c)" by (simp add: hm_wf_def)
  show ?thesis using topological_sort_order [OF wf iteration_order_rev ok] ok by blast
qed


lemma start_decides:
  assumes wf: "hm_wf (cfg_services cfg)" and ord: "iteration_order ord"
  shows "(\<exists>r. topological_sort ord cfg services = Some r) \<and>
    (\<forall>e. topological_sort ord cfg services = Some (Inl e) \<longrightarrow>
       (\<exists>x\<in>(edges_of (cfg_deps cfg))\<^sup>* `` set (requested cfg services).
          e = CircularDependency x \<and> (x, x) \<in> (edges_of (cfg_deps cfg))\<^sup>+ \<or>
          (\<exists>d\<in>set (cfg_deps cfg x). e = UnknownDependency x d \<and> \<not> hm_has (cfg_services cfg) d))) \<and>
    (deps_known cfg \<longrightarrow>
       (\<exists>e. topological_sort ord cfg services = Some (Inl e)) = cycle_from (cfg_deps cfg) (requested cfg services))"
proof -
  from start_nodes_returns [OF wf] obtain r where r: "start_nodes ord cfg services = Some r" by blast
  show ?thesis
  proof (cases r)
    case (Inl e)
    with r have s: "start_nodes ord cfg services = Some (Inl e)" by simp
    from start_nodes_error [OF s] obtain x d where
      e: "e = UnknownDependency x d" "x \<in> (edges_of (cfg_deps cfg))\<^sup>* `` set (requested cfg services)"
        "d \<in> set (cfg_deps cfg x)" "\<not> hm_has (cfg_services cfg) d" by blast
    then have "\<not> deps_known cfg" by (auto dest: deps_knownD)
    with s e show ?thesis by (auto simp: topological_sort_eq)
  next
    case (Inr ns)
    with r have s: "start_nodes ord cfg services = Some (Inr ns)" by simp
    let ?v = "dfs_forward_each (dep_fuel cfg services) cfg ns dfs_start"
    have v: "?v \<noteq> None" by (rule dfs_forward_returns [OF wf ord s])
    have eq: "topological_sort ord cfg services = map_option (map_sum id order) ?v"
      by (simp add: topological_sort_eq s)
    have same: "cycle_from (cfg_deps cfg) ns = cycle_from (cfg_deps cfg) (requested cfg services)"
      by (rule cycle_from_same_reach [OF start_nodes_reach [OF ord s]])
    have iff: "(\<exists>e. ?v = Some (Inl e)) = cycle_from (cfg_deps cfg) (requested cfg services)"
      using fwd.sort_fails_iff [OF v] same by (simp add: cycle_from_def)
    have err: "\<exists>x\<in>(edges_of (cfg_deps cfg))\<^sup>* `` set (requested cfg services).
        e = CircularDependency x \<and> (x, x) \<in> (edges_of (cfg_deps cfg))\<^sup>+" if "?v = Some (Inl e)" for e
      using fwd.sort_error_names_cycle [OF that] start_nodes_reach [OF ord s] by blast
    from v iff err show ?thesis unfolding eq by fastforce
  qed
qed

text \<open>
  C2. When the start order exists. The sort always answers. An error is a circular dependency
  at a service that the request reaches and that lies on a dependency cycle itself, or an
  undefined dependency of a service that the request reaches; and if every dependency is
  defined the sort fails exactly when the request reaches a cycle.
\<close>

theorem topological_sort_decides:
  assumes wf: "hm_wf (cfg_services cfg)" and ord: "iteration_order ord"
  shows "(\<exists>r. topological_sort ord cfg services = Some r) \<and>
    (\<forall>e. topological_sort ord cfg services = Some (Inl e) \<longrightarrow>
       (\<exists>x\<in>(edges_of (cfg_deps cfg))\<^sup>* `` set (requested cfg services).
          e = CircularDependency x \<and> (x, x) \<in> (edges_of (cfg_deps cfg))\<^sup>+ \<or>
          (\<exists>d\<in>set (cfg_deps cfg x). e = UnknownDependency x d \<and> \<not> hm_has (cfg_services cfg) d))) \<and>
    (deps_known cfg \<longrightarrow>
       (\<exists>e. topological_sort ord cfg services = Some (Inl e)) = cycle_from (cfg_deps cfg) (requested cfg services))"
  by (rule start_decides [OF wf ord])

theorem topological_sort_decides_witness:
  "\<exists>e. topological_sort rev (plain_config [(''a'', [''b'']), (''b'', [''c'']), (''c'', [''b'']),
        (''x'', [''x''])]) [''a''] = Some (Inl e) \<and> e = CircularDependency ''c'' \<and>
     (''c'', ''c'') \<in> (edges_of (cfg_deps (plain_config [(''a'', [''b'']), (''b'', [''c'']), (''c'', [''b'']),
        (''x'', [''x''])])))\<^sup>+"
proof -
  let ?c = "plain_config [(''a'', [''b'']), (''b'', [''c'']), (''c'', [''b'']), (''x'', [''x''])]"
  have wf: "hm_wf (cfg_services ?c)" by (simp add: hm_wf_def)
  have r: "topological_sort rev ?c [''a''] = Some (Inl (CircularDependency ''c''))" by code_simp
  show ?thesis using topological_sort_decides [OF wf iteration_order_rev, of "[''a'']"] r by auto
qed

lemma stop_order:
  assumes wf: "hm_wf (cfg_services cfg)" and ord: "iteration_order ord"
    and ok: "reverse_topological_sort ord cfg services = Some (Inr result)"
  shows "distinct result \<and>
    set result = (edges_of (dependents cfg))\<^sup>* `` set (requested cfg services) \<and>
    (\<forall>i<length result. \<forall>s. hm_has (cfg_services cfg) (result ! i) \<and> result ! i \<in> set (cfg_deps cfg s) \<longrightarrow>
       (\<exists>j<i. result ! j = s))"
proof -
  from ok obtain ns st where ns: "stop_nodes ord cfg services = Some ns"
    and st: "dfs_reverse_each (dep_fuel cfg services) (build_dependency_graph cfg) ns dfs_start = Some (Inr st)"
      "result = order st"
    by (auto simp: reverse_topological_sort_eq split: option.splits)
  show ?thesis
    using bwd.sort_result [OF st(1)] deps_first_index stop_nodes_reach [OF ord ns] st(2)
      graph_dependents [OF wf] by fastforce
qed

text \<open>
  The stop order. A stop order has no duplicate, holds exactly the requested services and
  everything that depends on them, directly or not, and puts every configured service that
  depends on a member of it at an earlier index than that member.
\<close>

theorem reverse_topological_sort_order:
  assumes wf: "hm_wf (cfg_services cfg)" and ord: "iteration_order ord"
    and ok: "reverse_topological_sort ord cfg services = Some (Inr result)"
  shows "distinct result \<and>
    set result = (edges_of (dependents cfg))\<^sup>* `` set (requested cfg services) \<and>
    (\<forall>i<length result. \<forall>s. hm_has (cfg_services cfg) (result ! i) \<and> result ! i \<in> set (cfg_deps cfg s) \<longrightarrow>
       (\<exists>j<i. result ! j = s))"
  by (rule stop_order [OF assms])

theorem reverse_topological_sort_order_witness:
  "\<exists>result. reverse_topological_sort rev (plain_config [(''app'', [''api'']), (''api'', [''db'']), (''db'', [])]) [''db'']
      = Some (Inr result) \<and> distinct result \<and> result = [''app'', ''api'', ''db'']"
proof -
  let ?c = "plain_config [(''app'', [''api'']), (''api'', [''db'']), (''db'', [])]"
  have ok: "reverse_topological_sort rev ?c [''db''] = Some (Inr [''app'', ''api'', ''db''])" by code_simp
  have wf: "hm_wf (cfg_services ?c)" by (simp add: hm_wf_def)
  show ?thesis using reverse_topological_sort_order [OF wf iteration_order_rev ok] ok by blast
qed

text \<open>
  A configuration whose dependencies are all defined can be started as a whole exactly
  when it can be stopped as a whole: both sorts answer, and one reports a cycle exactly when
  the other does.
\<close>

theorem start_stop_duality:
  assumes wf: "hm_wf (cfg_services cfg)" and known: "deps_known cfg"
    and ord: "iteration_order ord" "iteration_order ord'"
  shows "\<exists>r r'. topological_sort ord cfg [] = Some r \<and> reverse_topological_sort ord' cfg [] = Some r' \<and>
    is_ok r = is_ok r' \<and> is_ok r = (\<nexists>x. (x, x) \<in> (edges_of (cfg_deps cfg))\<^sup>+)"
proof -
  have s: "start_nodes ord cfg [] = Some (Inr (hm_keys (cfg_services cfg)))"
    "stop_nodes ord' cfg [] = Some (hm_keys (cfg_services cfg))"
    by (simp_all add: start_nodes_def stop_nodes_def)
  note f = dfs_forward_returns [OF wf ord(1) s(1)] and b = dfs_reverse_returns [OF wf ord(2) s(2)]
  have c: "cycle_from (dependents cfg) (hm_keys (cfg_services cfg)) = (\<exists>x. (x, x) \<in> (edges_of (cfg_deps cfg))\<^sup>+)"
    "cycle_from (cfg_deps cfg) (hm_keys (cfg_services cfg)) = (\<exists>x. (x, x) \<in> (edges_of (cfg_deps cfg))\<^sup>+)"
    by (simp_all only: cycle_from_keys_reverse [OF wf known] cycle_from_keys)
  from f obtain y where y: "dfs_forward_each (dep_fuel cfg []) cfg (hm_keys (cfg_services cfg)) dfs_start = Some y"
    by blast
  from b obtain y' where y': "dfs_reverse_each (dep_fuel cfg []) (build_dependency_graph cfg)
      (hm_keys (cfg_services cfg)) dfs_start = Some y'" by blast
  have "is_ok y = (\<nexists>x. (x, x) \<in> (edges_of (cfg_deps cfg))\<^sup>+)"
    using fwd.sort_fails_iff [OF f] c(2) y by (cases y) (auto simp: cycle_from_def)
  moreover have "is_ok y' = (\<nexists>x. (x, x) \<in> (edges_of (cfg_deps cfg))\<^sup>+)"
    using bwd.sort_fails_iff [OF b] c(1) y' by (cases y') (auto simp: cycle_from_def)
  moreover have "is_ok (map_sum id order z) = is_ok z" for z :: "dep_error + string dfs_state"
    by (cases z) simp_all
  ultimately show ?thesis
    by (simp add: topological_sort_eq reverse_topological_sort_eq s y y')
qed

theorem start_stop_duality_witness:
  "\<exists>r. topological_sort rev (plain_config [(''api'', [''db'']), (''db'', [])]) [] = Some r \<and> is_ok r"
proof -
  let ?c = "plain_config [(''api'', [''db'']), (''db'', [])]"
  have wf: "hm_wf (cfg_services ?c)" and known: "deps_known ?c"
    by (simp_all add: hm_wf_def deps_known_def hm_has_def hm_values_def plain_service_def)
  have ok: "topological_sort rev ?c [] = Some (Inr [''db'', ''api''])" by code_simp
  show ?thesis
    using start_stop_duality [OF wf known iteration_order_rev iteration_order_rev] ok by auto
qed

lemma affected_exact:
  assumes wf: "hm_wf (cfg_services cfg)" and known: "deps_known cfg"
  shows "\<exists>affected. get_affected_services cfg services = Some affected \<and>
    sorted affected \<and> distinct affected \<and>
    set affected = {s. s \<notin> set services \<and> (\<exists>t\<in>set services. (s, t) \<in> (edges_of (cfg_deps cfg))\<^sup>+)}"
proof -
  let ?g = "build_dependency_graph cfg"
  have "set services \<subseteq> set (dep_names cfg services)" by (auto simp: dep_names_def)
  from gather_affected_returns [OF _ dep_names_closed_reverse [OF wf] this dep_fuel_card]
  obtain C where C: "gather_affected (dep_fuel cfg services) ?g services [] = Some C" by blast
  note g = bwdc.gathered_empty [OF gather_affected_gathered [OF C]]
  have "set C = (edges_of (dependents cfg))\<^sup>+ `` set services"
    using g(2) by (simp only: reach_of_successors)
  also have "\<dots> = {s. \<exists>t\<in>set services. (s, t) \<in> (edges_of (cfg_deps cfg))\<^sup>+}"
    by (auto simp: graph_edges_converse [OF wf known] trancl_converse)
  finally have "set C = {s. \<exists>t\<in>set services. (s, t) \<in> (edges_of (cfg_deps cfg))\<^sup>+}" .
  with C g(1) show ?thesis by (auto simp: get_affected_services_def remove_all_requested)
qed

text \<open>
  The services a stop affects. \<open>get_affected_services\<close> always answers, with a sorted
  list without duplicates that holds exactly the services that depend on a requested one,
  directly or not, the requested ones left out.
\<close>

theorem get_affected_services_exact:
  assumes wf: "hm_wf (cfg_services cfg)" and known: "deps_known cfg"
  shows "\<exists>affected. get_affected_services cfg services = Some affected \<and>
    sorted affected \<and> distinct affected \<and>
    set affected = {s. s \<notin> set services \<and> (\<exists>t\<in>set services. (s, t) \<in> (edges_of (cfg_deps cfg))\<^sup>+)}"
  by (rule affected_exact [OF assms])

theorem get_affected_services_exact_witness:
  "\<exists>affected. get_affected_services (plain_config [(''app'', [''api'']), (''api'', [''db'']), (''db'', [])]) [''db'']
      = Some affected \<and> sorted affected \<and> length affected = 2"
proof -
  let ?c = "plain_config [(''app'', [''api'']), (''api'', [''db'']), (''db'', [])]"
  have wf: "hm_wf (cfg_services ?c)" and known: "deps_known ?c"
    by (simp_all add: hm_wf_def deps_known_def hm_has_def hm_values_def plain_service_def)
  have ok: "get_affected_services ?c [''db''] = Some [''api'', ''app'']" by code_simp
  show ?thesis using get_affected_services_exact [OF wf known, of "[''db'']"] ok by auto
qed

end
