(* ===== verification/Reg_Models.thy ===== *)
theory Reg_Models
  imports Prelude
begin

text \<open>
  The data model of the service registry: \<^verbatim>\<open>crates/service-registry/src/models.rs\<close> and
  \<^verbatim>\<open>error.rs\<close>, with the JSON form that the serde attributes of the types prescribe.

  \<^item> \<open>json\<close> is the JSON value as data (\<^verbatim>\<open>serde_json::Value\<close>); reading and printing JSON text is
    serde_json's and enters later as the parameter record \<open>json_text\<close>.
  \<^item> \<open>Timestamp\<close> (chrono) and \<open>SocketAddr\<close> are kept in their printed form; the clock is an
    argument of the operations that read it.
  \<^item> The messages of \<open>Error::Package\<close> are a datatype, one constructor per format string.
\<close>

type_synonym Timestamp = string
type_synonym SocketAddr = string

section \<open>Addresses\<close>

datatype IpAddr = V4 u32 | V6 u128

section \<open>JSON values\<close>

datatype json =
    JNull
  | JBool bool
  | JNum int
  | JStr string
  | JArr "json list"
  | JObj "(string \<times> json) list"

fun json_get :: "string \<Rightarrow> json \<Rightarrow> json option" where
  "json_get k (JObj kvs) = map_of kvs k"
| "json_get k _ = None"

fun json_str :: "json \<Rightarrow> string option" where
  "json_str (JStr s) = Some s"
| "json_str _ = None"

text \<open>Sequencing of options: the \<open>?\<close> of a decoder whose error text is serde's.\<close>

definition opt_bind :: "'a option \<Rightarrow> ('a \<Rightarrow> 'b option) \<Rightarrow> 'b option" where
  "opt_bind m f = (case m of None \<Rightarrow> None | Some x \<Rightarrow> f x)"

lemma opt_bind_simps [simp]: "opt_bind None f = None" "opt_bind (Some x) f = f x"
  by (simp_all add: opt_bind_def)

lemma opt_bind_Some_iff: "opt_bind m f = Some y \<longleftrightarrow> (\<exists>x. m = Some x \<and> f x = Some y)"
  by (cases m) auto

fun json_list :: "(json \<Rightarrow> 'a option) \<Rightarrow> json list \<Rightarrow> 'a list option" where
  "json_list f [] = Some []"
| "json_list f (j # js) = opt_bind (f j) (\<lambda>x. map_option ((#) x) (json_list f js))"

fun json_arr :: "(json \<Rightarrow> 'a option) \<Rightarrow> json \<Rightarrow> 'a list option" where
  "json_arr f (JArr js) = json_list f js"
| "json_arr f _ = None"

fun json_pairs :: "(json \<Rightarrow> 'a option) \<Rightarrow> (string \<times> json) list \<Rightarrow> (string \<times> 'a) list option" where
  "json_pairs f [] = Some []"
| "json_pairs f ((k, j) # js) = opt_bind (f j) (\<lambda>x. map_option ((#) (k, x)) (json_pairs f js))"

fun json_map :: "(json \<Rightarrow> 'a option) \<Rightarrow> json \<Rightarrow> (string, 'a) hmap option" where
  "json_map f (JObj kvs) = map_option (hm_extend []) (json_pairs f kvs)"
| "json_map f _ = None"

text \<open>A required field, and an \<open>Option\<close> field, which may be missing or null.\<close>

definition json_field :: "(json \<Rightarrow> 'a option) \<Rightarrow> string \<Rightarrow> json \<Rightarrow> 'a option" where
  "json_field f k j = opt_bind (json_get k j) f"

definition json_opt :: "(json \<Rightarrow> 'a option) \<Rightarrow> json \<Rightarrow> 'a option option" where
  "json_opt f j = (case j of JNull \<Rightarrow> Some None | _ \<Rightarrow> map_option Some (f j))"

definition json_opt_field :: "(json \<Rightarrow> 'a option) \<Rightarrow> string \<Rightarrow> json \<Rightarrow> 'a option option" where
  "json_opt_field f k j = (case json_get k j of None \<Rightarrow> Some None | Some v \<Rightarrow> json_opt f v)"

fun json_uint :: "nat \<Rightarrow> json \<Rightarrow> nat option" where
  "json_uint bits (JNum i) = (if 0 \<le> i \<and> i < 2 ^ bits then Some (nat i) else None)"
| "json_uint bits _ = None"

fun json_bool :: "json \<Rightarrow> bool option" where
  "json_bool (JBool b) = Some b"
| "json_bool _ = None"

definition json_word :: "json \<Rightarrow> 'a::len word option" where
  "json_word j = map_option of_nat (json_uint (LENGTH('a)) j)"

definition word_json :: "'a::len word \<Rightarrow> json" where
  "word_json w = JNum (uint w)"

definition opt_json :: "('a \<Rightarrow> json) \<Rightarrow> 'a option \<Rightarrow> json" where
  "opt_json f m = (case m of None \<Rightarrow> JNull | Some x \<Rightarrow> f x)"

definition map_json :: "('a \<Rightarrow> json) \<Rightarrow> (string, 'a) hmap \<Rightarrow> json" where
  "map_json f m = JObj (map (\<lambda>(k, v). (k, f v)) m)"

lemma json_str_JStr [simp]: "json_str (JStr s) = Some s"
  by simp

lemma word_json_round [simp]: "json_word (word_json w) = Some w"
proof -
  have "uint w < 2 ^ LENGTH('a)" for w :: "'a::len word" by (rule uint_lt2p)
  then show ?thesis by (simp add: json_word_def word_json_def flip: unat_eq_nat_uint)
qed

lemma opt_json_round: "f (g x) = Some x \<Longrightarrow> g x \<noteq> JNull \<Longrightarrow> json_opt f (g x) = Some (Some x)"
  by (cases "g x") (auto simp: json_opt_def)

lemma json_list_round: "(\<And>x. x \<in> set xs \<Longrightarrow> f (g x) = Some x) \<Longrightarrow> json_list f (map g xs) = Some xs"
  by (induction xs) auto

lemma json_pairs_round:
  "(\<forall>(k, x)\<in>set m. f (g x) = Some x) \<Longrightarrow>
     json_pairs f (map (\<lambda>(k, v). (k, g v)) m) = Some m"
  by (induction m) auto

lemma update_fresh: "k \<notin> set (map fst m) \<Longrightarrow> AList.update k v m = m @ [(k, v)]"
  by (induction m) auto

lemma hm_extend_fresh:
  "distinct (map fst (m @ kvs)) \<Longrightarrow> hm_extend m kvs = m @ kvs"
proof (induction kvs arbitrary: m)
  case Nil
  then show ?case by simp
next
  case (Cons kv kvs)
  then show ?case by (cases kv) (simp add: hm_insert_def update_fresh)
qed

lemma map_json_round:
  assumes "hm_wf m" and "\<forall>(k, x)\<in>set m. f (g x) = Some x"
  shows "json_map f (map_json g m) = Some m"
  using assms by (simp add: map_json_def json_pairs_round hm_extend_fresh hm_wf_def)

section \<open>Service states\<close>

datatype ServiceState = Registered | Starting | Running | Stopping | Stopped | Failed

definition all_states :: "ServiceState list" where
  "all_states = [Registered, Starting, Running, Stopping, Stopped, Failed]"

lemma all_states_complete [simp]: "s \<in> set all_states"
  by (cases s) (simp_all add: all_states_def)

definition state_rank :: "ServiceState \<Rightarrow> nat" where
  "state_rank s = (case s of Registered \<Rightarrow> 0 | Starting \<Rightarrow> 1 | Running \<Rightarrow> 2 | Stopping \<Rightarrow> 3
     | Stopped \<Rightarrow> 4 | Failed \<Rightarrow> 5)"

instantiation ServiceState :: linorder
begin

definition less_eq_ServiceState :: "ServiceState \<Rightarrow> ServiceState \<Rightarrow> bool" where
  "less_eq_ServiceState s t = (state_rank s \<le> state_rank t)"

definition less_ServiceState :: "ServiceState \<Rightarrow> ServiceState \<Rightarrow> bool" where
  "less_ServiceState s t = (state_rank s < state_rank t)"

instance
  by standard (auto simp: less_eq_ServiceState_def less_ServiceState_def state_rank_def
    split: ServiceState.splits)

end

section \<open>Errors\<close>

datatype pkg_msg =
    MsgText string
  | MsgIpNotInSubnet IpAddr
  | MsgIpTaken IpAddr string
  | MsgNoHostIp string
  | MsgNoLanIp string
  | MsgNoAccessibleIp string
  | MsgNoWireGuardIp string
  | MsgOverflow

datatype RegError =
    ServiceNotFound string
  | ServiceExists string
  | InvalidStateTransition (ist_from: ServiceState) (ist_to: ServiceState)
  | WebSocketErr string
  | IoErr string
  | JsonErr string
  | YamlErr string
  | PackageErr pkg_msg
  | DeploymentErr string
  | CommandExecutionErr string
  | DatabaseErr string

section \<open>The entry of a service\<close>

datatype ExecutionInfo =
    ManagedProcess (ei_pid: "u32 option") (ei_command: string) (ei_args: "string list")
  | DockerContainer (ei_container_id: "string option") (ei_image: string) (ei_name: "string option")
  | SystemdService (ei_unit_name: string)
  | SystemdPortable (ei_image_name: string) (ei_punit_name: string)

datatype Location =
    LocLocal
  | LocRemote (loc_host: string) (loc_ssh_user: string) (loc_ssh_port: "u16 option")

datatype Protocol = Http | Https | Grpc | Tcp | WebSocketProto | Custom string

record Endpoint =
  ep_name :: string
  ep_address :: SocketAddr
  ep_protocol :: Protocol
  ep_metadata :: "(string, string) hmap"

record HealthStatus =
  hst_healthy :: bool
  hst_message :: "string option"
  hst_checked_at :: Timestamp
  hst_duration_ms :: u64

record ServiceEntry =
  se_name :: string
  se_version :: string
  se_execution :: ExecutionInfo
  se_location :: Location
  se_endpoints :: "Endpoint list"
  se_depends_on :: "string list"
  se_state :: ServiceState
  se_last_health_check :: "HealthStatus option"
  se_registered_at :: Timestamp
  se_last_state_change :: Timestamp

definition entry_new ::
    "Timestamp \<Rightarrow> string \<Rightarrow> string \<Rightarrow> ExecutionInfo \<Rightarrow> Location \<Rightarrow> RegError + ServiceEntry" where
  "entry_new now name version execution location =
     (if str_trim name = [] then Inl (PackageErr (MsgText ''Service name cannot be empty''))
      else if str_trim version = [] then Inl (PackageErr (MsgText ''Service version cannot be empty''))
      else Inr \<lparr>se_name = name, se_version = version, se_execution = execution,
             se_location = location, se_endpoints = [], se_depends_on = [], se_state = Registered,
             se_last_health_check = None, se_registered_at = now, se_last_state_change = now\<rparr>)"

definition entry_update_state :: "Timestamp \<Rightarrow> ServiceState \<Rightarrow> ServiceEntry \<Rightarrow> ServiceEntry" where
  "entry_update_state now new_state e = e\<lparr>se_state := new_state, se_last_state_change := now\<rparr>"

definition entry_add_endpoint :: "Endpoint \<Rightarrow> ServiceEntry \<Rightarrow> ServiceEntry" where
  "entry_add_endpoint ep e =
     e\<lparr>se_endpoints := filter (\<lambda>x. ep_name x \<noteq> ep_name ep) (se_endpoints e) @ [ep]\<rparr>"

definition entry_add_dependency :: "string \<Rightarrow> ServiceEntry \<Rightarrow> ServiceEntry" where
  "entry_add_dependency s e =
     (if s \<notin> set (se_depends_on e) then e\<lparr>se_depends_on := se_depends_on e @ [s]\<rparr> else e)"

definition entry_has_endpoint :: "string \<Rightarrow> ServiceEntry \<Rightarrow> bool" where
  "entry_has_endpoint n e = list_ex (\<lambda>x. ep_name x = n) (se_endpoints e)"

definition entry_get_endpoint :: "string \<Rightarrow> ServiceEntry \<Rightarrow> Endpoint option" where
  "entry_get_endpoint n e = find (\<lambda>x. ep_name x = n) (se_endpoints e)"

definition endpoint_new :: "string \<Rightarrow> SocketAddr \<Rightarrow> Protocol \<Rightarrow> Endpoint" where
  "endpoint_new name address protocol =
     \<lparr>ep_name = name, ep_address = address, ep_protocol = protocol, ep_metadata = []\<rparr>"

definition endpoint_with_metadata :: "string \<Rightarrow> string \<Rightarrow> Endpoint \<Rightarrow> Endpoint" where
  "endpoint_with_metadata k v ep = ep\<lparr>ep_metadata := hm_insert k v (ep_metadata ep)\<rparr>"

definition endpoint_get_metadata :: "string \<Rightarrow> Endpoint \<Rightarrow> string option" where
  "endpoint_get_metadata k ep = hm_get (ep_metadata ep) k"

section \<open>Messages\<close>

datatype Action =
    ListServices | GetService | ServiceActionReq | ListEndpoints | DeployPackage | Subscribe | Unsubscribe

datatype ServiceAction = ActStart | ActStop | ActRestart | ActReload

datatype EventType =
    EvServiceRegistered | EvServiceUpdated | EvServiceDeregistered | EvServiceStateChanged
  | EvEndpointUpdated | EvDeploymentProgress | EvHealthCheckResult | EvRegistryLoaded

record ErrorInfo =
  err_code :: string
  err_message :: string
  err_details :: "json option"

datatype WsMessage =
    WsRequest (ws_id: string) (ws_action: Action) (ws_params: json)
  | WsResponse (ws_rid: string) (ws_data: "json option") (ws_error: "ErrorInfo option")
  | WsEvent (ws_event: EventType) (ws_edata: json)

end
