(* ===== verification/Cmd_Command.thy ===== *)
theory Cmd_Command
  imports Prelude
begin

text \<open>
  Commands of \<^verbatim>\<open>crates/command-executor\<close>: the builder of \<^verbatim>\<open>command.rs\<close>, the targets of
  \<^verbatim>\<open>target.rs\<close>, the errors of \<^verbatim>\<open>error.rs\<close> and the exit status of \<^verbatim>\<open>process.rs\<close>.
  Operating-system strings and paths are strings; a channel is the number of its receiver.
\<close>

section \<open>Errors and exit status\<close>

datatype CmdError =
    SpawnFailed (sf_reason: string)
  | SignalTerminated int
  | SignalFailed int string
  | CommandNotFound string
  | CmdIo string
  | CmdNix string

definition spawn_failed :: "string \<Rightarrow> CmdError" where "spawn_failed reason = SpawnFailed reason"

definition signal_failed :: "int \<Rightarrow> string \<Rightarrow> CmdError" where
  "signal_failed signal reason = SignalFailed signal reason"

definition with_layer_context :: "string \<Rightarrow> CmdError \<Rightarrow> CmdError" where
  "with_layer_context layer e = (case e of
     SpawnFailed reason \<Rightarrow> SpawnFailed ((if str_starts_with reason ''Failed'' then ''Error'' else ''Failed'') @
       '' in '' @ layer @ '' layer: '' @ reason)
   | other \<Rightarrow> other)"

record ExitStatus =
  ex_code :: "int option"
  ex_signal :: "int option"

record ExitResult =
  er_status :: ExitStatus
  er_output :: string

definition exit_success :: "ExitStatus \<Rightarrow> bool" where "exit_success st = (ex_code st = Some 0)"

definition terminated_by_signal :: "ExitStatus \<Rightarrow> bool" where
  "terminated_by_signal st = (ex_signal st \<noteq> None)"

definition result_success :: "ExitResult \<Rightarrow> bool" where "result_success r = exit_success (er_status r)"

definition result_code :: "ExitResult \<Rightarrow> int option" where "result_code r = ex_code (er_status r)"

section \<open>The command builder\<close>

record Command =
  cmd_program :: string
  cmd_args :: "string list"
  cmd_env :: "(string, string) hmap"
  cmd_current_dir :: "string option"
  cmd_env_clear :: bool
  cmd_stdin_channel :: "nat option"

definition cmd_new :: "string \<Rightarrow> Command" where
  "cmd_new program = \<lparr>cmd_program = program, cmd_args = [], cmd_env = [], cmd_current_dir = None,
     cmd_env_clear = False, cmd_stdin_channel = None\<rparr>"

definition add_arg :: "string \<Rightarrow> Command \<Rightarrow> Command" where
  "add_arg a c = c\<lparr>cmd_args := cmd_args c @ [a]\<rparr>"

definition add_args :: "string list \<Rightarrow> Command \<Rightarrow> Command" where
  "add_args as c = foldl (\<lambda>c a. add_arg a c) c as"

definition set_env :: "string \<Rightarrow> string \<Rightarrow> Command \<Rightarrow> Command" where
  "set_env k v c = c\<lparr>cmd_env := hm_insert k v (cmd_env c)\<rparr>"

definition set_envs :: "(string \<times> string) list \<Rightarrow> Command \<Rightarrow> Command" where
  "set_envs vars c = foldl (\<lambda>c (k, v). set_env k v c) c vars"

definition set_env_clear :: "Command \<Rightarrow> Command" where
  "set_env_clear c = c\<lparr>cmd_env_clear := True\<rparr>"

definition set_current_dir :: "string \<Rightarrow> Command \<Rightarrow> Command" where
  "set_current_dir dir c = c\<lparr>cmd_current_dir := Some dir\<rparr>"

definition set_stdin_channel :: "nat \<Rightarrow> Command \<Rightarrow> Command" where
  "set_stdin_channel receiver c = c\<lparr>cmd_stdin_channel := Some receiver\<rparr>"

definition has_stdin_channel :: "Command \<Rightarrow> bool" where
  "has_stdin_channel c = (cmd_stdin_channel c \<noteq> None)"

definition take_stdin_channel :: "Command \<Rightarrow> nat option \<times> Command" where
  "take_stdin_channel c = (cmd_stdin_channel c, c\<lparr>cmd_stdin_channel := None\<rparr>)"

text \<open>
  The process to spawn: what \<open>prepare\<close> hands to the process library, in the order of its calls.
\<close>

datatype spawn_call = CallArg string | CallEnvClear | CallEnv string string | CallDir string

record AsyncCommand =
  ac_program :: string
  ac_calls :: "spawn_call list"

definition cmd_prepare :: "Command \<Rightarrow> AsyncCommand" where
  "cmd_prepare c = \<lparr>ac_program = cmd_program c,
     ac_calls = map CallArg (cmd_args c) @ (if cmd_env_clear c then [CallEnvClear] else []) @
       map (\<lambda>(k, v). CallEnv k v) (cmd_env c) @
       (case cmd_current_dir c of None \<Rightarrow> [] | Some dir \<Rightarrow> [CallDir dir])\<rparr>"

text \<open>The documented meaning of the calls: argument list, environment and directory of the child.\<close>

fun child_args :: "spawn_call list \<Rightarrow> string list" where
  "child_args [] = []"
| "child_args (CallArg a # cs) = a # child_args cs"
| "child_args (_ # cs) = child_args cs"

fun child_env :: "(string \<Rightarrow> string option) \<Rightarrow> spawn_call list \<Rightarrow> string \<Rightarrow> string option" where
  "child_env e [] = e"
| "child_env e (CallEnvClear # cs) = child_env (\<lambda>_. None) cs"
| "child_env e (CallEnv k v # cs) = child_env (e(k \<mapsto> v)) cs"
| "child_env e (_ # cs) = child_env e cs"

lemma add_args_eq: "add_args as c = c\<lparr>cmd_args := cmd_args c @ as\<rparr>"
  unfolding add_args_def by (induction as arbitrary: c) (auto simp: add_arg_def)

lemma set_envs_eq: "set_envs vars c = c\<lparr>cmd_env := hm_extend (cmd_env c) vars\<rparr>"
  unfolding set_envs_def by (induction vars arbitrary: c) (auto simp: set_env_def)

lemma child_args_append: "child_args (xs @ ys) = child_args xs @ child_args ys"
  by (induction xs rule: child_args.induct) auto

lemma child_args_arg [simp]: "child_args (map CallArg as) = as"
  by (induction as) auto

lemma child_args_env [simp]: "child_args (map (\<lambda>(k, v). CallEnv k v) m) = []"
  by (induction m) auto

lemma child_env_append: "child_env e (xs @ ys) = child_env (child_env e xs) ys"
proof (induction xs arbitrary: e)
  case (Cons c xs)
  then show ?case by (cases c) (simp_all only: append_Cons child_env.simps)
qed simp

lemma child_env_arg [simp]: "child_env e (map CallArg as) = e"
  by (induction as) auto

lemma child_env_env [simp]: "child_env e (map (\<lambda>(k, v). CallEnv k v) m) = e ++ map_of (rev m)"
  by (induction m arbitrary: e) auto

lemma map_of_rev_wf: "hm_wf m \<Longrightarrow> map_of (rev m) = map_of m"
  by (subst map_of_inject_set) (simp_all add: hm_wf_def flip: rev_map)

section \<open>Targets\<close>

record ManagedProcess =
  mp_process_group :: "int option"
  mp_restart_on_failure :: bool

definition managed_process_new :: ManagedProcess where
  "managed_process_new = \<lparr>mp_process_group = None, mp_restart_on_failure = False\<rparr>"

definition with_process_group :: "int \<Rightarrow> ManagedProcess \<Rightarrow> ManagedProcess" where
  "with_process_group pgid p = p\<lparr>mp_process_group := Some pgid\<rparr>"

definition with_restart_on_failure :: "ManagedProcess \<Rightarrow> ManagedProcess" where
  "with_restart_on_failure p = p\<lparr>mp_restart_on_failure := True\<rparr>"

record DockerTarget =
  dt_image :: string
  dt_name :: "string option"
  dt_env :: "(string, string) hmap"
  dt_volumes :: "(string \<times> string) list"
  dt_working_dir :: "string option"
  dt_remove_on_exit :: bool

definition docker_target_new :: "string \<Rightarrow> DockerTarget" where
  "docker_target_new img = \<lparr>dt_image = img, dt_name = None, dt_env = [], dt_volumes = [],
     dt_working_dir = None, dt_remove_on_exit = True\<rparr>"

definition dt_with_name :: "string \<Rightarrow> DockerTarget \<Rightarrow> DockerTarget" where
  "dt_with_name n d = d\<lparr>dt_name := Some n\<rparr>"

definition dt_with_env :: "string \<Rightarrow> string \<Rightarrow> DockerTarget \<Rightarrow> DockerTarget" where
  "dt_with_env k v d = d\<lparr>dt_env := hm_insert k v (dt_env d)\<rparr>"

definition dt_with_volume :: "string \<Rightarrow> string \<Rightarrow> DockerTarget \<Rightarrow> DockerTarget" where
  "dt_with_volume host container d = d\<lparr>dt_volumes := dt_volumes d @ [(host, container)]\<rparr>"

definition dt_with_working_dir :: "string \<Rightarrow> DockerTarget \<Rightarrow> DockerTarget" where
  "dt_with_working_dir dir d = d\<lparr>dt_working_dir := Some dir\<rparr>"

definition dt_with_remove_on_exit :: "bool \<Rightarrow> DockerTarget \<Rightarrow> DockerTarget" where
  "dt_with_remove_on_exit r d = d\<lparr>dt_remove_on_exit := r\<rparr>"

record ComposeService =
  cs_compose_file :: string
  cs_service_name :: string
  cs_project_name :: "string option"

definition compose_service_new :: "string \<Rightarrow> string \<Rightarrow> ComposeService" where
  "compose_service_new compose_file service_name =
     \<lparr>cs_compose_file = compose_file, cs_service_name = service_name, cs_project_name = None\<rparr>"

definition with_project_name :: "string \<Rightarrow> ComposeService \<Rightarrow> ComposeService" where
  "with_project_name n s = s\<lparr>cs_project_name := Some n\<rparr>"

datatype Target =
    TgtCommand
  | TgtManagedProcess ManagedProcess
  | TgtSystemdService (tgt_unit_name: string)
  | TgtSystemdPortable (tgt_image_name: string) (tgt_punit_name: string)
  | TgtDockerContainer DockerTarget
  | TgtComposeService ComposeService

record ManagedService =
  ms_name :: string
  ms_status_command :: Command
  ms_start_command :: Command
  ms_stop_command :: Command
  ms_restart_command :: "Command option"
  ms_reload_command :: "Command option"
  ms_log_command :: Command

record ManagedServiceBuilder =
  msb_name :: string
  msb_status_command :: "Command option"
  msb_start_command :: "Command option"
  msb_stop_command :: "Command option"
  msb_restart_command :: "Command option"
  msb_reload_command :: "Command option"
  msb_log_command :: "Command option"

definition managed_service_builder :: "string \<Rightarrow> ManagedServiceBuilder" where
  "managed_service_builder name = \<lparr>msb_name = name, msb_status_command = None, msb_start_command = None,
     msb_stop_command = None, msb_restart_command = None, msb_reload_command = None, msb_log_command = None\<rparr>"

definition managed_service_build :: "ManagedServiceBuilder \<Rightarrow> CmdError + ManagedService" where
  "managed_service_build b =
     res_bind (ok_or (msb_status_command b) (spawn_failed ''status_command is required'')) (\<lambda>status.
     res_bind (ok_or (msb_start_command b) (spawn_failed ''start_command is required'')) (\<lambda>start.
     res_bind (ok_or (msb_stop_command b) (spawn_failed ''stop_command is required'')) (\<lambda>stop.
     res_bind (ok_or (msb_log_command b) (spawn_failed ''log_command is required'')) (\<lambda>log.
     Inr \<lparr>ms_name = msb_name b, ms_status_command = status, ms_start_command = start,
        ms_stop_command = stop, ms_restart_command = msb_restart_command b,
        ms_reload_command = msb_reload_command b, ms_log_command = log\<rparr>))))"

record AttachedService =
  as_name :: string
  as_status_command :: Command
  as_log_command :: Command

record AttachedServiceBuilder =
  asb_name :: string
  asb_status_command :: "Command option"
  asb_log_command :: "Command option"

definition attached_service_builder :: "string \<Rightarrow> AttachedServiceBuilder" where
  "attached_service_builder name = \<lparr>asb_name = name, asb_status_command = None, asb_log_command = None\<rparr>"

definition attached_service_build :: "AttachedServiceBuilder \<Rightarrow> CmdError + AttachedService" where
  "attached_service_build b =
     res_bind (ok_or (asb_status_command b) (spawn_failed ''status_command is required'')) (\<lambda>status.
     res_bind (ok_or (asb_log_command b) (spawn_failed ''log_command is required'')) (\<lambda>log.
     Inr \<lparr>as_name = asb_name b, as_status_command = status, as_log_command = log\<rparr>))"

lemma managed_service_build_iff:
  "is_ok (managed_service_build b) \<longleftrightarrow> msb_status_command b \<noteq> None \<and> msb_start_command b \<noteq> None \<and>
     msb_stop_command b \<noteq> None \<and> msb_log_command b \<noteq> None"
  by (cases "msb_status_command b"; cases "msb_start_command b"; cases "msb_stop_command b";
      cases "msb_log_command b") (simp_all add: managed_service_build_def)

section \<open>Properties\<close>

text \<open>
  What a spawned child gets. For every command whose environment map has distinct keys,
  the calls \<open>prepare\<close> makes give the child exactly the arguments in order, and an environment
  that maps every configured variable to its value and is otherwise the parent's, or empty
  when the environment is cleared.
\<close>

theorem prepare_child:
  assumes "hm_wf (cmd_env c)"
  shows "child_args (ac_calls (cmd_prepare c)) = cmd_args c \<and>
    (\<forall>parent k. child_env parent (ac_calls (cmd_prepare c)) k =
       (case hm_get (cmd_env c) k of Some v \<Rightarrow> Some v | None \<Rightarrow> if cmd_env_clear c then None else parent k))"
proof (intro conjI allI)
  show "child_args (ac_calls (cmd_prepare c)) = cmd_args c"
    by (simp add: cmd_prepare_def child_args_append split: option.splits)
  fix parent k
  show "child_env parent (ac_calls (cmd_prepare c)) k =
       (case hm_get (cmd_env c) k of Some v \<Rightarrow> Some v | None \<Rightarrow> if cmd_env_clear c then None else parent k)"
    using assms by (simp add: cmd_prepare_def child_env_append map_of_rev_wf map_add_def hm_get_def split: option.splits)
qed

theorem prepare_child_witness:
  "child_env (\<lambda>_. Some ''parent'') (ac_calls (cmd_prepare
     (set_env_clear (set_env ''A'' ''1'' (add_arg ''x'' (cmd_new ''env'')))))) ''B'' = None"
  using prepare_child [of "set_env_clear (set_env ''A'' ''1'' (add_arg ''x'' (cmd_new ''env'')))"]
  by (simp add: set_env_def set_env_clear_def add_arg_def cmd_new_def)

end
