(* ===== verification/Orch_Config.thy ===== *)
theory Orch_Config
  imports Reg_Models Cmd_Command
begin

text \<open>
  The data of \<^verbatim>\<open>crates/service-orchestration\<close>: service and task configuration
  (\<^verbatim>\<open>config.rs\<close>, \<^verbatim>\<open>task_config.rs\<close>), the running service of \<^verbatim>\<open>executors/mod.rs\<close>, the errors of
  \<^verbatim>\<open>lib.rs\<close>, and the executor trait as a record of operations. An UUID is its printed form,
  a task parameter a JSON value.
\<close>

section \<open>Configuration\<close>

datatype Dependency = DepService (dep_service: string) | DepTask (dep_task: string)

record HealthCheck =
  hc_command :: string
  hc_args :: "string list"
  hc_interval :: u64
  hc_retries :: u32
  hc_timeout :: u64

definition health_check_default :: HealthCheck where
  "health_check_default =
     \<lparr>hc_command = ''true'', hc_args = [], hc_interval = 30, hc_retries = 3, hc_timeout = 10\<rparr>"

datatype RemoteMode = RmProcess string "string list" | RmPackage string

datatype ServiceTarget =
    TProcess (t_binary: string) (t_args: "string list") (t_env: "(string, string) hmap") (t_working_dir: "string option")
  | TDocker (t_image: string) (t_denv: "(string, string) hmap") (t_ports: "u16 list") (t_volumes: "string list")
  | TDockerAttach (t_container: string) (t_daenv: "(string, string) hmap")
  | TProcessAttach (t_pid: "u32 option") (t_process_name: "string option") (t_paenv: "(string, string) hmap")
  | TRemote (t_host: string) (t_user: string) (t_mode: RemoteMode) (t_renv: "(string, string) hmap")
  | TRemoteLan (t_lhost: string) (t_luser: string) (t_lbinary: string) (t_largs: "string list")
  | TWireguard (t_whost: string) (t_wuser: string) (t_wpackage: string)

record ServiceConfig =
  sc_name :: string
  sc_target :: ServiceTarget
  sc_dependencies :: "Dependency list"
  sc_health_check :: "HealthCheck option"

fun target_env :: "ServiceTarget \<Rightarrow> (string, string) hmap" where
  "target_env (TProcess _ _ env _) = env"
| "target_env (TDocker _ env _ _) = env"
| "target_env (TDockerAttach _ env) = env"
| "target_env (TProcessAttach _ _ env) = env"
| "target_env (TRemote _ _ _ env) = env"
| "target_env (TRemoteLan _ _ _ _) = []"
| "target_env (TWireguard _ _ _) = []"

fun target_with_env :: "ServiceTarget \<Rightarrow> (string, string) hmap \<Rightarrow> ServiceTarget" where
  "target_with_env (TProcess binary args _ working_dir) new_env = TProcess binary args new_env working_dir"
| "target_with_env (TDocker img _ ports volumes) new_env = TDocker img new_env ports volumes"
| "target_with_env (TDockerAttach container _) new_env = TDockerAttach container new_env"
| "target_with_env (TProcessAttach pid process_name _) new_env = TProcessAttach pid process_name new_env"
| "target_with_env (TRemote host user mode _) new_env = TRemote host user mode new_env"
| "target_with_env (TRemoteLan host user binary args) new_env = TRemoteLan host user binary args"
| "target_with_env (TWireguard host user package) new_env = TWireguard host user package"

definition config_with_env :: "ServiceConfig \<Rightarrow> (string, string) hmap \<Rightarrow> ServiceConfig" where
  "config_with_env c env = \<lparr>sc_name = sc_name c, sc_target = target_with_env (sc_target c) env,
     sc_dependencies = sc_dependencies c, sc_health_check = sc_health_check c\<rparr>"

datatype ServiceStatus = OsStopped | OsStarting | OsRunning | OsUnhealthy | OsFailed string

definition service_status_default :: ServiceStatus where "service_status_default = OsStopped"

section \<open>Tasks and stacks\<close>

record TaskConfig =
  tk_task_type :: string
  tk_target :: ServiceTarget
  tk_dependencies :: "Dependency list"
  tk_config :: "(string, json) hmap"

definition task_config_new :: "string \<Rightarrow> ServiceTarget \<Rightarrow> TaskConfig" where
  "task_config_new task_type target =
     \<lparr>tk_task_type = task_type, tk_target = target, tk_dependencies = [], tk_config = []\<rparr>"

definition with_dependency :: "Dependency \<Rightarrow> TaskConfig \<Rightarrow> TaskConfig" where
  "with_dependency dep t = t\<lparr>tk_dependencies := tk_dependencies t @ [dep]\<rparr>"

definition with_config_param :: "string \<Rightarrow> json \<Rightarrow> TaskConfig \<Rightarrow> TaskConfig" where
  "with_config_param k v t = t\<lparr>tk_config := hm_insert k v (tk_config t)\<rparr>"

record ServiceInstanceConfig =
  sic_service_type :: string
  sic_orchestration :: ServiceConfig

record StackConfig =
  stk_name :: string
  stk_description :: "string option"
  stk_services :: "(string, ServiceInstanceConfig) hmap"
  stk_tasks :: "(string, TaskConfig) hmap"

section \<open>Errors\<close>

datatype orch_msg =
    OText string
  | ONoExecutor ServiceTarget

datatype OrchError =
    ORegistry RegError
  | OCommand CmdError
  | OServiceNotFound string
  | OServiceExists string
  | OConfig orch_msg
  | ONetwork string
  | OPackage string
  | OHealthCheck string
  | OIo string
  | ONotImplemented string
  | OOther string
  | OPanic

section \<open>Running services\<close>

record NetworkInfo =
  ni_ip :: string
  ni_port :: "u16 option"
  ni_ports :: "u16 list"
  ni_hostname :: string

record RunningService =
  rs_id :: string
  rs_name :: string
  rs_config :: ServiceConfig
  rs_pid :: "u32 option"
  rs_container_id :: "string option"
  rs_endpoints :: "(string, string) hmap"
  rs_metadata :: "(string, string) hmap"
  rs_network_info :: "NetworkInfo option"

definition running_new :: "string \<Rightarrow> string \<Rightarrow> ServiceConfig \<Rightarrow> RunningService" where
  "running_new uuid name config = \<lparr>rs_id = uuid, rs_name = name, rs_config = config, rs_pid = None,
     rs_container_id = None, rs_endpoints = [], rs_metadata = [], rs_network_info = None\<rparr>"

definition rs_with_pid :: "u32 \<Rightarrow> RunningService \<Rightarrow> RunningService" where
  "rs_with_pid pid r = r\<lparr>rs_pid := Some pid\<rparr>"

definition rs_with_container_id :: "string \<Rightarrow> RunningService \<Rightarrow> RunningService" where
  "rs_with_container_id c r = r\<lparr>rs_container_id := Some c\<rparr>"

definition rs_with_endpoint :: "string \<Rightarrow> string \<Rightarrow> RunningService \<Rightarrow> RunningService" where
  "rs_with_endpoint k v r = r\<lparr>rs_endpoints := hm_insert k v (rs_endpoints r)\<rparr>"

definition rs_with_metadata :: "string \<Rightarrow> string \<Rightarrow> RunningService \<Rightarrow> RunningService" where
  "rs_with_metadata k v r = r\<lparr>rs_metadata := hm_insert k v (rs_metadata r)\<rparr>"

definition rs_with_network_info :: "NetworkInfo \<Rightarrow> RunningService \<Rightarrow> RunningService" where
  "rs_with_network_info ni r = r\<lparr>rs_network_info := Some ni\<rparr>"

section \<open>Lemmas\<close>

text \<open>Setting the environment and reading it back; the deprecated targets have none.\<close>

definition has_env :: "ServiceTarget \<Rightarrow> bool" where
  "has_env t = (case t of TRemoteLan _ _ _ _ \<Rightarrow> False | TWireguard _ _ _ \<Rightarrow> False | _ \<Rightarrow> True)"

lemma target_env_with_env [simp]:
  "target_env (target_with_env t env) = (if has_env t then env else [])"
  by (cases t) (simp_all add: has_env_def)

lemma with_env_same: "target_with_env t (target_env t) = t"
  by (cases t) simp_all

lemma with_env_twice: "target_with_env (target_with_env t e1) e2 = target_with_env t e2"
  by (cases t) simp_all

end
