(* ===== verification/Cfg_Parser.thy ===== *)
theory Cfg_Parser
  imports Cfg_Resolver Cli_Deps Orch_Config
begin

text \<open>
  The configuration parser, \<^verbatim>\<open>crates/harness-config/src/parser.rs\<close>: validation, the two
  substitutions by regular expressions, and the conversion of a service to what the orchestrator
  runs. Reading a file and YAML are parameters, as are the matches of a regular expression.
\<close>

section \<open>Parsing and validating\<close>

fun check_dependencies :: "Config \<Rightarrow> string \<Rightarrow> string list \<Rightarrow> ConfigError + unit" where
  "check_dependencies config name [] = Inr ()"
| "check_dependencies config name (dep # deps) =
     (if hm_has (cfg_services config) dep then check_dependencies config name deps
      else Inl (ValidationError (''Service '' @ quoted name @ '' depends on unknown service '' @ quoted dep)))"

fun check_service_entries :: "Config \<Rightarrow> (string \<times> CfgService) list \<Rightarrow> ConfigError + unit" where
  "check_service_entries config [] = Inr ()"
| "check_service_entries config ((name, service) # services) =
     (if hm_has (cfg_networks config) (svc_network service) then
        res_bind (check_dependencies config name (svc_dependencies service)) (\<lambda>_. check_service_entries config services)
      else Inl (ValidationError (''Service '' @ quoted name @ '' references unknown network '' @
        quoted (svc_network service))))"

definition validate_config :: "nom \<Rightarrow> Config \<Rightarrow> (ConfigError + unit) option" where
  "validate_config N config =
     (if cfg_version config \<noteq> ''1.0'' then
        Some (Inl (ValidationError (''Unsupported version: '' @ cfg_version config @ '', expected 1.0'')))
      else case check_service_entries config (cfg_services config) of
        Inl e \<Rightarrow> Some (Inl e)
      | Inr _ \<Rightarrow> validate_references N config)"

definition parse_str :: "nom \<Rightarrow> (string \<Rightarrow> ConfigError + Config) \<Rightarrow> string \<Rightarrow> (ConfigError + Config) option" where
  "parse_str N from_yaml content =
     (case from_yaml content of
        Inl e \<Rightarrow> Some (Inl e)
      | Inr config \<Rightarrow> map_option (\<lambda>r. res_bind r (\<lambda>_. Inr config)) (validate_config N config))"

definition parse_file ::
    "nom \<Rightarrow> (string \<Rightarrow> ConfigError + Config) \<Rightarrow> (string \<Rightarrow> ConfigError + string) \<Rightarrow> string \<Rightarrow> (ConfigError + Config) option" where
  "parse_file N from_yaml read_file path =
     (case read_file path of Inl e \<Rightarrow> Some (Inl e) | Inr content \<Rightarrow> parse_str N from_yaml content)"

section \<open>Substitution by regular expressions\<close>

text \<open>\<open>str::replace\<close>; the patterns here are matches of a variable, never empty.\<close>

function str_replace :: "string \<Rightarrow> string \<Rightarrow> string \<Rightarrow> string" where
  "str_replace pat new s =
     (if pat = [] then s
      else case split_at_str pat s of
        None \<Rightarrow> s
      | Some (a, b) \<Rightarrow> a @ new @ str_replace pat new b)"
  by auto
termination
  by (relation "measure (\<lambda>(pat, new, s). length s)") (auto dest!: split_at_str_Some)

text \<open>
  The captures of a text: each whole match with its group. The result is rewritten match by match,
  everywhere the match occurs in the result of the rewriting so far.
\<close>

fun substitute_env_loop ::
    "(string \<Rightarrow> string option) \<Rightarrow> (string \<times> string) list \<Rightarrow> string \<Rightarrow> string list \<Rightarrow> ConfigError + string" where
  "substitute_env_loop env [] result errors =
     (if errors \<noteq> [] then Inl (EnvVarNotFound (str_join '', '' errors)) else Inr result)"
| "substitute_env_loop env ((full, expr) # caps) result errors =
     (let (name, dflt) = (case split_at_str '':-'' expr of Some (n, d) \<Rightarrow> (n, Some d) | None \<Rightarrow> (expr, None)) in
      case env name of
        Some value \<Rightarrow> substitute_env_loop env caps (str_replace full value result) errors
      | None \<Rightarrow>
          (case dflt of
             Some d \<Rightarrow> substitute_env_loop env caps (str_replace full d result) errors
           | None \<Rightarrow> substitute_env_loop env caps result (errors @ [name])))"

definition substitute_env_vars ::
    "(string \<Rightarrow> (string \<times> string) list) \<Rightarrow> (string \<Rightarrow> string option) \<Rightarrow> string \<Rightarrow> ConfigError + string" where
  "substitute_env_vars env_captures env input = substitute_env_loop env (env_captures input) input []"

fun substitute_refs_loop :: "(string, string) hmap \<Rightarrow> (string \<times> string) list \<Rightarrow> string \<Rightarrow> ConfigError + string" where
  "substitute_refs_loop ips [] result = Inr result"
| "substitute_refs_loop ips ((full, name) # caps) result =
     (case hm_get ips name of
        Some ip \<Rightarrow> substitute_refs_loop ips caps (str_replace full ip result)
      | None \<Rightarrow> Inl (ConfigServiceNotFound name))"

definition substitute_service_refs ::
    "(string \<Rightarrow> (string \<times> string) list) \<Rightarrow> (string, string) hmap \<Rightarrow> string \<Rightarrow> ConfigError + string" where
  "substitute_service_refs ip_captures ips input = substitute_refs_loop ips (ip_captures input) input"

fun process_env_loop ::
    "(string \<Rightarrow> ConfigError + string) \<Rightarrow> (string, string) hmap \<Rightarrow> (string, string) hmap \<Rightarrow> ConfigError + (string, string) hmap" where
  "process_env_loop subst [] processed = Inr processed"
| "process_env_loop subst ((key, value) # kvs) processed =
     res_bind (subst value) (\<lambda>v. process_env_loop subst kvs (hm_insert key v processed))"

definition process_service_env ::
    "(string \<Rightarrow> (string \<times> string) list) \<Rightarrow> (string \<Rightarrow> (string \<times> string) list) \<Rightarrow> (string \<Rightarrow> string option) \<Rightarrow>
      CfgService \<Rightarrow> (string, string) hmap \<Rightarrow> ConfigError + (string, string) hmap" where
  "process_service_env env_captures ip_captures env service ips =
     process_env_loop (\<lambda>value. res_bind (substitute_env_vars env_captures env value)
       (substitute_service_refs ip_captures ips)) (svc_env service) []"

section \<open>Conversion\<close>

definition convert_health_check :: "CfgHealthCheck \<Rightarrow> HealthCheck" where
  "convert_health_check hc =
     (case (case chc_check_type hc of
        CheckCommand command args \<Rightarrow> (command, args)
      | CheckHttp http \<Rightarrow> (''curl'', [''-f'', http])
      | CheckTcp tcp \<Rightarrow> (''nc'', [''-z'', ''localhost'', show_nat (unat (tcp_port tcp))]))
      of (command, args) \<Rightarrow>
        \<lparr>hc_command = command, hc_args = args, hc_interval = chc_interval hc, hc_retries = chc_retries hc,
         hc_timeout = chc_timeout hc\<rparr>)"

definition simple_ports :: "PortMapping list \<Rightarrow> u16 list" where
  "simple_ports ports = List.map_filter (\<lambda>p. case p of SimplePort port \<Rightarrow> Some port | FullPort _ \<Rightarrow> None) ports"

definition convert_target :: "ServiceType \<Rightarrow> (string, string) hmap \<Rightarrow> ServiceTarget" where
  "convert_target ty env =
     (case ty of
        TyDocker img ports volumes _ _ \<Rightarrow> TDocker img env (simple_ports ports) volumes
      | TyProcess binary args working_dir _ \<Rightarrow> TProcess binary args env working_dir
      | TyRemote host binary args working_dir \<Rightarrow> TRemoteLan host ''root'' binary args
      | TyPackage host package _ _ \<Rightarrow> TWireguard host ''root'' package)"

definition convert_to_orchestrator_with_context ::
    "nom \<Rightarrow> (string \<Rightarrow> string option) \<Rightarrow> (string \<times> string) list \<Rightarrow> Config \<Rightarrow> string \<Rightarrow> ResolutionContext option \<Rightarrow>
      (ConfigError + ServiceConfig) option" where
  "convert_to_orchestrator_with_context N env vars config name context =
     (case hm_get (cfg_services config) name of
        None \<Rightarrow> Some (Inl (ConfigServiceNotFound name))
      | Some service \<Rightarrow>
          (let ctx = (case context of Some c \<Rightarrow> c | None \<Rightarrow> resolution_context_new vars) in
           case resolve_service_env N env service ctx of
             None \<Rightarrow> None
           | Some (Inl e) \<Rightarrow> Some (Inl e)
           | Some (Inr resolved) \<Rightarrow>
               Some (Inr \<lparr>sc_name = name, sc_target = convert_target (svc_type service) resolved,
                 sc_dependencies = map DepService (svc_dependencies service),
                 sc_health_check = map_option convert_health_check (svc_health_check service)\<rparr>)))"

definition convert_to_orchestrator ::
    "nom \<Rightarrow> (string \<Rightarrow> string option) \<Rightarrow> (string \<times> string) list \<Rightarrow> Config \<Rightarrow> string \<Rightarrow> (ConfigError + ServiceConfig) option" where
  "convert_to_orchestrator N env vars config name = convert_to_orchestrator_with_context N env vars config name None"

section \<open>Lemmas\<close>

lemma check_dependencies_ok:
  "is_ok (check_dependencies config name deps) \<longleftrightarrow> (\<forall>d\<in>set deps. hm_has (cfg_services config) d)"
  by (induction config name deps rule: check_dependencies.induct) auto

lemma check_service_entries_ok:
  "is_ok (check_service_entries config ss) \<longleftrightarrow>
     (\<forall>(name, service)\<in>set ss. hm_has (cfg_networks config) (svc_network service) \<and>
        (\<forall>d\<in>set (svc_dependencies service). hm_has (cfg_services config) d))"
proof (induction config ss rule: check_service_entries.induct)
  case (2 config name service services)
  have "is_ok (res_bind (check_dependencies config name (svc_dependencies service)) (\<lambda>_. check_service_entries config services)) \<longleftrightarrow>
      is_ok (check_dependencies config name (svc_dependencies service)) \<and> is_ok (check_service_entries config services)"
    by (cases "check_dependencies config name (svc_dependencies service)") simp_all
  with 2 show ?case by (auto simp: check_dependencies_ok)
qed simp

text \<open>A reference as it is found: readable, and to a service of the configuration.\<close>

definition readable :: "located \<Rightarrow> bool" where
  "readable f = is_ok f"

definition refs_of :: "located list \<Rightarrow> string set" where
  "refs_of rs = {ref_name s p | s p. \<exists>a b. Inr (a, b, ServiceRef s p) \<in> set rs}"

definition ref_known :: "Config \<Rightarrow> located \<Rightarrow> bool" where
  "ref_known config f = (case f of
     Inl _ \<Rightarrow> False
   | Inr (_, _, EnvVar _ _) \<Rightarrow> True
   | Inr (_, _, ServiceRef s _) \<Rightarrow> hm_has (cfg_services config) s)"

lemma note_references_run:
  "(case note_references rs acc of
      Inl _ \<Rightarrow> \<not> (\<forall>f\<in>set rs. readable f)
    | Inr acc' \<Rightarrow> (\<forall>f\<in>set rs. readable f) \<and> set (snd acc') = set (snd acc) \<union> refs_of rs)"
  by (induction rs acc rule: note_references.induct)
    (auto simp: readable_def refs_of_def split: sum.splits; metis)+

lemma str_split_ref: "service_ok s \<Longrightarrow> str_split_once (CHR ''.'') (ref_name s p) = Some (s, p)"
  unfolding ref_name_def append_Cons append_Nil
  by (rule str_split_once_append)
    (auto simp: service_ok_def list_all_iff name_char_def is_alnum_def is_alpha_def is_upper_def is_lower_def is_digit_def)

definition service_known :: "Config \<Rightarrow> string \<Rightarrow> bool" where
  "service_known config r = (case str_split_once (CHR ''.'') r of None \<Rightarrow> True
     | Some (n, _) \<Rightarrow> hm_has (cfg_services config) n)"

lemma check_service_refs_ok:
  "is_ok (check_service_refs config refs) \<longleftrightarrow> (\<forall>r\<in>set refs. service_known config r)"
proof (induction refs)
  case (Cons r refs)
  then show ?case by (cases "str_split_once (CHR ''.'') r") (auto simp: service_known_def split: if_splits)
qed simp

lemma placed_var_ok: "placed input p rs \<Longrightarrow> Inr (a, b, v) \<in> set rs \<Longrightarrow> var_ok v"
  by (induction input p rs rule: placed.induct) auto

context nom_library
begin

text \<open>The variables found in a text, as a total function.\<close>

definition found_in :: "string \<Rightarrow> located list" where
  "found_in s = the (find_variables N s)"

lemma find_variables_found: "find_variables N s = Some (found_in s)"
  using find_variables_placed [of s] by (auto simp: found_in_def)

lemma references_run:
  "\<exists>r. references_of_values N vs acc = Some r \<and>
    (case r of
      Inl _ \<Rightarrow> \<not> (\<forall>v\<in>set vs. \<forall>f\<in>set (found_in v). readable f)
    | Inr acc' \<Rightarrow> (\<forall>v\<in>set vs. \<forall>f\<in>set (found_in v). readable f) \<and>
        set (snd acc') = set (snd acc) \<union> (\<Union>v\<in>set vs. refs_of (found_in v)))"
proof (induction vs arbitrary: acc)
  case (Cons v vs)
  show ?case
  proof (cases "note_references (found_in v) acc")
    case (Inl e)
    with note_references_run [of "found_in v" acc] show ?thesis by (simp add: find_variables_found)
  next
    case (Inr acc1)
    with note_references_run [of "found_in v" acc]
    have ok: "\<forall>f\<in>set (found_in v). readable f" "set (snd acc1) = set (snd acc) \<union> refs_of (found_in v)" by simp_all
    from Cons [of acc1] obtain r where r: "references_of_values N vs acc1 = Some r"
      and rr: "case r of Inl _ \<Rightarrow> \<not> (\<forall>v\<in>set vs. \<forall>f\<in>set (found_in v). readable f)
        | Inr acc' \<Rightarrow> (\<forall>v\<in>set vs. \<forall>f\<in>set (found_in v). readable f) \<and>
          set (snd acc') = set (snd acc1) \<union> (\<Union>v\<in>set vs. refs_of (found_in v))" by blast
    have "references_of_values N (v # vs) acc = Some r" using r Inr by (simp add: find_variables_found)
    then show ?thesis using rr ok by (cases r) (auto intro!: exI [of _ r])
  qed
qed simp

lemma refs_known:
  "(\<forall>f\<in>set (found_in v). readable f) \<Longrightarrow>
     (\<forall>r\<in>refs_of (found_in v). service_known config r)
     \<longleftrightarrow> (\<forall>f\<in>set (found_in v). ref_known config f)"
proof -
  assume readable: "\<forall>f\<in>set (found_in v). readable f"
  have ok: "service_ok s" if "Inr (a, b, ServiceRef s p) \<in> set (found_in v)" for a b s p
    using find_variables_placed [of v] placed_var_ok [OF _ that] by (auto simp: find_variables_found var_ok_def)
  show ?thesis
  proof
    assume known: "\<forall>r\<in>refs_of (found_in v). service_known config r"
    show "\<forall>f\<in>set (found_in v). ref_known config f"
    proof
      fix f assume f: "f \<in> set (found_in v)"
      with readable obtain a b w where w: "f = Inr (a, b, w)" by (cases f) (auto simp: readable_def)
      show "ref_known config f"
      proof (cases w)
        case (ServiceRef s p)
        with f w have "ref_name s p \<in> refs_of (found_in v)" by (auto simp: refs_of_def)
        with known ok f w ServiceRef str_split_ref [of s p] show ?thesis by (fastforce simp: ref_known_def service_known_def)
      qed (simp add: w ref_known_def)
    qed
  next
    assume "\<forall>f\<in>set (found_in v). ref_known config f"
    then show "\<forall>r\<in>refs_of (found_in v). service_known config r"
      using ok by (fastforce simp: refs_of_def ref_known_def service_known_def str_split_ref)
  qed
qed

lemma validate_references_run:
  "\<exists>r. validate_references N config = Some r \<and>
     (is_ok r \<longleftrightarrow> (\<forall>v\<in>set (env_values config). \<forall>f\<in>set (found_in v). ref_known config f))"
proof -
  have known: "ref_known config f \<Longrightarrow> readable f" for f by (cases f) (simp_all add: ref_known_def readable_def)
  obtain r where r0: "references_of_values N (env_values config) ([], []) = Some r"
    and rr0: "case r of Inl _ \<Rightarrow> \<not> (\<forall>v\<in>set (env_values config). \<forall>f\<in>set (found_in v). readable f)
      | Inr acc' \<Rightarrow> (\<forall>v\<in>set (env_values config). \<forall>f\<in>set (found_in v). readable f) \<and>
        set (snd acc') = set (snd ([] :: string list, [] :: string list)) \<union> (\<Union>v\<in>set (env_values config). refs_of (found_in v))"
    using references_run [of "env_values config" "([], [])"] by (elim exE conjE) (rule that)
  then have r: "find_all_references N config = Some r" by (simp add: find_all_references_def)
  show ?thesis
  proof (cases r)
    case (Inl e)
    with r rr0 known show ?thesis by (auto simp: validate_references_def)
  next
    case (Inr acc)
    obtain es refs where acc: "acc = (es, refs)" by (cases acc)
    have "validate_references N config = Some (check_service_refs config refs)"
      using r Inr acc by (simp add: validate_references_def)
    moreover have "is_ok (check_service_refs config refs) \<longleftrightarrow>
        (\<forall>v\<in>set (env_values config). \<forall>f\<in>set (found_in v). ref_known config f)"
      using rr0 Inr acc refs_known by (auto simp: check_service_refs_ok)
    ultimately show ?thesis by blast
  qed
qed

lemma resolve_loop_ok:
  "placed input p rs \<Longrightarrow> p \<le> length input \<Longrightarrow> \<forall>f\<in>set rs. readable f \<Longrightarrow>
     \<forall>a b v. Inr (a, b, v) \<in> set rs \<longrightarrow> is_ok (resolve_variable env ctx v) \<Longrightarrow>
     \<exists>w. resolve_loop env ctx input rs result p [] = Some (Inr w)"
proof (induction rs arbitrary: result p)
  case Nil
  then show ?case by (simp add: str_slice_def)
next
  case (Cons f rs)
  then obtain a b v where f: "f = Inr (a, b, v)" by (cases f) (auto simp: readable_def)
  with Cons(5) have "is_ok (resolve_variable env ctx v)" by (metis list.set_intros(1))
  then obtain x where x: "resolve_variable env ctx v = Inr x" by (cases "resolve_variable env ctx v") simp_all
  from Cons(2) f have "p \<le> a" "a \<le> b" "b \<le> length input" "placed input b rs"
    by (auto simp: str_slice_def split: if_splits)
  with Cons.IH [of b] Cons(4,5) x f show ?case by (simp add: str_slice_def)
qed

lemma resolve_env_loop_ok:
  assumes "\<forall>(k, v)\<in>set kvs. \<exists>w. resolve_string N env ctx v = Some (Inr w)"
  shows "\<exists>m. resolve_env_loop N env ctx kvs resolved = Some (Inr m) \<and>
    (\<forall>k. hm_get m k = (case map_of (rev kvs) k of
       Some v \<Rightarrow> Some (projr (the (resolve_string N env ctx v))) | None \<Rightarrow> hm_get resolved k))"
  using assms
proof (induction kvs arbitrary: resolved)
  case (Cons kv kvs)
  obtain k v where kv: "kv = (k, v)" by (cases kv)
  with Cons(2) obtain w where w: "resolve_string N env ctx v = Some (Inr w)" by auto
  from Cons(1) [of "hm_insert k w resolved"] Cons(2) obtain m where
    m: "resolve_env_loop N env ctx kvs (hm_insert k w resolved) = Some (Inr m)"
      "\<And>x. hm_get m x = (case map_of (rev kvs) x of Some v \<Rightarrow> Some (projr (the (resolve_string N env ctx v)))
        | None \<Rightarrow> hm_get (hm_insert k w resolved) x)" by auto
  then show ?case by (auto simp: kv w map_add_def split: option.splits intro!: exI [of _ m])
qed simp

end

lemma map_of_rev_distinct: "distinct (map fst xs) \<Longrightarrow> map_of (rev xs) = map_of xs"
  by (subst map_of_inject_set) (simp_all flip: rev_map)

section \<open>Properties\<close>

text \<open>What a validated configuration is.\<close>

definition config_wf :: "nom \<Rightarrow> Config \<Rightarrow> bool" where
  "config_wf N config \<longleftrightarrow> cfg_version config = ''1.0'' \<and>
     (\<forall>(name, service)\<in>set (cfg_services config). hm_has (cfg_networks config) (svc_network service) \<and>
        (\<forall>d\<in>set (svc_dependencies service). hm_has (cfg_services config) d)) \<and>
     (\<forall>v\<in>set (env_values config). \<exists>rs. find_variables N v = Some rs \<and> (\<forall>f\<in>set rs. ref_known config f))"

lemma validate_config_run:
  assumes nom: "nom_library N"
  shows "\<exists>r. validate_config N config = Some r \<and> (is_ok r \<longleftrightarrow> config_wf N config)"
proof (cases "check_service_entries config (cfg_services config)")
  case (Inl e)
  then have "\<not> config_wf N config"
    using check_service_entries_ok [of config "cfg_services config"] by (simp add: config_wf_def)
  with Inl show ?thesis by (simp add: validate_config_def)
next
  case (Inr u)
  obtain r where r: "validate_references N config = Some r"
    "is_ok r \<longleftrightarrow> (\<forall>v\<in>set (env_values config). \<forall>f\<in>set (nom_library.found_in N v). ref_known config f)"
    using nom_library.validate_references_run [OF nom] by blast
  have "config_wf N config \<longleftrightarrow> cfg_version config = ''1.0'' \<and> is_ok r"
    using check_service_entries_ok [of config "cfg_services config"] Inr r(2)
    by (simp add: config_wf_def nom_library.find_variables_found [OF nom])
  with r(1) Inr show ?thesis by (simp add: validate_config_def)
qed

lemma parse_str_wf:
  assumes nom: "nom_library N" and parsed: "parse_str N from_yaml content = Some (Inr config)"
  shows "config_wf N config \<and> deps_known config"
proof -
  have "\<exists>u. validate_config N config = Some (Inr u)"
    using parsed by (auto simp: parse_str_def res_bind_Inr_iff split: sum.splits)
  with validate_config_run [OF nom, of config] have wf: "config_wf N config" by auto
  then have "deps_known config" by (fastforce simp: config_wf_def deps_known_def hm_values_def)
  with wf show ?thesis by blast
qed

text \<open>
  C10. Validation decides well-formedness. A configuration is accepted exactly if its version is 1.0,
  every service names a network there is and depends on services there are, and every
  variable in its environments is readable and, if it refers to a service, to one there is. What is parsed
  is therefore well-formed, and its dependencies are known, which the ordering of services relies on.
\<close>

theorem validation_decides:
  assumes nom: "nom_library N"
  shows "(\<exists>r. validate_config N config = Some r \<and> (is_ok r \<longleftrightarrow> config_wf N config)) \<and>
    (parse_str N from_yaml content = Some (Inr config) \<longrightarrow> config_wf N config \<and> deps_known config)"
  using validate_config_run [OF nom, of config] parse_str_wf [OF nom] by blast

theorem validation_decides_witness:
  "config_wf nom_reference (plain_config [(''a'', [''b'']), (''b'', [])])"
proof -
  let ?c = "plain_config [(''a'', [''b'']), (''b'', [])]"
  have "validate_config nom_reference ?c = Some (Inr ())"
    by (simp add: validate_config_def plain_config_def validate_references_def find_all_references_def
        env_values_def plain_service_def hm_has_def hm_values_def)
  with validation_decides [OF nom_ref.nom_library_axioms, of ?c "\<lambda>_. Inr ?c" "[]"] show ?thesis by auto
qed

text \<open>
  C11. A parsed configuration converts, once its values are there. When the context knows the address, host and
  port of every service, and every variable without a default used by a service is set, the
  conversion of a service of a parsed configuration succeeds: the environment is the resolved one,
  and every dependency is a service of the configuration. The environment reaches containers and
  processes; remote services and packages are converted without it, and without a working directory.
\<close>

theorem parsed_config_converts:
  assumes nom: "nom_library N" and parsed: "parse_str N from_yaml content = Some (Inr config)"
    and service: "hm_get (cfg_services config) name = Some service" and wf: "hm_wf (svc_env service)"
    and services: "\<forall>n. hm_has (cfg_services config) n \<longrightarrow> hm_has (ctx_service_ips ctx) n \<and>
      hm_has (ctx_service_hosts ctx) n \<and> hm_has (ctx_service_ports ctx) n"
    and variables: "\<forall>v rs a b n. v \<in> set (hm_values (svc_env service)) \<and> find_variables N v = Some rs \<and>
      Inr (a, b, EnvVar n None) \<in> set rs \<longrightarrow> hm_has (ctx_env_vars ctx) n \<or> env n \<noteq> None"
  shows "\<exists>sc resolved. convert_to_orchestrator_with_context N env vars config name (Some ctx) = Some (Inr sc) \<and>
    (\<forall>k v. hm_get (svc_env service) k = Some v \<longrightarrow>
       (\<exists>w. resolve_string N env ctx v = Some (Inr w) \<and> hm_get resolved k = Some w)) \<and>
    (\<forall>d\<in>set (sc_dependencies sc). \<exists>n. d = DepService n \<and> hm_has (cfg_services config) n) \<and>
    (case svc_type service of
       TyDocker img _ _ _ _ \<Rightarrow> target_env (sc_target sc) = resolved
     | TyProcess _ _ _ _ \<Rightarrow> target_env (sc_target sc) = resolved
     | TyRemote host binary args _ \<Rightarrow> sc_target sc = TRemoteLan host ''root'' binary args \<and> target_env (sc_target sc) = []
     | TyPackage host package _ _ \<Rightarrow> sc_target sc = TWireguard host ''root'' package \<and> target_env (sc_target sc) = [])"
proof -
  from parse_str_wf [OF nom parsed] have cwf: "config_wf N config" by blast
  have mem: "service \<in> set (hm_values (cfg_services config))" using hm_get_value [OF service] .
  have each: "\<exists>w. resolve_string N env ctx v = Some (Inr w)" if v: "v \<in> set (hm_values (svc_env service))" for v
  proof -
    obtain rs where rs: "find_variables N v = Some rs" "placed v 0 rs"
      using nom_library.find_variables_placed [OF nom] by blast
    have "v \<in> set (env_values config)" using v mem by (auto simp: env_values_def)
    with cwf rs(1) have known: "\<forall>f\<in>set rs. ref_known config f" by (auto simp: config_wf_def)
    have "readable f" if "f \<in> set rs" for f using known that by (cases f) (auto simp: ref_known_def readable_def)
    moreover have "is_ok (resolve_variable env ctx x)" if x: "Inr (a, b, x) \<in> set rs" for a b x
    proof (cases x)
      case (EnvVar n d)
      have "d = None \<Longrightarrow> hm_has (ctx_env_vars ctx) n \<or> env n \<noteq> None"
        using variables v rs(1) x EnvVar by blast
      then show ?thesis using EnvVar
        by (cases d) (auto simp: resolve_variable_def hm_has_iff split: option.splits)
    next
      case (ServiceRef s p)
      with known x have s: "hm_has (cfg_services config) s" by (auto simp: ref_known_def)
      have "p \<in> {''ip'', ''port'', ''host''}" using placed_var_ok [OF rs(2) x] ServiceRef by (simp add: var_ok_def)
      with services s show ?thesis by (auto simp: ServiceRef resolve_variable_def hm_has_iff)
    qed
    ultimately show ?thesis
      using nom_library.resolve_loop_ok [OF nom rs(2), of env ctx "[]"] rs(1) by (auto simp: resolve_string_def)
  qed
  then obtain m where m: "resolve_env_loop N env ctx (svc_env service) [] = Some (Inr m)"
    and look: "\<And>k. hm_get m k = (case map_of (rev (svc_env service)) k of
       Some v \<Rightarrow> Some (projr (the (resolve_string N env ctx v))) | None \<Rightarrow> hm_get [] k)"
    using nom_library.resolve_env_loop_ok [OF nom, of "svc_env service" env ctx "[]"]
    by (force simp: hm_values_def)
  have env: "\<exists>w. resolve_string N env ctx v = Some (Inr w) \<and> hm_get m k = Some w"
    if "hm_get (svc_env service) k = Some v" for k v
    using that look [of k] each [OF hm_get_value [OF that]] wf
    by (auto simp: hm_get_def hm_wf_def map_of_rev_distinct split: option.splits)
  have deps: "hm_has (cfg_services config) d" if "d \<in> set (svc_dependencies service)" for d
    using cwf hm_get_mem [OF service] that by (auto simp: config_wf_def)
  show ?thesis
    using m env deps service
    by (cases "svc_type service")
      (auto simp: convert_to_orchestrator_with_context_def resolve_service_env_def convert_target_def intro!: exI [of _ m])
qed

definition env_config :: Config where
  "env_config = (plain_config [])\<lparr>cfg_services := [(''a'', (plain_service [])\<lparr>svc_env := [(''DIR'', ''${HOME}/x'')]\<rparr>)]\<rparr>"

theorem parsed_config_converts_witness:
  "\<exists>sc. convert_to_orchestrator_with_context nom_reference (\<lambda>n. if n = ''HOME'' then Some ''/root'' else None) [] env_config ''a''
     (Some (add_service ''a'' ''10.0.0.1'' (Some 80) ''a.local'' (resolution_context_new []))) = Some (Inr sc)"
proof -
  let ?t = "([([], EnvVar ''HOME'' None)], ''/x'') :: template"
  have ok: "template_ok ?t" by code_simp
  have find: "find_variables nom_reference ''${HOME}/x'' = Some [Inr (0, 7, EnvVar ''HOME'' None)]"
    using nom_ref.find_variables_loop_template [OF ok, of 0 "[]"]
    by (simp add: show_template_def show_hole_def show_var_def find_variables_def Let_def)
  have parsed: "parse_str nom_reference (\<lambda>_. Inr env_config) [] = Some (Inr env_config)"
    using find
    by (simp add: parse_str_def validate_config_def env_config_def plain_config_def plain_service_def hm_has_def
        validate_references_def find_all_references_def env_values_def hm_values_def)
  let ?svc = "(plain_service [])\<lparr>svc_env := [(''DIR'', ''${HOME}/x'')]\<rparr>"
  let ?ctx = "add_service ''a'' ''10.0.0.1'' (Some 80) ''a.local'' (resolution_context_new [])"
  have service: "hm_get (cfg_services env_config) ''a'' = Some ?svc" by (simp add: env_config_def hm_get_def)
  have wf: "hm_wf (svc_env ?svc)" by (simp add: hm_wf_def)
  have services: "\<forall>n. hm_has (cfg_services env_config) n \<longrightarrow>
      hm_has (ctx_service_ips ?ctx) n \<and> hm_has (ctx_service_hosts ?ctx) n \<and> hm_has (ctx_service_ports ?ctx) n"
    by (simp add: env_config_def add_service_def hm_has_def resolution_context_new_def hm_insert_def)
  have variables: "\<forall>v rs a b n. v \<in> set (hm_values (svc_env ?svc)) \<and> find_variables nom_reference v = Some rs \<and>
      Inr (a, b, EnvVar n None) \<in> set rs \<longrightarrow> hm_has (ctx_env_vars ?ctx) n \<or> (if n = ''HOME'' then Some ''/root'' else None) \<noteq> None"
    using find by (auto simp: hm_values_def)
  from parsed_config_converts [OF nom_ref.nom_library_axioms parsed service wf services variables]
  show ?thesis by blast
qed

end
