(* ===== verification/Cmd_Layers.thy ===== *)
theory Cmd_Layers
  imports Cmd_Command
begin

text \<open>
  Execution layers, \<^verbatim>\<open>crates/command-executor/src/layered\<close>: \<^verbatim>\<open>layers.rs\<close> (SSH, Docker and local
  layers, the shell quoting) and \<^verbatim>\<open>executor.rs\<close> (the stack of layers). The quoting is related
  to the word splitting of the POSIX shell, \<open>posix_words\<close>: the part of section 2 of the shell
  language that produces words from blanks, single and double quotes, and is undefined
  (\<open>None\<close>) wherever an unquoted character would mean anything else.
\<close>

section \<open>Quoting\<close>

definition shell_special :: "char list" where
  "shell_special = [CHR 0x22, CHR 0x27, CHR 0x5C, CHR ''$'', CHR 0x60, CHR ''!'', CHR ''*'', CHR ''?'',
     CHR ''<'', CHR ''>'', CHR ''|'', CHR ''&'', CHR '';'', CHR ''('', CHR '')'', CHR ''['', CHR '']'',
     CHR ''{'', CHR ''}'']"

definition needs_quotes :: "string \<Rightarrow> bool" where
  "needs_quotes s = list_ex (\<lambda>c. is_space c \<or> c \<in> set shell_special) s"

definition replace_quote :: "string \<Rightarrow> string" where
  "replace_quote s = concat (map (\<lambda>c. if c = CHR 0x27
     then [CHR 0x27, CHR 0x22, CHR 0x27, CHR 0x22, CHR 0x27] else [c]) s)"

definition shell_escape :: "string \<Rightarrow> string" where
  "shell_escape s = (if needs_quotes s then [CHR 0x27] @ replace_quote s @ [CHR 0x27] else s)"

definition command_to_shell_string :: "Command \<Rightarrow> string" where
  "command_to_shell_string c =
     (if cmd_args c = [] then cmd_program c
      else cmd_program c @ '' '' @ str_join '' '' (map shell_escape (cmd_args c)))"

section \<open>The layers\<close>

record ExecutionContext =
  ctx_env :: "(string, string) hmap"
  ctx_working_dir :: "string option"
  ctx_metadata :: "(string, string) hmap"

definition context_new :: ExecutionContext where
  "context_new = \<lparr>ctx_env = [], ctx_working_dir = None, ctx_metadata = []\<rparr>"

definition ctx_with_env :: "string \<Rightarrow> string \<Rightarrow> ExecutionContext \<Rightarrow> ExecutionContext" where
  "ctx_with_env k v c = c\<lparr>ctx_env := hm_insert k v (ctx_env c)\<rparr>"

definition ctx_with_working_dir :: "string \<Rightarrow> ExecutionContext \<Rightarrow> ExecutionContext" where
  "ctx_with_working_dir dir c = c\<lparr>ctx_working_dir := Some dir\<rparr>"

definition ctx_with_metadata :: "string \<Rightarrow> string \<Rightarrow> ExecutionContext \<Rightarrow> ExecutionContext" where
  "ctx_with_metadata k v c = c\<lparr>ctx_metadata := hm_insert k v (ctx_metadata c)\<rparr>"

record SshLayer =
  ssl_destination :: string
  ssl_port :: "u16 option"
  ssl_identity_file :: "string option"
  ssl_options :: "string list"
  ssl_env :: "(string, string) hmap"
  ssl_working_dir :: "string option"
  ssl_agent_forwarding :: bool
  ssl_x11_forwarding :: bool
  ssl_allocate_tty :: bool

definition ssh_layer_new :: "string \<Rightarrow> SshLayer" where
  "ssh_layer_new destination = \<lparr>ssl_destination = destination, ssl_port = None, ssl_identity_file = None,
     ssl_options = [], ssl_env = [], ssl_working_dir = None, ssl_agent_forwarding = False,
     ssl_x11_forwarding = False, ssl_allocate_tty = False\<rparr>"

definition ssh_with_env :: "string \<Rightarrow> string \<Rightarrow> SshLayer \<Rightarrow> SshLayer" where
  "ssh_with_env k v l = l\<lparr>ssl_env := hm_insert k v (ssl_env l)\<rparr>"

definition ssh_with_option :: "string \<Rightarrow> SshLayer \<Rightarrow> SshLayer" where
  "ssh_with_option opt l = l\<lparr>ssl_options := ssl_options l @ [opt]\<rparr>"

definition flag :: "bool \<Rightarrow> string list \<Rightarrow> string list" where
  "flag b args = (if b then args else [])"

definition opt_args :: "string \<Rightarrow> string option \<Rightarrow> string list" where
  "opt_args name v = (case v of None \<Rightarrow> [] | Some x \<Rightarrow> [name, x])"

definition ssh_inner :: "SshLayer \<Rightarrow> Command \<Rightarrow> Command" where
  "ssh_inner l command =
     (let c = set_envs (ssl_env l) command in
      case ssl_working_dir l of None \<Rightarrow> c | Some workdir \<Rightarrow> set_current_dir workdir c)"

definition env_assignments :: "(string, string) hmap \<Rightarrow> string" where
  "env_assignments env =
     str_join '' '' (map (\<lambda>(k, v). shell_escape k @ ''='' @ shell_escape v) env)"

definition ssh_remote_command :: "SshLayer \<Rightarrow> Command \<Rightarrow> string" where
  "ssh_remote_command l command =
     (if ssl_env l \<noteq> [] then env_assignments (ssl_env l) @ '' '' else []) @
     (case ssl_working_dir l of None \<Rightarrow> [] | Some workdir \<Rightarrow> ''cd '' @ shell_escape workdir @ '' && '') @
     command_to_shell_string (ssh_inner l command)"

definition ssh_wrap :: "SshLayer \<Rightarrow> Command \<Rightarrow> Command" where
  "ssh_wrap l command =
     add_arg (ssh_remote_command l command)
      (add_arg (ssl_destination l)
       (add_args (ssl_options l)
        (add_args (opt_args ''-i'' (ssl_identity_file l))
         (add_args (opt_args ''-p'' (map_option (\<lambda>p. show_nat (unat p)) (ssl_port l)))
          (add_args (flag (ssl_allocate_tty l) [''-t''])
           (add_args (flag (ssl_x11_forwarding l) [''-X''])
            (add_args (flag (ssl_agent_forwarding l) [''-A'']) (cmd_new ''ssh''))))))))"

record DockerLayer =
  dkl_container :: string
  dkl_interactive :: bool
  dkl_tty :: bool
  dkl_user :: "string option"
  dkl_workdir :: "string option"
  dkl_env :: "(string, string) hmap"

definition docker_layer_new :: "string \<Rightarrow> DockerLayer" where
  "docker_layer_new container = \<lparr>dkl_container = container, dkl_interactive = False, dkl_tty = False,
     dkl_user = None, dkl_workdir = None, dkl_env = []\<rparr>"

definition docker_wrap :: "DockerLayer \<Rightarrow> Command \<Rightarrow> Command" where
  "docker_wrap l command =
     add_arg (command_to_shell_string command)
      (add_args [''sh'', ''-c'']
       (add_arg (dkl_container l)
        (add_args (concat (map (\<lambda>(k, v). [''-e'', k @ ''='' @ v]) (dkl_env l)))
         (add_args (opt_args ''-w'' (dkl_workdir l))
          (add_args (opt_args ''-u'' (dkl_user l))
           (add_args (flag (dkl_tty l) [''-t''])
            (add_args (flag (dkl_interactive l) [''-i'']) (add_arg ''exec'' (cmd_new ''docker'')))))))))"

record LocalLayer =
  lcl_env :: "(string, string) hmap"
  lcl_working_dir :: "string option"

definition local_layer_new :: LocalLayer where
  "local_layer_new = \<lparr>lcl_env = [], lcl_working_dir = None\<rparr>"

definition local_wrap :: "LocalLayer \<Rightarrow> Command \<Rightarrow> Command" where
  "local_wrap l command =
     (let c = set_envs (lcl_env l) command in
      case lcl_working_dir l of None \<Rightarrow> c | Some workdir \<Rightarrow> set_current_dir workdir c)"

datatype ExecLayer = SshL SshLayer | DockerL DockerLayer | LocalL LocalLayer

fun wrap_command :: "ExecLayer \<Rightarrow> Command \<Rightarrow> ExecutionContext \<Rightarrow> Command" where
  "wrap_command (SshL l) c ctx = ssh_wrap l c"
| "wrap_command (DockerL l) c ctx = docker_wrap l c"
| "wrap_command (LocalL l) c ctx = local_wrap l c"

fun layer_description :: "ExecLayer \<Rightarrow> string" where
  "layer_description (SshL l) = ''SSH to '' @ ssl_destination l"
| "layer_description (DockerL l) = ''Docker exec in '' @ dkl_container l"
| "layer_description (LocalL l) = ''Local execution''"

record 'l LayeredExecutor =
  le_launcher :: 'l
  le_layers :: "ExecLayer list"
  le_context :: ExecutionContext

definition layered_new :: "'l \<Rightarrow> 'l LayeredExecutor" where
  "layered_new launcher = \<lparr>le_launcher = launcher, le_layers = [], le_context = context_new\<rparr>"

definition with_layer :: "ExecLayer \<Rightarrow> 'l LayeredExecutor \<Rightarrow> 'l LayeredExecutor" where
  "with_layer layer x = x\<lparr>le_layers := le_layers x @ [layer]\<rparr>"

definition with_context :: "ExecutionContext \<Rightarrow> 'l LayeredExecutor \<Rightarrow> 'l LayeredExecutor" where
  "with_context ctx x = x\<lparr>le_context := ctx\<rparr>"

definition layer_count :: "'l LayeredExecutor \<Rightarrow> nat" where
  "layer_count x = length (le_layers x)"

definition layer_descriptions :: "'l LayeredExecutor \<Rightarrow> string list" where
  "layer_descriptions x = map layer_description (le_layers x)"

definition transform_command :: "'l LayeredExecutor \<Rightarrow> Command \<Rightarrow> Command" where
  "transform_command x command = foldl (\<lambda>cmd layer. wrap_command layer cmd (le_context x)) command (le_layers x)"

text \<open>\<open>launch\<close> is the launcher's operation on a target and the final command.\<close>

definition layered_execute ::
    "('l \<Rightarrow> 'tgt \<Rightarrow> Command \<Rightarrow> CmdError + 'r) \<Rightarrow> 'l LayeredExecutor \<Rightarrow> Command \<Rightarrow> 'tgt \<Rightarrow> CmdError + 'r" where
  "layered_execute launch x command target = launch (le_launcher x) target (transform_command x command)"

section \<open>The words a POSIX shell reads\<close>

datatype quoting = QNone | QSingle | QDouble

definition posix_meta :: "char list" where
  "posix_meta = [CHR ''|'', CHR ''&'', CHR '';'', CHR ''<'', CHR ''>'', CHR ''('', CHR '')'', CHR ''$'',
     CHR 0x60, CHR 0x5C, CHR ''*'', CHR ''?'', CHR ''['', CHR '']'', CHR ''{'', CHR ''}'', CHR ''!'',
     CHR 0x0A, CHR 0x0B, CHR 0x0C, CHR 0x0D]"

definition cur_word :: "string option \<Rightarrow> string" where
  "cur_word cur = (case cur of None \<Rightarrow> [] | Some w \<Rightarrow> w)"

definition cur_words :: "string option \<Rightarrow> string list" where
  "cur_words cur = (case cur of None \<Rightarrow> [] | Some w \<Rightarrow> [w])"

fun posix_tok :: "quoting \<Rightarrow> string option \<Rightarrow> string \<Rightarrow> string list option" where
  "posix_tok QNone cur [] = Some (cur_words cur)"
| "posix_tok QNone cur (c # s) =
     (if c = CHR '' '' \<or> c = CHR 0x09 then map_option ((@) (cur_words cur)) (posix_tok QNone None s)
      else if c = CHR 0x27 then posix_tok QSingle (Some (cur_word cur)) s
      else if c = CHR 0x22 then posix_tok QDouble (Some (cur_word cur)) s
      else if c \<in> set posix_meta \<or> cur = None \<and> (c = CHR ''#'' \<or> c = CHR ''~'') then None
      else posix_tok QNone (Some (cur_word cur @ [c])) s)"
| "posix_tok QSingle cur [] = None"
| "posix_tok QSingle cur (c # s) =
     (if c = CHR 0x27 then posix_tok QNone cur s else posix_tok QSingle (Some (cur_word cur @ [c])) s)"
| "posix_tok QDouble cur [] = None"
| "posix_tok QDouble cur (c # s) =
     (if c = CHR 0x22 then posix_tok QNone cur s
      else if c = CHR ''$'' \<or> c = CHR 0x60 \<or> c = CHR 0x5C then None
      else posix_tok QDouble (Some (cur_word cur @ [c])) s)"

definition posix_words :: "string \<Rightarrow> string list option" where
  "posix_words s = posix_tok QNone None s"

definition shell_safe :: "string \<Rightarrow> bool" where
  "shell_safe s \<longleftrightarrow> s \<noteq> [] \<and> (needs_quotes s \<or> hd s \<noteq> CHR ''#'' \<and> hd s \<noteq> CHR ''~'')"

text \<open>
  A program that needs no quoting and does not begin like a comment or a home directory. The reader knows
  words only: one of the form \<open>A=1\<close> is among them, though a shell would take it for an assignment, so
  what is shown is that the words are delivered, not that the shell runs such a program.
\<close>

definition plain_word :: "string \<Rightarrow> bool" where
  "plain_word s \<longleftrightarrow> s \<noteq> [] \<and> \<not> needs_quotes s \<and> hd s \<noteq> CHR ''#'' \<and> hd s \<noteq> CHR ''~''"

lemma cur_simps [simp]: "cur_word None = []" "cur_word (Some w) = w" "cur_words None = []" "cur_words (Some w) = [w]"
  by (simp_all add: cur_word_def cur_words_def)

lemma tok_single:
  "posix_tok QSingle (Some w) (replace_quote s @ CHR 0x27 # rest) = posix_tok QNone (Some (w @ s)) rest"
  by (induction s arbitrary: w) (auto simp: replace_quote_def)

lemma unquoted_char:
  "\<not> is_space c \<Longrightarrow> c \<notin> set shell_special \<Longrightarrow>
     c \<noteq> CHR '' '' \<and> c \<noteq> CHR 0x09 \<and> c \<noteq> CHR 0x27 \<and> c \<noteq> CHR 0x22 \<and> c \<notin> set posix_meta"
  by (auto simp: is_space_def shell_special_def posix_meta_def)

lemma tok_unquoted:
  "\<not> needs_quotes s \<Longrightarrow> posix_tok QNone (Some w) (s @ rest) = posix_tok QNone (Some (w @ s)) rest"
proof (induction s arbitrary: w)
  case (Cons c s)
  then have "\<not> is_space c" "c \<notin> set shell_special" "\<not> needs_quotes s" by (auto simp: needs_quotes_def)
  with Cons.IH [of "w @ [c]"] unquoted_char [of c] show ?case by simp
qed simp

lemma tok_plain:
  assumes "plain_word s"
  shows "posix_tok QNone None (s @ rest) = posix_tok QNone (Some s) rest"
proof (cases s)
  case (Cons c t)
  with assms have "\<not> is_space c" "c \<notin> set shell_special" "\<not> needs_quotes t" "c \<noteq> CHR ''#''" "c \<noteq> CHR ''~''"
    by (auto simp: plain_word_def needs_quotes_def)
  with Cons tok_unquoted [of t "[c]" rest] unquoted_char [of c] show ?thesis by simp
qed (use assms in \<open>simp add: plain_word_def\<close>)

lemma tok_escape:
  assumes "shell_safe s"
  shows "posix_tok QNone None (shell_escape s @ rest) = posix_tok QNone (Some s) rest"
proof (cases "needs_quotes s")
  case True
  then show ?thesis using tok_single [of "[]" s rest] by (simp add: shell_escape_def)
next
  case False
  with assms have "plain_word s" by (simp add: shell_safe_def plain_word_def)
  with False tok_plain show ?thesis by (simp add: shell_escape_def)
qed

lemma tok_blank: "posix_tok QNone (Some w) (CHR '' '' # rest) = map_option ((#) w) (posix_tok QNone None rest)"
  by (cases "posix_tok QNone None rest") simp_all

lemma words_join: "list_all shell_safe as \<Longrightarrow> posix_words (str_join '' '' (map shell_escape as)) = Some as"
  unfolding posix_words_def
proof (induction as rule: induct_list012)
  case (2 a)
  then show ?case using tok_escape [of a "[]"] by simp
next
  case (3 a b as)
  then have "posix_tok QNone None (str_join '' '' (map shell_escape (b # as))) = Some (b # as)" by simp
  with 3 tok_escape [of a "CHR '' '' # str_join '' '' (map shell_escape (b # as))"] show ?case
    by (simp add: tok_blank)
qed simp

definition cmd_words :: "Command \<Rightarrow> string list" where
  "cmd_words c = cmd_program c # cmd_args c"

definition cmd_ok :: "Command \<Rightarrow> bool" where
  "cmd_ok c \<longleftrightarrow> plain_word (cmd_program c) \<and> list_all shell_safe (cmd_args c)"

lemma shell_string_words: "cmd_ok c \<Longrightarrow> posix_words (command_to_shell_string c) = Some (cmd_words c)"
proof (cases "cmd_args c")
  case Nil
  assume "cmd_ok c"
  with Nil tok_plain [of "cmd_program c" "[]"] show ?thesis
    by (simp add: cmd_ok_def command_to_shell_string_def cmd_words_def posix_words_def)
next
  case (Cons a as)
  assume ok: "cmd_ok c"
  with Cons tok_plain [of "cmd_program c" "CHR '' '' # str_join '' '' (map shell_escape (cmd_args c))"]
    words_join [of "cmd_args c"]
  show ?thesis
    by (simp add: cmd_ok_def command_to_shell_string_def cmd_words_def posix_words_def tok_blank del: str_join.simps)
qed

lemma shell_string_safe: "cmd_ok c \<Longrightarrow> shell_safe (command_to_shell_string c)"
  by (auto simp: cmd_ok_def plain_word_def shell_safe_def command_to_shell_string_def)

section \<open>Unwrapping\<close>

fun remote_layer :: "ExecLayer \<Rightarrow> bool" where
  "remote_layer (LocalL _) = False"
| "remote_layer _ = True"

text \<open>A layer whose own words survive quoting and that adds no shell text of its own.\<close>

fun transparent :: "ExecLayer \<Rightarrow> bool" where
  "transparent (SshL l) = (ssl_env l = [] \<and> ssl_working_dir l = None \<and> shell_safe (ssl_destination l) \<and>
     list_all shell_safe (ssl_options l) \<and> pred_option shell_safe (ssl_identity_file l))"
| "transparent (DockerL l) = (shell_safe (dkl_container l) \<and> pred_option shell_safe (dkl_user l) \<and>
     pred_option shell_safe (dkl_workdir l) \<and> list_all (\<lambda>(k, v). shell_safe (k @ ''='' @ v)) (dkl_env l))"
| "transparent (LocalL l) = True"

fun unwrap_words :: "nat \<Rightarrow> string list \<Rightarrow> string list option" where
  "unwrap_words 0 ws = Some ws"
| "unwrap_words (Suc n) ws = (case posix_words (last ws) of None \<Rightarrow> None | Some ws' \<Rightarrow> unwrap_words n ws')"

lemma add_arg_sel [simp]:
  "cmd_args (add_arg a c) = cmd_args c @ [a]" "cmd_program (add_arg a c) = cmd_program c"
  "cmd_args (add_args as c) = cmd_args c @ as" "cmd_program (add_args as c) = cmd_program c"
  by (simp_all add: add_arg_def add_args_eq)

lemma new_sel [simp]: "cmd_args (cmd_new p) = []" "cmd_program (cmd_new p) = p"
  by (simp_all add: cmd_new_def)

lemma set_env_words [simp]:
  "cmd_words (set_envs vars c) = cmd_words c" "cmd_words (set_current_dir d c) = cmd_words c"
  by (simp_all add: cmd_words_def set_envs_eq set_current_dir_def)

lemma words_cong: "cmd_words c = cmd_words c' \<Longrightarrow> command_to_shell_string c = command_to_shell_string c'"
  by (simp add: cmd_words_def command_to_shell_string_def)

lemma ssh_inner_words: "cmd_words (ssh_inner l c) = cmd_words c"
  by (simp add: ssh_inner_def Let_def split: option.splits)

lemma ssh_inner_string: "command_to_shell_string (ssh_inner l c) = command_to_shell_string c"
  by (rule words_cong) (rule ssh_inner_words)

lemma local_words: "cmd_words (local_wrap l c) = cmd_words c"
  by (simp add: local_wrap_def Let_def split: option.splits)

lemma cmd_ok_words: "cmd_words c = cmd_words c' \<Longrightarrow> cmd_ok c = cmd_ok c'"
  by (simp add: cmd_words_def cmd_ok_def)

lemma flag_safe: "list_all shell_safe args \<Longrightarrow> list_all shell_safe (flag b args)"
  by (simp add: flag_def)

lemma digits_safe: "shell_safe (show_nat n)"
proof -
  have "hd (show_nat n) \<in> set (show_nat n)" by (rule hd_in_set) simp
  then have "is_digit (hd (show_nat n))" by (rule show_nat_digits)
  then show ?thesis by (auto simp: shell_safe_def is_digit_def)
qed

lemma wrap_step:
  assumes ok: "cmd_ok c" and t: "transparent l"
  shows "cmd_ok (wrap_command l c ctx)"
    and "remote_layer l \<Longrightarrow> posix_words (last (cmd_words (wrap_command l c ctx))) = Some (cmd_words c)"
    and "\<not> remote_layer l \<Longrightarrow> cmd_words (wrap_command l c ctx) = cmd_words c"
proof -
  note str = shell_string_safe [OF ok] shell_string_words [OF ok]
  have flags: "shell_safe ''-A''" "shell_safe ''-X''" "shell_safe ''-t''" "shell_safe ''-i''"
    "shell_safe ''-p''" "shell_safe ''-u''" "shell_safe ''-w''" "shell_safe ''-e''" "shell_safe ''sh''"
    "shell_safe ''-c''" "shell_safe ''exec''"
    by (simp_all add: shell_safe_def)
  have progs: "plain_word ''ssh''" "plain_word ''docker''"
    by (simp_all add: plain_word_def needs_quotes_def is_space_def shell_special_def)
  have opt: "list_all shell_safe (opt_args n v)" if "shell_safe n" "pred_option shell_safe v" for n v
    using that by (cases v) (simp_all add: opt_args_def)
  have port: "pred_option shell_safe (map_option (\<lambda>p. show_nat (unat p)) p)" for p :: "u16 option"
    by (cases p) (simp_all add: digits_safe)
  have env: "list_all shell_safe (concat (map (\<lambda>(k, v). [''-e'', k @ ''='' @ v]) m))"
    if "list_all (\<lambda>(k, v). shell_safe (k @ ''='' @ v)) m" for m
    using that flags by (induction m) auto
  show "cmd_ok (wrap_command l c ctx)"
  proof (cases l)
    case (SshL s)
    with t str(1) flags progs opt port show ?thesis
      by (simp add: cmd_ok_def ssh_wrap_def ssh_remote_command_def ssh_inner_string flag_safe)
  next
    case (DockerL d)
    with t str(1) flags progs opt env show ?thesis
      by (simp add: cmd_ok_def docker_wrap_def flag_safe)
  next
    case (LocalL x)
    with ok cmd_ok_words [OF local_words] show ?thesis by simp
  qed
  show "posix_words (last (cmd_words (wrap_command l c ctx))) = Some (cmd_words c)" if "remote_layer l"
  proof (cases l)
    case (SshL s)
    with t str(2) show ?thesis
      by (simp add: cmd_words_def ssh_wrap_def ssh_remote_command_def ssh_inner_string)
  next
    case (DockerL d)
    with str(2) show ?thesis by (simp add: cmd_words_def docker_wrap_def)
  qed (use that in simp)
  show "cmd_words (wrap_command l c ctx) = cmd_words c" if "\<not> remote_layer l"
    using that by (cases l) (simp_all add: local_words)
qed

lemma fold_layers_unwrap:
  assumes "cmd_ok c" and "list_all transparent ls"
  shows "cmd_ok (foldl (\<lambda>cmd layer. wrap_command layer cmd ctx) c ls) \<and>
    unwrap_words (length (filter remote_layer ls))
      (cmd_words (foldl (\<lambda>cmd layer. wrap_command layer cmd ctx) c ls)) = Some (cmd_words c)"
  using assms(2)
proof (induction ls rule: rev_induct)
  case (snoc l ls)
  then have ih: "cmd_ok (foldl (\<lambda>cmd layer. wrap_command layer cmd ctx) c ls)"
    "unwrap_words (length (filter remote_layer ls))
      (cmd_words (foldl (\<lambda>cmd layer. wrap_command layer cmd ctx) c ls)) = Some (cmd_words c)"
    and t: "transparent l" by simp_all
  from wrap_step [OF ih(1) t, of ctx] ih(2) show ?case by (cases "remote_layer l") simp_all
qed (use assms(1) in simp)

section \<open>Properties\<close>

text \<open>
  C25. Layers deliver the command. When the command's program is a plain word, its arguments
  and the layers' own settings are words that quoting preserves, and no SSH layer sets
  variables or a directory, the transformed command, read by one POSIX shell per remote
  layer, gives back exactly the original program and arguments. The layer added last is the
  outermost one.
\<close>

theorem layers_deliver_command:
  assumes "cmd_ok c" and "list_all transparent (le_layers x)"
  shows "unwrap_words (length (filter remote_layer (le_layers x))) (cmd_words (transform_command x c))
      = Some (cmd_words c) \<and>
    transform_command (with_layer l x) c = wrap_command l (transform_command x c) (le_context x)"
  using fold_layers_unwrap [OF assms] by (simp add: transform_command_def with_layer_def)

theorem layers_deliver_command_witness:
  "unwrap_words 2 (cmd_words (transform_command
     (with_layer (SshL (ssh_layer_new ''me@host'')) (with_layer (DockerL (docker_layer_new ''web'')) (layered_new ())))
     (add_arg ''it is'' (cmd_new ''echo'')))) = Some [''echo'', ''it is'']"
proof -
  let ?x = "with_layer (SshL (ssh_layer_new ''me@host'')) (with_layer (DockerL (docker_layer_new ''web'')) (layered_new ()))"
  let ?c = "add_arg ''it is'' (cmd_new ''echo'')"
  have c: "cmd_ok ?c"
    by (simp add: cmd_ok_def plain_word_def needs_quotes_def shell_safe_def is_space_def shell_special_def)
  have l: "le_layers ?x = [DockerL (docker_layer_new ''web''), SshL (ssh_layer_new ''me@host'')]"
    by (simp add: with_layer_def layered_new_def)
  have "list_all transparent (le_layers ?x)"
    unfolding l by (simp add: docker_layer_new_def ssh_layer_new_def shell_safe_def)
  from layers_deliver_command [OF c this] show ?thesis unfolding l by (simp add: cmd_words_def numeral_2_eq_2 add_arg_def cmd_new_def)
qed

text \<open>
  Quoting is exact except for the empty word. A list of arguments, none empty and none
  starting with a hash or tilde that nothing else forces into quotes, is read back by the shell
  word for word, quotes, blanks and expansion characters included; an empty argument
  disappears from the command line.
\<close>

theorem quoting_exact:
  "(\<forall>as. list_all shell_safe as \<longrightarrow> posix_words (str_join '' '' (map shell_escape as)) = Some as) \<and>
   (\<forall>p. plain_word p \<longrightarrow> posix_words (command_to_shell_string (add_arg [] (cmd_new p))) = Some [p])"
proof (intro conjI allI impI)
  fix p
  assume "plain_word p"
  from tok_plain [OF this, of "'' ''"] show "posix_words (command_to_shell_string (add_arg [] (cmd_new p))) = Some [p]"
    by (simp add: command_to_shell_string_def posix_words_def shell_escape_def needs_quotes_def)
qed (rule words_join)

theorem quoting_exact_witness:
  "posix_words (str_join '' '' (map shell_escape [''a b'', [CHR ''i'', CHR 0x27, CHR ''s''], ''$HOME'']))
     = Some [''a b'', [CHR ''i'', CHR 0x27, CHR ''s''], ''$HOME'']"
  using quoting_exact by (simp add: shell_safe_def del: str_join.simps list.map)

text \<open>
  Remote layers forget the environment and directory of what they wrap. The result of an
  SSH or Docker layer depends only on the program and the arguments of the wrapped command:
  its variables, its directory, the execution context, and whatever an inner local layer set,
  do not reach the remote side.
\<close>

theorem remote_layers_forget_environment:
  assumes "remote_layer l" and "cmd_words c = cmd_words c'"
  shows "wrap_command l c ctx = wrap_command l c' ctx' \<and> cmd_env (wrap_command l c ctx) = [] \<and>
    cmd_current_dir (wrap_command l c ctx) = None \<and>
    wrap_command l (wrap_command (LocalL loc) c ctx) ctx = wrap_command l c ctx"
proof (cases l)
  case (SshL s)
  note inner = ssh_inner_string words_cong [OF assms(2)] words_cong [OF local_words]
  show ?thesis unfolding SshL wrap_command.simps ssh_wrap_def ssh_remote_command_def inner
    by (simp add: add_args_eq add_arg_def cmd_new_def)
next
  case (DockerL d)
  show ?thesis unfolding DockerL wrap_command.simps docker_wrap_def words_cong [OF assms(2)] words_cong [OF local_words]
    by (simp add: add_args_eq add_arg_def cmd_new_def)
qed (use assms(1) in simp)

theorem remote_layers_forget_environment_witness:
  "wrap_command (DockerL (docker_layer_new ''web'')) (set_env ''A'' ''1'' (cmd_new ''env'')) context_new
     = wrap_command (DockerL (docker_layer_new ''web'')) (cmd_new ''env'') context_new"
  using remote_layers_forget_environment [of "DockerL (docker_layer_new ''web'')"
      "set_env ''A'' ''1'' (cmd_new ''env'')" "cmd_new ''env''" context_new context_new]
  by (simp add: cmd_words_def set_env_def)

end
