(* ===== verification/Cmd_Process.thy ===== *)
theory Cmd_Process
  imports Cmd_Layers
begin

text \<open>
  Processes of \<^verbatim>\<open>crates/command-executor\<close>: the local launcher and its event stream
  (\<^verbatim>\<open>backends/launcher.rs\<close>, \<^verbatim>\<open>launcher.rs\<close>, \<^verbatim>\<open>event.rs\<close>, \<^verbatim>\<open>stdin.rs\<close>), and attaching to
  services (\<^verbatim>\<open>attacher.rs\<close>, \<^verbatim>\<open>backends/attacher.rs\<close>, \<^verbatim>\<open>layered/attacher.rs\<close>). A pipe of a
  child is the list of what polling it yields; spawning, waiting and signals are parameters.
\<close>

section \<open>Events\<close>

datatype ProcessEventType =
    PStarted (ps_pid: u32)
  | PExited (px_code: "int option") (px_signal: "int option")
  | PStdout
  | PStderr

record ProcessEvent =
  pe_timestamp :: string
  pe_event_type :: ProcessEventType
  pe_data :: "string option"

definition event_new :: "string \<Rightarrow> ProcessEventType \<Rightarrow> ProcessEvent" where
  "event_new now t = \<lparr>pe_timestamp = now, pe_event_type = t, pe_data = None\<rparr>"

definition event_new_with_data :: "string \<Rightarrow> ProcessEventType \<Rightarrow> string \<Rightarrow> ProcessEvent" where
  "event_new_with_data now t d = \<lparr>pe_timestamp = now, pe_event_type = t, pe_data = Some d\<rparr>"

datatype LogSource = SrcStdout | SrcStderr

type_synonym log_filter = "string \<Rightarrow> LogSource \<Rightarrow> string option"

definition no_op_filter :: log_filter where "no_op_filter line src = Some line"

section \<open>The event stream of a local process\<close>

datatype poll_line = PLine string | PErr | PPend

datatype 'a poll = Ready 'a | Pending

record ProcessEventStream =
  st_stdout :: "poll_line list option"
  st_stderr :: "poll_line list option"
  st_filter :: log_filter
  st_started_sent :: bool
  st_child_id :: u32

definition pipe_left :: "poll_line list option \<Rightarrow> nat" where
  "pipe_left p = (case p of None \<Rightarrow> 0 | Some ls \<Rightarrow> Suc (length ls))"

text \<open>One poll of a pipe: a line if it has one, and the pipe afterwards (\<open>None\<close> once closed).\<close>

fun read_pipe :: "poll_line list option \<Rightarrow> string option \<times> poll_line list option" where
  "read_pipe None = (None, None)"
| "read_pipe (Some []) = (None, None)"
| "read_pipe (Some (PErr # r)) = (None, None)"
| "read_pipe (Some (PPend # r)) = (None, Some r)"
| "read_pipe (Some (PLine line # r)) = (Some line, Some r)"

lemma read_pipe_line: "read_pipe p = (Some l, q) \<Longrightarrow> pipe_left q < pipe_left p"
  by (cases p rule: read_pipe.cases) (auto simp: pipe_left_def)

lemma read_pipe_dec:
  "read_pipe p = (x, q) \<Longrightarrow> pipe_left q \<le> pipe_left p \<and> (x \<noteq> None \<longrightarrow> pipe_left q < pipe_left p)"
  by (cases p rule: read_pipe.cases) (auto simp: pipe_left_def)

lemma read_pipe_le: "read_pipe p = (x, q) \<Longrightarrow> pipe_left q \<le> pipe_left p"
  by (cases p rule: read_pipe.cases) (auto simp: pipe_left_def)

function poll_next :: "string \<Rightarrow> ProcessEventStream \<Rightarrow> ProcessEvent option poll \<times> ProcessEventStream" where
  "poll_next now st =
     (if \<not> st_started_sent st then
        (Ready (Some (event_new now (PStarted (st_child_id st)))), st\<lparr>st_started_sent := True\<rparr>)
      else
        (case read_pipe (st_stdout st) of
           (Some line, p) \<Rightarrow>
             (case st_filter st line SrcStdout of
                Some filtered \<Rightarrow> (Ready (Some (event_new_with_data now PStdout filtered)), st\<lparr>st_stdout := p\<rparr>)
              | None \<Rightarrow> poll_next now (st\<lparr>st_stdout := p\<rparr>))
         | (None, p) \<Rightarrow>
             (case read_pipe (st_stderr st) of
                (Some line, q) \<Rightarrow>
                  (case st_filter st line SrcStderr of
                     Some filtered \<Rightarrow> (Ready (Some (event_new_with_data now PStderr filtered)),
                       st\<lparr>st_stdout := p, st_stderr := q\<rparr>)
                   | None \<Rightarrow> poll_next now (st\<lparr>st_stdout := p, st_stderr := q\<rparr>))
              | (None, q) \<Rightarrow>
                  (if p = None \<and> q = None then Ready None else Pending, st\<lparr>st_stdout := p, st_stderr := q\<rparr>))))"
  by auto
termination
proof (relation "measure (\<lambda>(now, st). pipe_left (st_stdout st) + pipe_left (st_stderr st))")
qed (auto dest!: read_pipe_dec [OF sym])

declare poll_next.simps [simp del]

text \<open>
  \<open>Launcher::execute\<close> reads the stream to its end; \<open>n\<close> bounds the number of polls, \<open>None\<close>
  when it is not enough.
\<close>

fun drain :: "nat \<Rightarrow> string \<Rightarrow> ProcessEventStream \<Rightarrow> ProcessEvent list option" where
  "drain 0 now st = None"
| "drain (Suc n) now st =
     (case poll_next now st of
        (Ready None, st') \<Rightarrow> Some []
      | (Ready (Some e), st') \<Rightarrow> map_option ((#) e) (drain n now st')
      | (Pending, st') \<Rightarrow> drain n now st')"

definition collected_output :: "ProcessEvent list \<Rightarrow> string" where
  "collected_output evs = concat (map (\<lambda>e. case pe_data e of None \<Rightarrow> [] | Some d \<Rightarrow> d @ [CHR 0x0A]) evs)"

definition launcher_execute ::
    "('t \<Rightarrow> Command \<Rightarrow> CmdError + ProcessEventStream \<times> 'h) \<Rightarrow> ('h \<Rightarrow> CmdError + ExitStatus) \<Rightarrow> nat \<Rightarrow>
      string \<Rightarrow> 't \<Rightarrow> Command \<Rightarrow> (CmdError + ExitResult) option" where
  "launcher_execute launch wait n now target command =
     (case launch target command of
        Inl e \<Rightarrow> Some (Inl e)
      | Inr (events, handle) \<Rightarrow>
          (case drain n now events of
             None \<Rightarrow> None
           | Some evs \<Rightarrow>
               Some (case wait handle of
                  Inl e \<Rightarrow> Inl e
                | Inr status \<Rightarrow> Inr \<lparr>er_status = status, er_output = collected_output evs\<rparr>)))"

text \<open>The lines a pipe delivers before it closes or fails.\<close>

fun pipe_lines :: "poll_line list \<Rightarrow> string list" where
  "pipe_lines [] = []"
| "pipe_lines (PErr # r) = []"
| "pipe_lines (PPend # r) = pipe_lines r"
| "pipe_lines (PLine line # r) = line # pipe_lines r"

definition lines_of :: "poll_line list option \<Rightarrow> string list" where
  "lines_of p = (case p of None \<Rightarrow> [] | Some ls \<Rightarrow> pipe_lines ls)"

definition kept :: "log_filter \<Rightarrow> LogSource \<Rightarrow> string list \<Rightarrow> string list" where
  "kept f src ls = List.map_filter (\<lambda>l. f l src) ls"

definition data_of :: "ProcessEventType \<Rightarrow> ProcessEvent list \<Rightarrow> string list" where
  "data_of t evs = map (\<lambda>e. the (pe_data e)) (filter (\<lambda>e. pe_event_type e = t) evs)"

lemma read_pipe_lines: "read_pipe p = (x, q) \<Longrightarrow> lines_of p = (case x of None \<Rightarrow> [] | Some l \<Rightarrow> [l]) @ lines_of q"
  by (cases p rule: read_pipe.cases) (auto simp: lines_of_def)

lemma read_pipe_none: "read_pipe p = (None, q) \<Longrightarrow> q \<noteq> None \<Longrightarrow> pipe_left q < pipe_left p"
  by (cases p rule: read_pipe.cases) (auto simp: pipe_left_def)

lemma kept_Cons [simp]:
  "kept f src [] = []" "kept f src (l # ls) = (case f l src of None \<Rightarrow> kept f src ls | Some x \<Rightarrow> x # kept f src ls)"
  by (simp_all add: kept_def map_filter_simps split: option.splits)

lemma kept_append: "kept f src (xs @ ys) = kept f src xs @ kept f src ys"
  by (induction xs) (auto split: option.splits)

text \<open>What one poll does to the lines that are still to come.\<close>

lemma poll_next_step:
  assumes "st_started_sent st" and "poll_next now st = (r, st')"
  shows "st_started_sent st' \<and> st_filter st' = st_filter st \<and>
    (case r of
       Ready None \<Rightarrow> kept (st_filter st) SrcStdout (lines_of (st_stdout st)) = [] \<and>
         kept (st_filter st) SrcStderr (lines_of (st_stderr st)) = []
     | Ready (Some e) \<Rightarrow>
         pipe_left (st_stdout st') + pipe_left (st_stderr st') < pipe_left (st_stdout st) + pipe_left (st_stderr st) \<and>
         (\<exists>d. (e = event_new_with_data now PStdout d \<and>
             kept (st_filter st) SrcStdout (lines_of (st_stdout st)) = d # kept (st_filter st) SrcStdout (lines_of (st_stdout st')) \<and>
             kept (st_filter st) SrcStderr (lines_of (st_stderr st)) = kept (st_filter st) SrcStderr (lines_of (st_stderr st'))) \<or>
           (e = event_new_with_data now PStderr d \<and>
             kept (st_filter st) SrcStdout (lines_of (st_stdout st)) = kept (st_filter st) SrcStdout (lines_of (st_stdout st')) \<and>
             kept (st_filter st) SrcStderr (lines_of (st_stderr st)) = d # kept (st_filter st) SrcStderr (lines_of (st_stderr st'))))
     | Pending \<Rightarrow>
         pipe_left (st_stdout st') + pipe_left (st_stderr st') < pipe_left (st_stdout st) + pipe_left (st_stderr st) \<and>
         kept (st_filter st) SrcStdout (lines_of (st_stdout st)) = kept (st_filter st) SrcStdout (lines_of (st_stdout st')) \<and>
         kept (st_filter st) SrcStderr (lines_of (st_stderr st)) = kept (st_filter st) SrcStderr (lines_of (st_stderr st')))"
  using assms
proof (induction "pipe_left (st_stdout st) + pipe_left (st_stderr st)" arbitrary: st r st' rule: less_induct)
  case less
  obtain x p where p: "read_pipe (st_stdout st) = (x, p)" by fastforce
  note lp = read_pipe_lines [OF p] and le = read_pipe_le [OF p]
  show ?case
  proof (cases x)
    case (Some line)
    note lt = read_pipe_line [OF p [unfolded Some]]
    show ?thesis
    proof (cases "st_filter st line SrcStdout")
      case None
      with less.hyps [of "st\<lparr>st_stdout := p\<rparr>" r st'] p Some less.prems lt lp
      show ?thesis by (auto simp: poll_next.simps [of now st] split: poll.splits option.splits)
    next
      case filtered: (Some d)
      with p Some less.prems lt lp show ?thesis by (auto simp: poll_next.simps [of now st])
    qed
  next
    case None
    obtain y q where q: "read_pipe (st_stderr st) = (y, q)" by fastforce
    note lq = read_pipe_lines [OF q] and leq = read_pipe_le [OF q]
    show ?thesis
    proof (cases y)
      case line: (Some line)
      note ltq = read_pipe_line [OF q [unfolded line]]
      show ?thesis
      proof (cases "st_filter st line SrcStderr")
        case f: None
        with less.hyps [of "st\<lparr>st_stdout := p, st_stderr := q\<rparr>" r st'] p None q line less.prems le ltq lp lq
        show ?thesis by (auto simp: poll_next.simps [of now st] split: poll.splits option.splits)
      next
        case (Some d)
        with p None q line less.prems le ltq lp lq show ?thesis by (auto simp: poll_next.simps [of now st])
      qed
    next
      case n: None
      have "pipe_left p + pipe_left q < pipe_left (st_stdout st) + pipe_left (st_stderr st)"
        if "\<not> (p = None \<and> q = None)"
        using that read_pipe_none [of "st_stdout st" p] read_pipe_none [of "st_stderr st" q] p q None n le leq by fastforce
      with p None q n less.prems lp lq show ?thesis
        by (auto simp: poll_next.simps [of now st] lines_of_def split: if_splits)
    qed
  qed
qed

lemma drain_started:
  "st_started_sent st \<Longrightarrow> pipe_left (st_stdout st) + pipe_left (st_stderr st) < n \<Longrightarrow>
     \<exists>evs. drain n now st = Some evs \<and>
       data_of PStdout evs = kept (st_filter st) SrcStdout (lines_of (st_stdout st)) \<and>
       data_of PStderr evs = kept (st_filter st) SrcStderr (lines_of (st_stderr st)) \<and>
       (\<forall>e\<in>set evs. pe_event_type e = PStdout \<or> pe_event_type e = PStderr)"
proof (induction n arbitrary: st)
  case (Suc n)
  obtain r st' where r: "poll_next now st = (r, st')" by fastforce
  note step = poll_next_step [OF Suc.prems(1) r]
  show ?case
  proof (cases r)
    case Pending
    with step Suc.prems obtain evs where "drain n now st' = Some evs"
      "data_of PStdout evs = kept (st_filter st) SrcStdout (lines_of (st_stdout st))"
      "data_of PStderr evs = kept (st_filter st) SrcStderr (lines_of (st_stderr st))"
      "\<forall>e\<in>set evs. pe_event_type e = PStdout \<or> pe_event_type e = PStderr"
      using Suc.IH [of st'] by auto
    with r Pending show ?thesis by simp
  next
    case (Ready oe)
    show ?thesis
    proof (cases oe)
      case None
      with r Ready step show ?thesis by (simp add: data_of_def)
    next
      case (Some e)
      with step Ready Suc.prems obtain evs where evs: "drain n now st' = Some evs"
        "data_of PStdout evs = kept (st_filter st) SrcStdout (lines_of (st_stdout st'))"
        "data_of PStderr evs = kept (st_filter st) SrcStderr (lines_of (st_stderr st'))"
        "\<forall>e\<in>set evs. pe_event_type e = PStdout \<or> pe_event_type e = PStderr"
        using Suc.IH [of st'] by auto
      from step Ready Some obtain d where d: "e = event_new_with_data now PStdout d \<and>
            kept (st_filter st) SrcStdout (lines_of (st_stdout st)) = d # data_of PStdout evs \<and>
            kept (st_filter st) SrcStderr (lines_of (st_stderr st)) = data_of PStderr evs \<or>
          e = event_new_with_data now PStderr d \<and>
            kept (st_filter st) SrcStdout (lines_of (st_stdout st)) = data_of PStdout evs \<and>
            kept (st_filter st) SrcStderr (lines_of (st_stderr st)) = d # data_of PStderr evs"
        unfolding evs by auto
      then show ?thesis
        using r Ready Some evs(1,4) by (auto simp: data_of_def event_new_with_data_def)
    qed
  qed
qed simp

lemma drain_fresh:
  assumes fresh: "\<not> st_started_sent st"
    and polls: "pipe_left (st_stdout st) + pipe_left (st_stderr st) + 1 < n"
  shows "\<exists>evs. drain n now st = Some (event_new now (PStarted (st_child_id st)) # evs) \<and>
    data_of PStdout evs = kept (st_filter st) SrcStdout (lines_of (st_stdout st)) \<and>
    data_of PStderr evs = kept (st_filter st) SrcStderr (lines_of (st_stderr st)) \<and>
    (\<forall>e\<in>set evs. pe_event_type e = PStdout \<or> pe_event_type e = PStderr)"
proof -
  obtain m where n: "n = Suc m" using polls by (cases n) auto
  have "poll_next now st = (Ready (Some (event_new now (PStarted (st_child_id st)))), st\<lparr>st_started_sent := True\<rparr>)"
    using fresh by (simp add: poll_next.simps [of now st])
  with drain_started [of "st\<lparr>st_started_sent := True\<rparr>" m now] polls n show ?thesis by auto
qed

section \<open>Launching\<close>

text \<open>\<open>spawn\<close> starts the prepared process: an I/O error, or the child's identifier and pipes.\<close>

record child =
  ch_id :: u32
  ch_stdout :: "poll_line list"
  ch_stderr :: "poll_line list"

record StdinHandle =
  sh_open :: bool
  sh_channel :: "nat option"

record LocalProcessHandle =
  lph_child :: child
  lph_kill_on_drop :: bool
  lph_stdin :: "StdinHandle option"

definition local_launch ::
    "(AsyncCommand \<Rightarrow> string + child) \<Rightarrow> Target \<Rightarrow> Command \<Rightarrow> CmdError + ProcessEventStream \<times> LocalProcessHandle" where
  "local_launch spawn target command =
     (let runnable = (case target of TgtCommand \<Rightarrow> True | TgtManagedProcess _ \<Rightarrow> True | _ \<Rightarrow> False) in
      if \<not> runnable then Inl (spawn_failed ''Target type not yet implemented for LocalLauncher'')
      else
        (case take_stdin_channel command of (stdin_channel, command) \<Rightarrow>
         case spawn (cmd_prepare command) of
           Inl e \<Rightarrow> Inl (spawn_failed (''Failed to spawn process: '' @ e))
         | Inr child \<Rightarrow>
             Inr (\<lparr>st_stdout = Some (ch_stdout child), st_stderr = Some (ch_stderr child),
                 st_filter = no_op_filter, st_started_sent = False, st_child_id = ch_id child\<rparr>,
               \<lparr>lph_child = child, lph_kill_on_drop = True,
                 lph_stdin = Some \<lparr>sh_open = True, sh_channel = stdin_channel\<rparr>\<rparr>)))"

definition handle_pid :: "LocalProcessHandle \<Rightarrow> u32 option" where
  "handle_pid h = Some (ch_id (lph_child h))"

text \<open>Signals: \<open>kill\<close> is the system call, an error text or unit.\<close>

definition send_signal :: "(u32 \<Rightarrow> int \<Rightarrow> string + unit) \<Rightarrow> int \<Rightarrow> LocalProcessHandle \<Rightarrow> CmdError + unit" where
  "send_signal kill sig h = map_err (signal_failed sig) (kill (ch_id (lph_child h)) sig)"

definition handle_terminate :: "(u32 \<Rightarrow> int \<Rightarrow> string + unit) \<Rightarrow> LocalProcessHandle \<Rightarrow> CmdError + unit" where
  "handle_terminate kill h = send_signal kill 15 h"

definition handle_kill :: "(u32 \<Rightarrow> int \<Rightarrow> string + unit) \<Rightarrow> LocalProcessHandle \<Rightarrow> CmdError + unit" where
  "handle_kill kill h = send_signal kill 9 h"

definition handle_interrupt :: "(u32 \<Rightarrow> int \<Rightarrow> string + unit) \<Rightarrow> LocalProcessHandle \<Rightarrow> CmdError + unit" where
  "handle_interrupt kill h = send_signal kill 2 h"

definition handle_reload :: "(u32 \<Rightarrow> int \<Rightarrow> string + unit) \<Rightarrow> LocalProcessHandle \<Rightarrow> CmdError + unit" where
  "handle_reload kill h = send_signal kill 1 h"

definition take_stdin :: "LocalProcessHandle \<Rightarrow> StdinHandle option \<times> LocalProcessHandle" where
  "take_stdin h = (lph_stdin h, h\<lparr>lph_stdin := None\<rparr>)"

definition take_stdin_for_forwarding :: "LocalProcessHandle \<Rightarrow> StdinHandle option \<times> LocalProcessHandle" where
  "take_stdin_for_forwarding h =
     (case lph_stdin h of
        None \<Rightarrow> (None, h)
      | Some stdin_handle \<Rightarrow> if sh_channel stdin_handle \<noteq> None then take_stdin h else (None, h))"

text \<open>Forwarding writes every line the channel delivers, each with a newline, until it closes.\<close>

fun forward_lines :: "StdinHandle \<Rightarrow> string list \<Rightarrow> string" where
  "forward_lines h [] = []"
| "forward_lines h (line # ls) = (if sh_open h then line @ [CHR 0x0A] else []) @ forward_lines h ls"

definition forward_channel :: "(nat \<Rightarrow> string list) \<Rightarrow> StdinHandle \<Rightarrow> string" where
  "forward_channel recv h = (case sh_channel h of None \<Rightarrow> [] | Some ch \<Rightarrow> forward_lines h (recv ch))"

section \<open>Attaching\<close>

record AttachConfig =
  atc_follow_from_start :: bool
  atc_history_lines :: "nat option"
  atc_timeout_seconds :: "u64 option"

definition attach_config_default :: AttachConfig where
  "attach_config_default =
     \<lparr>atc_follow_from_start = False, atc_history_lines = Some 100, atc_timeout_seconds = Some 30\<rparr>"

datatype SvcStatus = SvRunning | SvStopped | SvFailed | SvUnknown

text \<open>\<open>run\<close> runs a prepared command to its end: an I/O error or the exit code, if it has one.\<close>

definition check_service_status :: "(AsyncCommand \<Rightarrow> string + int option) \<Rightarrow> AttachedService \<Rightarrow> CmdError + SvcStatus" where
  "check_service_status run service =
     (case run (cmd_prepare (as_status_command service)) of
        Inl e \<Rightarrow> Inl (spawn_failed (''Failed to check service status: '' @ e))
      | Inr code \<Rightarrow> Inr (
          if code = Some 0 then SvRunning
          else if code = Some 3 then SvStopped
          else if code = Some 1 then SvFailed
          else SvUnknown))"

definition supports_tail_flags :: "string \<Rightarrow> bool" where
  "supports_tail_flags cmd_name = (cmd_name = ''tail'' \<or> str_ends_with cmd_name ''/tail'' \<or>
     cmd_name = ''journalctl'' \<or> str_ends_with cmd_name ''/journalctl'')"

definition tail_flags :: "AttachConfig \<Rightarrow> string list" where
  "tail_flags config =
     (case atc_history_lines config of
        None \<Rightarrow> [] | Some lines \<Rightarrow> if lines > 0 then [''-n'', show_nat lines] else []) @
     (if atc_follow_from_start config then [''-f''] else [])"

definition log_command :: "AttachedService \<Rightarrow> AttachConfig \<Rightarrow> AsyncCommand" where
  "log_command target config =
     (let log_cmd = cmd_prepare (as_log_command target) in
      if supports_tail_flags (cmd_program (as_log_command target))
      then log_cmd\<lparr>ac_calls := ac_calls log_cmd @ map CallArg (tail_flags config)\<rparr> else log_cmd)"

record LocalAttachedHandle =
  lah_service :: AttachedService
  lah_service_name :: string
  lah_log_child :: "child option"

definition local_attach ::
    "(AsyncCommand \<Rightarrow> string + int option) \<Rightarrow> (AsyncCommand \<Rightarrow> string + child) \<Rightarrow> AttachedService \<Rightarrow> AttachConfig \<Rightarrow>
      CmdError + poll_line list \<times> LocalAttachedHandle" where
  "local_attach run spawn target config =
     res_bind (check_service_status run target) (\<lambda>status.
     if status \<noteq> SvRunning then Inl (spawn_failed (''Service '' @ [CHR 0x27] @ as_name target @ [CHR 0x27] @ '' is not running''))
     else (case spawn (log_command target config) of
        Inl e \<Rightarrow> Inl (spawn_failed (''Failed to start log streaming: '' @ e))
      | Inr log_child \<Rightarrow> Inr (ch_stdout log_child,
          \<lparr>lah_service = target, lah_service_name = as_name target, lah_log_child = Some log_child\<rparr>)))"

definition attached_disconnect :: "LocalAttachedHandle \<Rightarrow> LocalAttachedHandle" where
  "attached_disconnect h = h\<lparr>lah_log_child := None\<rparr>"

text \<open>Attachment layers; a wrapped handle is known by its identifier.\<close>

datatype AttachLayer = SshAttach string | DockerAttach string | LocalAttach "string option"

fun attach_description :: "AttachLayer \<Rightarrow> string" where
  "attach_description (SshAttach t) = ''SSH('' @ t @ '')''"
| "attach_description (DockerAttach c) = ''Docker('' @ c @ '')''"
| "attach_description (LocalAttach (Some prefix)) = ''Local('' @ prefix @ '')''"
| "attach_description (LocalAttach None) = ''Local''"

fun transform_target :: "AttachLayer \<Rightarrow> ManagedService \<Rightarrow> ManagedService" where
  "transform_target (SshAttach t) target =
     target\<lparr>ms_status_command := add_args (cmd_words (ms_status_command target)) (add_arg t (cmd_new ''ssh'')),
        ms_log_command := add_args (cmd_words (ms_log_command target)) (add_arg t (cmd_new ''ssh''))\<rparr>"
| "transform_target (DockerAttach c) target =
     target\<lparr>ms_status_command := add_args [''inspect'', ''-f'', ''{{.State.Running}}'', c] (cmd_new ''docker''),
        ms_log_command := add_args [''logs'', ''-f'', c] (cmd_new ''docker'')\<rparr>"
| "transform_target (LocalAttach p) target = target"

fun wrap_handle_id :: "AttachLayer \<Rightarrow> string \<Rightarrow> string" where
  "wrap_handle_id (SshAttach t) i = ''ssh:'' @ t @ ''/'' @ i"
| "wrap_handle_id (DockerAttach c) i = ''docker:'' @ c @ ''/'' @ i"
| "wrap_handle_id (LocalAttach p) i = i"

definition layered_attach ::
    "('t \<Rightarrow> AttachConfig \<Rightarrow> CmdError + 's \<times> string) \<Rightarrow> AttachLayer list \<Rightarrow> 't \<Rightarrow> AttachConfig \<Rightarrow> CmdError + 's \<times> string" where
  "layered_attach attach layers target config =
     map_sum id (\<lambda>(stream, handle_id). (stream, foldr wrap_handle_id layers handle_id)) (attach target config)"

section \<open>Properties\<close>

text \<open>
  C26. The event stream loses and reorders nothing. Polled until it ends, which takes at most
  as many polls as the two pipes have results plus three, the stream of a freshly launched
  process yields first that it started, with its process identifier, and then the lines of
  standard output that the filter keeps, in order, and those of standard error, in order, and
  nothing else; a pipe that fails stops there without affecting the other.
\<close>

theorem stream_delivers_lines:
  assumes fresh: "\<not> st_started_sent st"
    and polls: "pipe_left (st_stdout st) + pipe_left (st_stderr st) + 1 < n"
  shows "\<exists>evs. drain n now st = Some (event_new now (PStarted (st_child_id st)) # evs) \<and>
    data_of PStdout evs = kept (st_filter st) SrcStdout (lines_of (st_stdout st)) \<and>
    data_of PStderr evs = kept (st_filter st) SrcStderr (lines_of (st_stderr st)) \<and>
    (\<forall>e\<in>set evs. pe_event_type e = PStdout \<or> pe_event_type e = PStderr)"
  using drain_fresh [OF fresh polls] .

theorem stream_delivers_lines_witness:
  "\<exists>evs. drain 20 ''t'' \<lparr>st_stdout = Some [PLine ''a'', PPend, PLine ''b''], st_stderr = Some [PLine ''x'', PErr, PLine ''y''],
       st_filter = no_op_filter, st_started_sent = False, st_child_id = 7\<rparr> = Some (event_new ''t'' (PStarted 7) # evs) \<and>
     data_of PStdout evs = [''a'', ''b''] \<and> data_of PStderr evs = [''x'']"
  using stream_delivers_lines [of "\<lparr>st_stdout = Some [PLine ''a'', PPend, PLine ''b''],
      st_stderr = Some [PLine ''x'', PErr, PLine ''y''], st_filter = no_op_filter, st_started_sent = False,
      st_child_id = 7\<rparr>" 20 "''t''"]
  by (auto simp: pipe_left_def lines_of_def no_op_filter_def)

end
