(* ===== verification/Orch_Host.thy ===== *)
theory Orch_Host
  imports Orch_Config Cmd_Process
begin

text \<open>
  The machine the executors run commands on, as they reach it through
  \<open>Executor<LocalLauncher>\<close> (\<^verbatim>\<open>crates/command-executor\<close>: \<^verbatim>\<open>backends/launcher.rs\<close>,
  \<^verbatim>\<open>launcher.rs\<close>, \<^verbatim>\<open>executor.rs\<close>). The operating system is the parameter \<open>'w host\<close>, with
  operations on the state \<open>'w\<close>: spawning a prepared process, waiting for it, the system call
  \<open>kill\<close>, the kill of a child that is dropped, and the source of random identifiers.
\<close>

record 'w host =
  h_spawn :: "AsyncCommand \<Rightarrow> ('w, string, child) act"
  h_wait :: "child \<Rightarrow> ('w, string, ExitStatus) act"
  h_signal :: "u32 \<Rightarrow> int \<Rightarrow> ('w, string, unit) act"
  h_child_kill :: "child \<Rightarrow> 'w \<Rightarrow> 'w"
  h_uuid :: "'w \<Rightarrow> string \<times> 'w"
  h_now :: "'w \<Rightarrow> string"

type_synonym launched = "ProcessEventStream \<times> LocalProcessHandle"

text \<open>Launching spawns for the targets that the local launcher runs; for the others nothing is done.\<close>

definition host_launch :: "'w host \<Rightarrow> Target \<Rightarrow> Command \<Rightarrow> ('w, CmdError, launched) act" where
  "host_launch H target command w =
     (local_launch (\<lambda>c. fst (h_spawn H c w)) target command,
      (case target of
         TgtCommand \<Rightarrow> snd (h_spawn H (cmd_prepare (snd (take_stdin_channel command))) w)
       | TgtManagedProcess _ \<Rightarrow> snd (h_spawn H (cmd_prepare (snd (take_stdin_channel command))) w)
       | _ \<Rightarrow> w))"

definition host_wait :: "'w host \<Rightarrow> LocalProcessHandle \<Rightarrow> ('w, CmdError, ExitStatus) act" where
  "host_wait H h w =
     (case h_wait H (lph_child h) w of
        (r, w') \<Rightarrow> (map_err (\<lambda>e. spawn_failed (''Failed to wait for process: '' @ e)) r, w'))"

definition host_terminate :: "'w host \<Rightarrow> LocalProcessHandle \<Rightarrow> ('w, CmdError, unit) act" where
  "host_terminate H h w =
     (handle_terminate (\<lambda>pid sig. fst (h_signal H pid sig w)) h, snd (h_signal H (ch_id (lph_child h)) 15 w))"

definition host_kill :: "'w host \<Rightarrow> LocalProcessHandle \<Rightarrow> ('w, CmdError, unit) act" where
  "host_kill H h w =
     (handle_kill (\<lambda>pid sig. fst (h_signal H pid sig w)) h, snd (h_signal H (ch_id (lph_child h)) 9 w))"

text \<open>A handle that goes out of scope kills its child.\<close>

definition handle_drop :: "'w host \<Rightarrow> LocalProcessHandle \<Rightarrow> 'w \<Rightarrow> 'w" where
  "handle_drop H h w = (if lph_kill_on_drop h then h_child_kill H (lph_child h) w else w)"

text \<open>
  \<open>Launcher::execute\<close>: launch, read the stream to its end, wait, drop the handle. The stream of
  a launched process ends within \<open>enough_polls\<close>, so the branch of an unfinished stream is dead
  (\<open>execute_drains\<close>).
\<close>

definition enough_polls :: "ProcessEventStream \<Rightarrow> nat" where
  "enough_polls st = pipe_left (st_stdout st) + pipe_left (st_stderr st) + 2"

definition host_execute :: "'w host \<Rightarrow> Target \<Rightarrow> Command \<Rightarrow> ('w, CmdError, ExitResult) act" where
  "host_execute H target command w =
     (case host_launch H target command w of
        (Inl e, w') \<Rightarrow> (Inl e, w')
      | (Inr (events, handle), w') \<Rightarrow>
          (case drain (enough_polls events) (h_now H w') events of
             None \<Rightarrow> (Inl (CmdIo ''unfinished''), w')
           | Some evs \<Rightarrow>
               (case host_wait H handle w' of
                  (r, w'') \<Rightarrow> (map_sum id (\<lambda>status. \<lparr>er_status = status, er_output = collected_output evs\<rparr>) r,
                    handle_drop H handle w''))))"

text \<open>In the orchestrator the error is converted by \<open>?\<close>.\<close>

definition run_command :: "'w host \<Rightarrow> Command \<Rightarrow> ('w, OrchError, ExitResult) act" where
  "run_command H command w =
     (case host_execute H TgtCommand command w of (r, w') \<Rightarrow> (map_err OCommand r, w'))"

definition fresh_service :: "'w host \<Rightarrow> string \<Rightarrow> ServiceConfig \<Rightarrow> 'w \<Rightarrow> RunningService \<times> 'w" where
  "fresh_service H name config w = (case h_uuid H w of (uuid, w') \<Rightarrow> (running_new uuid name config, w'))"

section \<open>Printed forms\<close>

definition show_u16 :: "u16 \<Rightarrow> string" where "show_u16 p = show_nat (unat p)"
definition show_u32 :: "u32 \<Rightarrow> string" where "show_u32 p = show_nat (unat p)"

definition show_code :: "int option \<Rightarrow> string" where
  "show_code c = (case c of None \<Rightarrow> ''None'' | Some i \<Rightarrow> ''Some('' @ show_int i @ '')'')"

fun show_cmd_error :: "CmdError \<Rightarrow> string" where
  "show_cmd_error (SpawnFailed reason) = ''failed to spawn process: '' @ reason"
| "show_cmd_error (SignalTerminated sig) = ''process terminated by signal '' @ show_int sig"
| "show_cmd_error (SignalFailed sig reason) = ''failed to send signal '' @ show_int sig @ '': '' @ reason"
| "show_cmd_error (CommandNotFound c) = ''command not found: '' @ c"
| "show_cmd_error (CmdIo e) = e"
| "show_cmd_error (CmdNix e) = e"

section \<open>Lemmas\<close>

lemma launched_fresh:
  "host_launch H target command w = (Inr (st, h), w') \<Longrightarrow>
     \<not> st_started_sent st \<and> lph_kill_on_drop h \<and> st_child_id st = ch_id (lph_child h) \<and>
     st_stdout st = Some (ch_stdout (lph_child h)) \<and> st_stderr st = Some (ch_stderr (lph_child h))"
  by (auto simp: host_launch_def local_launch_def Let_def split: prod.splits sum.splits if_splits)

lemma execute_drains:
  assumes "host_launch H target command w = (Inr (st, h), w')"
  shows "drain (enough_polls st) now st \<noteq> None"
  using drain_fresh [of st "enough_polls st" now] launched_fresh [OF assms] by (auto simp: enough_polls_def)

end
