(* ===== verification/Orch_Health.thy ===== *)
theory Orch_Health
  imports Orch_Host
begin

text \<open>
  Health checks, \<^verbatim>\<open>crates/service-orchestration/src/health.rs\<close>. The check command runs on the
  machine of \<^verbatim>\<open>Orch_Host\<close>; its timeout is not used by the code. The failure
  counter is a 32-bit word and its increment is checked.
\<close>

datatype HHealth = Healthy | Unhealthy string | HUnknown

definition check_command_of :: "HealthCheck \<Rightarrow> Command" where
  "check_command_of config = add_args (hc_args config) (cmd_new (hc_command config))"

definition check_health :: "'w host \<Rightarrow> HealthCheck \<Rightarrow> ('w, OrchError, HHealth) act" where
  "check_health H config w =
     (case host_execute H TgtCommand (check_command_of config) w of
        (Inr result, w') \<Rightarrow>
          (Inr (if result_success result then Healthy
                else Unhealthy (''Health check failed with exit code: '' @ show_code (result_code result))), w')
      | (Inl e, w') \<Rightarrow> (Inr (Unhealthy (''Health check execution failed: '' @ show_cmd_error e)), w'))"

section \<open>The monitor\<close>

record HealthMonitor =
  hm_config :: HealthCheck
  hm_consecutive_failures :: u32
  hm_last_status :: HHealth

definition monitor_new :: "HealthCheck \<Rightarrow> HealthMonitor" where
  "monitor_new config = \<lparr>hm_config = config, hm_consecutive_failures = 0, hm_last_status = HUnknown\<rparr>"

text \<open>The sum panics at the largest count, as in a build with overflow checks; without them it wraps to zero.\<close>

definition count_failure :: "HealthMonitor \<Rightarrow> OrchError + HealthMonitor" where
  "count_failure m =
     (if hm_consecutive_failures m = - 1 then Inl OPanic
      else Inr (m\<lparr>hm_consecutive_failures := hm_consecutive_failures m + 1\<rparr>))"

definition monitor_record :: "HHealth \<Rightarrow> HealthMonitor \<Rightarrow> OrchError + HealthMonitor" where
  "monitor_record status m =
     (case status of
        Healthy \<Rightarrow> Inr (m\<lparr>hm_consecutive_failures := 0, hm_last_status := status\<rparr>)
      | Unhealthy _ \<Rightarrow>
          res_bind (count_failure m) (\<lambda>m.
          Inr (if hm_consecutive_failures m \<ge> hc_retries (hm_config m) then m\<lparr>hm_last_status := status\<rparr> else m))
      | HUnknown \<Rightarrow> Inr (m\<lparr>hm_last_status := status\<rparr>))"

definition monitor_check :: "'w host \<Rightarrow> HealthMonitor \<Rightarrow> 'w \<Rightarrow> (OrchError + HHealth) \<times> HealthMonitor \<times> 'w" where
  "monitor_check H m w =
     (case check_health H (hm_config m) w of
        (Inl e, w') \<Rightarrow> (Inl e, m, w')
      | (Inr status, w') \<Rightarrow>
          (case monitor_record status m of
             Inl e \<Rightarrow> (Inl e, m, w')
           | Inr m' \<Rightarrow> (Inr (hm_last_status m'), m', w')))"

definition current_status :: "HealthMonitor \<Rightarrow> HHealth" where "current_status m = hm_last_status m"

definition monitor_interval :: "HealthMonitor \<Rightarrow> u64" where "monitor_interval m = hc_interval (hm_config m)"

section \<open>Runs of checks\<close>

fun monitor_run :: "HHealth list \<Rightarrow> HealthMonitor \<Rightarrow> OrchError + HealthMonitor" where
  "monitor_run [] m = Inr m"
| "monitor_run (s # ss) m = res_bind (monitor_record s m) (monitor_run ss)"

text \<open>The failures at the end of a run of outcomes, and the status a run amounts to.\<close>

definition is_unhealthy :: "HHealth \<Rightarrow> bool" where
  "is_unhealthy s = (case s of Unhealthy _ \<Rightarrow> True | _ \<Rightarrow> False)"

definition trailing_failures :: "HHealth list \<Rightarrow> nat" where
  "trailing_failures ss = length (takeWhile is_unhealthy (rev ss))"

definition run_status :: "nat \<Rightarrow> HHealth list \<Rightarrow> HHealth" where
  "run_status retries ss =
     (if trailing_failures ss \<ge> max 1 retries then last ss
      else if trailing_failures ss < length ss then Healthy else HUnknown)"

lemma trailing_snoc:
  "trailing_failures (ss @ [s]) = (if is_unhealthy s then Suc (trailing_failures ss) else 0)"
  by (simp add: trailing_failures_def)

lemma trailing_le: "trailing_failures ss \<le> length ss"
  unfolding trailing_failures_def by (metis length_rev length_takeWhile_le)

lemma monitor_run_snoc: "monitor_run (ss @ [s]) m = res_bind (monitor_run ss m) (monitor_record s)"
  by (induction ss arbitrary: m) (auto simp: res_bind_def split: sum.splits)

lemma monitor_run_status:
  assumes "length ss < 2 ^ 32" and "\<forall>s\<in>set ss. s \<noteq> HUnknown"
  shows "\<exists>m. monitor_run ss (monitor_new c) = Inr m \<and> hm_config m = c \<and>
    unat (hm_consecutive_failures m) = trailing_failures ss \<and>
    hm_last_status m = run_status (unat (hc_retries c)) ss"
  using assms
proof (induction ss rule: rev_induct)
  case Nil
  then show ?case by (simp add: monitor_new_def trailing_failures_def run_status_def)
next
  case (snoc s ss)
  then obtain m where m: "monitor_run ss (monitor_new c) = Inr m" "hm_config m = c"
    "unat (hm_consecutive_failures m) = trailing_failures ss"
    "hm_last_status m = run_status (unat (hc_retries c)) ss" by auto
  have bound: "Suc (trailing_failures ss) < 2 ^ 32"
    using snoc.prems(1) trailing_le [of ss] by simp
  show ?case
  proof (cases s)
    case Healthy
    with m show ?thesis
      by (simp add: monitor_run_snoc monitor_record_def trailing_snoc is_unhealthy_def run_status_def)
  next
    case HUnknown
    with snoc.prems show ?thesis by simp
  next
    case (Unhealthy msg)
    have up: "unat (hm_consecutive_failures m + 1) = Suc (trailing_failures ss)"
      using bound m(3) by (simp add: unat_word_ariths)
    have "hm_consecutive_failures m \<noteq> - 1"
    proof
      assume "hm_consecutive_failures m = - 1"
      then have "unat (hm_consecutive_failures m + 1) = 0" by simp
      with up show False by simp
    qed
    moreover have "hc_retries c \<le> hm_consecutive_failures m + 1 \<longleftrightarrow> unat (hc_retries c) \<le> Suc (trailing_failures ss)"
      using up by (simp add: word_le_nat_alt)
    moreover have "run_status (unat (hc_retries c)) (ss @ [s]) =
        (if unat (hc_retries c) \<le> Suc (trailing_failures ss) then s else run_status (unat (hc_retries c)) ss)"
      using Unhealthy by (auto simp: run_status_def trailing_snoc is_unhealthy_def)
    ultimately show ?thesis using m Unhealthy up
      by (simp add: monitor_run_snoc monitor_record_def count_failure_def trailing_snoc is_unhealthy_def)
  qed
qed

section \<open>Properties\<close>

text \<open>
  When a monitor reports a service unhealthy. After any run of fewer than four billion
  checks, each healthy or unhealthy, a new monitor counts exactly the failures since the last
  success, and reports the latest failure when there are at least as many of them as the
  configured retries (and at least one); otherwise it still reports healthy, or unknown when
  no check has succeeded yet.
\<close>

theorem monitor_honours_retries:
  assumes "length ss < 2 ^ 32" and "\<forall>s\<in>set ss. s \<noteq> HUnknown"
  shows "\<exists>m. monitor_run ss (monitor_new c) = Inr m \<and>
    unat (hm_consecutive_failures m) = trailing_failures ss \<and>
    current_status m = run_status (unat (hc_retries c)) ss"
  using monitor_run_status [OF assms, of c] by (auto simp: current_status_def)

theorem monitor_honours_retries_witness:
  "\<exists>m. monitor_run [Healthy, Unhealthy ''a'', Unhealthy ''b''] (monitor_new health_check_default) = Inr m \<and>
     current_status m = Healthy"
proof -
  have "unat (hc_retries health_check_default) = 3" by (simp add: health_check_default_def)
  then have "run_status (unat (hc_retries health_check_default)) [Healthy, Unhealthy ''a'', Unhealthy ''b''] = Healthy"
    by (simp add: run_status_def trailing_failures_def is_unhealthy_def)
  with monitor_honours_retries [of "[Healthy, Unhealthy ''a'', Unhealthy ''b'']" health_check_default]
  show ?thesis by (auto simp del: monitor_run.simps)
qed

end
