(* ===== verification/Orch_Exec.thy ===== *)
theory Orch_Exec
  imports Orch_Health
begin

text \<open>
  The executors that manage services, \<^verbatim>\<open>crates/service-orchestration/src/executors\<close>: the trait
  \<open>ServiceExecutor\<close> of \<^verbatim>\<open>mod.rs\<close> as a record of operations, the process executor of
  \<^verbatim>\<open>process.rs\<close> with the streams of \<^verbatim>\<open>stream_utils.rs\<close>, and the Docker executor of
  \<^verbatim>\<open>docker.rs\<close>. Their common state holds the machine and the process executor's table of
  running processes. An event stream is shared between the table and the streams handed
  out, so it lives in a store and is known by its address. The locale \<open>service_exec\<close> is what
  the manager relies on; both executors are shown to provide it.
\<close>

section \<open>State and trait\<close>

record ProcessInfo =
  pi_handle :: LocalProcessHandle
  pi_event_stream :: nat

record 'w exec_state =
  xs_world :: 'w
  xs_running_processes :: "(string, ProcessInfo) hmap"
  xs_streams :: "ProcessEventStream list"

datatype EventStream = Forwarding nat | EmptyStream

record 's executor =
  ex_start :: "ServiceConfig \<Rightarrow> ('s, OrchError, RunningService) act"
  ex_stop :: "RunningService \<Rightarrow> ('s, OrchError, unit) act"
  ex_health_check :: "RunningService \<Rightarrow> ('s, OrchError, HHealth) act"
  ex_stream_events :: "RunningService \<Rightarrow> ('s, OrchError, EventStream) act"
  ex_can_handle :: "ServiceConfig \<Rightarrow> bool"

definition on_world :: "('w, 'e, 'a) act \<Rightarrow> ('w exec_state, 'e, 'a) act" where
  "on_world m s = (case m (xs_world s) of (r, w) \<Rightarrow> (r, s\<lparr>xs_world := w\<rparr>))"

definition new_service :: "'w host \<Rightarrow> ServiceConfig \<Rightarrow> ('w exec_state, OrchError, RunningService) act" where
  "new_service H config = on_world (\<lambda>w. case fresh_service H (sc_name config) config w of (r, w') \<Rightarrow> (Inr r, w'))"

section \<open>Streams\<close>

text \<open>One poll of a stream: a forwarding stream polls the stream it shares, in place.\<close>

definition next_event :: "string \<Rightarrow> EventStream \<Rightarrow> 'w exec_state \<Rightarrow> ProcessEvent option poll \<times> 'w exec_state" where
  "next_event now stream s =
     (case stream of
        EmptyStream \<Rightarrow> (Ready None, s)
      | Forwarding a \<Rightarrow>
          (case poll_next now (xs_streams s ! a) of
             (r, st) \<Rightarrow> (r, s\<lparr>xs_streams := (xs_streams s)[a := st]\<rparr>)))"

section \<open>The process executor\<close>

definition process_command :: "string \<Rightarrow> string list \<Rightarrow> (string, string) hmap \<Rightarrow> string option \<Rightarrow> Command" where
  "process_command binary args env working_dir =
     (let cmd = set_envs env (add_args args (cmd_new binary)) in
      case working_dir of None \<Rightarrow> cmd | Some wd \<Rightarrow> set_current_dir wd cmd)"

definition track_process :: "string \<Rightarrow> launched \<Rightarrow> ('w exec_state, OrchError, unit) act" where
  "track_process service_id l s =
     (Inr (), s\<lparr>xs_running_processes := hm_insert service_id
        \<lparr>pi_handle = snd l, pi_event_stream = length (xs_streams s)\<rparr> (xs_running_processes s),
        xs_streams := xs_streams s @ [fst l]\<rparr>)"

definition process_start :: "'w host \<Rightarrow> ServiceConfig \<Rightarrow> ('w exec_state, OrchError, RunningService) act" where
  "process_start H config =
     (case sc_target config of
        TProcess binary args env working_dir \<Rightarrow>
          act_bind (on_world (\<lambda>w. case host_launch H (TgtManagedProcess managed_process_new)
              (process_command binary args env working_dir) w of (r, w') \<Rightarrow> (map_err OCommand r, w'))) (\<lambda>l.
          act_bind (new_service H config) (\<lambda>service.
          let pid = (case handle_pid (snd l) of None \<Rightarrow> 0 | Some p \<Rightarrow> p);
              running_service = rs_with_metadata ''executor_type'' ''process'' (rs_with_pid pid service) in
          act_bind (track_process (rs_id running_service) l) (\<lambda>_.
          act_ret running_service)))
      | _ \<Rightarrow> act_err (OConfig (OText ''ProcessExecutor can only handle Process targets'')))"

definition kill_command :: "string list \<Rightarrow> u32 \<Rightarrow> Command" where
  "kill_command flags pid = add_args (flags @ [show_u32 pid]) (cmd_new ''kill'')"

definition stop_handle :: "'w host \<Rightarrow> LocalProcessHandle \<Rightarrow> 'w \<Rightarrow> 'w" where
  "stop_handle H h w =
     handle_drop H h
       (case host_terminate H h w of
          (Inr _, w') \<Rightarrow> w'
        | (Inl _, w') \<Rightarrow> snd (host_kill H h w'))"

definition stop_by_pid :: "'w host \<Rightarrow> u32 \<Rightarrow> ('w, OrchError, unit) act" where
  "stop_by_pid H pid =
     act_bind (run_command H (kill_command [] pid)) (\<lambda>result.
     if result_success result then act_ret ()
     else act_bind (run_command H (kill_command [''-9''] pid)) (\<lambda>_. act_ret ()))"

definition process_stop :: "'w host \<Rightarrow> RunningService \<Rightarrow> ('w exec_state, OrchError, unit) act" where
  "process_stop H service s =
     (let process_info = hm_get (xs_running_processes s) (rs_id service);
          s = s\<lparr>xs_running_processes := hm_remove (rs_id service) (xs_running_processes s)\<rparr> in
      case process_info of
        Some info \<Rightarrow> (Inr (), s\<lparr>xs_world := stop_handle H (pi_handle info) (xs_world s)\<rparr>)
      | None \<Rightarrow>
          (case rs_pid service of
             Some pid \<Rightarrow> on_world (stop_by_pid H pid) s
           | None \<Rightarrow> (Inr (), s)))"

definition configured_check :: "'w host \<Rightarrow> RunningService \<Rightarrow> ('w, OrchError, HHealth) act" where
  "configured_check H service =
     (case sc_health_check (rs_config service) of
        Some health_check \<Rightarrow> check_health H health_check
      | None \<Rightarrow> act_ret Healthy)"

definition process_health_check :: "'w host \<Rightarrow> RunningService \<Rightarrow> ('w exec_state, OrchError, HHealth) act" where
  "process_health_check H service = on_world
     (case rs_pid service of
        Some pid \<Rightarrow>
          act_bind (act_try (run_command H (kill_command [''-0''] pid))) (\<lambda>r.
          case r of
            Inr result \<Rightarrow>
              if \<not> result_success result then act_ret (Unhealthy ''Process not running'')
              else configured_check H service
          | Inl _ \<Rightarrow> act_ret (Unhealthy ''Failed to check process''))
      | None \<Rightarrow> configured_check H service)"

definition process_stream_events :: "RunningService \<Rightarrow> ('w exec_state, OrchError, EventStream) act" where
  "process_stream_events service s =
     (case hm_get (xs_running_processes s) (rs_id service) of
        None \<Rightarrow> (Inl (OServiceNotFound (rs_name service)), s)
      | Some info \<Rightarrow> (Inr (Forwarding (pi_event_stream info)), s))"

definition process_can_handle :: "ServiceConfig \<Rightarrow> bool" where
  "process_can_handle config = (case sc_target config of TProcess _ _ _ _ \<Rightarrow> True | _ \<Rightarrow> False)"

definition process_executor :: "'w host \<Rightarrow> 'w exec_state executor" where
  "process_executor H = \<lparr>ex_start = process_start H, ex_stop = process_stop H,
     ex_health_check = process_health_check H, ex_stream_events = process_stream_events,
     ex_can_handle = process_can_handle\<rparr>"

section \<open>The Docker executor\<close>

definition docker_command :: "string list \<Rightarrow> Command" where
  "docker_command args = add_args args (cmd_new ''docker'')"

record ContainerState =
  cst_id :: string
  cst_state :: string
  cst_status :: string
  cst_is_running :: bool

definition container_filter :: "string \<Rightarrow> string" where
  "container_filter name = ''orchestrator-'' @ name @ ''-harness-test''"

definition ps_args :: "string \<Rightarrow> string list" where
  "ps_args name = [''ps'', ''-a'', ''--filter'', ''name='' @ container_filter name, ''--format'',
     ''{{.ID}}|{{.State}}|{{.Status}}'', ''--no-trunc'']"

definition parse_container :: "string \<Rightarrow> ContainerState option" where
  "parse_container out =
     (let output = str_trim out in
      if output = [] then None
      else case str_split (CHR ''|'') output of
             i # st # status # _ \<Rightarrow>
               Some \<lparr>cst_id = i, cst_state = st, cst_status = status, cst_is_running = (st = ''running'')\<rparr>
           | _ \<Rightarrow> None)"

definition detect_existing_container :: "'w host \<Rightarrow> string \<Rightarrow> ('w, OrchError, ContainerState option) act" where
  "detect_existing_container H name =
     act_bind (run_command H (docker_command (ps_args name))) (\<lambda>result.
     act_ret (if \<not> result_success result then None else parse_container (er_output result)))"

text \<open>A line such as \<open>80/tcp -> 0.0.0.0:8080\<close>; the container's port is the one before the slash.\<close>

definition parse_port_line :: "string \<Rightarrow> u16 option" where
  "parse_port_line line =
     (case split_at_str '' -> '' line of
        None \<Rightarrow> None
      | Some (container_port, _) \<Rightarrow>
          (case str_split_once (CHR ''/'') container_port of
             None \<Rightarrow> None
           | Some (port_str, _) \<Rightarrow> map_option of_nat (parse_unsigned 65536 port_str)))"

definition parse_ports :: "string \<Rightarrow> u16 list" where
  "parse_ports output = List.map_filter parse_port_line (str_lines output)"

definition network_info :: "string \<Rightarrow> string \<Rightarrow> u16 list \<Rightarrow> OrchError + NetworkInfo" where
  "network_info container_id ip ports =
     (if length container_id < 12 then Inl OPanic
      else Inr \<lparr>ni_ip = ip, ni_port = (case ports of [] \<Rightarrow> None | p # _ \<Rightarrow> Some p), ni_ports = ports,
             ni_hostname = take 12 container_id\<rparr>)"

definition get_container_network_info :: "'w host \<Rightarrow> string \<Rightarrow> ('w, OrchError, NetworkInfo) act" where
  "get_container_network_info H container_id =
     act_bind (run_command H (docker_command
         [''inspect'', ''--format'', ''{{.NetworkSettings.IPAddress}}'', container_id])) (\<lambda>result.
     if \<not> result_success result
     then act_err (OConfig (OText (''Failed to get container IP: '' @ er_output result)))
     else act_bind (run_command H (docker_command [''port'', container_id])) (\<lambda>port_result.
          act_lift (network_info container_id (str_trim (er_output result))
            (if result_success port_result then parse_ports (er_output port_result) else []))))"

text \<open>
  The first twelve characters that adopting and stopping put in a log message are left out. A shorter
  identifier would panic there when the message is enabled; \<open>network_info\<close> panics on it in any case,
  before the service is known, so no service that was started or adopted has one.
\<close>

definition adopt_container :: "'w host \<Rightarrow> ContainerState \<Rightarrow> ServiceConfig \<Rightarrow> ('w exec_state, OrchError, RunningService) act" where
  "adopt_container H container_state config =
     act_bind (on_world (get_container_network_info H (cst_id container_state))) (\<lambda>info.
     act_bind (new_service H config) (\<lambda>service.
     act_ret (rs_with_metadata ''adopted'' ''true'' (rs_with_metadata ''executor_type'' ''docker''
       (rs_with_network_info info (rs_with_container_id (cst_id container_state) service))))))"

definition run_args :: "string \<Rightarrow> string \<Rightarrow> (string, string) hmap \<Rightarrow> u16 list \<Rightarrow> string list \<Rightarrow> string list" where
  "run_args name img env ports volumes =
     [''run'', ''-d'', ''--name'', ''orchestrator-'' @ name] @
     concat (map (\<lambda>(key, value). [''-e'', key @ ''='' @ value]) env) @
     concat (map (\<lambda>port. [''-p'', show_u16 port @ '':'' @ show_u16 port]) ports) @
     concat (map (\<lambda>volume. [''-v'', volume]) volumes) @ [img]"

definition run_container :: "'w host \<Rightarrow> ServiceConfig \<Rightarrow> string list \<Rightarrow> ('w exec_state, OrchError, RunningService) act" where
  "run_container H config args =
     act_bind (on_world (run_command H (docker_command args))) (\<lambda>result.
     if \<not> result_success result
     then act_err (OConfig (OText (''Docker run failed: '' @ str_trim (er_output result))))
     else
       let container_id = str_trim (er_output result) in
       act_bind (on_world (get_container_network_info H container_id)) (\<lambda>info.
       act_bind (new_service H config) (\<lambda>service.
       act_ret (rs_with_metadata ''executor_type'' ''docker''
         (rs_with_network_info info (rs_with_container_id container_id service))))))"

definition docker_start :: "'w host \<Rightarrow> ServiceConfig \<Rightarrow> ('w exec_state, OrchError, RunningService) act" where
  "docker_start H config =
     (case sc_target config of
        TDocker img env ports volumes \<Rightarrow>
          act_bind (on_world (detect_existing_container H (sc_name config))) (\<lambda>found.
          let args = run_args (sc_name config) img env ports volumes in
          case found of
            None \<Rightarrow> run_container H config args
          | Some existing \<Rightarrow>
              if cst_is_running existing then adopt_container H existing config
              else act_bind (on_world (run_command H (docker_command [''rm'', ''-f'', cst_id existing]))) (\<lambda>_.
                   run_container H config args))
      | _ \<Rightarrow> act_err (OConfig (OText ''DockerExecutor can only handle Docker targets'')))"

definition docker_stop :: "'w host \<Rightarrow> RunningService \<Rightarrow> ('w exec_state, OrchError, unit) act" where
  "docker_stop H service = on_world
     (case rs_container_id service of
        None \<Rightarrow> act_ret ()
      | Some container_id \<Rightarrow>
          act_bind (run_command H (docker_command [''inspect'', ''--format'', ''{{.State.Status}}'', container_id])) (\<lambda>inspect.
          if \<not> result_success inspect then act_ret ()
          else
            let status = str_trim (er_output inspect) in
            if status = ''exited'' \<or> status = ''dead'' then
              act_bind (run_command H (docker_command [''rm'', ''-f'', container_id])) (\<lambda>_. act_ret ())
            else
              act_bind (run_command H (docker_command [''stop'', container_id])) (\<lambda>result.
              if result_success result then
                act_bind (run_command H (docker_command [''rm'', container_id])) (\<lambda>_. act_ret ())
              else act_ret ())))"

definition docker_check :: "'w host \<Rightarrow> RunningService \<Rightarrow> ('w, OrchError, HHealth) act" where
  "docker_check H service =
     (case sc_health_check (rs_config service) of
        None \<Rightarrow> act_ret Healthy
      | Some health_check \<Rightarrow>
          (case rs_container_id service of
             None \<Rightarrow> act_ret (Unhealthy ''No container ID'')
           | Some container_id \<Rightarrow>
               act_bind (run_command H (docker_command
                 ([''exec'', container_id, hc_command health_check] @ hc_args health_check))) (\<lambda>result.
               act_ret (if result_success result then Healthy else Unhealthy ''Health check failed''))))"

definition docker_health_check :: "'w host \<Rightarrow> RunningService \<Rightarrow> ('w exec_state, OrchError, HHealth) act" where
  "docker_health_check H service = on_world
     (case rs_container_id service of
        None \<Rightarrow> docker_check H service
      | Some container_id \<Rightarrow>
          act_bind (run_command H (docker_command [''inspect'', ''--format'', ''{{.State.Running}}'', container_id])) (\<lambda>result.
          if \<not> result_success result then act_ret (Unhealthy ''Container not found'')
          else if str_trim (er_output result) \<noteq> ''true'' then act_ret (Unhealthy ''Container not running'')
          else docker_check H service))"

definition docker_stream_events :: "RunningService \<Rightarrow> ('w exec_state, OrchError, EventStream) act" where
  "docker_stream_events service = act_ret EmptyStream"

definition docker_can_handle :: "ServiceConfig \<Rightarrow> bool" where
  "docker_can_handle config = (case sc_target config of TDocker _ _ _ _ \<Rightarrow> True | _ \<Rightarrow> False)"

definition docker_executor :: "'w host \<Rightarrow> 'w exec_state executor" where
  "docker_executor H = \<lparr>ex_start = docker_start H, ex_stop = docker_stop H,
     ex_health_check = docker_health_check H, ex_stream_events = docker_stream_events,
     ex_can_handle = docker_can_handle\<rparr>"

section \<open>What the manager relies on\<close>

text \<open>
  A service that an executor starts carries the name and the configuration it was started
  with, and the executor can handle that configuration; whether it can depends on the target
  only.
\<close>

locale service_exec =
  fixes X :: "'s executor"
  assumes started: "ex_start X config s = (Inr service, s') \<Longrightarrow>
      rs_name service = sc_name config \<and> rs_config service = config \<and> ex_can_handle X config"
    and by_target: "sc_target c = sc_target d \<Longrightarrow> ex_can_handle X c = ex_can_handle X d"
begin

lemma stoppable: "ex_start X config s = (Inr service, s') \<Longrightarrow> ex_can_handle X (rs_config service)"
  using started by auto

end

section \<open>Lemmas on the executors\<close>

lemma on_world_run:
  "on_world m s = (r, s') \<longleftrightarrow> (\<exists>w. m (xs_world s) = (r, w) \<and> s' = s\<lparr>xs_world := w\<rparr>)"
  by (auto simp: on_world_def split: prod.splits)

lemma new_service_run:
  "new_service H config s = (r, s') \<longleftrightarrow>
     r = Inr (running_new (fst (h_uuid H (xs_world s))) (sc_name config) config) \<and>
     s' = s\<lparr>xs_world := snd (h_uuid H (xs_world s))\<rparr>"
  by (auto simp: new_service_def on_world_run fresh_service_def split: prod.splits)

lemma with_sel [simp]:
  "rs_name (rs_with_pid p r) = rs_name r" "rs_config (rs_with_pid p r) = rs_config r"
  "rs_id (rs_with_pid p r) = rs_id r" "rs_pid (rs_with_pid p r) = Some p"
  "rs_name (rs_with_metadata k v r) = rs_name r" "rs_config (rs_with_metadata k v r) = rs_config r"
  "rs_id (rs_with_metadata k v r) = rs_id r" "rs_pid (rs_with_metadata k v r) = rs_pid r"
  "rs_name (rs_with_container_id c r) = rs_name r" "rs_config (rs_with_container_id c r) = rs_config r"
  "rs_name (rs_with_network_info ni r) = rs_name r" "rs_config (rs_with_network_info ni r) = rs_config r"
  "rs_container_id (rs_with_container_id c r) = Some c"
  "rs_container_id (rs_with_network_info ni r) = rs_container_id r"
  "rs_container_id (rs_with_metadata k v r) = rs_container_id r"
  by (simp_all add: rs_with_pid_def rs_with_metadata_def rs_with_container_id_def rs_with_network_info_def)

lemma running_new_sel [simp]:
  "rs_name (running_new u n c) = n" "rs_config (running_new u n c) = c" "rs_id (running_new u n c) = u"
  by (simp_all add: running_new_def)

text \<open>The stream and the handle of a child that was just spawned.\<close>

definition child_stream :: "child \<Rightarrow> ProcessEventStream" where
  "child_stream c = \<lparr>st_stdout = Some (ch_stdout c), st_stderr = Some (ch_stderr c),
     st_filter = no_op_filter, st_started_sent = False, st_child_id = ch_id c\<rparr>"

definition child_handle :: "child \<Rightarrow> LocalProcessHandle" where
  "child_handle c = \<lparr>lph_child = c, lph_kill_on_drop = True,
     lph_stdin = Some \<lparr>sh_open = True, sh_channel = None\<rparr>\<rparr>"

lemma launch_spawns:
  "host_launch H (TgtManagedProcess mp) (process_command binary args env wd) w = (r, w') \<longleftrightarrow>
     (case h_spawn H (cmd_prepare (process_command binary args env wd)) w of
        (Inl e, w1) \<Rightarrow> r = Inl (SpawnFailed (''Failed to spawn process: '' @ e)) \<and> w' = w1
      | (Inr child, w1) \<Rightarrow> w' = w1 \<and>
          r = Inr (child_stream child, child_handle child))"
proof -
  have cl: "cmd_stdin_channel (add_args as (cmd_new b)) = None" for as b
    by (simp add: add_args_eq cmd_new_def)
  have "cmd_stdin_channel (process_command binary args env wd) = None"
    by (simp add: process_command_def Let_def set_envs_eq set_current_dir_def cl split: option.splits)
  then have "take_stdin_channel (process_command binary args env wd) = (None, process_command binary args env wd)"
    by (simp add: take_stdin_channel_def)
  then show ?thesis
    by (auto simp: host_launch_def local_launch_def Let_def spawn_failed_def
      child_stream_def child_handle_def split: prod.splits sum.splits)
qed

lemma process_start_run:
  assumes "sc_target config = TProcess binary args env wd"
  shows "process_start H config s =
    (case h_spawn H (cmd_prepare (process_command binary args env wd)) (xs_world s) of
       (Inl e, w) \<Rightarrow> (Inl (OCommand (SpawnFailed (''Failed to spawn process: '' @ e))), s\<lparr>xs_world := w\<rparr>)
     | (Inr child, w) \<Rightarrow>
         (Inr \<lparr>rs_id = fst (h_uuid H w), rs_name = sc_name config, rs_config = config,
            rs_pid = Some (ch_id child), rs_container_id = None, rs_endpoints = [],
            rs_metadata = [(''executor_type'', ''process'')], rs_network_info = None\<rparr>,
          s\<lparr>xs_world := snd (h_uuid H w),
            xs_running_processes := hm_insert (fst (h_uuid H w))
              \<lparr>pi_handle = child_handle child, pi_event_stream = length (xs_streams s)\<rparr> (xs_running_processes s),
            xs_streams := xs_streams s @ [child_stream child]\<rparr>))"
proof -
  obtain r w where r: "host_launch H (TgtManagedProcess managed_process_new)
      (process_command binary args env wd) (xs_world s) = (r, w)" by fastforce
  note l = r [unfolded launch_spawns]
  show ?thesis
    using l by (auto simp: process_start_def assms act_bind_def on_world_def r new_service_def fresh_service_def
        track_process_def act_ret_def Let_def handle_pid_def child_handle_def running_new_def rs_with_pid_def
        rs_with_metadata_def hm_insert_def split: sum.splits prod.splits)
qed

lemma process_start_cases:
  assumes "process_start H config s = (Inr r, s')"
  obtains binary args env wd child w where
    "sc_target config = TProcess binary args env wd"
    "h_spawn H (cmd_prepare (process_command binary args env wd)) (xs_world s) = (Inr child, w)"
    "r = rs_with_metadata ''executor_type'' ''process''
       (rs_with_pid (ch_id child) (running_new (fst (h_uuid H w)) (sc_name config) config))"
    "s' = s\<lparr>xs_world := snd (h_uuid H w),
       xs_running_processes := hm_insert (rs_id r)
         \<lparr>pi_handle = child_handle child, pi_event_stream = length (xs_streams s)\<rparr> (xs_running_processes s),
       xs_streams := xs_streams s @ [child_stream child]\<rparr>"
proof -
  obtain binary args env wd where t: "sc_target config = TProcess binary args env wd"
    using assms by (cases "sc_target config") (simp_all add: process_start_def)
  from assms [unfolded process_start_run [OF t]] show thesis
    by (auto simp: running_new_def rs_with_pid_def rs_with_metadata_def hm_insert_def intro!: that [OF t]
        split: prod.splits sum.splits)
qed

lemma process_stop_tracked:
  "hm_get (xs_running_processes s) (rs_id service) = Some info \<Longrightarrow>
     process_stop H service s =
       (Inr (), s\<lparr>xs_running_processes := hm_remove (rs_id service) (xs_running_processes s),
          xs_world := stop_handle H (pi_handle info) (xs_world s)\<rparr>)"
  by (simp add: process_stop_def Let_def)

lemma stop_handle_child:
  "stop_handle H (child_handle c) w =
     h_child_kill H c (case h_signal H (ch_id c) 15 w of
       (Inr _, w') \<Rightarrow> w' | (Inl _, w') \<Rightarrow> snd (h_signal H (ch_id c) 9 w'))"
  by (auto simp: stop_handle_def handle_drop_def child_handle_def host_terminate_def host_kill_def
      handle_terminate_def handle_kill_def send_signal_def split: prod.splits sum.splits)

text \<open>Both executors provide the interface.\<close>

interpretation process_exec: service_exec "process_executor H" for H :: "'w host"
proof
  fix config service and s s' :: "'w exec_state"
  assume "ex_start (process_executor H) config s = (Inr service, s')"
  then have "process_start H config s = (Inr service, s')" by (simp add: process_executor_def)
  then show "rs_name service = sc_name config \<and> rs_config service = config \<and> ex_can_handle (process_executor H) config"
    by (rule process_start_cases) (simp add: process_executor_def process_can_handle_def)
qed (simp add: process_executor_def process_can_handle_def)

lemma adopt_container_ok:
  "adopt_container H cs config s = (Inr r, s') \<Longrightarrow>
     rs_name r = sc_name config \<and> rs_config r = config \<and> rs_container_id r = Some (cst_id cs)"
  by (auto simp: adopt_container_def act_bind_Inr_iff new_service_run)

lemma run_container_ok:
  "run_container H config args s = (Inr r, s') \<Longrightarrow>
     rs_name r = sc_name config \<and> rs_config r = config \<and> rs_container_id r \<noteq> None"
  by (auto simp: run_container_def act_bind_Inr_iff new_service_run Let_def split: if_splits)

lemma docker_start_ok:
  assumes "docker_start H config s = (Inr r, s')"
  shows "rs_name r = sc_name config \<and> rs_config r = config \<and> rs_container_id r \<noteq> None \<and>
    docker_can_handle config"
  using assms adopt_container_ok [of H _ config _ r s'] run_container_ok [of H config _ _ r s']
  by (auto simp: docker_start_def docker_can_handle_def act_bind_Inr_iff Let_def
      split: ServiceTarget.splits option.splits if_splits)

interpretation docker_exec: service_exec "docker_executor H" for H :: "'w host"
proof
  fix config service and s s' :: "'w exec_state"
  assume "ex_start (docker_executor H) config s = (Inr service, s')"
  then have "docker_start H config s = (Inr service, s')" by (simp add: docker_executor_def)
  from docker_start_ok [OF this]
  show "rs_name service = sc_name config \<and> rs_config service = config \<and> ex_can_handle (docker_executor H) config"
    by (simp add: docker_executor_def)
qed (simp add: docker_executor_def docker_can_handle_def)

section \<open>Reading a stream to its end\<close>

fun read_events :: "nat \<Rightarrow> string \<Rightarrow> EventStream \<Rightarrow> 'w exec_state \<Rightarrow> (ProcessEvent list \<times> 'w exec_state) option" where
  "read_events 0 now stream s = None"
| "read_events (Suc n) now stream s =
     (case next_event now stream s of
        (Ready None, s') \<Rightarrow> Some ([], s')
      | (Ready (Some e), s') \<Rightarrow> map_option (\<lambda>(es, t). (e # es, t)) (read_events n now stream s')
      | (Pending, s') \<Rightarrow> read_events n now stream s')"

lemma drop_append_long: "n \<le> length xs \<Longrightarrow> drop n (xs @ ys) = drop n xs @ ys"
  by simp

lemma poll_next_ended:
  "poll_next now st = (Ready None, st') \<Longrightarrow> poll_next now' st' = (Ready None, st')"
proof (induction now st arbitrary: st' rule: poll_next.induct)
  case (1 now st)
  obtain x p where p: "read_pipe (st_stdout st) = (x, p)" by fastforce
  obtain y q where q: "read_pipe (st_stderr st) = (y, q)" by fastforce
  show ?case
  proof (cases x)
    case (Some line)
    with 1 p show ?thesis
      by (auto simp: poll_next.simps [of now st] split: if_splits option.splits)
  next
    case x: None
    show ?thesis
    proof (cases y)
      case (Some line)
      with 1 p q x show ?thesis
        by (auto simp: poll_next.simps [of now st] split: if_splits option.splits)
    next
      case None
      with 1(3) p q x have "p = None" "q = None" "st_started_sent st" "st' = st\<lparr>st_stdout := None, st_stderr := None\<rparr>"
        by (auto simp: poll_next.simps [of now st] split: if_splits)
      then show ?thesis
        by (simp add: poll_next.simps [of now' "st\<lparr>st_stdout := None, st_stderr := None\<rparr>"])
    qed
  qed
qed

lemma read_events_drain:
  assumes "a < length (xs_streams s)" and "drain n now (xs_streams s ! a) = Some evs"
  shows "\<exists>s'. read_events n now (Forwarding a) s = Some (evs, s') \<and>
    next_event now' (Forwarding a) s' = (Ready None, s') \<and>
    xs_running_processes s' = xs_running_processes s"
  using assms
proof (induction n arbitrary: s evs)
  case (Suc n)
  obtain r st where r: "poll_next now (xs_streams s ! a) = (r, st)" by fastforce
  let ?t = "s\<lparr>xs_streams := (xs_streams s)[a := st]\<rparr>"
  have t: "a < length (xs_streams ?t)" "xs_streams ?t ! a = st" using Suc.prems(1) by simp_all
  show ?case
  proof (cases r)
    case Pending
    with Suc.prems(2) r t Suc.IH [OF t(1), of evs] show ?thesis by (simp add: next_event_def)
  next
    case (Ready oe)
    show ?thesis
    proof (cases oe)
      case None
      with Ready r have "poll_next now' st = (Ready None, st)" by (auto intro: poll_next_ended)
      with Suc.prems None Ready r show ?thesis by (simp add: next_event_def)
    next
      case (Some e)
      with Suc.prems(2) Ready r t obtain es where "drain n now (xs_streams ?t ! a) = Some es" "evs = e # es" by auto
      with Suc.IH [OF t(1), of es] Some Ready r show ?thesis by (auto simp: next_event_def)
    qed
  qed
qed simp

section \<open>Properties\<close>

text \<open>
  A machine for the examples: its state is a log; every process starts with identifier 7,
  prints nothing and succeeds, and every signal is delivered.
\<close>

definition demo_host :: "string list host" where
  "demo_host = \<lparr>h_spawn = (\<lambda>c w. (Inr \<lparr>ch_id = 7, ch_stdout = [], ch_stderr = []\<rparr>, w @ [ac_program c])),
     h_wait = (\<lambda>c w. (Inr \<lparr>ex_code = Some 0, ex_signal = None\<rparr>, w)),
     h_signal = (\<lambda>pid sig w. (Inr (), w @ [''signal '' @ show_int sig])),
     h_child_kill = (\<lambda>c w. w @ [''kill'']),
     h_uuid = (\<lambda>w. (''u'' @ show_nat (length w), w)), h_now = (\<lambda>w. ''now'')\<rparr>"

definition demo_config :: "string \<Rightarrow> ServiceConfig" where
  "demo_config name = \<lparr>sc_name = name, sc_target = TProcess ''srv'' [''-p''] [(''A'', ''1'')] None,
     sc_dependencies = [], sc_health_check = None\<rparr>"

definition demo_state :: "string list exec_state" where
  "demo_state = \<lparr>xs_world = [], xs_running_processes = [], xs_streams = []\<rparr>"

text \<open>The command of a process service, prepared: its arguments, its environment, its directory.\<close>

lemma process_command_calls:
  fixes binary args env wd
  assumes "hm_wf env"
  defines "cmd \<equiv> cmd_prepare (process_command binary args env wd)"
  shows "ac_program cmd = binary \<and> child_args (ac_calls cmd) = args \<and>
    (\<forall>parent k. child_env parent (ac_calls cmd) k =
       (case hm_get env k of Some v \<Rightarrow> Some v | None \<Rightarrow> parent k)) \<and>
    (\<forall>d. CallDir d \<in> set (ac_calls cmd) \<longleftrightarrow> wd = Some d)"
proof -
  have calls: "ac_calls cmd = map CallArg args @ map (\<lambda>(k, v). CallEnv k v) (hm_extend [] env) @
      (case wd of None \<Rightarrow> [] | Some d \<Rightarrow> [CallDir d])" and prog: "ac_program cmd = binary"
    by (simp_all add: cmd_def cmd_prepare_def process_command_def Let_def set_envs_eq add_args_eq cmd_new_def
        set_current_dir_def split: option.split)
  have env: "map_of (rev (hm_extend [] env)) = hm_get env"
    using assms(1) hm_wf_extend [OF hm_wf_empty, of env]
    by (intro ext) (simp add: map_of_rev_wf hm_get_extend assms(1) option.case_eq_if flip: hm_get_def)
  show ?thesis
    by (auto simp: prog calls child_args_append child_env_append env map_add_def split: option.splits)
qed

text \<open>
  C27. Starting a process service, on every branch. Only a process target is started: for any other
  the outcome is an error and nothing is done. For a process target one command is spawned, with
  the configured binary and arguments, an environment in which the configured variables lie over the
  parent's, and the configured working directory if there is one. If it cannot be spawned that is the
  error, and only the machine has changed. If it can, the outcome is the service, with its name,
  configuration, the process identifier of the child and the identifier drawn for it; under that
  identifier the child's handle and the address of its event stream are kept, the stream
  is added to the store, and nothing else changes.
\<close>

theorem process_start_contract:
  assumes "case sc_target config of TProcess _ _ env _ \<Rightarrow> hm_wf env | _ \<Rightarrow> True"
  shows "case sc_target config of
      TProcess binary args env wd \<Rightarrow>
        (\<exists>cmd. ac_program cmd = binary \<and> child_args (ac_calls cmd) = args \<and>
          (\<forall>parent k. child_env parent (ac_calls cmd) k =
             (case hm_get env k of Some v \<Rightarrow> Some v | None \<Rightarrow> parent k)) \<and>
          (\<forall>d. CallDir d \<in> set (ac_calls cmd) \<longleftrightarrow> wd = Some d) \<and>
          process_start H config s =
            (case h_spawn H cmd (xs_world s) of
               (Inl e, w) \<Rightarrow> (Inl (OCommand (SpawnFailed (''Failed to spawn process: '' @ e))), s\<lparr>xs_world := w\<rparr>)
             | (Inr child, w) \<Rightarrow>
                 (Inr \<lparr>rs_id = fst (h_uuid H w), rs_name = sc_name config, rs_config = config,
                    rs_pid = Some (ch_id child), rs_container_id = None, rs_endpoints = [],
                    rs_metadata = [(''executor_type'', ''process'')], rs_network_info = None\<rparr>,
                  s\<lparr>xs_world := snd (h_uuid H w),
                    xs_running_processes := hm_insert (fst (h_uuid H w))
                      \<lparr>pi_handle = \<lparr>lph_child = child, lph_kill_on_drop = True,
                         lph_stdin = Some \<lparr>sh_open = True, sh_channel = None\<rparr>\<rparr>,
                       pi_event_stream = length (xs_streams s)\<rparr> (xs_running_processes s),
                    xs_streams := xs_streams s @
                      [\<lparr>st_stdout = Some (ch_stdout child), st_stderr = Some (ch_stderr child),
                        st_filter = no_op_filter, st_started_sent = False, st_child_id = ch_id child\<rparr>]\<rparr>)))
    | _ \<Rightarrow> process_start H config s =
        (Inl (OConfig (OText ''ProcessExecutor can only handle Process targets'')), s)"
proof (cases "sc_target config")
  case (TProcess binary args env wd)
  with assms have "hm_wf env" by simp
  from process_command_calls [OF this, of binary args wd]
    process_start_run [OF TProcess, of H s, unfolded child_handle_def child_stream_def]
  show ?thesis unfolding TProcess ServiceTarget.case by blast
qed (simp_all add: process_start_def act_err_def)

theorem process_start_contract_witness:
  "process_start demo_host (demo_config ''api'') demo_state =
    (Inr \<lparr>rs_id = ''u1'', rs_name = ''api'', rs_config = demo_config ''api'', rs_pid = Some 7,
       rs_container_id = None, rs_endpoints = [], rs_metadata = [(''executor_type'', ''process'')],
       rs_network_info = None\<rparr>,
     \<lparr>xs_world = [''srv''],
       xs_running_processes = [(''u1'', \<lparr>pi_handle = \<lparr>lph_child = \<lparr>ch_id = 7, ch_stdout = [], ch_stderr = []\<rparr>,
          lph_kill_on_drop = True, lph_stdin = Some \<lparr>sh_open = True, sh_channel = None\<rparr>\<rparr>, pi_event_stream = 0\<rparr>)],
       xs_streams = [\<lparr>st_stdout = Some [], st_stderr = Some [], st_filter = no_op_filter,
         st_started_sent = False, st_child_id = 7\<rparr>]\<rparr>)"
proof -
  have one: "show_nat (Suc 0) = ''1''" by code_simp
  show ?thesis
    using process_start_contract [of "demo_config ''api''" demo_host demo_state] one
    by (auto simp: demo_config_def demo_host_def demo_state_def hm_wf_def hm_insert_def)
qed

text \<open>
  Stopping a service that the process executor started never fails and always forgets it.
  The child gets the terminate signal and then, since stopping drops its handle, is killed at
  once; if the terminate signal could not be delivered the kill signal is tried in between.
\<close>

theorem process_stop_outcome:
  assumes "process_start H config s = (Inr service, s1)"
    and "xs_running_processes s2 = xs_running_processes s1"
  shows "\<exists>child. rs_pid service = Some (ch_id child) \<and>
    process_stop H service s2 =
      (Inr (), s2\<lparr>xs_running_processes := hm_remove (rs_id service) (xs_running_processes s2),
         xs_world := h_child_kill H child (case h_signal H (ch_id child) 15 (xs_world s2) of
           (Inr _, w) \<Rightarrow> w | (Inl _, w) \<Rightarrow> snd (h_signal H (ch_id child) 9 w))\<rparr>)"
  using assms(1)
proof (rule process_start_cases)
  fix binary args env wd child w
  assume r: "service = rs_with_metadata ''executor_type'' ''process''
      (rs_with_pid (ch_id child) (running_new (fst (h_uuid H w)) (sc_name config) config))"
    and s1: "s1 = s\<lparr>xs_world := snd (h_uuid H w),
      xs_running_processes := hm_insert (rs_id service)
        \<lparr>pi_handle = child_handle child, pi_event_stream = length (xs_streams s)\<rparr> (xs_running_processes s),
      xs_streams := xs_streams s @ [child_stream child]\<rparr>"
  then have "hm_get (xs_running_processes s2) (rs_id service) =
      Some \<lparr>pi_handle = child_handle child, pi_event_stream = length (xs_streams s)\<rparr>"
    using assms(2) by simp
  from process_stop_tracked [OF this, of H] r show ?thesis by (auto simp: stop_handle_child)
qed

theorem process_stop_outcome_witness:
  "xs_world (snd (process_stop demo_host (running_new ''u1'' ''api'' (demo_config ''api''))
     (snd (process_start demo_host (demo_config ''api'') demo_state)))) = [''srv'', ''signal 15'', ''kill'']"
proof -
  let ?p = "process_start demo_host (demo_config ''api'') demo_state"
  have id: "map_sum id rs_id (fst ?p) = Inr ''u1''" and w: "xs_world (snd ?p) = [''srv'']" by code_simp+
  then obtain service where run: "?p = (Inr service, snd ?p)" "rs_id service = ''u1''"
    by (cases "fst ?p") (auto simp: prod_eq_iff)
  from process_stop_outcome [OF run(1) refl] obtain child where
    st: "process_stop demo_host service (snd ?p) = (Inr (), (snd ?p)
      \<lparr>xs_running_processes := hm_remove (rs_id service) (xs_running_processes (snd ?p)),
        xs_world := h_child_kill demo_host child (case h_signal demo_host (ch_id child) 15 (xs_world (snd ?p)) of
           (Inr _, w) \<Rightarrow> w | (Inl _, w) \<Rightarrow> snd (h_signal demo_host (ch_id child) 9 w))\<rparr>)"
    by blast
  have "hm_get (xs_running_processes (snd ?p)) ''u1'' \<noteq> None" by code_simp
  then have "process_stop demo_host (running_new ''u1'' ''api'' (demo_config ''api'')) (snd ?p) =
      process_stop demo_host service (snd ?p)"
    using run(2) by (auto simp: process_stop_def Let_def)
  moreover have "show_int 15 = ''15''" by code_simp
  ultimately show ?thesis using st w by (simp add: demo_host_def)
qed

text \<open>
  One reader per service. After a process service is started, the stream handed out for
  it, polled to its end, yields first that the process started and then all it printed, line
  by line; but the streams handed out share it, so that one asked for afterwards yields
  nothing.
\<close>

theorem one_reader_per_service:
  assumes start: "process_start H config s = (Inr service, s1)"
  shows "\<exists>stream (child :: child) evs s2 n. process_stream_events service s1 = (Inr stream, s1) \<and>
    rs_pid service = Some (ch_id child) \<and>
    read_events n now stream s1 = Some (event_new now (PStarted (ch_id child)) # evs, s2) \<and>
    data_of PStdout evs = pipe_lines (ch_stdout child) \<and> data_of PStderr evs = pipe_lines (ch_stderr child) \<and>
    (\<exists>stream'. process_stream_events service s2 = (Inr stream', s2) \<and>
       next_event now' stream' s2 = (Ready None, s2))"
  using start
proof (rule process_start_cases)
  fix binary args env wd child w
  assume r: "service = rs_with_metadata ''executor_type'' ''process''
      (rs_with_pid (ch_id child) (running_new (fst (h_uuid H w)) (sc_name config) config))"
    and s1: "s1 = s\<lparr>xs_world := snd (h_uuid H w),
      xs_running_processes := hm_insert (rs_id service)
        \<lparr>pi_handle = child_handle child, pi_event_stream = length (xs_streams s)\<rparr> (xs_running_processes s),
      xs_streams := xs_streams s @ [child_stream child]\<rparr>"
  let ?a = "length (xs_streams s)"
  let ?n = "enough_polls (child_stream child)"
  have kept_all: "kept no_op_filter src ls = ls" for src ls
    by (induction ls) (auto simp: kept_def no_op_filter_def)
  from drain_fresh [of "child_stream child" ?n now] obtain evs where
    evs: "drain ?n now (child_stream child) = Some (event_new now (PStarted (ch_id child)) # evs)"
      "data_of PStdout evs = pipe_lines (ch_stdout child)" "data_of PStderr evs = pipe_lines (ch_stderr child)"
    by (auto simp: child_stream_def enough_polls_def kept_all lines_of_def)
  have a: "?a < length (xs_streams s1)" "xs_streams s1 ! ?a = child_stream child" using s1 by simp_all
  from read_events_drain [OF a(1), of ?n now _ now'] a(2) evs(1) obtain s2 where
    s2: "read_events ?n now (Forwarding ?a) s1 = Some (event_new now (PStarted (ch_id child)) # evs, s2)"
      "next_event now' (Forwarding ?a) s2 = (Ready None, s2)" "xs_running_processes s2 = xs_running_processes s1"
    by auto
  have st: "process_stream_events service t = (Inr (Forwarding ?a), t)"
    if "xs_running_processes t = xs_running_processes s1" for t
    using that s1 by (simp add: process_stream_events_def)
  have "rs_pid service = Some (ch_id child)" by (simp add: r)
  with st [OF refl] st [OF s2(3)] s2(1,2) evs(2,3) show ?thesis
    by (intro exI [of _ "Forwarding ?a"] exI [of _ child] exI [of _ evs] exI [of _ s2] exI [of _ ?n] conjI)
qed

theorem one_reader_per_service_witness:
  "\<exists>service stream (s2 :: string list exec_state). process_start demo_host (demo_config ''api'') demo_state =
       (Inr service, snd (process_start demo_host (demo_config ''api'') demo_state)) \<and>
     process_stream_events service s2 = (Inr stream, s2) \<and> next_event ''t'' stream s2 = (Ready None, s2)"
proof -
  have "is_ok (fst (process_start demo_host (demo_config ''api'') demo_state))" by code_simp
  then obtain service where run: "process_start demo_host (demo_config ''api'') demo_state =
      (Inr service, snd (process_start demo_host (demo_config ''api'') demo_state))"
    by (auto simp: is_ok_def prod_eq_iff split: sum.splits)
  from one_reader_per_service [OF this, of "''t''" "''t''"] run show ?thesis by blast
qed

text \<open>
  A container is not found again. The Docker executor names the container of a service
  after it and looks for a name with a further suffix. On a machine whose \<open>docker ps\<close> lists a
  container only if its name contains the filter, and whose containers were all named by the
  executor for services without that suffix, starting a service adopts and removes nothing:
  it looks, and then runs a new container under the same name.
\<close>

theorem docker_start_never_adopts:
  assumes ps: "\<And>n w r w'. run_command H (docker_command (ps_args n)) w = (Inr r, w') \<Longrightarrow>
      result_success r \<Longrightarrow> str_trim (er_output r) \<noteq> [] \<Longrightarrow> \<exists>c\<in>containers w. str_contains c (container_filter n)"
    and own: "\<forall>c\<in>containers (xs_world s). \<exists>m. c = ''orchestrator-'' @ m \<and> \<not> str_contains m ''-harness-test''"
    and target: "sc_target config = TDocker img env ports volumes"
    and look: "run_command H (docker_command (ps_args (sc_name config))) (xs_world s) = (Inr r, w)"
  shows "docker_start H config s =
    run_container H config (run_args (sc_name config) img env ports volumes) (s\<lparr>xs_world := w\<rparr>)"
proof -
  have suffix: "str_contains m ''-harness-test''"
    if "str_contains (''orchestrator-'' @ m) (container_filter n)" for m n
  proof -
    from that obtain a b where eq: "''orchestrator-'' @ m = a @ container_filter n @ b"
      by (auto simp: str_contains_iff)
    have "m = drop 13 (''orchestrator-'' @ m)" by simp
    also have "\<dots> = drop 13 ((a @ ''orchestrator-'' @ n) @ ''-harness-test'' @ b)"
      by (simp only: eq container_filter_def append_assoc)
    also have "\<dots> = drop 13 (a @ ''orchestrator-'' @ n) @ ''-harness-test'' @ b"
      by (rule drop_append_long) simp
    finally show ?thesis unfolding str_contains_iff by blast
  qed
  have "\<not> str_contains c (container_filter (sc_name config))" if "c \<in> containers (xs_world s)" for c
  proof
    assume c: "str_contains c (container_filter (sc_name config))"
    from own that obtain m where m: "c = ''orchestrator-'' @ m" "\<not> str_contains m ''-harness-test''" by blast
    from suffix [OF c [unfolded m(1)]] m(2) show False by contradiction
  qed
  with ps [OF look] have "result_success r \<Longrightarrow> str_trim (er_output r) = []" by blast
  then have "detect_existing_container H (sc_name config) (xs_world s) = (Inr None, w)"
    by (auto simp: detect_existing_container_def act_bind_Inr [of "run_command H (docker_command (ps_args (sc_name config)))", OF look]
        parse_container_def)
  then have "on_world (detect_existing_container H (sc_name config)) s = (Inr None, s\<lparr>xs_world := w\<rparr>)"
    by (auto simp: on_world_run)
  then show ?thesis by (simp add: docker_start_def target Let_def)
qed

theorem docker_start_never_adopts_witness:
  "docker_start demo_host ((demo_config ''db'')\<lparr>sc_target := TDocker ''pg'' [] [] []\<rparr>) demo_state =
     run_container demo_host ((demo_config ''db'')\<lparr>sc_target := TDocker ''pg'' [] [] []\<rparr>)
       [''run'', ''-d'', ''--name'', ''orchestrator-db'', ''pg''] (demo_state\<lparr>xs_world := [''docker'', ''kill'']\<rparr>)"
proof -
  have quiet: "run_command demo_host (docker_command as) w =
      (Inr \<lparr>er_status = \<lparr>ex_code = Some 0, ex_signal = None\<rparr>, er_output = []\<rparr>, w @ [''docker'', ''kill''])" for as w
    by (simp add: run_command_def host_execute_def host_launch_def local_launch_def docker_command_def add_args_eq
        cmd_new_def take_stdin_channel_def demo_host_def cmd_prepare_def enough_polls_def pipe_left_def
        poll_next.simps eval_nat_numeral event_new_def collected_output_def host_wait_def handle_drop_def)
  from docker_start_never_adopts [of demo_host "\<lambda>_. {}" demo_state "(demo_config ''db'')\<lparr>sc_target := TDocker ''pg'' [] [] []\<rparr>"
      "''pg''" "[]" "[]" "[]"] quiet
  show ?thesis by (simp add: demo_state_def demo_config_def str_trim_def run_args_def)
qed

end
