(* ===== verification/Orch_Package.thy ===== *)
theory Orch_Package
  imports Orch_Config
begin

text \<open>
  Package deployment, \<^verbatim>\<open>crates/service-orchestration/src/package.rs\<close>. The steps after validation
  are not implemented in the source: each returns without effect, and validation returns a
  fixed manifest. The file system is two predicates on paths.
\<close>

record RemoteTarget =
  rt_service_name :: string
  rt_host :: string
  rt_user :: string
  rt_install_dir :: "string option"

definition install_path :: "RemoteTarget \<Rightarrow> string" where
  "install_path t = (case rt_install_dir t of Some d \<Rightarrow> d | None \<Rightarrow> ''/opt/harness/'' @ rt_service_name t)"

record PackageHealthCheck =
  ph_command :: string
  ph_args :: "string list"
  ph_timeout :: u64

record PackageService =
  pks_executable :: string
  pks_args :: "string list"
  pks_working_dir :: "string option"
  pks_health_check :: "PackageHealthCheck option"

record PackageManifest =
  pm_name :: string
  pm_version :: string
  pm_service :: PackageService
  pm_dependencies :: "string list"
  pm_environment :: "(string, string) hmap"

record DeployedPackage =
  dp_target :: RemoteTarget
  dp_path :: string
  dp_manifest :: PackageManifest

record file_system =
  fs_exists :: "string \<Rightarrow> bool"
  fs_is_file :: "string \<Rightarrow> bool"

definition validate_package :: "file_system \<Rightarrow> string \<Rightarrow> OrchError + PackageManifest" where
  "validate_package F package_path =
     (if \<not> fs_exists F package_path then Inl (OPackage (''Package not found: '' @ package_path))
      else if \<not> fs_is_file F package_path then Inl (OPackage (''Package path is not a file: '' @ package_path))
      else Inr \<lparr>pm_name = ''dummy'', pm_version = ''1.0.0'',
             pm_service = \<lparr>pks_executable = ''./bin/service'', pks_args = [], pks_working_dir = None,
               pks_health_check = None\<rparr>,
             pm_dependencies = [], pm_environment = []\<rparr>)"

definition transfer_package :: "string \<Rightarrow> RemoteTarget \<Rightarrow> OrchError + unit" where
  "transfer_package package_path target = Inr ()"

definition extract_package :: "RemoteTarget \<Rightarrow> OrchError + unit" where
  "extract_package target = Inr ()"

definition generate_env_file :: "RemoteTarget \<Rightarrow> PackageManifest \<Rightarrow> OrchError + unit" where
  "generate_env_file target manifest = Inr ()"

definition setup_permissions :: "RemoteTarget \<Rightarrow> OrchError + unit" where
  "setup_permissions target = Inr ()"

definition deploy :: "file_system \<Rightarrow> string \<Rightarrow> RemoteTarget \<Rightarrow> OrchError + DeployedPackage" where
  "deploy F package_path target =
     res_bind (validate_package F package_path) (\<lambda>manifest.
     res_bind (transfer_package package_path target) (\<lambda>_.
     res_bind (extract_package target) (\<lambda>_.
     res_bind (generate_env_file target manifest) (\<lambda>_.
     res_bind (setup_permissions target) (\<lambda>_.
     Inr \<lparr>dp_target = target, dp_path = install_path target, dp_manifest = manifest\<rparr>)))))"

end
