(* ===== verification/Reg_Json.thy ===== *)
theory Reg_Json
  imports Reg_Models
begin

text \<open>
  The JSON form of the registry's types, as the serde attributes in
  \<^verbatim>\<open>crates/service-registry/src/models.rs\<close> derive it: snake-case names for the enums,
  the \<open>type\<close> tag for \<open>ExecutionInfo\<close>, \<open>Location\<close> and \<open>WsMessage\<close>, optional fields that may be
  missing. Each encoder has its decoder, and the round trips are proved for every entry and
  message whose metadata has distinct keys.
\<close>

section \<open>Names of enumerated values\<close>

definition state_name :: "ServiceState \<Rightarrow> string" where
  "state_name s = (case s of Registered \<Rightarrow> ''registered'' | Starting \<Rightarrow> ''starting''
     | Running \<Rightarrow> ''running'' | Stopping \<Rightarrow> ''stopping'' | Stopped \<Rightarrow> ''stopped'' | Failed \<Rightarrow> ''failed'')"

definition event_name :: "EventType \<Rightarrow> string" where
  "event_name e = (case e of EvServiceRegistered \<Rightarrow> ''service_registered''
     | EvServiceUpdated \<Rightarrow> ''service_updated'' | EvServiceDeregistered \<Rightarrow> ''service_deregistered''
     | EvServiceStateChanged \<Rightarrow> ''service_state_changed'' | EvEndpointUpdated \<Rightarrow> ''endpoint_updated''
     | EvDeploymentProgress \<Rightarrow> ''deployment_progress'' | EvHealthCheckResult \<Rightarrow> ''health_check_result''
     | EvRegistryLoaded \<Rightarrow> ''registry_loaded'')"

definition action_name :: "Action \<Rightarrow> string" where
  "action_name a = (case a of ListServices \<Rightarrow> ''list_services'' | GetService \<Rightarrow> ''get_service''
     | ServiceActionReq \<Rightarrow> ''service_action'' | ListEndpoints \<Rightarrow> ''list_endpoints''
     | DeployPackage \<Rightarrow> ''deploy_package'' | Subscribe \<Rightarrow> ''subscribe'' | Unsubscribe \<Rightarrow> ''unsubscribe'')"

definition service_action_name :: "ServiceAction \<Rightarrow> string" where
  "service_action_name a = (case a of ActStart \<Rightarrow> ''start'' | ActStop \<Rightarrow> ''stop''
     | ActRestart \<Rightarrow> ''restart'' | ActReload \<Rightarrow> ''reload'')"

definition json_enum :: "('a \<Rightarrow> string) \<Rightarrow> 'a list \<Rightarrow> json \<Rightarrow> 'a option" where
  "json_enum name xs j = opt_bind (json_str j) (\<lambda>s. find (\<lambda>x. name x = s) xs)"

definition all_events :: "EventType list" where
  "all_events = [EvServiceRegistered, EvServiceUpdated, EvServiceDeregistered, EvServiceStateChanged,
     EvEndpointUpdated, EvDeploymentProgress, EvHealthCheckResult, EvRegistryLoaded]"

definition all_actions :: "Action list" where
  "all_actions = [ListServices, GetService, ServiceActionReq, ListEndpoints, DeployPackage,
     Subscribe, Unsubscribe]"

definition all_service_actions :: "ServiceAction list" where
  "all_service_actions = [ActStart, ActStop, ActRestart, ActReload]"

definition state_json :: "ServiceState \<Rightarrow> json" where "state_json s = JStr (state_name s)"

definition event_json :: "EventType \<Rightarrow> json" where "event_json e = JStr (event_name e)"

definition action_json :: "Action \<Rightarrow> json" where "action_json a = JStr (action_name a)"

definition service_action_json :: "ServiceAction \<Rightarrow> json" where
  "service_action_json a = JStr (service_action_name a)"

abbreviation json_state :: "json \<Rightarrow> ServiceState option" where
  "json_state \<equiv> json_enum state_name all_states"

abbreviation json_event :: "json \<Rightarrow> EventType option" where
  "json_event \<equiv> json_enum event_name all_events"

abbreviation json_action :: "json \<Rightarrow> Action option" where
  "json_action \<equiv> json_enum action_name all_actions"

abbreviation json_service_action :: "json \<Rightarrow> ServiceAction option" where
  "json_service_action \<equiv> json_enum service_action_name all_service_actions"

lemma state_json_round [simp]: "json_state (state_json s) = Some s"
  by (cases s) (simp_all add: json_enum_def state_json_def state_name_def all_states_def)

lemma event_json_round [simp]: "json_event (event_json e) = Some e"
  by (cases e) (simp_all add: json_enum_def event_json_def event_name_def all_events_def)

lemma action_json_round [simp]: "json_action (action_json a) = Some a"
  by (cases a) (simp_all add: json_enum_def action_json_def action_name_def all_actions_def)

lemma service_action_json_round [simp]: "json_service_action (service_action_json a) = Some a"
  by (cases a) (simp_all add: json_enum_def service_action_json_def service_action_name_def
    all_service_actions_def)

section \<open>Entries\<close>

fun execution_json :: "ExecutionInfo \<Rightarrow> json" where
  "execution_json (ManagedProcess pid command args) = JObj [(''type'', JStr ''managed_process''),
     (''pid'', opt_json word_json pid), (''command'', JStr command), (''args'', JArr (map JStr args))]"
| "execution_json (DockerContainer container_id img name) = JObj [(''type'', JStr ''docker_container''),
     (''container_id'', opt_json JStr container_id), (''image'', JStr img), (''name'', opt_json JStr name)]"
| "execution_json (SystemdService unit_name) = JObj [(''type'', JStr ''systemd_service''),
     (''unit_name'', JStr unit_name)]"
| "execution_json (SystemdPortable image_name unit_name) = JObj [(''type'', JStr ''systemd_portable''),
     (''image_name'', JStr image_name), (''unit_name'', JStr unit_name)]"

definition json_execution :: "json \<Rightarrow> ExecutionInfo option" where
  "json_execution j = opt_bind (json_field json_str ''type'' j) (\<lambda>tag.
     if tag = ''managed_process'' then
       opt_bind (json_opt_field json_word ''pid'' j) (\<lambda>pid.
       opt_bind (json_field json_str ''command'' j) (\<lambda>command.
       opt_bind (json_field (json_arr json_str) ''args'' j) (\<lambda>args.
       Some (ManagedProcess pid command args))))
     else if tag = ''docker_container'' then
       opt_bind (json_opt_field json_str ''container_id'' j) (\<lambda>container_id.
       opt_bind (json_field json_str ''image'' j) (\<lambda>img.
       opt_bind (json_opt_field json_str ''name'' j) (\<lambda>name.
       Some (DockerContainer container_id img name))))
     else if tag = ''systemd_service'' then
       map_option SystemdService (json_field json_str ''unit_name'' j)
     else if tag = ''systemd_portable'' then
       opt_bind (json_field json_str ''image_name'' j) (\<lambda>image_name.
       map_option (SystemdPortable image_name) (json_field json_str ''unit_name'' j))
     else None)"

fun location_json :: "Location \<Rightarrow> json" where
  "location_json LocLocal = JObj [(''type'', JStr ''local'')]"
| "location_json (LocRemote host ssh_user ssh_port) = JObj [(''type'', JStr ''remote''),
     (''host'', JStr host), (''ssh_user'', JStr ssh_user), (''ssh_port'', opt_json word_json ssh_port)]"

definition json_location :: "json \<Rightarrow> Location option" where
  "json_location j = opt_bind (json_field json_str ''type'' j) (\<lambda>tag.
     if tag = ''local'' then Some LocLocal
     else if tag = ''remote'' then
       opt_bind (json_field json_str ''host'' j) (\<lambda>host.
       opt_bind (json_field json_str ''ssh_user'' j) (\<lambda>ssh_user.
       map_option (LocRemote host ssh_user) (json_opt_field json_word ''ssh_port'' j)))
     else None)"

fun protocol_json :: "Protocol \<Rightarrow> json" where
  "protocol_json Http = JStr ''http''"
| "protocol_json Https = JStr ''https''"
| "protocol_json Grpc = JStr ''grpc''"
| "protocol_json Tcp = JStr ''tcp''"
| "protocol_json WebSocketProto = JStr ''websocket''"
| "protocol_json (Custom s) = JObj [(''custom'', JStr s)]"

fun json_protocol :: "json \<Rightarrow> Protocol option" where
  "json_protocol (JStr s) =
     (if s = ''http'' then Some Http else if s = ''https'' then Some Https
      else if s = ''grpc'' then Some Grpc else if s = ''tcp'' then Some Tcp
      else if s = ''websocket'' then Some WebSocketProto else None)"
| "json_protocol (JObj [(k, v)]) = (if k = ''custom'' then map_option Custom (json_str v) else None)"
| "json_protocol _ = None"

definition endpoint_json :: "Endpoint \<Rightarrow> json" where
  "endpoint_json ep = JObj [(''name'', JStr (ep_name ep)), (''address'', JStr (ep_address ep)),
     (''protocol'', protocol_json (ep_protocol ep)), (''metadata'', map_json JStr (ep_metadata ep))]"

text \<open>\<open>is_addr\<close> is the address parser of the standard library on the printed form.\<close>

definition json_endpoint :: "(string \<Rightarrow> bool) \<Rightarrow> json \<Rightarrow> Endpoint option" where
  "json_endpoint is_addr j =
     opt_bind (json_field json_str ''name'' j) (\<lambda>name.
     opt_bind (json_field json_str ''address'' j) (\<lambda>address.
     opt_bind (json_field json_protocol ''protocol'' j) (\<lambda>protocol.
     opt_bind (json_field (json_map json_str) ''metadata'' j) (\<lambda>metadata.
     if is_addr address
     then Some \<lparr>ep_name = name, ep_address = address, ep_protocol = protocol, ep_metadata = metadata\<rparr>
     else None))))"

definition health_json :: "HealthStatus \<Rightarrow> json" where
  "health_json h = JObj [(''healthy'', JBool (hst_healthy h)), (''message'', opt_json JStr (hst_message h)),
     (''checked_at'', JStr (hst_checked_at h)), (''duration_ms'', word_json (hst_duration_ms h))]"

definition json_health :: "json \<Rightarrow> HealthStatus option" where
  "json_health j =
     opt_bind (json_field json_bool ''healthy'' j) (\<lambda>healthy.
     opt_bind (json_opt_field json_str ''message'' j) (\<lambda>message.
     opt_bind (json_field json_str ''checked_at'' j) (\<lambda>checked_at.
     opt_bind (json_field json_word ''duration_ms'' j) (\<lambda>duration_ms.
     Some \<lparr>hst_healthy = healthy, hst_message = message, hst_checked_at = checked_at,
        hst_duration_ms = duration_ms\<rparr>))))"

definition entry_json :: "ServiceEntry \<Rightarrow> json" where
  "entry_json e = JObj [(''name'', JStr (se_name e)), (''version'', JStr (se_version e)),
     (''execution'', execution_json (se_execution e)), (''location'', location_json (se_location e)),
     (''endpoints'', JArr (map endpoint_json (se_endpoints e))),
     (''depends_on'', JArr (map JStr (se_depends_on e))), (''state'', state_json (se_state e)),
     (''last_health_check'', opt_json health_json (se_last_health_check e)),
     (''registered_at'', JStr (se_registered_at e)),
     (''last_state_change'', JStr (se_last_state_change e))]"

definition json_entry :: "(string \<Rightarrow> bool) \<Rightarrow> json \<Rightarrow> ServiceEntry option" where
  "json_entry is_addr j =
     opt_bind (json_field json_str ''name'' j) (\<lambda>name.
     opt_bind (json_field json_str ''version'' j) (\<lambda>version.
     opt_bind (json_field json_execution ''execution'' j) (\<lambda>execution.
     opt_bind (json_field json_location ''location'' j) (\<lambda>location.
     opt_bind (json_field (json_arr (json_endpoint is_addr)) ''endpoints'' j) (\<lambda>endpoints.
     opt_bind (json_field (json_arr json_str) ''depends_on'' j) (\<lambda>depends_on.
     opt_bind (json_field json_state ''state'' j) (\<lambda>state.
     opt_bind (json_opt_field json_health ''last_health_check'' j) (\<lambda>last_health_check.
     opt_bind (json_field json_str ''registered_at'' j) (\<lambda>registered_at.
     opt_bind (json_field json_str ''last_state_change'' j) (\<lambda>last_state_change.
     Some \<lparr>se_name = name, se_version = version, se_execution = execution, se_location = location,
        se_endpoints = endpoints, se_depends_on = depends_on, se_state = state,
        se_last_health_check = last_health_check, se_registered_at = registered_at,
        se_last_state_change = last_state_change\<rparr>))))))))))"

section \<open>Messages\<close>

definition error_info_json :: "ErrorInfo \<Rightarrow> json" where
  "error_info_json e = JObj ([(''code'', JStr (err_code e)), (''message'', JStr (err_message e))] @
     (case err_details e of None \<Rightarrow> [] | Some d \<Rightarrow> [(''details'', d)]))"

definition json_value :: "json \<Rightarrow> json option" where "json_value j = Some j"

definition json_error_info :: "json \<Rightarrow> ErrorInfo option" where
  "json_error_info j =
     opt_bind (json_field json_str ''code'' j) (\<lambda>code.
     opt_bind (json_field json_str ''message'' j) (\<lambda>message.
     opt_bind (json_opt_field json_value ''details'' j) (\<lambda>details.
     Some \<lparr>err_code = code, err_message = message, err_details = details\<rparr>)))"

fun message_json :: "WsMessage \<Rightarrow> json" where
  "message_json (WsRequest i action params) = JObj [(''type'', JStr ''request''), (''id'', JStr i),
     (''action'', action_json action), (''params'', params)]"
| "message_json (WsResponse i data error) = JObj ([(''type'', JStr ''response''), (''id'', JStr i)] @
     (case data of None \<Rightarrow> [] | Some d \<Rightarrow> [(''data'', d)]) @
     (case error of None \<Rightarrow> [] | Some e \<Rightarrow> [(''error'', error_info_json e)]))"
| "message_json (WsEvent event data) = JObj [(''type'', JStr ''event''), (''event'', event_json event),
     (''data'', data)]"

definition json_message :: "json \<Rightarrow> WsMessage option" where
  "json_message j = opt_bind (json_field json_str ''type'' j) (\<lambda>tag.
     if tag = ''request'' then
       opt_bind (json_field json_str ''id'' j) (\<lambda>i.
       opt_bind (json_field json_action ''action'' j) (\<lambda>action.
       opt_bind (json_field json_value ''params'' j) (\<lambda>params.
       Some (WsRequest i action params))))
     else if tag = ''response'' then
       opt_bind (json_field json_str ''id'' j) (\<lambda>i.
       opt_bind (json_opt_field json_value ''data'' j) (\<lambda>data.
       opt_bind (json_opt_field json_error_info ''error'' j) (\<lambda>error.
       Some (WsResponse i data error))))
     else if tag = ''event'' then
       opt_bind (json_field json_event ''event'' j) (\<lambda>event.
       opt_bind (json_field json_value ''data'' j) (\<lambda>data.
       Some (WsEvent event data)))
     else None)"

section \<open>Round trips\<close>

lemmas json_defs = json_field_def json_opt_field_def opt_json_def json_value_def

lemma json_opt_str [simp]: "json_opt json_str (JStr s) = Some (Some s)"
  by (simp add: json_opt_def)

lemma json_opt_word [simp]: "json_opt json_word (word_json w) = Some (Some w)"
  by (rule opt_json_round) (simp, simp add: word_json_def)

lemma json_opt_null [simp]: "json_opt f JNull = Some None"
  by (simp add: json_opt_def)

lemma execution_json_round [simp]: "json_execution (execution_json e) = Some e"
  by (cases e) (auto simp: json_execution_def json_defs json_list_round split: option.splits)

lemma location_json_round [simp]: "json_location (location_json l) = Some l"
  by (cases l) (auto simp: json_location_def json_defs split: option.splits)

lemma protocol_json_round [simp]: "json_protocol (protocol_json p) = Some p"
  by (cases p) simp_all

definition endpoint_encodable :: "(string \<Rightarrow> bool) \<Rightarrow> Endpoint \<Rightarrow> bool" where
  "endpoint_encodable is_addr ep = (hm_wf (ep_metadata ep) \<and> is_addr (ep_address ep))"

definition entry_encodable :: "(string \<Rightarrow> bool) \<Rightarrow> ServiceEntry \<Rightarrow> bool" where
  "entry_encodable is_addr e = list_all (endpoint_encodable is_addr) (se_endpoints e)"

lemma endpoint_json_round [simp]:
  "endpoint_encodable is_addr ep \<Longrightarrow> json_endpoint is_addr (endpoint_json ep) = Some ep"
  by (simp add: json_endpoint_def endpoint_json_def json_defs map_json_round endpoint_encodable_def)

lemma health_json_round [simp]: "json_opt json_health (health_json h) = Some (Some h)"
  by (auto simp: json_opt_def json_health_def health_json_def json_defs split: option.splits)

lemma json_list_endpoints:
  "list_all (endpoint_encodable is_addr) eps \<Longrightarrow>
     json_list (json_endpoint is_addr) (map endpoint_json eps) = Some eps"
  by (rule json_list_round) (auto simp: list_all_iff)

lemma entry_json_round:
  "entry_encodable is_addr e \<Longrightarrow> json_entry is_addr (entry_json e) = Some e"
  by (cases "se_last_health_check e")
    (simp_all add: json_entry_def entry_json_def json_defs json_list_round json_list_endpoints entry_encodable_def)

lemma error_info_round [simp]:
  "err_details e \<noteq> Some JNull \<Longrightarrow> json_error_info (error_info_json e) = Some e"
  by (cases "err_details e"; cases "the (err_details e)")
    (auto simp: json_error_info_def error_info_json_def json_defs json_opt_def)

text \<open>
  A response whose data is the JSON value null reads back as a response without data; every
  other message reads back as itself.
\<close>

definition message_encodable :: "WsMessage \<Rightarrow> bool" where
  "message_encodable m = (case m of WsResponse _ data error \<Rightarrow>
     data \<noteq> Some JNull \<and> (case error of None \<Rightarrow> True | Some e \<Rightarrow> err_details e \<noteq> Some JNull) | _ \<Rightarrow> True)"

lemma json_opt_value: "j \<noteq> JNull \<Longrightarrow> json_opt json_value j = Some (Some j)"
  by (cases j) (simp_all add: json_opt_def json_value_def)

lemma json_opt_error_info:
  "err_details e \<noteq> Some JNull \<Longrightarrow> json_opt json_error_info (error_info_json e) = Some (Some e)"
  by (rule opt_json_round) (simp, simp add: error_info_json_def)

lemma json_value_eq [simp]: "json_value j = Some j"
  by (simp add: json_value_def)

lemma message_json_round: "message_encodable m \<Longrightarrow> json_message (message_json m) = Some m"
proof (cases m)
  case (WsResponse i data error)
  moreover assume "message_encodable m"
  ultimately show ?thesis
    by (cases data; cases error)
      (simp_all add: json_message_def json_field_def json_opt_field_def message_encodable_def
        json_opt_value json_opt_error_info)
qed (simp_all add: json_message_def json_field_def)

section \<open>Properties\<close>

text \<open>
  C21. The wire and storage format loses nothing. A service entry whose metadata maps have
  distinct keys and whose addresses are addresses reads back as itself, whatever its execution,
  location, endpoints, health and state; so does every message, except that data or details
  that are the JSON value null read back as absent.
\<close>

theorem wire_round_trip:
  assumes "entry_encodable is_addr e" and "message_encodable m"
  shows "json_entry is_addr (entry_json e) = Some e \<and> json_message (message_json m) = Some m"
  using assms by (simp add: entry_json_round message_json_round)

definition example_full_entry :: ServiceEntry where
  "example_full_entry = \<lparr>se_name = ''api'', se_version = ''1.0'',
     se_execution = ManagedProcess (Some 4242) ''node'' [''server.js''],
     se_location = LocRemote ''10.0.0.2'' ''deploy'' (Some 22),
     se_endpoints = [\<lparr>ep_name = ''http'', ep_address = ''10.0.0.2:8080'', ep_protocol = Custom ''h3'',
       ep_metadata = [(''path'', ''/api'')]\<rparr>],
     se_depends_on = [''db''], se_state = Stopping,
     se_last_health_check = Some \<lparr>hst_healthy = False, hst_message = Some ''late'',
       hst_checked_at = ''t3'', hst_duration_ms = 250\<rparr>,
     se_registered_at = ''t1'', se_last_state_change = ''t2''\<rparr>"

theorem wire_round_trip_witness:
  "json_entry (\<lambda>_. True) (entry_json example_full_entry) = Some example_full_entry \<and>
   json_message (message_json (WsResponse ''1'' (Some JNull) None)) \<noteq> Some (WsResponse ''1'' (Some JNull) None)"
proof -
  have e: "entry_encodable (\<lambda>_. True) example_full_entry"
    by (simp add: entry_encodable_def endpoint_encodable_def example_full_entry_def hm_wf_def)
  have m: "message_encodable (WsEvent EvRegistryLoaded JNull)" by (simp add: message_encodable_def)
  show ?thesis using wire_round_trip [OF e m]
    by (simp add: json_message_def json_field_def json_opt_field_def)
qed

end
