(* ===== verification/Reg_Backend.thy ===== *)
theory Reg_Backend
  imports Reg_Json
begin

text \<open>
  Registry storage: the trait of \<^verbatim>\<open>crates/service-registry/src/backend/mod.rs\<close> as a record of
  operations (\<open>'b backend\<close>) with its contract as the locale \<open>registry_store\<close>, and the sled
  implementation \<^verbatim>\<open>backend/sled.rs\<close> over two parameters: \<open>'t sled\<close>, the tree operations of the
  sled database with their documented behaviour (\<open>sled_db\<close>), and \<open>json_text\<close>, serde_json's
  reading and printing of JSON text.
\<close>

section \<open>The trait\<close>

type_synonym ('b, 'a) reg_act = "('b, RegError, 'a) act"

record 'b backend =
  bk_init :: "('b, unit) reg_act"
  bk_put_service :: "ServiceEntry \<Rightarrow> ('b, unit) reg_act"
  bk_get_service :: "string \<Rightarrow> ('b, ServiceEntry option) reg_act"
  bk_list_services :: "('b, ServiceEntry list) reg_act"
  bk_remove_service :: "string \<Rightarrow> ('b, ServiceEntry option) reg_act"
  bk_get_all_services :: "('b, (string, ServiceEntry) hmap) reg_act"
  bk_put_subscription :: "string \<Rightarrow> EventType list \<Rightarrow> ('b, unit) reg_act"
  bk_get_subscription :: "string \<Rightarrow> ('b, EventType list option) reg_act"
  bk_remove_subscription :: "string \<Rightarrow> ('b, unit) reg_act"
  bk_list_subscriptions :: "('b, (string, EventType list) hmap) reg_act"

text \<open>
  The contract: \<open>view\<close> is the map a store stands for. A failed write has written or has not.
\<close>

definition keyed :: "(ServiceEntry \<Rightarrow> bool) \<Rightarrow> (string \<Rightarrow> ServiceEntry option) \<Rightarrow> bool" where
  "keyed storable m \<longleftrightarrow> (\<forall>n e. m n = Some e \<longrightarrow> se_name e = n \<and> storable e)"

locale registry_store =
  fixes B :: "'b backend"
    and view :: "'b \<Rightarrow> string \<Rightarrow> ServiceEntry option"
    and storable :: "ServiceEntry \<Rightarrow> bool"
  assumes get_view: "keyed storable (view s) \<Longrightarrow> bk_get_service B n s = (r, s') \<Longrightarrow>
      view s' = view s \<and> (\<forall>found. r = Inr found \<longrightarrow> found = view s n)"
    and storable_state: "storable e \<Longrightarrow> storable (e\<lparr>se_state := st, se_last_state_change := now\<rparr>)"
    and put_view: "keyed storable (view s) \<Longrightarrow> storable e \<Longrightarrow> bk_put_service B e s = (u, s') \<Longrightarrow>
      view s' = (view s)(se_name e \<mapsto> e) \<or> is_ok u = False \<and> view s' = view s"
    and remove_view: "keyed storable (view s) \<Longrightarrow> bk_remove_service B n s = (r, s') \<Longrightarrow>
      (case r of Inr found \<Rightarrow> found = view s n \<and> view s' = (view s)(n := None)
       | Inl _ \<Rightarrow> view s' = (view s)(n := None) \<or> view s' = view s)"
    and list_view: "keyed storable (view s) \<Longrightarrow> bk_list_services B s = (l, s') \<Longrightarrow>
      view s' = view s \<and> (\<forall>es. l = Inr es \<longrightarrow> distinct (map se_name es) \<and> set es = ran (view s))"
begin

lemma get_keeps: "keyed storable (view s) \<Longrightarrow> bk_get_service B n s = (r, s') \<Longrightarrow> keyed storable (view s')"
  using get_view by metis

lemma put_keeps:
  "keyed storable (view s) \<Longrightarrow> storable e \<Longrightarrow> bk_put_service B e s = (r, s') \<Longrightarrow> keyed storable (view s')"
  using put_view by (fastforce simp: keyed_def)

lemma put_ok:
  "keyed storable (view s) \<Longrightarrow> storable e \<Longrightarrow> bk_put_service B e s = (Inr u, s') \<Longrightarrow>
     view s' = (view s)(se_name e \<mapsto> e)"
  using put_view by fastforce

lemma remove_keeps:
  "keyed storable (view s) \<Longrightarrow> bk_remove_service B n s = (r, s') \<Longrightarrow> keyed storable (view s')"
  using remove_view [of s n r s'] by (cases r) (auto simp: keyed_def split: if_splits)

lemma get_put:
  assumes "keyed storable (view s)" "storable e" "bk_put_service B e s = (Inr u, s')"
    and "bk_get_service B n s' = (Inr found, s'')"
  shows "found = (if n = se_name e then Some e else view s n)"
  using get_view [OF put_keeps [OF assms(1-3)] assms(4)] put_ok [OF assms(1-3)] by auto

lemma get_remove:
  assumes "keyed storable (view s)" "bk_remove_service B n s = (Inr old, s')"
    and "bk_get_service B n' s' = (Inr found, s'')"
  shows "found = (if n' = n then None else view s n')"
  using get_view [OF remove_keeps [OF assms(1,2)] assms(3)] remove_view [OF assms(1,2)] by auto

end

section \<open>The sled database\<close>

record ('t, 'x) sled =
  sl_insert :: "string \<Rightarrow> 'x \<Rightarrow> ('t, string, unit) act"
  sl_get :: "string \<Rightarrow> 't \<Rightarrow> string + 'x option"
  sl_remove :: "string \<Rightarrow> ('t, string, unit) act"
  sl_iter :: "'t \<Rightarrow> (string + (string \<times> 'x)) list"
  sl_flush :: "('t, string, unit) act"

record 'x json_text =
  jt_print :: "json \<Rightarrow> 'x"
  jt_parse :: "'x \<Rightarrow> string + json"
  jt_is_addr :: "string \<Rightarrow> bool"
  jt_reject :: "json \<Rightarrow> string"

record 't sled_store =
  ss_services :: 't
  ss_subscriptions :: 't

definition from_slice :: "'x json_text \<Rightarrow> (json \<Rightarrow> 'a option) \<Rightarrow> 'x \<Rightarrow> RegError + 'a" where
  "from_slice J dec text = (case jt_parse J text of Inl m \<Rightarrow> Inl (JsonErr m)
     | Inr j \<Rightarrow> ok_or (dec j) (JsonErr (jt_reject J j)))"

definition on_services :: "('t, string, 'a) act \<Rightarrow> ('t sled_store, 'a) reg_act" where
  "on_services m b = (case m (ss_services b) of (r, t) \<Rightarrow> (map_err DatabaseErr r, b\<lparr>ss_services := t\<rparr>))"

definition on_subscriptions :: "('t, string, 'a) act \<Rightarrow> ('t sled_store, 'a) reg_act" where
  "on_subscriptions m b =
     (case m (ss_subscriptions b) of (r, t) \<Rightarrow> (map_err DatabaseErr r, b\<lparr>ss_subscriptions := t\<rparr>))"

definition sled_init :: "('t, 'x) sled \<Rightarrow> ('t sled_store, unit) reg_act" where
  "sled_init S = act_bind (on_services (sl_flush S)) (\<lambda>_. on_subscriptions (sl_flush S))"

definition sled_put_service :: "('t, 'x) sled \<Rightarrow> 'x json_text \<Rightarrow> ServiceEntry \<Rightarrow> ('t sled_store, unit) reg_act" where
  "sled_put_service S J entry =
     act_bind (on_services (sl_insert S (se_name entry) (jt_print J (entry_json entry))))
       (\<lambda>_. on_services (sl_flush S))"

definition sled_get_service ::
    "('t, 'x) sled \<Rightarrow> 'x json_text \<Rightarrow> string \<Rightarrow> ('t sled_store, ServiceEntry option) reg_act" where
  "sled_get_service S J name b =
     (case sl_get S name (ss_services b) of
        Inl m \<Rightarrow> (Inl (DatabaseErr m), b)
      | Inr None \<Rightarrow> (Inr None, b)
      | Inr (Some bytes) \<Rightarrow> (map_sum id Some (from_slice J (json_entry (jt_is_addr J)) bytes), b))"

fun read_values :: "'x json_text \<Rightarrow> (string + (string \<times> 'x)) list \<Rightarrow> RegError + ServiceEntry list" where
  "read_values J [] = Inr []"
| "read_values J (Inl m # rs) = Inl (DatabaseErr m)"
| "read_values J (Inr (k, v) # rs) =
     res_bind (from_slice J (json_entry (jt_is_addr J)) v) (\<lambda>entry.
     map_sum id ((#) entry) (read_values J rs))"

definition sled_list_services :: "('t, 'x) sled \<Rightarrow> 'x json_text \<Rightarrow> ('t sled_store, ServiceEntry list) reg_act" where
  "sled_list_services S J b = (read_values J (sl_iter S (ss_services b)), b)"

definition sled_remove_service ::
    "('t, 'x) sled \<Rightarrow> 'x json_text \<Rightarrow> string \<Rightarrow> ('t sled_store, ServiceEntry option) reg_act" where
  "sled_remove_service S J name =
     act_bind (sled_get_service S J name) (\<lambda>existing.
     if existing \<noteq> None then
       act_bind (on_services (sl_remove S name)) (\<lambda>_.
       act_bind (on_services (sl_flush S)) (\<lambda>_. act_ret existing))
     else act_ret existing)"

fun read_pairs ::
    "'x json_text \<Rightarrow> (json \<Rightarrow> 'a option) \<Rightarrow> (string + (string \<times> 'x)) list \<Rightarrow> (string, 'a) hmap \<Rightarrow>
      RegError + (string, 'a) hmap" where
  "read_pairs J dec [] m = Inr m"
| "read_pairs J dec (Inl e # rs) m = Inl (DatabaseErr e)"
| "read_pairs J dec (Inr (k, v) # rs) m =
     res_bind (from_slice J dec v) (\<lambda>x. read_pairs J dec rs (hm_insert k x m))"

definition sled_get_all_services ::
    "('t, 'x) sled \<Rightarrow> 'x json_text \<Rightarrow> ('t sled_store, (string, ServiceEntry) hmap) reg_act" where
  "sled_get_all_services S J b =
     (read_pairs J (json_entry (jt_is_addr J)) (sl_iter S (ss_services b)) [], b)"

definition subscription_json :: "EventType list \<Rightarrow> json" where
  "subscription_json events = JObj [(''events'', JArr (map event_json events))]"

definition json_subscription :: "json \<Rightarrow> EventType list option" where
  "json_subscription j = json_field (json_arr json_event) ''events'' j"

definition sled_put_subscription ::
    "('t, 'x) sled \<Rightarrow> 'x json_text \<Rightarrow> string \<Rightarrow> EventType list \<Rightarrow> ('t sled_store, unit) reg_act" where
  "sled_put_subscription S J addr events =
     act_bind (on_subscriptions (sl_insert S addr (jt_print J (subscription_json events))))
       (\<lambda>_. on_subscriptions (sl_flush S))"

definition sled_get_subscription ::
    "('t, 'x) sled \<Rightarrow> 'x json_text \<Rightarrow> string \<Rightarrow> ('t sled_store, EventType list option) reg_act" where
  "sled_get_subscription S J addr b =
     (case sl_get S addr (ss_subscriptions b) of
        Inl m \<Rightarrow> (Inl (DatabaseErr m), b)
      | Inr None \<Rightarrow> (Inr None, b)
      | Inr (Some bytes) \<Rightarrow> (map_sum id Some (from_slice J json_subscription bytes), b))"

definition sled_remove_subscription :: "('t, 'x) sled \<Rightarrow> string \<Rightarrow> ('t sled_store, unit) reg_act" where
  "sled_remove_subscription S addr =
     act_bind (on_subscriptions (sl_remove S addr)) (\<lambda>_. on_subscriptions (sl_flush S))"

definition sled_list_subscriptions ::
    "('t, 'x) sled \<Rightarrow> 'x json_text \<Rightarrow> ('t sled_store, (string, EventType list) hmap) reg_act" where
  "sled_list_subscriptions S J b =
     (read_pairs J json_subscription (sl_iter S (ss_subscriptions b)) [], b)"

definition sled_backend :: "('t, 'x) sled \<Rightarrow> 'x json_text \<Rightarrow> 't sled_store backend" where
  "sled_backend S J = \<lparr>bk_init = sled_init S, bk_put_service = sled_put_service S J,
     bk_get_service = sled_get_service S J, bk_list_services = sled_list_services S J,
     bk_remove_service = sled_remove_service S J, bk_get_all_services = sled_get_all_services S J,
     bk_put_subscription = sled_put_subscription S J, bk_get_subscription = sled_get_subscription S J,
     bk_remove_subscription = sled_remove_subscription S,
     bk_list_subscriptions = sled_list_subscriptions S J\<rparr>"

section \<open>The sled store keeps the contract\<close>

text \<open>The map of entries that a store stands for, when \<open>content\<close> is the map of its tree.\<close>

definition decode_entry :: "'x json_text \<Rightarrow> 'x \<Rightarrow> ServiceEntry option" where
  "decode_entry J text =
     (case from_slice J (json_entry (jt_is_addr J)) text of Inl _ \<Rightarrow> None | Inr e \<Rightarrow> Some e)"

definition sled_view ::
    "('t \<Rightarrow> string \<Rightarrow> 'x option) \<Rightarrow> 'x json_text \<Rightarrow> 't sled_store \<Rightarrow> string \<Rightarrow> ServiceEntry option" where
  "sled_view content J b n = opt_bind (content (ss_services b) n) (decode_entry J)"

text \<open>
  What sled and serde_json document: a tree is a map from keys to values, an operation that
  fails has left the tree alone, iteration yields every pair once, printed JSON reads back.
\<close>

locale sled_db =
  fixes S :: "('t, 'x) sled" and content :: "'t \<Rightarrow> string \<Rightarrow> 'x option" and J :: "'x json_text"
  assumes insert_content: "sl_insert S k v t = (r, t') \<Longrightarrow>
      content t' = (if is_ok r then (content t)(k \<mapsto> v) else content t)"
    and get_content: "sl_get S k t = Inr found \<Longrightarrow> found = content t k"
    and remove_content: "sl_remove S k t = (r, t') \<Longrightarrow>
      content t' = (if is_ok r then (content t)(k := None) else content t)"
    and flush_content: "sl_flush S t = (r, t') \<Longrightarrow> content t' = content t"
    and iter_content: "sl_iter S t = map Inr kvs \<Longrightarrow> distinct (map fst kvs) \<and> map_of kvs = content t"
    and print_parse: "jt_parse J (jt_print J j) = Inr j"
begin

lemma decode_print: "entry_encodable (jt_is_addr J) e \<Longrightarrow> decode_entry J (jt_print J (entry_json e)) = Some e"
  by (simp add: decode_entry_def from_slice_def print_parse entry_json_round)

lemma decode_eq: "from_slice J (json_entry (jt_is_addr J)) text = Inr e \<longleftrightarrow> decode_entry J text = Some e"
  by (auto simp: decode_entry_def split: sum.splits)

lemma on_services_insert:
  "on_services (sl_insert S k v) b = (r, b') \<Longrightarrow>
     content (ss_services b') = (if is_ok r then (content (ss_services b))(k \<mapsto> v) else content (ss_services b))"
  by (auto simp: on_services_def is_ok_def split: prod.splits sum.splits dest: insert_content)

lemma on_services_remove:
  "on_services (sl_remove S k) b = (r, b') \<Longrightarrow>
     content (ss_services b') = (if is_ok r then (content (ss_services b))(k := None) else content (ss_services b))"
  by (auto simp: on_services_def is_ok_def split: prod.splits sum.splits dest: remove_content)

lemma on_services_flush:
  "on_services (sl_flush S) b = (r, b') \<Longrightarrow> content (ss_services b') = content (ss_services b)"
  by (auto simp: on_services_def split: prod.splits dest: flush_content)

lemma get_sview:
  "sled_get_service S J n b = (r, b') \<Longrightarrow> b' = b \<and> (\<forall>found. r = Inr found \<longrightarrow> found = sled_view content J b n)"
  by (auto simp: sled_get_service_def sled_view_def split: sum.splits option.splits dest!: get_content)
    (metis decode_eq opt_bind_simps(2))

lemma sview_update:
  "content (ss_services b') = (content (ss_services b))(n \<mapsto> jt_print J (entry_json e)) \<Longrightarrow>
     entry_encodable (jt_is_addr J) e \<Longrightarrow> sled_view content J b' = (sled_view content J b)(n \<mapsto> e)"
  by (auto simp: sled_view_def fun_eq_iff decode_print)

lemma sview_delete:
  "content (ss_services b') = (content (ss_services b))(n := None) \<Longrightarrow> sled_view content J b' = (sled_view content J b)(n := None)"
  by (auto simp: sled_view_def fun_eq_iff)

lemma sview_same: "content (ss_services b') = content (ss_services b) \<Longrightarrow> sled_view content J b' = sled_view content J b"
  by (simp add: sled_view_def fun_eq_iff)

lemma put_sview:
  assumes "entry_encodable (jt_is_addr J) e" and "sled_put_service S J e b = (r, b')"
  shows "sled_view content J b' = (sled_view content J b)(se_name e \<mapsto> e) \<or> is_ok r = False \<and> sled_view content J b' = sled_view content J b"
  using assms(2) unfolding sled_put_service_def
proof (cases rule: act_bind_cases)
  case (fail m)
  then show ?thesis using sview_same [of b' b] by (auto dest: on_services_insert)
next
  case (ok u b1)
  from on_services_insert [OF ok(1)] on_services_flush [OF ok(2)]
  have "content (ss_services b') = (content (ss_services b))(se_name e \<mapsto> jt_print J (entry_json e))" by simp
  with sview_update assms(1) show ?thesis by blast
qed

lemma remove_sview:
  assumes "sled_remove_service S J n b = (r, b')"
  shows "case r of Inr found \<Rightarrow> found = sled_view content J b n \<and> sled_view content J b' = (sled_view content J b)(n := None)
    | Inl _ \<Rightarrow> sled_view content J b' = (sled_view content J b)(n := None) \<or> sled_view content J b' = sled_view content J b"
  using assms unfolding sled_remove_service_def
proof (cases rule: act_bind_cases)
  case (fail m)
  then show ?thesis by (auto dest: get_sview)
next
  case (ok existing b1)
  from get_sview [OF ok(1)] have b1: "b1 = b" and ex: "existing = sled_view content J b n" by simp_all
  show ?thesis
  proof (cases existing)
    case None
    with ok(2) b1 ex show ?thesis by (auto simp: fun_upd_idem)
  next
    case (Some e)
    with ok(2) b1 have "act_bind (on_services (sl_remove S n)) (\<lambda>_.
       act_bind (on_services (sl_flush S)) (\<lambda>_. act_ret existing)) b = (r, b')" by simp
    then show ?thesis
    proof (cases rule: act_bind_cases)
      case (fail m)
      then show ?thesis using sview_same [of b' b] by (auto dest: on_services_remove)
    next
      case (ok u b2)
      then have c: "content (ss_services b') = (content (ss_services b))(n := None)"
        using on_services_remove [OF ok(1)]
        by (auto elim!: act_bind_cases dest!: on_services_flush)
      from ok(2) have "\<forall>found. r = Inr found \<longrightarrow> found = existing"
        by (auto elim!: act_bind_cases)
      with sview_delete [OF c] ex show ?thesis by (auto split: sum.splits)
    qed
  qed
qed

lemma read_values_ok:
  "read_values J rs = Inr es \<Longrightarrow>
     \<exists>kvs. rs = map Inr kvs \<and> list_all2 (\<lambda>(k, v) e. decode_entry J v = Some e) kvs es"
proof (induction rs arbitrary: es)
  case Nil
  then show ?case by simp
next
  case (Cons r rs)
  then obtain k v e es' where r: "r = Inr (k, v)" and e: "decode_entry J v = Some e"
    and "read_values J rs = Inr es'" "es = e # es'"
    by (cases r) (auto simp: res_bind_Inr_iff decode_eq)
  with Cons.IH obtain kvs where "rs = map Inr kvs" "list_all2 (\<lambda>(k, v) e. decode_entry J v = Some e) kvs es'" by blast
  with r e \<open>es = e # es'\<close> show ?case by (intro exI [of _ "(k, v) # kvs"]) simp
qed

lemma list_sview:
  assumes key: "keyed (entry_encodable (jt_is_addr J)) (sled_view content J b)"
    and run: "read_values J (sl_iter S (ss_services b)) = Inr es"
  shows "distinct (map se_name es) \<and> set es = ran (sled_view content J b)"
proof -
  from read_values_ok [OF run] obtain kvs where it: "sl_iter S (ss_services b) = map Inr kvs"
    and dec: "list_all2 (\<lambda>(k, v) e. decode_entry J v = Some e) kvs es" by blast
  from iter_content [OF it] have dist: "distinct (map fst kvs)" and cont: "map_of kvs = content (ss_services b)"
    by simp_all
  have at: "sled_view content J b (fst (kvs ! i)) = Some (es ! i)" if "i < length kvs" for i
  proof -
    from that dist have "map_of kvs (fst (kvs ! i)) = Some (snd (kvs ! i))" by simp
    moreover from dec that have "decode_entry J (snd (kvs ! i)) = Some (es ! i)"
      by (auto simp: list_all2_conv_all_nth split_beta)
    ultimately show ?thesis by (simp add: sled_view_def cont)
  qed
  have len: "length es = length kvs" using dec by (simp add: list_all2_lengthD)
  have names: "map se_name es = map fst kvs"
    using at key len by (auto simp: list_eq_iff_nth_eq keyed_def)
  have "set es \<subseteq> ran (sled_view content J b)" using at len by (fastforce simp: in_set_conv_nth ran_def)
  moreover have "e \<in> set es" if n: "sled_view content J b n = Some e" for n e
  proof -
    from n obtain v where "map_of kvs n = Some v" by (auto simp: sled_view_def cont opt_bind_Some_iff)
    then obtain i where "i < length kvs" "fst (kvs ! i) = n"
      by (metis fst_conv in_set_conv_nth map_of_SomeD)
    with at n len show ?thesis by (metis nth_mem option.inject)
  qed
  ultimately show ?thesis using names dist by (auto simp: ran_def)
qed

lemma store_laws: "registry_store (sled_backend S J) (sled_view content J) (entry_encodable (jt_is_addr J))"
proof
  fix s s' :: "'t sled_store" and n r
  assume "bk_get_service (sled_backend S J) n s = (r, s')"
  with get_sview show "sled_view content J s' = sled_view content J s \<and> (\<forall>found. r = Inr found \<longrightarrow> found = sled_view content J s n)"
    by (fastforce simp: sled_backend_def)
next
  fix e :: ServiceEntry and st now
  assume "entry_encodable (jt_is_addr J) e"
  then show "entry_encodable (jt_is_addr J) (e\<lparr>se_state := st, se_last_state_change := now\<rparr>)"
    by (simp add: entry_encodable_def)
next
  fix s s' :: "'t sled_store" and e u
  assume "entry_encodable (jt_is_addr J) e" "bk_put_service (sled_backend S J) e s = (u, s')"
  with put_sview show "sled_view content J s' = (sled_view content J s)(se_name e \<mapsto> e) \<or> is_ok u = False \<and> sled_view content J s' = sled_view content J s"
    by (simp add: sled_backend_def)
next
  fix s s' :: "'t sled_store" and n r
  assume "bk_remove_service (sled_backend S J) n s = (r, s')"
  with remove_sview show "case r of Inl _ \<Rightarrow> sled_view content J s' = (sled_view content J s)(n := None) \<or> sled_view content J s' = sled_view content J s
      | Inr found \<Rightarrow> found = sled_view content J s n \<and> sled_view content J s' = (sled_view content J s)(n := None)"
    by (simp add: sled_backend_def)
next
  fix s s' :: "'t sled_store" and l
  assume "keyed (entry_encodable (jt_is_addr J)) (sled_view content J s)" "bk_list_services (sled_backend S J) s = (l, s')"
  with list_sview show "sled_view content J s' = sled_view content J s \<and> (\<forall>es. l = Inr es \<longrightarrow> distinct (map se_name es) \<and> set es = ran (sled_view content J s))"
    by (auto simp: sled_backend_def sled_list_services_def)
qed

end

sublocale sled_db \<subseteq> store: registry_store "sled_backend S J" "sled_view content J" "entry_encodable (jt_is_addr J)"
  by (rule store_laws)

section \<open>The in-memory database\<close>

text \<open>
  A database kept as an association list, as the documentation of sled describes its trees,
  holding JSON values as they are.
\<close>

definition mem_sled :: "((string, json) hmap, json) sled" where
  "mem_sled = \<lparr>sl_insert = (\<lambda>k v t. (Inr (), hm_insert k v t)),
     sl_get = (\<lambda>k t. Inr (hm_get t k)), sl_remove = (\<lambda>k t. (Inr (), hm_remove k t)),
     sl_iter = (\<lambda>t. if hm_wf t then map Inr t else [Inl ''corrupt'']), sl_flush = (\<lambda>t. (Inr (), t))\<rparr>"

definition mem_json :: "json json_text" where
  "mem_json = \<lparr>jt_print = (\<lambda>j. j), jt_parse = Inr, jt_is_addr = (\<lambda>_. True), jt_reject = (\<lambda>_. ''invalid'')\<rparr>"

interpretation mem: sled_db mem_sled hm_get mem_json
proof
  fix t :: "(string, json) hmap" and kvs :: "(string \<times> json) list"
  assume "sl_iter mem_sled t = map Inr kvs"
  then have "hm_wf t" "map Inr t = (map Inr kvs :: (string + string \<times> json) list)"
    by (cases kvs; auto simp: mem_sled_def split: if_splits)+
  then show "distinct (map fst kvs) \<and> map_of kvs = hm_get t"
    by (auto simp: hm_wf_def hm_get_def fun_eq_iff dest!: map_injective)
qed (auto simp: mem_sled_def mem_json_def fun_eq_iff)

section \<open>Properties\<close>

text \<open>
  C22. The sled backend is a map of entries. Over a database and a JSON library that behave as
  documented: a put that reports success makes exactly that entry the one a later get returns,
  a remove that reports success returns what was there and leaves the name absent, a list
  returns every entry once; and a get or a list that reports an error has changed nothing.
\<close>

theorem sled_backend_is_map:
  assumes db: "sled_db S content J"
    and key: "keyed (entry_encodable (jt_is_addr J)) (sled_view content J b)"
    and e: "entry_encodable (jt_is_addr J) e"
  shows "(\<forall>b1 b2 found. sled_put_service S J e b = (Inr (), b1) \<and> sled_get_service S J n b1 = (Inr found, b2) \<longrightarrow>
      found = (if n = se_name e then Some e else sled_view content J b n)) \<and>
    (\<forall>old b1. sled_remove_service S J n b = (Inr old, b1) \<longrightarrow>
      old = sled_view content J b n \<and> sled_view content J b1 = (sled_view content J b)(n := None)) \<and>
    (\<forall>es b1. sled_list_services S J b = (Inr es, b1) \<longrightarrow>
      distinct (map se_name es) \<and> set es = ran (sled_view content J b)) \<and>
    sled_view content J (snd (sled_get_service S J n b)) = sled_view content J b \<and>
    sled_view content J (snd (sled_list_services S J b)) = sled_view content J b"
proof (intro conjI allI impI)
  note laws = sled_db.store_laws [OF db]
  have B: "sled_put_service S J = bk_put_service (sled_backend S J)"
    "sled_get_service S J = bk_get_service (sled_backend S J)" by (simp_all add: sled_backend_def)
  fix b1 b2 found
  assume "sled_put_service S J e b = (Inr (), b1) \<and> sled_get_service S J n b1 = (Inr found, b2)"
  then show "found = (if n = se_name e then Some e else sled_view content J b n)"
    unfolding B using registry_store.get_put [OF laws key e] by blast
next
  fix old b1
  assume "sled_remove_service S J n b = (Inr old, b1)"
  from sled_db.remove_sview [OF db this]
  show "old = sled_view content J b n" "sled_view content J b1 = (sled_view content J b)(n := None)" by simp_all
next
  fix es b1
  assume "sled_list_services S J b = (Inr es, b1)"
  then show "distinct (map se_name es)" "set es = ran (sled_view content J b)"
    using sled_db.list_sview [OF db key] by (auto simp: sled_list_services_def)
next
  show "sled_view content J (snd (sled_get_service S J n b)) = sled_view content J b"
    using sled_db.get_sview [OF db, of n b "fst (sled_get_service S J n b)" "snd (sled_get_service S J n b)"] by simp
  show "sled_view content J (snd (sled_list_services S J b)) = sled_view content J b"
    by (simp add: sled_list_services_def)
qed

theorem sled_backend_is_map_witness:
  "\<exists>b1 b2. sled_put_service mem_sled mem_json example_full_entry \<lparr>ss_services = [], ss_subscriptions = []\<rparr> = (Inr (), b1) \<and>
     sled_get_service mem_sled mem_json ''api'' b1 = (Inr (Some example_full_entry), b2)"
proof -
  let ?b = "\<lparr>ss_services = [], ss_subscriptions = []\<rparr> :: (string, json) hmap sled_store"
  have key: "keyed (entry_encodable (jt_is_addr mem_json)) (sled_view hm_get mem_json ?b)"
    by (simp add: keyed_def sled_view_def)
  have e: "entry_encodable (jt_is_addr mem_json) example_full_entry"
    by (simp add: entry_encodable_def endpoint_encodable_def example_full_entry_def hm_wf_def mem_json_def)
  have put: "sled_put_service mem_sled mem_json example_full_entry ?b
      = (Inr (), ?b\<lparr>ss_services := [(''api'', entry_json example_full_entry)]\<rparr>)"
    by (simp add: sled_put_service_def on_services_def mem_sled_def mem_json_def act_bind_def hm_insert_def
        example_full_entry_def)
  obtain r b2 where get: "sled_get_service mem_sled mem_json ''api''
      (?b\<lparr>ss_services := [(''api'', entry_json example_full_entry)]\<rparr>) = (r, b2)" by fastforce
  moreover from get have "is_ok r"
    using entry_json_round [OF e] by (auto simp: sled_get_service_def mem_sled_def mem_json_def hm_get_def from_slice_def)
  moreover have "se_name example_full_entry = ''api''" by (simp add: example_full_entry_def)
  ultimately show ?thesis
    using sled_backend_is_map [OF mem.sled_db_axioms key e, of "''api''"] put
    by (auto simp: is_ok_def split: sum.splits)
qed

end
