(* ===== verification/Reg_Registry.thy ===== *)
theory Reg_Registry
  imports Reg_Backend
begin

text \<open>
  The registry, \<^verbatim>\<open>crates/service-registry/src/registry.rs\<close>: registration, the service state
  machine, endpoint updates, subscriptions and the events each operation owes to the
  subscribers. The backend is the record \<open>B\<close> of the trait's operations (\<open>dyn RegistryBackend\<close>);
  the clock is an argument. The hash set of a subscription is a list without duplicates.
\<close>

record 'b registry =
  rg_backend :: 'b
  rg_subscribers :: "(SocketAddr, EventType list) hmap"

type_synonym ('b, 'a) rg_act = "('b registry, RegError, 'a) act"
type_synonym outbox = "(SocketAddr \<times> WsMessage) list"

definition with_backend :: "'b \<Rightarrow> 'b registry" where
  "with_backend b = \<lparr>rg_backend = b, rg_subscribers = []\<rparr>"

definition on_backend :: "('b, 'a) reg_act \<Rightarrow> ('b, 'a) rg_act" where
  "on_backend m g = (case m (rg_backend g) of (r, b) \<Rightarrow> (r, g\<lparr>rg_backend := b\<rparr>))"

section \<open>Subscriptions and events\<close>

definition subscribe :: "SocketAddr \<Rightarrow> EventType list \<Rightarrow> ('b, unit) rg_act" where
  "subscribe addr events g =
     (Inr (), g\<lparr>rg_subscribers := hm_insert addr (foldl (\<lambda>acc e. hs_insert e acc) [] events) (rg_subscribers g)\<rparr>)"

definition unsubscribe :: "SocketAddr \<Rightarrow> EventType list \<Rightarrow> ('b, unit) rg_act" where
  "unsubscribe addr events g =
     (Inr (), case hm_get (rg_subscribers g) addr of
        None \<Rightarrow> g
      | Some evs \<Rightarrow>
          (let evs' = foldl (\<lambda>acc e. hs_remove e acc) evs events in
           if evs' = [] then g\<lparr>rg_subscribers := hm_remove addr (rg_subscribers g)\<rparr>
           else g\<lparr>rg_subscribers := hm_insert addr evs' (rg_subscribers g)\<rparr>))"

definition remove_subscriber :: "SocketAddr \<Rightarrow> ('b, unit) rg_act" where
  "remove_subscriber addr g = (Inr (), g\<lparr>rg_subscribers := hm_remove addr (rg_subscribers g)\<rparr>)"

definition emit_event :: "EventType \<Rightarrow> json \<Rightarrow> 'b registry \<Rightarrow> outbox" where
  "emit_event event_type data g =
     map (\<lambda>(addr, _). (addr, WsEvent event_type data))
       (filter (\<lambda>(_, evs). event_type \<in> set evs) (rg_subscribers g))"

definition emit :: "EventType \<Rightarrow> json \<Rightarrow> ('b, outbox) rg_act" where
  "emit event_type data g = (Inr (emit_event event_type data g), g)"

section \<open>Services\<close>

definition service_event :: "Timestamp \<Rightarrow> string \<Rightarrow> json" where
  "service_event now service_name = JObj [(''service'', JStr service_name), (''timestamp'', JStr now)]"

definition register :: "'b backend \<Rightarrow> Timestamp \<Rightarrow> ServiceEntry \<Rightarrow> ('b, outbox) rg_act" where
  "register B now entry =
     act_bind (on_backend (bk_get_service B (se_name entry))) (\<lambda>found.
     if found \<noteq> None then act_err (ServiceExists (se_name entry))
     else act_bind (on_backend (bk_put_service B entry)) (\<lambda>_.
          emit EvServiceRegistered (service_event now (se_name entry))))"

definition get_entry :: "'b backend \<Rightarrow> string \<Rightarrow> ('b, ServiceEntry) rg_act" where
  "get_entry B name =
     act_bind (on_backend (bk_get_service B name)) (\<lambda>found.
     act_lift (ok_or found (ServiceNotFound name)))"

definition list_entries :: "'b backend \<Rightarrow> ('b, ServiceEntry list) rg_act" where
  "list_entries B =
     act_bind (act_try (on_backend (bk_list_services B))) (\<lambda>r.
     act_ret (case r of Inl _ \<Rightarrow> [] | Inr services \<Rightarrow> services))"

fun is_valid_transition :: "ServiceState \<Rightarrow> ServiceState \<Rightarrow> bool" where
  "is_valid_transition _ Failed = True"
| "is_valid_transition Registered Starting = True"
| "is_valid_transition Stopped Starting = True"
| "is_valid_transition Failed Starting = True"
| "is_valid_transition Starting Running = True"
| "is_valid_transition Running Stopping = True"
| "is_valid_transition Starting Stopping = True"
| "is_valid_transition Stopping Stopped = True"
| "is_valid_transition _ _ = False"

definition state_event :: "Timestamp \<Rightarrow> string \<Rightarrow> ServiceState \<Rightarrow> ServiceState \<Rightarrow> json" where
  "state_event now name old_state new_state =
     JObj [(''service'', JStr name), (''old_state'', state_json old_state),
       (''new_state'', state_json new_state), (''timestamp'', JStr now)]"

text \<open>
  One instant stands for the two readings of the clock, the entry's time of the change and the event's; in
  the code the second may be later.
\<close>

definition update_state ::
    "'b backend \<Rightarrow> Timestamp \<Rightarrow> string \<Rightarrow> ServiceState \<Rightarrow> ('b, ServiceState \<times> outbox) rg_act" where
  "update_state B now name new_state =
     act_bind (get_entry B name) (\<lambda>entry.
     let old_state = se_state entry in
     if \<not> is_valid_transition old_state new_state then act_err (InvalidStateTransition old_state new_state)
     else act_bind (on_backend (bk_put_service B (entry_update_state now new_state entry))) (\<lambda>_.
          act_bind (emit EvServiceStateChanged (state_event now name old_state new_state)) (\<lambda>events.
          act_ret (old_state, events))))"

definition endpoints_event :: "Timestamp \<Rightarrow> string \<Rightarrow> Endpoint list \<Rightarrow> json" where
  "endpoints_event now name endpoints =
     JObj [(''service'', JStr name), (''endpoints'', JArr (map endpoint_json endpoints)),
       (''timestamp'', JStr now)]"

definition update_endpoints ::
    "'b backend \<Rightarrow> Timestamp \<Rightarrow> string \<Rightarrow> Endpoint list \<Rightarrow> ('b, outbox) rg_act" where
  "update_endpoints B now name endpoints =
     act_bind (get_entry B name) (\<lambda>entry.
     act_bind (on_backend (bk_put_service B (entry\<lparr>se_endpoints := endpoints\<rparr>))) (\<lambda>_.
     emit EvEndpointUpdated (endpoints_event now name endpoints)))"

definition list_endpoints :: "'b backend \<Rightarrow> ('b, (string, Endpoint list) hmap) rg_act" where
  "list_endpoints B =
     act_bind (act_try (on_backend (bk_list_services B))) (\<lambda>r.
     act_ret (case r of Inl _ \<Rightarrow> []
       | Inr services \<Rightarrow> foldl (\<lambda>m service. hm_insert (se_name service) (se_endpoints service) m) [] services))"

definition deregister :: "'b backend \<Rightarrow> Timestamp \<Rightarrow> string \<Rightarrow> ('b, ServiceEntry \<times> outbox) rg_act" where
  "deregister B now name =
     act_bind (on_backend (bk_remove_service B name)) (\<lambda>found.
     act_bind (act_lift (ok_or found (ServiceNotFound name))) (\<lambda>entry.
     act_bind (emit EvServiceDeregistered (service_event now name)) (\<lambda>events.
     act_ret (entry, events))))"

definition add_or_update :: "'b backend \<Rightarrow> Timestamp \<Rightarrow> ServiceEntry \<Rightarrow> ('b, outbox) rg_act" where
  "add_or_update B now entry =
     act_bind (on_backend (bk_get_service B (se_name entry))) (\<lambda>existing.
     let is_new = (existing = None) in
     act_bind (on_backend (bk_put_service B entry)) (\<lambda>_.
     emit (if is_new then EvServiceRegistered else EvServiceUpdated)
       (service_event now (se_name entry))))"

definition persist :: "('b, unit) rg_act" where
  "persist = act_ret ()"

section \<open>What the operations do, over any store that keeps the contract\<close>

lemma on_backend_run:
  "on_backend m g = (r, g') \<longleftrightarrow>
     (\<exists>b. m (rg_backend g) = (r, b) \<and> g' = g\<lparr>rg_backend := b\<rparr>)"
  by (auto simp: on_backend_def split: prod.splits)

lemma emit_run [simp]: "emit ev data g = (Inr (emit_event ev data g), g)"
  by (simp add: emit_def)

lemma emit_event_backend [simp]: "emit_event ev data (g\<lparr>rg_backend := b\<rparr>) = emit_event ev data g"
  by (simp add: emit_event_def)

definition subscribed :: "'b registry \<Rightarrow> SocketAddr \<Rightarrow> EventType \<Rightarrow> bool" where
  "subscribed g addr ev = (case hm_get (rg_subscribers g) addr of None \<Rightarrow> False | Some evs \<Rightarrow> ev \<in> set evs)"

lemma emit_event_to:
  "hm_wf (rg_subscribers g) \<Longrightarrow>
     (addr, m) \<in> set (emit_event ev data g) \<longleftrightarrow> m = WsEvent ev data \<and> subscribed g addr ev"
proof -
  assume wf: "hm_wf (rg_subscribers g)"
  have "subscribed g addr ev \<longleftrightarrow> (\<exists>evs. (addr, evs) \<in> set (rg_subscribers g) \<and> ev \<in> set evs)"
    by (cases "hm_get (rg_subscribers g) addr") (auto simp: subscribed_def simp flip: hm_get_iff_mem [OF wf])
  then show ?thesis by (auto simp: emit_event_def)
qed

lemma emit_event_once: "hm_wf (rg_subscribers g) \<Longrightarrow> distinct (map fst (emit_event ev data g))"
  by (auto simp: emit_event_def hm_wf_def distinct_map comp_def split_beta intro: inj_on_subset)

lemma set_foldl_insert: "set (foldl (\<lambda>acc e. hs_insert e acc) xs es) = set xs \<union> set es"
  by (induction es arbitrary: xs) auto

lemma set_foldl_remove: "set (foldl (\<lambda>acc e. hs_remove e acc) xs es) = set xs - set es"
  by (induction es arbitrary: xs) auto

text \<open>
  \<open>register\<close> awaits the backend twice, and other tasks run between the two: its look-up and its
  store are separate steps of an interleaving.
\<close>

definition register_check :: "'b backend \<Rightarrow> ServiceEntry \<Rightarrow> ('b, unit) rg_act" where
  "register_check B entry =
     act_bind (on_backend (bk_get_service B (se_name entry))) (\<lambda>found.
     if found \<noteq> None then act_err (ServiceExists (se_name entry)) else act_ret ())"

definition register_store :: "'b backend \<Rightarrow> Timestamp \<Rightarrow> ServiceEntry \<Rightarrow> ('b, outbox) rg_act" where
  "register_store B now entry =
     act_bind (on_backend (bk_put_service B entry)) (\<lambda>_.
     emit EvServiceRegistered (service_event now (se_name entry)))"

lemma register_steps:
  "register B now entry = act_bind (register_check B entry) (\<lambda>_. register_store B now entry)"
  by (auto simp: fun_eq_iff register_def register_check_def register_store_def act_bind_def
    split: prod.splits sum.splits)

text \<open>The invariant: entries are kept under their name and can be stored, one subscription per address.\<close>

definition rg_inv :: "('b \<Rightarrow> string \<Rightarrow> ServiceEntry option) \<Rightarrow> (ServiceEntry \<Rightarrow> bool) \<Rightarrow> 'b registry \<Rightarrow> bool" where
  "rg_inv view storable g \<longleftrightarrow> keyed storable (view (rg_backend g)) \<and> hm_wf (rg_subscribers g)"

context registry_store
begin

abbreviation inv :: "'b registry \<Rightarrow> bool" where "inv \<equiv> rg_inv view storable"

abbreviation rview :: "'b registry \<Rightarrow> string \<Rightarrow> ServiceEntry option" where
  "rview g \<equiv> view (rg_backend g)"

definition same :: "'b registry \<Rightarrow> 'b registry \<Rightarrow> bool" where
  "same g g' \<longleftrightarrow> rview g' = rview g \<and> rg_subscribers g' = rg_subscribers g"

lemma same_inv: "same g g' \<Longrightarrow> inv g \<Longrightarrow> inv g'"
  by (simp add: same_def rg_inv_def)

lemma rget:
  "inv g \<Longrightarrow> on_backend (bk_get_service B n) g = (r, g') \<Longrightarrow>
     same g g' \<and> (\<forall>found. r = Inr found \<longrightarrow> found = rview g n)"
  using get_view [of "rg_backend g" n] by (auto simp: on_backend_run rg_inv_def same_def)

lemma rput:
  "inv g \<Longrightarrow> storable e \<Longrightarrow> on_backend (bk_put_service B e) g = (r, g') \<Longrightarrow>
     inv g' \<and> rg_subscribers g' = rg_subscribers g \<and>
     (rview g' = (rview g)(se_name e \<mapsto> e) \<or> is_ok r = False \<and> rview g' = rview g)"
  using put_view [of "rg_backend g" e] put_keeps [of "rg_backend g" e]
  by (auto simp: on_backend_run rg_inv_def)

lemma rremove:
  "inv g \<Longrightarrow> on_backend (bk_remove_service B n) g = (r, g') \<Longrightarrow>
     inv g' \<and> rg_subscribers g' = rg_subscribers g \<and>
     (case r of Inr found \<Rightarrow> found = rview g n \<and> rview g' = (rview g)(n := None)
      | Inl _ \<Rightarrow> rview g' = (rview g)(n := None) \<or> rview g' = rview g)"
  using remove_view [of "rg_backend g" n] remove_keeps [of "rg_backend g" n]
  by (auto simp: on_backend_run rg_inv_def split: sum.splits)

lemma get_entry_run:
  assumes "inv g" and "get_entry B n g = (r, g')"
  shows "same g g' \<and> (\<forall>e. r = Inr e \<longrightarrow> rview g n = Some e \<and> se_name e = n \<and> storable e)"
  using assms(2) unfolding get_entry_def
proof (cases rule: act_bind_cases)
  case (fail e)
  with rget [OF assms(1)] show ?thesis by auto
next
  case (ok found t)
  with rget [OF assms(1) ok(1)] assms(1) show ?thesis by (auto simp: rg_inv_def keyed_def)
qed

text \<open>Registration is an insertion of an absent key.\<close>

lemma register_run:
  assumes inv: "inv g" and st: "storable e" and run: "register B now e g = (r, g')"
  shows "inv g' \<and> rg_subscribers g' = rg_subscribers g \<and>
    (case r of
       Inr out \<Rightarrow> rview g (se_name e) = None \<and> rview g' = (rview g)(se_name e \<mapsto> e) \<and>
         out = emit_event EvServiceRegistered (service_event now (se_name e)) g
     | Inl _ \<Rightarrow> rview g (se_name e) = None \<and> rview g' = (rview g)(se_name e \<mapsto> e) \<or> rview g' = rview g)"
  using run unfolding register_def
proof (cases rule: act_bind_cases)
  case (fail m)
  with rget [OF inv] same_inv [OF _ inv] show ?thesis by (auto simp: same_def)
next
  case (ok found g1)
  from rget [OF inv ok(1)] have same: "same g g1" and found: "found = rview g (se_name e)" by simp_all
  note inv1 = same_inv [OF same inv]
  show ?thesis
  proof (cases found)
    case (Some e')
    with ok(2) same inv1 show ?thesis by (auto simp: same_def)
  next
    case None
    with ok(2) have "act_bind (on_backend (bk_put_service B e)) (\<lambda>_.
        emit EvServiceRegistered (service_event now (se_name e))) g1 = (r, g')" by simp
    then show ?thesis
    proof (cases rule: act_bind_cases)
      case (fail m)
      with rput [OF inv1 st fail(1)] same found None show ?thesis by (auto simp: same_def)
    next
      case (ok u g2)
      with rput [OF inv1 st ok(1)] same found None show ?thesis by (auto simp: same_def emit_event_def)
    qed
  qed
qed

lemma register_exists:
  assumes inv: "inv g" and old: "rview g (se_name e) = Some e'"
  shows "\<exists>err g'. register B now e g = (Inl err, g') \<and> rview g' = rview g \<and>
    (is_ok (fst (on_backend (bk_get_service B (se_name e)) g)) \<longrightarrow> err = ServiceExists (se_name e))"
proof -
  obtain r g1 where r: "on_backend (bk_get_service B (se_name e)) g = (r, g1)" by fastforce
  with rget [OF inv r] old show ?thesis
    by (cases r) (auto simp: register_def act_bind_def same_def)
qed

text \<open>A state update follows the state machine, and touches nothing but the entry's state.\<close>

lemma update_state_run:
  assumes inv: "inv g" and run: "update_state B now n new g = (r, g')"
  shows "inv g' \<and> rg_subscribers g' = rg_subscribers g \<and>
    (case r of
       Inr (old, out) \<Rightarrow> (\<exists>e. rview g n = Some e \<and> se_state e = old \<and> is_valid_transition old new \<and>
         rview g' = (rview g)(n \<mapsto> e\<lparr>se_state := new, se_last_state_change := now\<rparr>)) \<and>
         out = emit_event EvServiceStateChanged (state_event now n old new) g
     | Inl err \<Rightarrow> rview g' = rview g \<or>
         (\<exists>e. rview g n = Some e \<and> is_valid_transition (se_state e) new \<and>
           rview g' = (rview g)(n \<mapsto> e\<lparr>se_state := new, se_last_state_change := now\<rparr>)))"
  using run unfolding update_state_def
proof (cases rule: act_bind_cases)
  case (fail m)
  with get_entry_run [OF inv fail(1)] same_inv [OF _ inv] show ?thesis by (auto simp: same_def)
next
  case (ok e g1)
  from get_entry_run [OF inv ok(1)] have same: "same g g1" and e: "rview g n = Some e" "se_name e = n" "storable e"
    by simp_all
  note inv1 = same_inv [OF same inv]
  let ?e = "entry_update_state now new e"
  have st: "storable ?e" using storable_state [OF e(3)] by (simp add: entry_update_state_def)
  show ?thesis
  proof (cases "is_valid_transition (se_state e) new")
    case False
    with ok(2) same inv1 show ?thesis by (auto simp: same_def Let_def)
  next
    case True
    with ok(2) have "act_bind (on_backend (bk_put_service B ?e)) (\<lambda>_.
        act_bind (emit EvServiceStateChanged (state_event now n (se_state e) new)) (\<lambda>events.
        act_ret (se_state e, events))) g1 = (r, g')" by (simp add: Let_def)
    then show ?thesis
    proof (cases rule: act_bind_cases)
      case (fail m)
      with rput [OF inv1 st fail(1)] same e True show ?thesis by (auto simp: same_def entry_update_state_def)
    next
      case (ok u g2)
      with rput [OF inv1 st ok(1)] same e True show ?thesis
        by (auto simp: same_def emit_event_def entry_update_state_def act_bind_def)
    qed
  qed
qed

lemma update_state_refused:
  assumes inv: "inv g" and e: "rview g n = Some e" and bad: "\<not> is_valid_transition (se_state e) new"
    and answers: "is_ok (fst (on_backend (bk_get_service B n) g))"
  shows "fst (update_state B now n new g) = Inl (InvalidStateTransition (se_state e) new)"
proof -
  obtain r g1 where r: "on_backend (bk_get_service B n) g = (Inr r, g1)"
    using answers by (cases "on_backend (bk_get_service B n) g") (auto simp: is_ok_def split: sum.splits)
  with rget [OF inv r] e bad show ?thesis
    by (simp add: update_state_def get_entry_def act_bind_def)
qed

lemma update_endpoints_run:
  assumes inv: "inv g" and run: "update_endpoints B now n eps g = (r, g')"
    and st: "\<And>e. storable e \<Longrightarrow> storable (e\<lparr>se_endpoints := eps\<rparr>)"
  shows "inv g' \<and> rg_subscribers g' = rg_subscribers g \<and>
    (case r of
       Inr out \<Rightarrow> (\<exists>e. rview g n = Some e \<and> rview g' = (rview g)(n \<mapsto> e\<lparr>se_endpoints := eps\<rparr>)) \<and>
         out = emit_event EvEndpointUpdated (endpoints_event now n eps) g
     | Inl err \<Rightarrow> rview g' = rview g \<or> (\<exists>e. rview g n = Some e \<and> rview g' = (rview g)(n \<mapsto> e\<lparr>se_endpoints := eps\<rparr>)))"
  using run unfolding update_endpoints_def
proof (cases rule: act_bind_cases)
  case (fail m)
  with get_entry_run [OF inv fail(1)] same_inv [OF _ inv] show ?thesis by (auto simp: same_def)
next
  case (ok e g1)
  from get_entry_run [OF inv ok(1)] have same: "same g g1" and e: "rview g n = Some e" "se_name e = n" "storable e"
    by simp_all
  note inv1 = same_inv [OF same inv]
  from ok(2) show ?thesis
  proof (cases rule: act_bind_cases)
    case (fail m)
    with rput [OF inv1 st [OF e(3)] fail(1)] same e show ?thesis by (auto simp: same_def)
  next
    case (ok u g2)
    with rput [OF inv1 st [OF e(3)] ok(1)] same e show ?thesis by (auto simp: same_def emit_event_def)
  qed
qed

lemma deregister_run:
  assumes inv: "inv g" and run: "deregister B now n g = (r, g')"
  shows "inv g' \<and> rg_subscribers g' = rg_subscribers g \<and>
    (case r of
       Inr (e, out) \<Rightarrow> rview g n = Some e \<and> rview g' = (rview g)(n := None) \<and>
         out = emit_event EvServiceDeregistered (service_event now n) g
     | Inl err \<Rightarrow> rview g' = rview g \<or> rview g' = (rview g)(n := None))"
  using run unfolding deregister_def
proof (cases rule: act_bind_cases)
  case (fail m)
  with rremove [OF inv fail(1)] show ?thesis by auto
next
  case (ok found g1)
  show ?thesis
  proof (cases found)
    case None
    with ok(2) rremove [OF inv ok(1)] show ?thesis by (auto simp: act_bind_def)
  next
    case (Some e)
    with ok(2) have "r = Inr (e, emit_event EvServiceDeregistered (service_event now n) g1)" "g' = g1"
      by (auto simp: act_bind_def)
    with Some rremove [OF inv ok(1)] show ?thesis by (auto simp: emit_event_def)
  qed
qed

lemma add_or_update_run:
  assumes inv: "inv g" and st: "storable e" and run: "add_or_update B now e g = (r, g')"
  shows "inv g' \<and> rg_subscribers g' = rg_subscribers g \<and>
    (case r of
       Inr out \<Rightarrow> rview g' = (rview g)(se_name e \<mapsto> e) \<and>
         out = emit_event (if rview g (se_name e) = None then EvServiceRegistered else EvServiceUpdated)
           (service_event now (se_name e)) g
     | Inl _ \<Rightarrow> rview g' = rview g \<or> rview g' = (rview g)(se_name e \<mapsto> e))"
  using run unfolding add_or_update_def
proof (cases rule: act_bind_cases)
  case (fail m)
  with rget [OF inv fail(1)] same_inv [OF _ inv] show ?thesis by (auto simp: same_def)
next
  case (ok found g1)
  from rget [OF inv ok(1)] have same: "same g g1" and found: "found = rview g (se_name e)" by simp_all
  note inv1 = same_inv [OF same inv]
  from ok(2) have "act_bind (on_backend (bk_put_service B e)) (\<lambda>_.
      emit (if found = None then EvServiceRegistered else EvServiceUpdated) (service_event now (se_name e))) g1
      = (r, g')" by (simp add: Let_def)
  then show ?thesis
  proof (cases rule: act_bind_cases)
    case (fail m)
    with rput [OF inv1 st fail(1)] same show ?thesis by (auto simp: same_def)
  next
    case (ok u g2)
    with rput [OF inv1 st ok(1)] same found show ?thesis by (auto simp: same_def emit_event_def)
  qed
qed

text \<open>
  Two registrations of one name whose look-ups both run before either store: nothing in the
  operation holds them apart.
\<close>

lemma register_race_run:
  assumes inv: "inv g" and st: "storable e1" "storable e2"
    and same_name: "se_name e1 = n" "se_name e2 = n" and absent: "rview g n = None"
    and c1: "register_check B e1 g = (Inr (), g1)" and c2: "register_check B e2 g1 = (Inr (), g2)"
    and s1: "register_store B now e1 g2 = (Inr out1, g3)" and s2: "register_store B now e2 g3 = (Inr out2, g4)"
  shows "rview g4 n = Some e2"
proof -
  have chk: "same a b" if run: "register_check B e a = (Inr (), b)" and i: "inv a" for e a b
    using run unfolding register_check_def
  proof (cases rule: act_bind_cases)
    case (ok found t)
    then have "b = t" by (cases found) auto
    with rget [OF i ok(1)] show ?thesis by simp
  qed simp
  have put: "inv b \<and> rview b = (rview a)(se_name e \<mapsto> e)"
    if run: "register_store B now e a = (Inr out, b)" and i: "inv a" and "storable e" for e a b out
    using run unfolding register_store_def
  proof (cases rule: act_bind_cases)
    case (ok u t)
    with rput [OF i \<open>storable e\<close> ok(1)] show ?thesis by simp
  qed simp
  from chk [OF c1 inv] chk [OF c2] same_inv inv have inv2: "inv g2" by blast
  from put [OF s1 inv2 st(1)] have "inv g3" by simp
  from put [OF s2 this st(2)] same_name show ?thesis by simp
qed

end

section \<open>Runs of the registry\<close>

datatype reg_op =
    OpRegister Timestamp ServiceEntry
  | OpAddOrUpdate Timestamp ServiceEntry
  | OpUpdateState Timestamp string ServiceState
  | OpUpdateEndpoints Timestamp string "Endpoint list"
  | OpDeregister Timestamp string
  | OpSubscribe SocketAddr "EventType list"
  | OpUnsubscribe SocketAddr "EventType list"
  | OpRemoveSubscriber SocketAddr

fun reg_exec :: "'b backend \<Rightarrow> reg_op \<Rightarrow> 'b registry \<Rightarrow> 'b registry" where
  "reg_exec B (OpRegister now e) g = snd (register B now e g)"
| "reg_exec B (OpAddOrUpdate now e) g = snd (add_or_update B now e g)"
| "reg_exec B (OpUpdateState now n new) g = snd (update_state B now n new g)"
| "reg_exec B (OpUpdateEndpoints now n eps) g = snd (update_endpoints B now n eps g)"
| "reg_exec B (OpDeregister now n) g = snd (deregister B now n g)"
| "reg_exec B (OpSubscribe addr evs) g = snd (subscribe addr evs g)"
| "reg_exec B (OpUnsubscribe addr evs) g = snd (unsubscribe addr evs g)"
| "reg_exec B (OpRemoveSubscriber addr) g = snd (remove_subscriber addr g)"

text \<open>The entries and endpoints of an operation are values their types admit.\<close>

fun op_admissible :: "(string \<Rightarrow> bool) \<Rightarrow> reg_op \<Rightarrow> bool" where
  "op_admissible is_addr (OpRegister now e) = entry_encodable is_addr e"
| "op_admissible is_addr (OpAddOrUpdate now e) = entry_encodable is_addr e"
| "op_admissible is_addr (OpUpdateEndpoints now n eps) = list_all (endpoint_encodable is_addr) eps"
| "op_admissible is_addr _ = True"

inductive reg_reach :: "'b backend \<Rightarrow> (string \<Rightarrow> bool) \<Rightarrow> 'b registry \<Rightarrow> 'b registry \<Rightarrow> bool"
  for B :: "'b backend" and is_addr :: "string \<Rightarrow> bool" and g0 :: "'b registry" where
  reach_start: "reg_reach B is_addr g0 g0"
| reach_op: "reg_reach B is_addr g0 g \<Longrightarrow> op_admissible is_addr op \<Longrightarrow> reg_reach B is_addr g0 (reg_exec B op g)"

text \<open>What one operation may do to the entry of one service.\<close>

definition step_ok :: "reg_op \<Rightarrow> string \<Rightarrow> ServiceEntry option \<Rightarrow> ServiceEntry option \<Rightarrow> bool" where
  "step_ok op n old new \<longleftrightarrow> new = old \<or>
     (case op of
        OpRegister now e \<Rightarrow> n = se_name e \<and> old = None \<and> new = Some e
      | OpAddOrUpdate now e \<Rightarrow> n = se_name e \<and> new = Some e
      | OpUpdateState now m st \<Rightarrow> n = m \<and> (\<exists>e. old = Some e \<and> is_valid_transition (se_state e) st \<and>
          new = Some (e\<lparr>se_state := st, se_last_state_change := now\<rparr>))
      | OpUpdateEndpoints now m eps \<Rightarrow> n = m \<and> (\<exists>e. old = Some e \<and> new = Some (e\<lparr>se_endpoints := eps\<rparr>))
      | OpDeregister now m \<Rightarrow> n = m \<and> new = None
      | _ \<Rightarrow> False)"

lemma subs_wf:
  "hm_wf (rg_subscribers g) \<Longrightarrow> hm_wf (rg_subscribers (snd (subscribe addr evs g)))"
  "hm_wf (rg_subscribers g) \<Longrightarrow> hm_wf (rg_subscribers (snd (unsubscribe addr evs g)))"
  "hm_wf (rg_subscribers g) \<Longrightarrow> hm_wf (rg_subscribers (snd (remove_subscriber addr g)))"
  by (auto simp: subscribe_def unsubscribe_def remove_subscriber_def Let_def split: option.splits)

lemma subs_backend:
  "rg_backend (snd (subscribe addr evs g)) = rg_backend g"
  "rg_backend (snd (unsubscribe addr evs g)) = rg_backend g"
  "rg_backend (snd (remove_subscriber addr g)) = rg_backend g"
  by (auto simp: subscribe_def unsubscribe_def remove_subscriber_def Let_def split: option.splits)

lemmas subs_simps = subs_wf subs_backend rg_inv_def

context sled_db
begin

abbreviation SB :: "'t sled_store backend" where "SB \<equiv> sled_backend S J"
abbreviation sinv :: "'t sled_store registry \<Rightarrow> bool" where
  "sinv \<equiv> rg_inv (sled_view content J) (entry_encodable (jt_is_addr J))"

lemma exec_step:
  assumes inv: "sinv g" and adm: "op_admissible (jt_is_addr J) op"
  shows "sinv (reg_exec SB op g) \<and>
    step_ok op n (sled_view content J (rg_backend g) n) (sled_view content J (rg_backend (reg_exec SB op g)) n)"
proof (cases op)
  case (OpRegister now e)
  obtain r g' where "register SB now e g = (r, g')" by fastforce
  with store.register_run [OF inv _ this] adm OpRegister show ?thesis
    by (auto simp: step_ok_def split: sum.splits if_splits)
next
  case (OpAddOrUpdate now e)
  obtain r g' where "add_or_update SB now e g = (r, g')" by fastforce
  with store.add_or_update_run [OF inv _ this] adm OpAddOrUpdate show ?thesis
    by (auto simp: step_ok_def split: sum.splits if_splits)
next
  case (OpUpdateState now m st)
  obtain r g' where "update_state SB now m st g = (r, g')" by fastforce
  with store.update_state_run [OF inv this] OpUpdateState show ?thesis
    by (auto simp: step_ok_def split: sum.splits if_splits)
next
  case (OpUpdateEndpoints now m eps)
  obtain r g' where run: "update_endpoints SB now m eps g = (r, g')" by fastforce
  have st: "entry_encodable (jt_is_addr J) (e\<lparr>se_endpoints := eps\<rparr>)" for e
    using adm OpUpdateEndpoints by (simp add: entry_encodable_def)
  from store.update_endpoints_run [OF inv run st] run OpUpdateEndpoints show ?thesis
    by (auto simp: step_ok_def split: sum.splits if_splits)
next
  case (OpDeregister now m)
  obtain r g' where "deregister SB now m g = (r, g')" by fastforce
  with store.deregister_run [OF inv this] OpDeregister show ?thesis
    by (auto simp: step_ok_def split: sum.splits if_splits)
qed (use inv in \<open>simp_all add: step_ok_def subs_simps\<close>)

lemma reach_inv: "reg_reach SB (jt_is_addr J) g0 g \<Longrightarrow> sinv g0 \<Longrightarrow> sinv g"
proof (induction rule: reg_reach.induct)
  case (reach_op g op)
  then show ?case using exec_step by blast
qed simp

end

section \<open>Properties\<close>

lemma is_ok_run: "is_ok (fst x) \<Longrightarrow> \<exists>y. x = (Inr y, snd x)"
  by (cases x; cases "fst x") auto

text \<open>The examples below use the in-memory store and an entry without endpoints.\<close>

definition example_entry :: "string \<Rightarrow> ServiceEntry" where
  "example_entry n = \<lparr>se_name = n, se_version = ''1.0.0'', se_execution = SystemdService ''unit'',
     se_location = LocLocal, se_endpoints = [], se_depends_on = [], se_state = Registered,
     se_last_health_check = None, se_registered_at = ''t0'', se_last_state_change = ''t0''\<rparr>"

definition empty_registry :: "(string, json) hmap sled_store registry" where
  "empty_registry = with_backend \<lparr>ss_services = [], ss_subscriptions = []\<rparr>"

definition registered_registry :: "(string, json) hmap sled_store registry" where
  "registered_registry = reg_exec (sled_backend mem_sled mem_json) (OpRegister ''t1'' (example_entry ''api''))
     (snd (subscribe ''1.2.3.4:5'' [EvServiceStateChanged] empty_registry))"

lemma empty_registry_inv: "rg_inv (sled_view hm_get mem_json) (entry_encodable (jt_is_addr mem_json)) empty_registry"
  by (simp add: rg_inv_def keyed_def sled_view_def empty_registry_def with_backend_def)

lemma example_entry_ok [simp]: "entry_encodable is_addr (example_entry n)" "se_name (example_entry n) = n"
  by (simp_all add: entry_encodable_def example_entry_def)

lemma registered_registry_inv:
  "rg_inv (sled_view hm_get mem_json) (entry_encodable (jt_is_addr mem_json)) registered_registry"
  using mem.exec_step [of "snd (subscribe ''1.2.3.4:5'' [EvServiceStateChanged] empty_registry)"
      "OpRegister ''t1'' (example_entry ''api'')"] empty_registry_inv
  by (simp add: registered_registry_def subs_simps)

text \<open>
  C18. The registry's life cycle. In every registry that admissible operations reach from one
  that satisfies the invariant (entries stored under their own name in a form that reads back,
  one subscription per address), the invariant holds, and the next operation changes the entry
  of a service only as \<open>step_ok\<close> lists: a state update follows a valid transition and changes
  nothing but the state and its time, registration needs an absent name, only deregistration
  removes, whether or not the backend reports an error.
\<close>

theorem registry_lifecycle:
  assumes db: "sled_db S content J"
    and start: "rg_inv (sled_view content J) (entry_encodable (jt_is_addr J)) g0"
    and reach: "reg_reach (sled_backend S J) (jt_is_addr J) g0 g"
    and adm: "op_admissible (jt_is_addr J) op"
  shows "rg_inv (sled_view content J) (entry_encodable (jt_is_addr J)) (reg_exec (sled_backend S J) op g) \<and>
    (\<forall>n. step_ok op n (sled_view content J (rg_backend g) n)
       (sled_view content J (rg_backend (reg_exec (sled_backend S J) op g)) n))"
  using sled_db.exec_step [OF db sled_db.reach_inv [OF db reach start] adm] by blast

theorem registry_lifecycle_witness:
  "\<forall>n. step_ok (OpUpdateState ''t2'' ''api'' Starting) n
     (sled_view hm_get mem_json (rg_backend registered_registry) n)
     (sled_view hm_get mem_json (rg_backend
       (reg_exec (sled_backend mem_sled mem_json) (OpUpdateState ''t2'' ''api'' Starting) registered_registry)) n)"
  using registry_lifecycle [OF mem.sled_db_axioms registered_registry_inv reach_start,
      of "OpUpdateState ''t2'' ''api'' Starting"]
  by simp

text \<open>
  C19. State updates, on every branch. On success the entry existed in the reported old state,
  the transition is valid, exactly the state and its time change, and the returned events are
  those owed to the subscribers of state changes. On an error the services are as before,
  unless the store failed after writing the one valid update. A look-up that succeeds and an
  invalid transition give \<open>InvalidStateTransition\<close>.
\<close>

theorem update_state_contract:
  assumes db: "sled_db S content J"
    and inv: "rg_inv (sled_view content J) (entry_encodable (jt_is_addr J)) g"
    and run: "update_state (sled_backend S J) now n new g = (r, g')"
  shows "(case r of
       Inr (old, out) \<Rightarrow> (\<exists>e. sled_view content J (rg_backend g) n = Some e \<and> se_state e = old \<and>
         is_valid_transition old new \<and>
         sled_view content J (rg_backend g') =
           (sled_view content J (rg_backend g))(n \<mapsto> e\<lparr>se_state := new, se_last_state_change := now\<rparr>)) \<and>
         out = emit_event EvServiceStateChanged (state_event now n old new) g
     | Inl err \<Rightarrow> sled_view content J (rg_backend g') = sled_view content J (rg_backend g) \<or>
         (\<exists>e. sled_view content J (rg_backend g) n = Some e \<and> is_valid_transition (se_state e) new \<and>
           sled_view content J (rg_backend g') =
             (sled_view content J (rg_backend g))(n \<mapsto> e\<lparr>se_state := new, se_last_state_change := now\<rparr>))) \<and>
    (\<forall>e. sled_view content J (rg_backend g) n = Some e \<and> \<not> is_valid_transition (se_state e) new \<and>
       is_ok (sl_get S n (ss_services (rg_backend g))) \<longrightarrow>
       r = Inl (InvalidStateTransition (se_state e) new))"
proof -
  note store = registry_store.update_state_run [OF sled_db.store_laws [OF db] inv run]
    registry_store.update_state_refused [OF sled_db.store_laws [OF db] inv]
  have "is_ok (fst (on_backend (bk_get_service (sled_backend S J) n) g))"
    if ans: "is_ok (sl_get S n (ss_services (rg_backend g)))" and e: "sled_view content J (rg_backend g) n = Some e" for e
  proof -
    from ans obtain f where f: "sl_get S n (ss_services (rg_backend g)) = Inr f"
      by (auto simp: is_ok_def split: sum.splits)
    with sled_db.get_content [OF db f] e obtain x where x: "f = Some x" "decode_entry J x = Some e"
      by (auto simp: sled_view_def opt_bind_Some_iff)
    then have "from_slice J (json_entry (jt_is_addr J)) x = Inr e"
      by (simp add: decode_entry_def split: sum.splits)
    with f x show ?thesis by (simp add: on_backend_def sled_backend_def sled_get_service_def)
  qed
  with store(2) [of n _ new now] run have "\<forall>e. sled_view content J (rg_backend g) n = Some e \<and>
      \<not> is_valid_transition (se_state e) new \<and> is_ok (sl_get S n (ss_services (rg_backend g))) \<longrightarrow>
      r = Inl (InvalidStateTransition (se_state e) new)" by fastforce
  with store(1) show ?thesis by blast
qed

theorem update_state_contract_witness:
  "fst (update_state (sled_backend mem_sled mem_json) ''t2'' ''api'' Running registered_registry)
     = Inl (InvalidStateTransition Registered Running)"
proof -
  obtain r g' where run: "update_state (sled_backend mem_sled mem_json) ''t2'' ''api'' Running registered_registry = (r, g')"
    by fastforce
  have "sled_view hm_get mem_json (rg_backend registered_registry) ''api'' = Some (example_entry ''api'')"
    by code_simp
  with update_state_contract [OF mem.sled_db_axioms registered_registry_inv run]
  have "r = Inl (InvalidStateTransition Registered Running)"
    by (simp add: mem_sled_def example_entry_def)
  with run show ?thesis by simp
qed

text \<open>
  Registration. A registration that succeeds found the name absent, adds exactly that
  entry, returns the events owed for it, and a later look-up that succeeds returns the entry;
  one that fails adds nothing or, when the store failed after writing, exactly the entry.
\<close>

theorem register_contract:
  assumes db: "sled_db S content J"
    and inv: "rg_inv (sled_view content J) (entry_encodable (jt_is_addr J)) g"
    and e: "entry_encodable (jt_is_addr J) e"
    and run: "register (sled_backend S J) now e g = (r, g')"
  shows "case r of
      Inr out \<Rightarrow> sled_view content J (rg_backend g) (se_name e) = None \<and>
        sled_view content J (rg_backend g') = (sled_view content J (rg_backend g))(se_name e \<mapsto> e) \<and>
        out = emit_event EvServiceRegistered (service_event now (se_name e)) g \<and>
        (\<forall>found. fst (get_entry (sled_backend S J) (se_name e) g') = Inr found \<longrightarrow> found = e)
    | Inl _ \<Rightarrow> sled_view content J (rg_backend g') = sled_view content J (rg_backend g) \<or>
        sled_view content J (rg_backend g) (se_name e) = None \<and>
        sled_view content J (rg_backend g') = (sled_view content J (rg_backend g))(se_name e \<mapsto> e)"
proof -
  note reg = registry_store.register_run [OF sled_db.store_laws [OF db] inv e run]
  have found: "found = e" if r: "r = Inr out" and f: "fst (get_entry (sled_backend S J) (se_name e) g') = Inr found"
    for out found
  proof -
    obtain g'' where "get_entry (sled_backend S J) (se_name e) g' = (Inr found, g'')"
      using f by (cases "get_entry (sled_backend S J) (se_name e) g'") simp
    from registry_store.get_entry_run [OF sled_db.store_laws [OF db] conjunct1 [OF reg] this]
    have "sled_view content J (rg_backend g') (se_name e) = Some found" by blast
    moreover from reg have "sled_view content J (rg_backend g') = (sled_view content J (rg_backend g))(se_name e \<mapsto> e)"
      unfolding r sum.case by blast
    ultimately show ?thesis by simp
  qed
  show ?thesis
  proof (cases r)
    case (Inl m)
    from reg show ?thesis unfolding Inl sum.case by blast
  next
    case (Inr out)
    from reg found [OF Inr] show ?thesis unfolding Inr sum.case by blast
  qed
qed

theorem register_contract_witness:
  "\<exists>out. fst (register (sled_backend mem_sled mem_json) ''t1'' (example_entry ''api'') empty_registry) = Inr out \<and>
     fst (get_entry (sled_backend mem_sled mem_json) ''api''
       (snd (register (sled_backend mem_sled mem_json) ''t1'' (example_entry ''api'') empty_registry)))
     = Inr (example_entry ''api'')"
proof -
  let ?B = "sled_backend mem_sled mem_json"
  obtain r g' where run: "register ?B ''t1'' (example_entry ''api'') empty_registry = (r, g')" by fastforce
  have "is_ok (fst (register ?B ''t1'' (example_entry ''api'') empty_registry)) \<and>
      is_ok (fst (get_entry ?B ''api'' (snd (register ?B ''t1'' (example_entry ''api'') empty_registry))))" by code_simp
  with run obtain out found where "r = Inr out" "fst (get_entry ?B ''api'' g') = Inr found"
    by (auto simp: is_ok_def split: sum.splits)
  with register_contract [OF mem.sled_db_axioms empty_registry_inv example_entry_ok(1) run] run
  show ?thesis by simp
qed

text \<open>
  C20. Events reach exactly the subscribers. An event is addressed to every address subscribed
  to its type, once, and to no other. Subscribing makes an address subscribed to exactly the
  listed types, in place of what it had; unsubscribing takes the listed types away and
  disconnecting all of them; no other address is affected, and no services are.
\<close>

theorem events_reach_subscribers:
  assumes wf: "hm_wf (rg_subscribers g)"
  shows "distinct (map fst (emit_event ev data g)) \<and>
    (\<forall>addr m. (addr, m) \<in> set (emit_event ev data g) \<longleftrightarrow> m = WsEvent ev data \<and> subscribed g addr ev) \<and>
    (\<forall>a. subscribed (snd (subscribe addr evs g)) a ev = (if a = addr then ev \<in> set evs else subscribed g a ev)) \<and>
    (\<forall>a. subscribed (snd (unsubscribe addr evs g)) a ev = (subscribed g a ev \<and> \<not> (a = addr \<and> ev \<in> set evs))) \<and>
    (\<forall>a. subscribed (snd (remove_subscriber addr g)) a ev = (subscribed g a ev \<and> a \<noteq> addr)) \<and>
    rg_backend (snd (subscribe addr evs g)) = rg_backend g \<and>
    rg_backend (snd (unsubscribe addr evs g)) = rg_backend g"
proof (intro conjI allI)
  show "distinct (map fst (emit_event ev data g))" by (rule emit_event_once [OF wf])
next
  fix a m
  show "(a, m) \<in> set (emit_event ev data g) \<longleftrightarrow> m = WsEvent ev data \<and> subscribed g a ev"
    by (rule emit_event_to [OF wf])
next
  fix a
  show "subscribed (snd (subscribe addr evs g)) a ev = (if a = addr then ev \<in> set evs else subscribed g a ev)"
    by (simp add: subscribed_def subscribe_def set_foldl_insert)
next
  fix a
  show "subscribed (snd (unsubscribe addr evs g)) a ev = (subscribed g a ev \<and> \<not> (a = addr \<and> ev \<in> set evs))"
  proof (cases "hm_get (rg_subscribers g) addr")
    case None
    then show ?thesis by (auto simp: subscribed_def unsubscribe_def)
  next
    case (Some old)
    have "set (foldl (\<lambda>acc e. hs_remove e acc) old evs) = set old - set evs" by (rule set_foldl_remove)
    then have "foldl (\<lambda>acc e. hs_remove e acc) old evs = [] \<longleftrightarrow> set old \<subseteq> set evs"
      by (metis Diff_eq_empty_iff set_empty)
    with Some set_foldl_remove [of old evs] show ?thesis
      by (auto simp: subscribed_def unsubscribe_def Let_def)
  qed
next
  fix a
  show "subscribed (snd (remove_subscriber addr g)) a ev = (subscribed g a ev \<and> a \<noteq> addr)"
    by (simp add: subscribed_def remove_subscriber_def)
qed (simp_all add: subs_backend)

theorem events_reach_subscribers_witness:
  "\<forall>a m. (a, m) \<in> set (emit_event EvServiceStateChanged JNull registered_registry) \<longleftrightarrow>
     m = WsEvent EvServiceStateChanged JNull \<and> a = ''1.2.3.4:5''"
proof -
  have wf: "hm_wf (rg_subscribers registered_registry)"
    using registered_registry_inv by (simp add: rg_inv_def)
  have "rg_subscribers registered_registry = [(''1.2.3.4:5'', [EvServiceStateChanged])]" by code_simp
  then have "subscribed registered_registry a EvServiceStateChanged \<longleftrightarrow> a = ''1.2.3.4:5''" for a
    by (simp add: subscribed_def hm_get_def)
  with events_reach_subscribers [OF wf, of EvServiceStateChanged JNull] show ?thesis by blast
qed

text \<open>
  Two registrations of one name can both succeed. The look-up and the store of
  \<open>register\<close> are separate awaits: when both look-ups run before either store, both calls
  return without error and the second entry replaces the first.
\<close>

theorem register_race:
  assumes db: "sled_db S content J"
    and inv: "rg_inv (sled_view content J) (entry_encodable (jt_is_addr J)) g"
    and e: "entry_encodable (jt_is_addr J) e1" "entry_encodable (jt_is_addr J) e2"
    and n: "se_name e1 = n" "se_name e2 = n" "sled_view content J (rg_backend g) n = None"
    and check: "register_check (sled_backend S J) e1 g = (Inr (), g1)"
      "register_check (sled_backend S J) e2 g1 = (Inr (), g2)"
    and store: "register_store (sled_backend S J) now e1 g2 = (Inr out1, g3)"
      "register_store (sled_backend S J) now e2 g3 = (Inr out2, g4)"
  shows "sled_view content J (rg_backend g4) n = Some e2"
  by (rule registry_store.register_race_run [OF sled_db.store_laws [OF db] inv e n check store])

theorem register_race_witness:
  "\<exists>g1 g2 g3 g4 out1 out2. let B = sled_backend mem_sled mem_json;
       e1 = example_entry ''api''; e2 = (example_entry ''api'')\<lparr>se_version := ''2.0.0''\<rparr> in
     register_check B e1 empty_registry = (Inr (), g1) \<and> register_check B e2 g1 = (Inr (), g2) \<and>
     register_store B ''t'' e1 g2 = (Inr out1, g3) \<and> register_store B ''t'' e2 g3 = (Inr out2, g4) \<and>
     sled_view hm_get mem_json (rg_backend g4) ''api'' = Some e2"
proof -
  let ?B = "sled_backend mem_sled mem_json"
  let ?e1 = "example_entry ''api''" and ?e2 = "(example_entry ''api'')\<lparr>se_version := ''2.0.0''\<rparr>"
  let ?g1 = "snd (register_check ?B ?e1 empty_registry)"
  let ?g2 = "snd (register_check ?B ?e2 ?g1)"
  let ?g3 = "snd (register_store ?B ''t'' ?e1 ?g2)"
  have "is_ok (fst (register_check ?B ?e1 empty_registry))" "is_ok (fst (register_check ?B ?e2 ?g1))"
    "is_ok (fst (register_store ?B ''t'' ?e1 ?g2))" "is_ok (fst (register_store ?B ''t'' ?e2 ?g3))"
    by code_simp+
  from is_ok_run [OF this(1)] is_ok_run [OF this(2)] is_ok_run [OF this(3)] is_ok_run [OF this(4)]
  obtain out1 out2 g1 g2 g3 g4 where steps:
    "register_check ?B ?e1 empty_registry = (Inr (), g1)" "register_check ?B ?e2 g1 = (Inr (), g2)"
    "register_store ?B ''t'' ?e1 g2 = (Inr out1, g3)" "register_store ?B ''t'' ?e2 g3 = (Inr out2, g4)"
    by (metis old.unit.exhaust)
  have e2: "entry_encodable (jt_is_addr mem_json) ?e2" "se_name ?e2 = ''api''"
    by (simp_all add: entry_encodable_def example_entry_def)
  have none: "sled_view hm_get mem_json (rg_backend empty_registry) ''api'' = None" by code_simp
  from register_race [OF mem.sled_db_axioms empty_registry_inv example_entry_ok(1) e2(1) example_entry_ok(2)
      e2(2) none steps] steps show ?thesis unfolding Let_def by blast
qed

end
