(* ===== verification/Net_Alloc.thy ===== *)
theory Net_Alloc
  imports Reg_Models
begin

text \<open>
  IP address allocation, \<^verbatim>\<open>crates/service-registry/src/network/ip_allocator.rs\<close>. Addresses are
  32-bit and 128-bit words; the search for a free address wraps around at the width. The
  subnet type of the crate ipnet is a parameter: \<open>net_network\<close> is its \<open>network()\<close> and
  \<open>net_contains\<close> its \<open>contains\<close>; \<open>subnet_law\<close> states the documented meaning. The additions
  \<open>base + 1\<close> and \<open>base + 2\<close> are checked, an overflow is the error \<open>MsgOverflow\<close>.
\<close>

record subnet =
  net_network :: IpAddr
  net_contains :: "IpAddr \<Rightarrow> bool"

record IpAllocator =
  al_subnet :: subnet
  al_allocations :: "(string, IpAddr) hmap"
  al_ip_to_service :: "(IpAddr, string) hmap"
  al_allocated_ips :: "IpAddr list"

definition add_checked :: "'a::len word \<Rightarrow> 'a word \<Rightarrow> RegError + 'a word" where
  "add_checked a b = (if uint a + uint b < 2 ^ LENGTH('a) then Inr (a + b) else Inl (PackageErr MsgOverflow))"

definition offset_ip :: "IpAddr \<Rightarrow> nat \<Rightarrow> RegError + IpAddr" where
  "offset_ip base k = (case base of
     V4 b \<Rightarrow> map_sum id V4 (add_checked b (of_nat k))
   | V6 b \<Rightarrow> map_sum id V6 (add_checked b (of_nat k)))"

definition reserve_gateway :: "(IpAllocator, RegError, unit) act" where
  "reserve_gateway al =
     (case offset_ip (net_network (al_subnet al)) 1 of
        Inl e \<Rightarrow> (Inl e, al)
      | Inr gateway_ip \<Rightarrow>
          (Inr (), al\<lparr>al_allocated_ips := hs_insert gateway_ip (al_allocated_ips al),
             al_ip_to_service := hm_insert gateway_ip ''gateway'' (al_ip_to_service al)\<rparr>))"

definition allocator_new :: "subnet \<Rightarrow> RegError + IpAllocator" where
  "allocator_new net =
     (case reserve_gateway \<lparr>al_subnet = net, al_allocations = [], al_ip_to_service = [], al_allocated_ips = []\<rparr> of
        (Inl e, _) \<Rightarrow> Inl e
      | (Inr _, al) \<Rightarrow> Inr al)"

fun increment_ip :: "IpAddr \<Rightarrow> IpAddr" where
  "increment_ip (V4 v) = V4 (v + 1)"
| "increment_ip (V6 v) = V6 (v + 1)"

definition ip_free :: "IpAllocator \<Rightarrow> IpAddr \<Rightarrow> bool" where
  "ip_free al ip = (net_contains (al_subnet al) ip \<and> ip \<notin> set (al_allocated_ips al))"

text \<open>The search loop; \<open>None\<close> would be a loop that never ends.\<close>

partial_function (option) find_loop :: "IpAllocator \<Rightarrow> IpAddr \<Rightarrow> IpAddr \<Rightarrow> (RegError + IpAddr) option" where
  "find_loop al start_ip current_ip =
     (if ip_free al current_ip then Some (Inr current_ip)
      else let next_ip = increment_ip current_ip in
        if next_ip = start_ip then Some (Inl (PackageErr (MsgText ''No available IPs in subnet'')))
        else find_loop al start_ip next_ip)"

definition find_next_available :: "IpAllocator \<Rightarrow> (RegError + IpAddr) option" where
  "find_next_available al =
     (case offset_ip (net_network (al_subnet al)) 2 of
        Inl e \<Rightarrow> Some (Inl e)
      | Inr start_ip \<Rightarrow> find_loop al start_ip start_ip)"

definition record_allocation :: "string \<Rightarrow> IpAddr \<Rightarrow> IpAllocator \<Rightarrow> IpAllocator" where
  "record_allocation service_name ip al =
     al\<lparr>al_allocations := hm_insert service_name ip (al_allocations al),
        al_ip_to_service := hm_insert ip service_name (al_ip_to_service al),
        al_allocated_ips := hs_insert ip (al_allocated_ips al)\<rparr>"

definition allocate :: "string \<Rightarrow> IpAllocator \<Rightarrow> ((RegError + IpAddr) \<times> IpAllocator) option" where
  "allocate service_name al =
     (case hm_get (al_allocations al) service_name of
        Some ip \<Rightarrow> Some (Inr ip, al)
      | None \<Rightarrow>
          (case find_next_available al of
             None \<Rightarrow> None
           | Some (Inl e) \<Rightarrow> Some (Inl e, al)
           | Some (Inr ip) \<Rightarrow> Some (Inr ip, record_allocation service_name ip al)))"

definition allocate_specific :: "string \<Rightarrow> IpAddr \<Rightarrow> (IpAllocator, RegError, unit) act" where
  "allocate_specific service_name ip al =
     (if \<not> net_contains (al_subnet al) ip then (Inl (PackageErr (MsgIpNotInSubnet ip)), al)
      else if ip \<in> set (al_allocated_ips al) then
        (case hm_get (al_ip_to_service al) ip of
           Some existing \<Rightarrow>
             if existing \<noteq> service_name then (Inl (PackageErr (MsgIpTaken ip existing)), al)
             else (Inr (), record_allocation service_name ip al)
         | None \<Rightarrow> (Inr (), record_allocation service_name ip al))
      else (Inr (), record_allocation service_name ip al))"

definition release :: "string \<Rightarrow> IpAllocator \<Rightarrow> IpAddr option \<times> IpAllocator" where
  "release service_name al =
     (case hm_get (al_allocations al) service_name of
        Some ip \<Rightarrow>
          (Some ip, al\<lparr>al_allocations := hm_remove service_name (al_allocations al),
             al_ip_to_service := hm_remove ip (al_ip_to_service al),
             al_allocated_ips := hs_remove ip (al_allocated_ips al)\<rparr>)
      | None \<Rightarrow> (None, al))"

definition get_allocation :: "IpAllocator \<Rightarrow> string \<Rightarrow> IpAddr option" where
  "get_allocation al service_name = hm_get (al_allocations al) service_name"

definition get_service_by_ip :: "IpAllocator \<Rightarrow> IpAddr \<Rightarrow> string option" where
  "get_service_by_ip al ip = hm_get (al_ip_to_service al) ip"

definition all_allocations :: "IpAllocator \<Rightarrow> (string, IpAddr) hmap" where
  "all_allocations al = al_allocations al"

definition allocated_count :: "IpAllocator \<Rightarrow> nat" where
  "allocated_count al = length (al_allocated_ips al)"

section \<open>The search\<close>

text \<open>The address \<open>k\<close> steps after \<open>start\<close>, around the width of its family.\<close>

definition ip_after :: "IpAddr \<Rightarrow> nat \<Rightarrow> IpAddr" where
  "ip_after start k = (case start of V4 s \<Rightarrow> V4 (s + of_nat k) | V6 s \<Rightarrow> V6 (s + of_nat k))"

definition ip_space :: "IpAddr \<Rightarrow> nat" where
  "ip_space ip = (case ip of V4 _ \<Rightarrow> 2 ^ 32 | V6 _ \<Rightarrow> 2 ^ 128)"

lemma ip_after_0 [simp]: "ip_after s 0 = s"
  by (simp add: ip_after_def split: IpAddr.splits)

lemma ip_after_Suc: "ip_after s (Suc k) = increment_ip (ip_after s k)"
  by (simp add: ip_after_def algebra_simps split: IpAddr.splits)

lemma word_wrap_eq: "s + of_nat k = (s::'a::len word) \<longleftrightarrow> 2 ^ LENGTH('a) dvd k"
  by (simp add: word_of_nat_eq_0_iff)

lemma ip_after_eq_start: "k \<le> ip_space s \<Longrightarrow> ip_after s k = s \<longleftrightarrow> k = 0 \<or> k = ip_space s"
proof (cases s)
  case (V4 w)
  moreover assume "k \<le> ip_space s"
  ultimately show ?thesis using word_wrap_eq [of w k] by (auto simp: ip_after_def ip_space_def dest: dvd_imp_le)
next
  case (V6 w)
  moreover assume "k \<le> ip_space s"
  ultimately show ?thesis using word_wrap_eq [of w k] by (auto simp: ip_after_def ip_space_def dest: dvd_imp_le)
qed

definition same_family :: "IpAddr \<Rightarrow> IpAddr \<Rightarrow> bool" where
  "same_family a b = (case (a, b) of (V4 _, V4 _) \<Rightarrow> True | (V6 _, V6 _) \<Rightarrow> True | _ \<Rightarrow> False)"

lemma ip_after_covers: "same_family s ip \<Longrightarrow> \<exists>k<ip_space s. ip_after s k = ip"
proof (cases s; cases ip)
  fix a b assume "same_family s ip" "s = V4 a" "ip = V4 b"
  then show ?thesis
    using unsigned_less [of "b - a", where ?'a = nat]
    by (intro exI [of _ "unat (b - a)"]) (simp add: ip_space_def ip_after_def)
next
  fix a b assume "same_family s ip" "s = V6 a" "ip = V6 b"
  then show ?thesis
    using unsigned_less [of "b - a", where ?'a = nat]
    by (intro exI [of _ "unat (b - a)"]) (simp add: ip_space_def ip_after_def)
qed (simp_all add: same_family_def)

lemma ip_space_pos: "0 < ip_space s"
  by (simp add: ip_space_def split: IpAddr.splits)

lemma find_loop_from:
  assumes "k < ip_space s"
  shows "find_loop al s (ip_after s k) =
    (case find (\<lambda>j. ip_free al (ip_after s j)) [k..<ip_space s] of
       None \<Rightarrow> Some (Inl (PackageErr (MsgText ''No available IPs in subnet'')))
     | Some j \<Rightarrow> Some (Inr (ip_after s j)))"
  using assms
proof (induction "ip_space s - k" arbitrary: k)
  case 0
  then show ?case by simp
next
  case (Suc m)
  have up: "[k..<ip_space s] = k # [Suc k..<ip_space s]" using Suc.prems by (simp add: upt_conv_Cons)
  show ?case
  proof (cases "ip_free al (ip_after s k)")
    case True
    then show ?thesis by (simp add: up find_loop.simps [of al s])
  next
    case False
    show ?thesis
    proof (cases "Suc k = ip_space s")
      case True
      with ip_after_eq_start [of "Suc k" s] have "increment_ip (ip_after s k) = s"
        by (simp flip: ip_after_Suc)
      with False up True show ?thesis by (simp add: find_loop.simps [of al s "ip_after s k"] Let_def)
    next
      case other: False
      with ip_after_eq_start [of "Suc k" s] Suc.prems have "increment_ip (ip_after s k) \<noteq> s"
        by (simp add: ip_after_Suc)
      with False up have "find_loop al s (ip_after s k) = find_loop al s (ip_after s (Suc k))"
        by (simp add: find_loop.simps [of al s "ip_after s k"] Let_def ip_after_Suc)
      moreover have "find (\<lambda>j. ip_free al (ip_after s j)) [k..<ip_space s] =
          find (\<lambda>j. ip_free al (ip_after s j)) [Suc k..<ip_space s]" using False up by simp
      ultimately show ?thesis using Suc.hyps Suc.prems other by simp
    qed
  qed
qed

lemma find_loop_start:
  "find_loop al s s =
    (case find (\<lambda>j. ip_free al (ip_after s j)) [0..<ip_space s] of
       None \<Rightarrow> Some (Inl (PackageErr (MsgText ''No available IPs in subnet'')))
     | Some j \<Rightarrow> Some (Inr (ip_after s j)))"
  using find_loop_from [of 0 s al] ip_space_pos [of s] by simp

text \<open>
  The documented meaning of the subnet type: an address belongs to the subnet when it is of
  its family and agrees with the network address above the host bits.
\<close>

definition subnet_law :: "subnet \<Rightarrow> bool" where
  "subnet_law net = (case net_network net of
     V4 n \<Rightarrow> (\<exists>p\<le>32. take_bit p n = 0 \<and> (\<forall>ip. net_contains net ip \<longleftrightarrow>
       (case ip of V4 x \<Rightarrow> drop_bit p x = drop_bit p n | V6 _ \<Rightarrow> False)))
   | V6 n \<Rightarrow> (\<exists>p\<le>128. take_bit p n = 0 \<and> (\<forall>ip. net_contains net ip \<longleftrightarrow>
       (case ip of V6 x \<Rightarrow> drop_bit p x = drop_bit p n | V4 _ \<Rightarrow> False))))"

lemma subnet_family: "subnet_law net \<Longrightarrow> net_contains net ip \<Longrightarrow> same_family (net_network net) ip"
  by (cases ip) (auto simp: subnet_law_def same_family_def split: IpAddr.splits)

lemma offset_family: "offset_ip b k = Inr s \<Longrightarrow> same_family b ip = same_family s ip"
  by (auto simp: offset_ip_def same_family_def split: IpAddr.splits)

lemma find_loop_cases:
  obtains (hit) k where "find_loop al s s = Some (Inr (ip_after s k))" "ip_free al (ip_after s k)"
      "\<forall>j<k. \<not> ip_free al (ip_after s j)"
  | (miss) "find_loop al s s = Some (Inl (PackageErr (MsgText ''No available IPs in subnet'')))"
      "\<forall>k<ip_space s. \<not> ip_free al (ip_after s k)"
proof (cases "find (\<lambda>j. ip_free al (ip_after s j)) [0..<ip_space s]")
  case None
  moreover then have "\<forall>k<ip_space s. \<not> ip_free al (ip_after s k)" by (simp add: find_None_iff)
  ultimately show thesis using miss find_loop_start by simp
next
  case (Some k)
  moreover then obtain i where i: "i < ip_space s" "ip_free al (ip_after s i)" "k = i"
    "\<forall>j<i. \<not> ip_free al (ip_after s j)" by (auto simp: find_Some_iff)
  ultimately show thesis using hit [of k] find_loop_start by simp
qed

section \<open>The invariant\<close>

definition al_inv :: "IpAllocator \<Rightarrow> bool" where
  "al_inv al \<longleftrightarrow> hm_wf (al_allocations al) \<and> hm_wf (al_ip_to_service al) \<and> distinct (al_allocated_ips al) \<and>
     (\<forall>ip. ip \<in> set (al_allocated_ips al) \<longleftrightarrow> hm_get (al_ip_to_service al) ip \<noteq> None) \<and>
     (\<forall>s ip. hm_get (al_allocations al) s = Some ip \<longrightarrow>
        hm_get (al_ip_to_service al) ip = Some s \<and> net_contains (al_subnet al) ip)"

lemma al_inv_new: "allocator_new net = Inr al \<Longrightarrow> al_inv al"
  by (auto simp: allocator_new_def reserve_gateway_def al_inv_def split: sum.splits if_splits)

lemma al_inv_record:
  assumes inv: "al_inv al" and free: "ip \<notin> set (al_allocated_ips al) \<or> hm_get (al_ip_to_service al) ip = Some s"
    and sub: "net_contains (al_subnet al) ip"
  shows "al_inv (record_allocation s ip al)"
  using assms by (auto simp: al_inv_def record_allocation_def)

lemma al_inv_release: "al_inv al \<Longrightarrow> al_inv (snd (release s al))"
  by (auto simp: al_inv_def release_def split: option.splits) (metis option.inject)+

lemma find_loop_free: "find_loop al s s = Some (Inr ip) \<Longrightarrow> ip_free al ip"
  by (rule find_loop_cases [of al s]) auto

lemma find_loop_returns: "\<exists>r. find_loop al s s = Some r"
  by (rule find_loop_cases [of al s]) auto

lemma find_next_free: "find_next_available al = Some (Inr ip) \<Longrightarrow> ip_free al ip"
  by (auto simp: find_next_available_def find_loop_free split: sum.splits)

lemma al_inv_allocate:
  assumes "al_inv al" and "allocate s al = Some (r, al')"
  shows "al_inv al'"
  using assms find_next_free [of al]
  by (auto simp: allocate_def ip_free_def intro!: al_inv_record split: option.splits sum.splits)

lemma al_inv_specific: "al_inv al \<Longrightarrow> al_inv (snd (allocate_specific s ip al))"
  by (auto simp: allocate_specific_def intro!: al_inv_record split: option.splits) (simp add: al_inv_def)

lemma allocate_returns: "\<exists>r al'. allocate s al = Some (r, al')"
proof -
  have "find_next_available al \<noteq> None"
    using find_loop_returns by (auto simp: find_next_available_def split: sum.splits)
  then show ?thesis by (auto simp: allocate_def split: option.splits sum.splits)
qed

datatype alloc_op = OpAllocate string | OpSpecific string IpAddr | OpRelease string

fun alloc_exec :: "alloc_op \<Rightarrow> IpAllocator \<Rightarrow> IpAllocator" where
  "alloc_exec (OpAllocate s) al = (case allocate s al of None \<Rightarrow> al | Some (_, al') \<Rightarrow> al')"
| "alloc_exec (OpSpecific s ip) al = snd (allocate_specific s ip al)"
| "alloc_exec (OpRelease s) al = snd (release s al)"

fun alloc_names :: "alloc_op \<Rightarrow> string" where
  "alloc_names (OpAllocate s) = s"
| "alloc_names (OpSpecific s ip) = s"
| "alloc_names (OpRelease s) = s"

inductive alloc_reach :: "subnet \<Rightarrow> bool \<Rightarrow> IpAllocator \<Rightarrow> bool" for net :: subnet where
  alloc_start: "allocator_new net = Inr al \<Longrightarrow> alloc_reach net True al"
| alloc_step: "alloc_reach net quiet al \<Longrightarrow>
    alloc_reach net (quiet \<and> alloc_names op \<noteq> ''gateway'') (alloc_exec op al)"

definition gateway_kept :: "IpAddr \<Rightarrow> IpAllocator \<Rightarrow> bool" where
  "gateway_kept gw al \<longleftrightarrow> hm_get (al_allocations al) ''gateway'' = None \<and>
     gw \<in> set (al_allocated_ips al) \<and> hm_get (al_ip_to_service al) gw = Some ''gateway''"

lemma exec_inv: "al_inv al \<Longrightarrow> al_inv (alloc_exec op al)"
  by (cases op) (auto simp: al_inv_specific al_inv_release intro: al_inv_allocate split: option.splits)

lemma exec_subnet: "al_subnet (alloc_exec op al) = al_subnet al"
  by (cases op) (auto simp: allocate_def allocate_specific_def release_def record_allocation_def
    split: option.splits sum.splits)

lemma gateway_new:
  "allocator_new net = Inr al \<Longrightarrow> \<exists>gw. offset_ip (net_network net) 1 = Inr gw \<and> gateway_kept gw al"
  by (auto simp: allocator_new_def reserve_gateway_def gateway_kept_def split: sum.splits)

lemma gateway_record:
  assumes "gateway_kept gw al" "al_inv al" "s \<noteq> ''gateway''"
    and "ip \<notin> set (al_allocated_ips al) \<or> hm_get (al_ip_to_service al) ip = Some s"
  shows "gateway_kept gw (record_allocation s ip al)"
  using assms by (auto simp: gateway_kept_def record_allocation_def)

lemma gateway_exec:
  assumes g: "gateway_kept gw al" and inv: "al_inv al" and n: "alloc_names op \<noteq> ''gateway''"
  shows "gateway_kept gw (alloc_exec op al)"
proof (cases op)
  case (OpAllocate s)
  then show ?thesis using g inv n find_next_free [of al]
    by (auto simp: allocate_def ip_free_def intro!: gateway_record split: option.splits sum.splits)
next
  case (OpSpecific s ip)
  then show ?thesis using g inv n
    by (auto simp: allocate_specific_def intro!: gateway_record split: option.splits) (simp add: al_inv_def)
next
  case (OpRelease s)
  then show ?thesis using g inv n
    by (auto simp: release_def gateway_kept_def al_inv_def split: option.splits)
qed

lemma reach_al_inv: "alloc_reach net quiet al \<Longrightarrow> al_inv al \<and> al_subnet al = net \<and>
    (quiet \<longrightarrow> (\<exists>gw. offset_ip (net_network net) 1 = Inr gw \<and> gateway_kept gw al))"
proof (induction rule: alloc_reach.induct)
  case (alloc_start al)
  then show ?case using al_inv_new gateway_new
    by (auto simp: allocator_new_def reserve_gateway_def split: sum.splits)
next
  case (alloc_step quiet al op)
  then show ?case using exec_inv exec_subnet gateway_exec by blast
qed

section \<open>Properties\<close>

definition net_10_42 :: subnet where
  "net_10_42 = \<lparr>net_network = V4 0x0A2A0000,
     net_contains = (\<lambda>ip. case ip of V4 x \<Rightarrow> drop_bit 2 x = drop_bit 2 0x0A2A0000 | V6 _ \<Rightarrow> False)\<rparr>"

lemma net_10_42_sel [simp]:
  "net_network net_10_42 = V4 0x0A2A0000"
  "net_contains net_10_42 (V4 x) = (drop_bit 2 x = drop_bit 2 0x0A2A0000)"
  by (simp_all add: net_10_42_def)

lemma net_10_42_law: "subnet_law net_10_42"
  by (auto simp: subnet_law_def net_10_42_def split: IpAddr.splits intro!: exI [of _ 2])

text \<open>
  C23. The allocator's bookkeeping. Whatever sequence of allocations, specific allocations and
  releases has run, every allocated service has an address inside the subnet, no two services
  have the same one, the reverse map names its service, and an address is marked allocated
  exactly when the reverse map knows it. As long as no call used the name gateway, the first
  address of the subnet stays reserved and is nobody's allocation.
\<close>

theorem allocator_bookkeeping:
  assumes reach: "alloc_reach net quiet al"
  shows "(\<forall>s ip. get_allocation al s = Some ip \<longrightarrow> net_contains net ip \<and> get_service_by_ip al ip = Some s) \<and>
    (\<forall>s t ip. get_allocation al s = Some ip \<and> get_allocation al t = Some ip \<longrightarrow> s = t) \<and>
    (\<forall>ip. ip \<in> set (al_allocated_ips al) \<longleftrightarrow> get_service_by_ip al ip \<noteq> None) \<and>
    (quiet \<longrightarrow> (\<exists>gw. offset_ip (net_network net) 1 = Inr gw \<and> get_service_by_ip al gw = Some ''gateway'' \<and>
       (\<forall>s. get_allocation al s \<noteq> Some gw)))"
proof -
  from reach_al_inv [OF reach] have inv: "al_inv al" and net: "al_subnet al = net"
    and gw: "quiet \<longrightarrow> (\<exists>gw. offset_ip (net_network net) 1 = Inr gw \<and> gateway_kept gw al)" by simp_all
  have own: "get_allocation al s = Some ip \<Longrightarrow> net_contains net ip \<and> get_service_by_ip al ip = Some s" for s ip
    using inv net by (auto simp: al_inv_def get_allocation_def get_service_by_ip_def)
  moreover have "s = t" if "get_allocation al s = Some ip" "get_allocation al t = Some ip" for s t ip
    using own [OF that(1)] own [OF that(2)] by simp
  moreover have "ip \<in> set (al_allocated_ips al) \<longleftrightarrow> get_service_by_ip al ip \<noteq> None" for ip
    using inv by (simp add: al_inv_def get_service_by_ip_def)
  moreover have "\<exists>gw. offset_ip (net_network net) 1 = Inr gw \<and> get_service_by_ip al gw = Some ''gateway'' \<and>
       (\<forall>s. get_allocation al s \<noteq> Some gw)" if quiet
  proof -
    from gw that obtain gw where g: "offset_ip (net_network net) 1 = Inr gw"
      "hm_get (al_ip_to_service al) gw = Some ''gateway''" "hm_get (al_allocations al) ''gateway'' = None"
      by (auto simp: gateway_kept_def)
    then have "get_allocation al s \<noteq> Some gw" for s
      using own [of s gw] by (auto simp: get_allocation_def get_service_by_ip_def)
    with g show ?thesis by (auto simp: get_service_by_ip_def)
  qed
  ultimately show ?thesis by blast
qed

theorem allocator_bookkeeping_witness:
  "\<exists>al. alloc_reach net_10_42 True al \<and> get_allocation al ''a'' = Some (V4 0x0A2A0003) \<and>
     get_service_by_ip al (V4 0x0A2A0003) = Some ''a'' \<and>
     (\<forall>s. get_allocation al s \<noteq> Some (V4 0x0A2A0001))"
proof -
  obtain al0 where al0: "allocator_new net_10_42 = Inr al0"
    by (simp add: allocator_new_def reserve_gateway_def offset_ip_def add_checked_def net_10_42_def)
  let ?al = "alloc_exec (OpSpecific ''a'' (V4 0x0A2A0003)) al0"
  have reach: "alloc_reach net_10_42 True ?al"
    using alloc_step [OF alloc_start [OF al0], of "OpSpecific ''a'' (V4 0x0A2A0003)"] by simp
  have "get_allocation ?al ''a'' = Some (V4 0x0A2A0003)"
    using al0 by (auto simp: allocator_new_def reserve_gateway_def offset_ip_def add_checked_def net_10_42_def
      allocate_specific_def record_allocation_def get_allocation_def)
  moreover have "offset_ip (net_network net_10_42) 1 = Inr (V4 0x0A2A0001)"
    by (simp add: offset_ip_def add_checked_def net_10_42_def)
  ultimately show ?thesis using allocator_bookkeeping [OF reach] reach
    by (intro exI [of _ ?al]) auto
qed

text \<open>
  C24. Allocation finds the first free address. The search always ends. A service that has an
  address keeps it; otherwise, when the network address leaves room for the start, the result
  is the first address in order from the second host on, wrapping around the address width,
  that lies in the subnet and is not taken, and the only error is that no address of the
  subnet is free at all. A failed allocation changes nothing.
\<close>

theorem allocate_first_free:
  assumes law: "subnet_law (al_subnet al)" and start: "offset_ip (net_network (al_subnet al)) 2 = Inr start"
  shows "\<exists>r al'. allocate s al = Some (r, al') \<and>
    (case get_allocation al s of
       Some ip \<Rightarrow> r = Inr ip \<and> al' = al
     | None \<Rightarrow>
         (case r of
            Inr ip \<Rightarrow> al' = record_allocation s ip al \<and> ip_free al ip \<and>
              (\<exists>k. ip = ip_after start k \<and> (\<forall>j<k. \<not> ip_free al (ip_after start j)))
          | Inl e \<Rightarrow> al' = al \<and> (\<forall>ip. \<not> ip_free al ip)))"
proof (cases "get_allocation al s")
  case (Some ip)
  then show ?thesis by (simp add: allocate_def get_allocation_def)
next
  case None
  show ?thesis
  proof (cases rule: find_loop_cases [of al start])
    case (hit k)
    with None start show ?thesis
      by (auto simp: allocate_def get_allocation_def find_next_available_def)
  next
    case miss
    have "\<not> ip_free al ip" for ip
    proof
      assume f: "ip_free al ip"
      then have "same_family start ip"
        using subnet_family [OF law] offset_family [OF start] by (simp add: ip_free_def)
      from ip_after_covers [OF this] miss(2) f show False by blast
    qed
    with None start miss(1) show ?thesis
      by (simp add: allocate_def get_allocation_def find_next_available_def)
  qed
qed

theorem allocate_first_free_witness:
  "\<exists>al r al'. allocator_new net_10_42 = Inr al \<and> allocate ''a'' al = Some (r, al') \<and> is_ok r"
proof -
  obtain al where al: "allocator_new net_10_42 = Inr al" "al_subnet al = net_10_42"
    "get_allocation al ''a'' = None" "al_allocated_ips al = [V4 0x0A2A0001]"
    by (simp add: allocator_new_def reserve_gateway_def offset_ip_def add_checked_def net_10_42_def
      get_allocation_def hs_insert_def)
  have start: "offset_ip (net_network (al_subnet al)) 2 = Inr (V4 0x0A2A0002)"
    by (simp add: al(2) offset_ip_def add_checked_def net_10_42_def)
  have "ip_free al (V4 0x0A2A0002)" by (simp add: ip_free_def al net_10_42_def)
  with allocate_first_free [OF _ start, of "''a''"] net_10_42_law al show ?thesis
    by (fastforce split: sum.splits)
qed

text \<open>
  Moving a service leaks its old address. After a specific allocation for a service that
  already had a different address, and the release of the service, the service has no
  allocation but the old address stays marked as allocated to it, so no later search returns
  it.
\<close>

theorem specific_allocation_leaks:
  assumes had: "get_allocation al s = Some old" "get_service_by_ip al old = Some s"
      "old \<in> set (al_allocated_ips al)"
    and new: "new \<noteq> old" "net_contains (al_subnet al) new" "new \<notin> set (al_allocated_ips al)"
  shows "let al' = snd (release s (snd (allocate_specific s new al))) in
    get_allocation al' s = None \<and> get_service_by_ip al' old = Some s \<and> \<not> ip_free al' old"
  using assms
  by (simp add: Let_def release_def allocate_specific_def record_allocation_def get_allocation_def
    get_service_by_ip_def ip_free_def)

theorem specific_allocation_leaks_witness:
  "\<exists>al. get_allocation al ''a'' = None \<and> get_service_by_ip al (V4 0x0A2A0002) = Some ''a''"
proof -
  let ?al = "record_allocation ''a'' (V4 0x0A2A0002)
    \<lparr>al_subnet = net_10_42, al_allocations = [], al_ip_to_service = [], al_allocated_ips = []\<rparr>"
  from specific_allocation_leaks [of ?al "''a''" "V4 0x0A2A0002" "V4 0x0A2A0003"] show ?thesis
    by (auto simp: Let_def record_allocation_def get_allocation_def get_service_by_ip_def net_10_42_def)
qed

end
