(* ===== verification/Net_Topology.thy ===== *)
theory Net_Topology
  imports Net_Alloc
begin

text \<open>
  Network topology and address resolution: \<^verbatim>\<open>crates/service-registry/src/network/topology.rs\<close>,
  \<^verbatim>\<open>resolver.rs\<close> and the manager of \<^verbatim>\<open>network/mod.rs\<close> that ties them to the allocator. The
  iteration order of the map of services is the order of the association list.
\<close>

section \<open>Printing addresses\<close>

definition show_v4 :: "u32 \<Rightarrow> string" where
  "show_v4 w = str_join ''.'' (map (\<lambda>k. show_nat (unat (take_bit 8 (drop_bit k w)))) [24, 16, 8, 0])"

definition hex_digit :: "nat \<Rightarrow> char" where
  "hex_digit d = (if d < 10 then char_of (48 + d) else char_of (87 + d))"

fun show_hex :: "nat \<Rightarrow> string" where
  "show_hex n = (if n < 16 then [hex_digit n] else show_hex (n div 16) @ [hex_digit (n mod 16)])"

declare show_hex.simps [simp del]

definition v6_segments :: "u128 \<Rightarrow> nat list" where
  "v6_segments w = map (\<lambda>i. unat (take_bit 16 (drop_bit (16 * (7 - i)) w))) [0..<8]"

text \<open>The first longest run of zero segments, as its start and length.\<close>

fun zero_run :: "nat list \<Rightarrow> nat" where
  "zero_run [] = 0"
| "zero_run (x # xs) = (if x = 0 then Suc (zero_run xs) else 0)"

fun longest_run :: "nat \<Rightarrow> nat list \<Rightarrow> nat \<times> nat \<Rightarrow> nat \<times> nat" where
  "longest_run i [] best = best"
| "longest_run i (x # xs) best =
     longest_run (Suc i) xs (if zero_run (x # xs) > snd best then (i, zero_run (x # xs)) else best)"

definition show_v6 :: "u128 \<Rightarrow> string" where
  "show_v6 w = (let seg = v6_segments w; (start, len) = longest_run 0 seg (0, 0);
       hexes = (\<lambda>xs. str_join '':'' (map show_hex xs)) in
     if take 6 seg = [0, 0, 0, 0, 0, 65535] then ''::ffff:'' @ show_v4 (ucast w)
     else if len > 1 then hexes (take start seg) @ ''::'' @ hexes (drop (start + len) seg)
     else hexes seg)"

definition show_ip :: "IpAddr \<Rightarrow> string" where
  "show_ip ip = (case ip of V4 w \<Rightarrow> show_v4 w | V6 w \<Rightarrow> show_v6 w)"

section \<open>The topology\<close>

datatype NetworkLocation =
    NlLocal
  | NlRemoteLAN (nl_ip: IpAddr)
  | NlWireGuard (nl_endpoint: string)

record ServiceNetwork =
  sn_service_name :: string
  sn_location :: NetworkLocation
  sn_host_ip :: "IpAddr option"
  sn_lan_ip :: "IpAddr option"
  sn_wireguard_ip :: "IpAddr option"
  sn_wireguard_public_key :: "string option"
  sn_interfaces :: "string list"

record NetworkConfig =
  nc_wireguard_subnet :: subnet
  nc_lan_interface :: string
  nc_dns_port :: u16
  nc_enable_wireguard :: bool

definition default_dns_port :: u16 where "default_dns_port = 5353"

definition default_enable_wireguard :: bool where "default_enable_wireguard = True"

definition network_config_default :: "subnet \<Rightarrow> NetworkConfig" where
  "network_config_default parsed_subnet = \<lparr>nc_wireguard_subnet = parsed_subnet, nc_lan_interface = ''eth0'',
     nc_dns_port = default_dns_port, nc_enable_wireguard = True\<rparr>"

record NetworkInterface =
  if_name :: string
  if_addresses :: "IpAddr list"
  if_is_virtual :: bool

record NetworkTopology =
  nt_services :: "(string, ServiceNetwork) hmap"
  nt_host_interfaces :: "NetworkInterface list"

definition topology_new :: NetworkTopology where
  "topology_new = \<lparr>nt_services = [], nt_host_interfaces = []\<rparr>"

definition discover_interfaces :: "NetworkInterface list" where
  "discover_interfaces =
     [\<lparr>if_name = ''lo'', if_addresses = [V4 0x7F000001], if_is_virtual = False\<rparr>,
      \<lparr>if_name = ''eth0'', if_addresses = [V4 0xC0A80164], if_is_virtual = False\<rparr>,
      \<lparr>if_name = ''docker0'', if_addresses = [V4 0xAC110001], if_is_virtual = True\<rparr>]"

text \<open>Docker detection and the LAN scan of the source are empty.\<close>

definition topo_discover :: "NetworkTopology \<Rightarrow> NetworkTopology" where
  "topo_discover t = t\<lparr>nt_host_interfaces := discover_interfaces\<rparr>"

definition topo_add_service :: "ServiceNetwork \<Rightarrow> NetworkTopology \<Rightarrow> NetworkTopology" where
  "topo_add_service service t = t\<lparr>nt_services := hm_insert (sn_service_name service) service (nt_services t)\<rparr>"

definition topo_get_service :: "NetworkTopology \<Rightarrow> string \<Rightarrow> ServiceNetwork option" where
  "topo_get_service t name = hm_get (nt_services t) name"

definition topo_all_services :: "NetworkTopology \<Rightarrow> ServiceNetwork list" where
  "topo_all_services t = hm_values (nt_services t)"

fun needs_wireguard :: "NetworkLocation \<Rightarrow> bool" where
  "needs_wireguard (NlWireGuard _) = True"
| "needs_wireguard _ = False"

definition requires_wireguard :: "NetworkTopology \<Rightarrow> bool" where
  "requires_wireguard t = list_ex (\<lambda>s. needs_wireguard (sn_location s)) (hm_values (nt_services t))"

definition services_requiring_wireguard :: "NetworkTopology \<Rightarrow> ServiceNetwork list" where
  "services_requiring_wireguard t = filter (\<lambda>s. needs_wireguard (sn_location s)) (hm_values (nt_services t))"

definition can_communicate_directly :: "NetworkTopology \<Rightarrow> string \<Rightarrow> string \<Rightarrow> bool" where
  "can_communicate_directly t service_a service_b =
     (case topo_get_service t service_a of None \<Rightarrow> False | Some a \<Rightarrow>
      case topo_get_service t service_b of None \<Rightarrow> False | Some b \<Rightarrow>
      case (sn_location a, sn_location b) of
        (NlLocal, NlLocal) \<Rightarrow> True
      | (NlRemoteLAN _, NlRemoteLAN _) \<Rightarrow> True
      | _ \<Rightarrow> False)"

definition topo_lan_interface :: "NetworkTopology \<Rightarrow> NetworkInterface option" where
  "topo_lan_interface t = find (\<lambda>i. \<not> if_is_virtual i \<and> if_name i \<noteq> ''lo'') (nt_host_interfaces t)"

section \<open>The resolver\<close>

type_synonym resolver_cache = "(string \<times> string, IpAddr) hmap"

definition resolver_new :: resolver_cache where "resolver_new = []"

definition resolver_add_service :: "ServiceNetwork \<Rightarrow> resolver_cache \<Rightarrow> resolver_cache" where
  "resolver_add_service service cache = []"

definition clear_cache :: "resolver_cache \<Rightarrow> resolver_cache" where
  "clear_cache cache = []"

definition determine_best_ip :: "ServiceNetwork \<Rightarrow> ServiceNetwork \<Rightarrow> RegError + IpAddr" where
  "determine_best_ip f t =
     (case (sn_location f, sn_location t) of
        (NlLocal, NlLocal) \<Rightarrow> ok_or (sn_host_ip t) (PackageErr (MsgNoHostIp (sn_service_name t)))
      | (NlRemoteLAN _, NlRemoteLAN _) \<Rightarrow> ok_or (sn_lan_ip t) (PackageErr (MsgNoLanIp (sn_service_name t)))
      | (NlLocal, NlRemoteLAN _) \<Rightarrow> ok_or (sn_lan_ip t) (PackageErr (MsgNoLanIp (sn_service_name t)))
      | (NlRemoteLAN _, NlLocal) \<Rightarrow>
          (case sn_lan_ip t of
             Some lan_ip \<Rightarrow> Inr lan_ip
           | None \<Rightarrow> ok_or (sn_host_ip t) (PackageErr (MsgNoAccessibleIp (sn_service_name t))))
      | (_, NlWireGuard _) \<Rightarrow> ok_or (sn_wireguard_ip t) (PackageErr (MsgNoWireGuardIp (sn_service_name t)))
      | (NlWireGuard _, _) \<Rightarrow> ok_or (sn_wireguard_ip t) (PackageErr (MsgNoWireGuardIp (sn_service_name t))))"

definition net_resolve :: "resolver_cache \<Rightarrow> string \<Rightarrow> string \<Rightarrow> NetworkTopology \<Rightarrow> RegError + IpAddr" where
  "net_resolve cache from_service to_service topology =
     (case hm_get cache (from_service, to_service) of
        Some ip \<Rightarrow> Inr ip
      | None \<Rightarrow>
          res_bind (ok_or (topo_get_service topology from_service) (ServiceNotFound from_service)) (\<lambda>f.
          res_bind (ok_or (topo_get_service topology to_service) (ServiceNotFound to_service)) (\<lambda>t.
          determine_best_ip f t)))"

fun resolve_many_from ::
    "resolver_cache \<Rightarrow> string \<Rightarrow> NetworkTopology \<Rightarrow> string list \<Rightarrow> (string, IpAddr) hmap \<Rightarrow>
      RegError + (string, IpAddr) hmap" where
  "resolve_many_from cache from_service topology [] results = Inr results"
| "resolve_many_from cache from_service topology (t # ts) results =
     res_bind (net_resolve cache from_service t topology) (\<lambda>ip.
     resolve_many_from cache from_service topology ts (hm_insert t ip results))"

definition resolve_many ::
    "resolver_cache \<Rightarrow> string \<Rightarrow> string list \<Rightarrow> NetworkTopology \<Rightarrow> RegError + (string, IpAddr) hmap" where
  "resolve_many cache from_service to_services topology =
     resolve_many_from cache from_service topology to_services []"

section \<open>The network manager\<close>

record NetworkManager =
  nm_config :: NetworkConfig
  nm_topology :: NetworkTopology
  nm_ip_allocator :: IpAllocator
  nm_resolver :: resolver_cache

definition manager_new :: "NetworkConfig \<Rightarrow> RegError + NetworkManager" where
  "manager_new config =
     map_sum id (\<lambda>al. \<lparr>nm_config = config, nm_topology = topology_new, nm_ip_allocator = al,
       nm_resolver = resolver_new\<rparr>) (allocator_new (nc_wireguard_subnet config))"

definition discover_topology :: "NetworkManager \<Rightarrow> NetworkManager" where
  "discover_topology m = m\<lparr>nm_topology := topo_discover (nm_topology m)\<rparr>"

definition net_register_service ::
    "ServiceNetwork \<Rightarrow> NetworkManager \<Rightarrow> ((RegError + unit) \<times> NetworkManager) option" where
  "net_register_service service m =
     (let add = (\<lambda>m. (Inr (), m\<lparr>nm_topology := topo_add_service service (nm_topology m),
            nm_resolver := resolver_add_service service (nm_resolver m)\<rparr>)) in
      if needs_wireguard (sn_location service) \<and> sn_wireguard_ip service = None then
        (case allocate (sn_service_name service) (nm_ip_allocator m) of
           None \<Rightarrow> None
         | Some (Inl e, al) \<Rightarrow> Some (Inl e, m\<lparr>nm_ip_allocator := al\<rparr>)
         | Some (Inr _, al) \<Rightarrow> Some (add (m\<lparr>nm_ip_allocator := al\<rparr>)))
      else Some (add m))"

definition resolve_service_ip :: "NetworkManager \<Rightarrow> string \<Rightarrow> string \<Rightarrow> RegError + IpAddr" where
  "resolve_service_ip m from_service to_service =
     net_resolve (nm_resolver m) from_service to_service (nm_topology m)"

definition addr_key :: "string \<Rightarrow> string" where
  "addr_key name = replace_char CHR ''-'' CHR ''_'' (to_uppercase name) @ ''_ADDR''"

fun environment_from ::
    "NetworkManager \<Rightarrow> string \<Rightarrow> ServiceNetwork list \<Rightarrow> (string, string) hmap \<Rightarrow>
      RegError + (string, string) hmap" where
  "environment_from m service_name [] env = Inr env"
| "environment_from m service_name (other # others) env =
     (if sn_service_name other = service_name then environment_from m service_name others env
      else res_bind (resolve_service_ip m service_name (sn_service_name other)) (\<lambda>ip.
           environment_from m service_name others (hm_insert (addr_key (sn_service_name other)) (show_ip ip) env)))"

definition generate_environment :: "NetworkManager \<Rightarrow> string \<Rightarrow> RegError + (string, string) hmap" where
  "generate_environment m service_name =
     environment_from m service_name (topo_all_services (nm_topology m)) []"

section \<open>Lemmas\<close>

text \<open>The topology keeps every service under its own name, and the cache stays empty.\<close>

definition nm_inv :: "NetworkManager \<Rightarrow> bool" where
  "nm_inv m \<longleftrightarrow> hm_wf (nt_services (nm_topology m)) \<and> nm_resolver m = [] \<and> al_inv (nm_ip_allocator m) \<and>
     (\<forall>n s. topo_get_service (nm_topology m) n = Some s \<longrightarrow> sn_service_name s = n)"

inductive net_reach :: "NetworkConfig \<Rightarrow> NetworkManager \<Rightarrow> bool" for config :: NetworkConfig where
  net_start: "manager_new config = Inr m \<Longrightarrow> net_reach config m"
| net_discover: "net_reach config m \<Longrightarrow> net_reach config (discover_topology m)"
| net_register: "net_reach config m \<Longrightarrow> net_register_service s m = Some (r, m') \<Longrightarrow> net_reach config m'"

lemma nm_inv_add:
  "nm_inv m \<Longrightarrow> al_inv al \<Longrightarrow>
     nm_inv (m\<lparr>nm_ip_allocator := al, nm_topology := topo_add_service s (nm_topology m),
       nm_resolver := resolver_add_service s (nm_resolver m)\<rparr>)"
  by (simp add: nm_inv_def topo_add_service_def topo_get_service_def resolver_add_service_def)

lemma net_register_inv:
  assumes "nm_inv m" and "net_register_service s m = Some (r, m')"
  shows "nm_inv m'"
proof (cases "needs_wireguard (sn_location s) \<and> sn_wireguard_ip s = None")
  case True
  obtain r1 al where al: "allocate (sn_service_name s) (nm_ip_allocator m) = Some (r1, al)"
    using allocate_returns by blast
  then have "al_inv al" using al_inv_allocate assms(1) by (auto simp: nm_inv_def)
  with True al assms nm_inv_add [OF assms(1) this, of s] show ?thesis
    by (cases r1) (auto simp: net_register_service_def Let_def nm_inv_def)
next
  case False
  with assms nm_inv_add [of m "nm_ip_allocator m" s] show ?thesis
    by (auto simp: net_register_service_def Let_def nm_inv_def)
qed

lemma reach_nm_inv: "net_reach config m \<Longrightarrow> nm_inv m"
proof (induction rule: net_reach.induct)
  case (net_start m)
  then show ?case
    by (auto simp: manager_new_def nm_inv_def topology_new_def topo_get_service_def resolver_new_def al_inv_new)
next
  case (net_discover m)
  then show ?case by (simp add: discover_topology_def nm_inv_def topo_discover_def topo_get_service_def)
next
  case (net_register m s r m')
  then show ?case using net_register_inv by blast
qed

lemma topo_mem:
  assumes "nm_inv m"
  shows "s \<in> set (topo_all_services (nm_topology m)) \<longleftrightarrow>
    topo_get_service (nm_topology m) (sn_service_name s) = Some s"
proof -
  from assms have wf: "hm_wf (nt_services (nm_topology m))"
    and own: "\<And>n s. topo_get_service (nm_topology m) n = Some s \<Longrightarrow> sn_service_name s = n"
    by (auto simp: nm_inv_def)
  have "s \<in> set (topo_all_services (nm_topology m)) \<longleftrightarrow> (\<exists>n. topo_get_service (nm_topology m) n = Some s)"
    by (force simp: topo_all_services_def hm_values_def topo_get_service_def hm_get_iff_mem [OF wf])
  with own show ?thesis by blast
qed

lemma environment_fails:
  "environment_from m name others env = Inl e \<Longrightarrow>
     \<exists>s\<in>set others. sn_service_name s \<noteq> name \<and> resolve_service_ip m name (sn_service_name s) = Inl e"
  by (induction others arbitrary: env) (auto simp: res_bind_Inl_iff split: if_splits)

lemma environment_resolves:
  "environment_from m name others env = Inr env' \<Longrightarrow>
     \<forall>s\<in>set others. sn_service_name s \<noteq> name \<longrightarrow> is_ok (resolve_service_ip m name (sn_service_name s))"
  by (induction others arbitrary: env) (auto simp: res_bind_Inr_iff split: if_splits)

lemma environment_binds:
  "environment_from m name others env = Inr env' \<Longrightarrow>
     hm_get env' k = Some v \<Longrightarrow>
     hm_get env k = Some v \<or> (\<exists>s ip. s \<in> set others \<and> sn_service_name s \<noteq> name \<and> k = addr_key (sn_service_name s) \<and>
       resolve_service_ip m name (sn_service_name s) = Inr ip \<and> v = show_ip ip)"
proof (induction others arbitrary: env)
  case (Cons s others)
  show ?case
  proof (cases "sn_service_name s = name")
    case True
    with Cons show ?thesis by fastforce
  next
    case False
    with Cons.prems obtain ip where ip: "resolve_service_ip m name (sn_service_name s) = Inr ip"
      "environment_from m name others (hm_insert (addr_key (sn_service_name s)) (show_ip ip) env) = Inr env'"
      by (auto simp: res_bind_Inr_iff)
    from Cons.IH [OF ip(2) Cons.prems(2)] False ip(1) show ?thesis
      by (fastforce split: if_splits)
  qed
qed simp

lemma environment_keeps:
  "environment_from m name others env = Inr env' \<Longrightarrow> hm_has env k \<Longrightarrow> hm_has env' k"
  by (induction others arbitrary: env) (auto simp: res_bind_Inr_iff split: if_splits)

lemma environment_has:
  "environment_from m name others env = Inr env' \<Longrightarrow> s \<in> set others \<Longrightarrow> sn_service_name s \<noteq> name \<Longrightarrow>
     hm_has env' (addr_key (sn_service_name s))"
proof (induction others arbitrary: env)
  case (Cons t others)
  then show ?case
    by (auto simp: res_bind_Inr_iff split: if_splits intro: environment_keeps)
qed simp

section \<open>Properties\<close>

definition plain_network :: "string \<Rightarrow> NetworkLocation \<Rightarrow> ServiceNetwork" where
  "plain_network n loc = \<lparr>sn_service_name = n, sn_location = loc, sn_host_ip = Some (V4 0x7F000001),
     sn_lan_ip = None, sn_wireguard_ip = None, sn_wireguard_public_key = None, sn_interfaces = []\<rparr>"

definition start_manager :: NetworkManager where
  "start_manager = \<lparr>nm_config = network_config_default net_10_42, nm_topology = topology_new,
     nm_ip_allocator = \<lparr>al_subnet = net_10_42, al_allocations = [],
       al_ip_to_service = [(V4 0x0A2A0001, ''gateway'')], al_allocated_ips = [V4 0x0A2A0001]\<rparr>,
     nm_resolver = []\<rparr>"

lemma start_manager_new: "manager_new (network_config_default net_10_42) = Inr start_manager"
  by (simp add: manager_new_def start_manager_def network_config_default_def allocator_new_def
    reserve_gateway_def offset_ip_def add_checked_def resolver_new_def hs_insert_def hm_insert_def)

definition two_local :: NetworkManager where
  "two_local = start_manager\<lparr>nm_topology := \<lparr>nt_services =
      [(''a-b'', plain_network ''a-b'' NlLocal), (''c'', plain_network ''c'' NlLocal)], nt_host_interfaces = []\<rparr>\<rparr>"

lemma two_local_reach: "net_reach (network_config_default net_10_42) two_local"
proof -
  let ?c = "network_config_default net_10_42"
  let ?m1 = "start_manager\<lparr>nm_topology := \<lparr>nt_services = [(''a-b'', plain_network ''a-b'' NlLocal)],
      nt_host_interfaces = []\<rparr>\<rparr>"
  have 1: "net_register_service (plain_network ''a-b'' NlLocal) start_manager = Some (Inr (), ?m1)"
    by (simp add: net_register_service_def plain_network_def start_manager_def topology_new_def
      topo_add_service_def resolver_add_service_def hm_insert_def)
  have 2: "net_register_service (plain_network ''c'' NlLocal) ?m1 = Some (Inr (), two_local)"
    by (simp add: net_register_service_def plain_network_def start_manager_def topology_new_def two_local_def
      topo_add_service_def resolver_add_service_def hm_insert_def)
  show ?thesis by (rule net_register [OF net_register [OF net_start [OF start_manager_new] 1] 2])
qed

text \<open>
  Which address one service uses for another. In every reachable network manager the
  resolution of two registered services depends only on their two entries (nothing is cached):
  a local pair uses the host address, a pair on the LAN or a local service reaching the LAN the
  LAN address, a LAN service reaching a local one the LAN address or else the host address, and
  any pair with a WireGuard member only the WireGuard address of the target; an unknown name is
  \<open>ServiceNotFound\<close>, and a missing address an error.
\<close>

theorem resolution_by_location:
  assumes reach: "net_reach config m"
  shows "resolve_service_ip m x y =
    (case topo_get_service (nm_topology m) x of
       None \<Rightarrow> Inl (ServiceNotFound x)
     | Some f \<Rightarrow>
         (case topo_get_service (nm_topology m) y of
            None \<Rightarrow> Inl (ServiceNotFound y)
          | Some t \<Rightarrow>
              (if needs_wireguard (sn_location f) \<or> needs_wireguard (sn_location t)
               then ok_or (sn_wireguard_ip t) (PackageErr (MsgNoWireGuardIp y))
               else if sn_location t = NlLocal then
                 (if sn_location f = NlLocal then ok_or (sn_host_ip t) (PackageErr (MsgNoHostIp y))
                  else if sn_lan_ip t \<noteq> None then Inr (the (sn_lan_ip t))
                  else ok_or (sn_host_ip t) (PackageErr (MsgNoAccessibleIp y)))
               else ok_or (sn_lan_ip t) (PackageErr (MsgNoLanIp y)))))"
proof -
  from reach_nm_inv [OF reach] have inv: "nm_resolver m = []"
    "\<And>t. topo_get_service (nm_topology m) y = Some t \<Longrightarrow> sn_service_name t = y"
    by (auto simp: nm_inv_def)
  show ?thesis
  proof (cases "topo_get_service (nm_topology m) x"; cases "topo_get_service (nm_topology m) y")
    fix f t
    assume ft: "topo_get_service (nm_topology m) x = Some f" "topo_get_service (nm_topology m) y = Some t"
    with inv show ?thesis
      by (cases "sn_location f"; cases "sn_location t"; cases "sn_lan_ip t")
        (simp_all add: resolve_service_ip_def net_resolve_def determine_best_ip_def)
  qed (use inv(1) in \<open>simp_all add: resolve_service_ip_def net_resolve_def\<close>)
qed

theorem resolution_by_location_witness:
  "resolve_service_ip two_local ''a-b'' ''c'' = Inr (V4 0x7F000001)"
  using resolution_by_location [OF two_local_reach, of "''a-b''" "''c''"]
  by (simp add: two_local_def plain_network_def topo_get_service_def hm_get_def)

definition other_services :: "NetworkManager \<Rightarrow> string \<Rightarrow> ServiceNetwork set" where
  "other_services m name =
     {s. topo_get_service (nm_topology m) (sn_service_name s) = Some s \<and> sn_service_name s \<noteq> name}"

text \<open>
  The environment of a service. In every reachable manager the environment of a service is
  generated exactly when each other service's address resolves for it. It then has a variable
  for every other service and no further ones, each bound to the printed address of a service
  whose name maps to that variable; when it fails, the error is that of a service that does
  not resolve.
\<close>

theorem environment_of_service:
  assumes reach: "net_reach config m"
  shows "(case generate_environment m name of
      Inr env \<Rightarrow> (\<forall>s\<in>other_services m name. hm_has env (addr_key (sn_service_name s)) \<and>
          is_ok (resolve_service_ip m name (sn_service_name s))) \<and>
        (\<forall>k v. hm_get env k = Some v \<longrightarrow> (\<exists>s\<in>other_services m name. \<exists>ip. k = addr_key (sn_service_name s) \<and>
          resolve_service_ip m name (sn_service_name s) = Inr ip \<and> v = show_ip ip))
    | Inl e \<Rightarrow> (\<exists>s\<in>other_services m name. resolve_service_ip m name (sn_service_name s) = Inl e))"
proof -
  have mem: "s \<in> other_services m name \<longleftrightarrow> s \<in> set (topo_all_services (nm_topology m)) \<and> sn_service_name s \<noteq> name" for s
    using topo_mem [OF reach_nm_inv [OF reach]] by (simp add: other_services_def)
  show ?thesis
  proof (cases "generate_environment m name")
    case (Inl e)
    with environment_fails [of m name _ "[]"] mem show ?thesis by (fastforce simp: generate_environment_def)
  next
    case (Inr env)
    then have run: "environment_from m name (topo_all_services (nm_topology m)) [] = Inr env"
      by (simp add: generate_environment_def)
    have "\<exists>s\<in>other_services m name. \<exists>ip. k = addr_key (sn_service_name s) \<and>
          resolve_service_ip m name (sn_service_name s) = Inr ip \<and> v = show_ip ip" if "hm_get env k = Some v" for k v
      using environment_binds [OF run that] mem by auto
    with Inr mem environment_has [OF run] environment_resolves [OF run] show ?thesis by simp
  qed
qed

theorem environment_of_service_witness:
  "generate_environment two_local ''c'' = Inr [(''A_B_ADDR'', ''127.0.0.1'')] \<and>
   hm_has [(''A_B_ADDR'', ''127.0.0.1'')] (addr_key ''a-b'')"
proof -
  have run: "generate_environment two_local ''c'' = Inr [(''A_B_ADDR'', ''127.0.0.1'')]" by code_simp
  have "plain_network ''a-b'' NlLocal \<in> other_services two_local ''c''"
    by (simp add: other_services_def two_local_def topo_get_service_def hm_get_def plain_network_def)
  with environment_of_service [OF two_local_reach, of "''c''"]
  have "hm_has [(''A_B_ADDR'', ''127.0.0.1'')] (addr_key (sn_service_name (plain_network ''a-b'' NlLocal)))"
    unfolding run sum.case by blast
  with run show ?thesis by (simp add: plain_network_def)
qed

text \<open>
  A WireGuard service registered without an address cannot be reached. Registration
  allocates an address for it but stores the service without it: after the registration
  succeeds, resolving it from any registered service is the error that it has no WireGuard
  address, and the environment of every other service cannot be generated.
\<close>

theorem wireguard_registration_unusable:
  assumes reach: "net_reach config m"
    and wg: "needs_wireguard (sn_location s)" "sn_wireguard_ip s = None"
    and run: "net_register_service s m = Some (Inr (), m')"
  shows "(\<exists>ip. get_allocation (nm_ip_allocator m') (sn_service_name s) = Some ip) \<and>
    (\<forall>x. topo_get_service (nm_topology m') x \<noteq> None \<longrightarrow>
       resolve_service_ip m' x (sn_service_name s) = Inl (PackageErr (MsgNoWireGuardIp (sn_service_name s)))) \<and>
    (\<forall>x. x \<noteq> sn_service_name s \<longrightarrow> \<not> is_ok (generate_environment m' x))"
proof -
  note inv = reach_nm_inv [OF net_register [OF reach run]]
  obtain r al where al: "allocate (sn_service_name s) (nm_ip_allocator m) = Some (r, al)"
    using allocate_returns by blast
  with wg run obtain ip where r: "r = Inr ip" and m': "nm_ip_allocator m' = al"
    and got: "topo_get_service (nm_topology m') (sn_service_name s) = Some s" and cache: "nm_resolver m' = []"
    by (cases r) (auto simp: net_register_service_def Let_def topo_add_service_def topo_get_service_def
      resolver_add_service_def)
  have a: "get_allocation al (sn_service_name s) = Some ip"
    using al r by (auto simp: allocate_def get_allocation_def record_allocation_def
      split: option.splits sum.splits)
  have res: "resolve_service_ip m' x (sn_service_name s) =
      (if topo_get_service (nm_topology m') x = None then Inl (ServiceNotFound x)
       else Inl (PackageErr (MsgNoWireGuardIp (sn_service_name s))))" for x
    using got cache wg
    by (cases "topo_get_service (nm_topology m') x"; cases "sn_location (the (topo_get_service (nm_topology m') x))";
        cases "sn_location s")
      (simp_all add: resolve_service_ip_def net_resolve_def determine_best_ip_def)
  have "\<not> is_ok (generate_environment m' x)" if "x \<noteq> sn_service_name s" for x
  proof
    assume "is_ok (generate_environment m' x)"
    then obtain env where "environment_from m' x (topo_all_services (nm_topology m')) [] = Inr env"
      by (auto simp: generate_environment_def is_ok_def split: sum.splits)
    from environment_resolves [OF this] topo_mem [OF inv, of s] got that res show False
      by (auto split: if_splits)
  qed
  with a m' res show ?thesis by auto
qed

theorem wireguard_registration_unusable_witness:
  "\<exists>m'. net_register_service ((plain_network ''w'' (NlWireGuard ''peer''))) two_local = Some (Inr (), m') \<and>
     \<not> is_ok (generate_environment m' ''c'')"
proof -
  let ?s = "plain_network ''w'' (NlWireGuard ''peer'')"
  let ?al = "record_allocation ''w'' (V4 0x0A2A0002) (nm_ip_allocator two_local)"
  have loop: "find_loop (nm_ip_allocator two_local) (V4 0x0A2A0002) (V4 0x0A2A0002) = Some (Inr (V4 0x0A2A0002))"
    by (subst find_loop.simps) (simp add: ip_free_def two_local_def start_manager_def)
  then have "allocate ''w'' (nm_ip_allocator two_local) = Some (Inr (V4 0x0A2A0002), ?al)"
    by (simp add: allocate_def find_next_available_def two_local_def start_manager_def
      offset_ip_def add_checked_def)
  then obtain m' where run: "net_register_service ?s two_local = Some (Inr (), m')"
    by (simp add: net_register_service_def Let_def plain_network_def)
  show ?thesis
    using wireguard_registration_unusable [OF two_local_reach _ _ run] run by (simp add: plain_network_def)
qed

end
