(* ===== verification/Orch_Manager.thy ===== *)
theory Orch_Manager
  imports Orch_Exec Orch_Package Reg_Registry Net_Topology
begin

text \<open>
  The service manager, \<^verbatim>\<open>crates/service-orchestration/src/manager.rs\<close>: its registry, network
  manager, executors, active services and health monitors, and the operations that start,
  stop, inspect and check services. It runs on the machine \<open>H\<close>, over the registry backend
  \<open>B\<close>; the instants it reads are arguments, and \<open>display\<close> prints an error. The two maps behind
  their locks are fields of one state: an operation is one step.
\<close>

record ('b, 'w) manager =
  mg_registry :: "'b registry"
  mg_network_manager :: NetworkManager
  mg_executors :: "(string, 'w exec_state executor) hmap"
  mg_active_services :: "(string, RunningService) hmap"
  mg_health_monitors :: "(string, HealthMonitor) hmap"
  mg_exec :: "'w exec_state"

type_synonym ('b, 'w, 'a) mg_act = "(('b, 'w) manager, OrchError, 'a) act"

definition std_executors :: "'w host \<Rightarrow> (string, 'w exec_state executor) hmap" where
  "std_executors H = hm_insert ''docker'' (docker_executor H) (hm_insert ''process'' (process_executor H) [])"

definition manager_with_state :: "'w host \<Rightarrow> subnet \<Rightarrow> 'b registry \<Rightarrow> 'w \<Rightarrow> OrchError + ('b, 'w) manager" where
  "manager_with_state H default_subnet registry w =
     res_bind (map_err ORegistry (manager_new (network_config_default default_subnet))) (\<lambda>network_manager.
     Inr \<lparr>mg_registry = registry, mg_network_manager = network_manager, mg_executors = std_executors H,
        mg_active_services = [], mg_health_monitors = [],
        mg_exec = \<lparr>xs_world = w, xs_running_processes = [], xs_streams = []\<rparr>\<rparr>)"

definition inject_network_config :: "ServiceConfig \<Rightarrow> OrchError + ServiceConfig" where
  "inject_network_config config = Inr config"

definition find_executor :: "('k, 's executor) hmap \<Rightarrow> ServiceConfig \<Rightarrow> OrchError + 's executor" where
  "find_executor executors config =
     ok_or (find (\<lambda>x. ex_can_handle x config) (hm_values executors)) (OConfig (ONoExecutor (sc_target config)))"

definition on_exec :: "('w exec_state, OrchError, 'a) act \<Rightarrow> ('b, 'w, 'a) mg_act" where
  "on_exec m mg = (case m (mg_exec mg) of (r, s) \<Rightarrow> (r, mg\<lparr>mg_exec := s\<rparr>))"

definition on_registry :: "('b, 'a) rg_act \<Rightarrow> ('b, 'w, RegError + 'a) mg_act" where
  "on_registry m mg = (case m (mg_registry mg) of (r, g) \<Rightarrow> (Inr r, mg\<lparr>mg_registry := g\<rparr>))"

definition execution_info :: "string \<Rightarrow> ServiceConfig \<Rightarrow> RunningService \<Rightarrow> ExecutionInfo" where
  "execution_info name config running_service =
     (case sc_target config of
        TProcess binary args _ _ \<Rightarrow> ManagedProcess (rs_pid running_service) binary args
      | TDocker img _ _ _ \<Rightarrow> DockerContainer (rs_container_id running_service) img (Some (''orchestrator-'' @ name))
      | _ \<Rightarrow> ManagedProcess None name [])"

definition monitor_service :: "string \<Rightarrow> ServiceConfig \<Rightarrow> ('b, 'w, unit) mg_act" where
  "monitor_service name config mg =
     (Inr (), case sc_health_check config of
        None \<Rightarrow> mg
      | Some health_check \<Rightarrow>
          mg\<lparr>mg_health_monitors := hm_insert name (monitor_new health_check) (mg_health_monitors mg)\<rparr>)"

definition activate :: "string \<Rightarrow> RunningService \<Rightarrow> ('b, 'w, unit) mg_act" where
  "activate name service mg = (Inr (), mg\<lparr>mg_active_services := hm_insert name service (mg_active_services mg)\<rparr>)"

definition start_service ::
    "'b backend \<Rightarrow> Timestamp \<Rightarrow> Timestamp \<Rightarrow> string \<Rightarrow> ServiceConfig \<Rightarrow> ('b, 'w, RunningService) mg_act" where
  "start_service B created now name config mg =
     (if hm_has (mg_active_services mg) name then (Inl (OServiceExists name), mg)
      else
        act_bind (act_lift (inject_network_config config)) (\<lambda>network_config.
        act_bind (act_lift (find_executor (mg_executors mg) network_config)) (\<lambda>executor.
        act_bind (on_exec (ex_start executor network_config)) (\<lambda>running_service.
        act_bind (monitor_service name network_config) (\<lambda>_.
        act_bind (activate name running_service) (\<lambda>_.
        act_bind (act_lift (map_err ORegistry (entry_new created name ''1.0.0''
            (execution_info name config running_service) LocLocal))) (\<lambda>service_entry.
        act_bind (on_registry (register B now service_entry)) (\<lambda>_.
        act_ret running_service))))))) mg)"

definition stop_service :: "'b backend \<Rightarrow> Timestamp \<Rightarrow> string \<Rightarrow> ('b, 'w, unit) mg_act" where
  "stop_service B now name mg =
     (let service = hm_get (mg_active_services mg) name;
          mg1 = mg\<lparr>mg_active_services := hm_remove name (mg_active_services mg)\<rparr> in
      case service of
        None \<Rightarrow> (Inl (OServiceNotFound name), mg1)
      | Some service \<Rightarrow>
          act_bind (act_lift (find_executor (mg_executors mg) (rs_config service))) (\<lambda>executor.
          act_bind (on_exec (ex_stop executor service)) (\<lambda>_.
          act_bind (\<lambda>mg. (Inr (), mg\<lparr>mg_health_monitors := hm_remove name (mg_health_monitors mg)\<rparr>)) (\<lambda>_.
          act_bind (on_registry (update_state B now name Stopped)) (\<lambda>_.
          act_ret ())))) mg1)"

definition deploy_package :: "file_system \<Rightarrow> RemoteTarget \<Rightarrow> string \<Rightarrow> ('b, 'w, DeployedPackage) mg_act" where
  "deploy_package F target package_path = act_lift (deploy F package_path target)"

definition registry_status :: "ServiceState \<Rightarrow> ServiceStatus" where
  "registry_status st = (case st of
     Running \<Rightarrow> OsRunning | Stopped \<Rightarrow> OsStopped | Failed \<Rightarrow> OsFailed ''Service failed'' | _ \<Rightarrow> OsStopped)"

definition active_status :: "string \<Rightarrow> ('b, 'w) manager \<Rightarrow> ServiceStatus" where
  "active_status name mg =
     (if hm_has (mg_active_services mg) name then
        (case hm_get (mg_health_monitors mg) name of
           None \<Rightarrow> OsRunning
         | Some monitor \<Rightarrow>
             (case current_status monitor of
                Healthy \<Rightarrow> OsRunning | Unhealthy _ \<Rightarrow> OsUnhealthy | HUnknown \<Rightarrow> OsRunning))
      else OsStopped)"

definition get_service_status :: "'b backend \<Rightarrow> string \<Rightarrow> ('b, 'w, ServiceStatus) mg_act" where
  "get_service_status B name =
     act_bind (on_registry (get_entry B name)) (\<lambda>found mg.
     (Inr (case found of
         Inr service_info \<Rightarrow>
           if \<not> hm_has (mg_active_services mg) name then registry_status (se_state service_info)
           else active_status name mg
       | Inl _ \<Rightarrow> active_status name mg), mg))"

definition list_services :: "('b, 'w) manager \<Rightarrow> string list" where
  "list_services mg = hm_keys (mg_active_services mg)"

definition get_service_info :: "('b, 'w) manager \<Rightarrow> string \<Rightarrow> RunningService option" where
  "get_service_info mg name = hm_get (mg_active_services mg) name"

section \<open>Health checks\<close>

definition note_status :: "HHealth \<Rightarrow> HealthMonitor \<Rightarrow> OrchError + HealthMonitor" where
  "note_status status m =
     (case status of
        Healthy \<Rightarrow> Inr (m\<lparr>hm_consecutive_failures := 0, hm_last_status := Healthy\<rparr>)
      | Unhealthy _ \<Rightarrow> res_bind (count_failure m) (\<lambda>m. Inr (m\<lparr>hm_last_status := status\<rparr>))
      | HUnknown \<Rightarrow> Inr (m\<lparr>hm_last_status := status\<rparr>))"

definition update_monitor :: "string \<Rightarrow> HHealth \<Rightarrow> ('b, 'w, unit) mg_act" where
  "update_monitor name status mg =
     (case hm_get (mg_health_monitors mg) name of
        None \<Rightarrow> (Inr (), mg)
      | Some monitor \<Rightarrow>
          (case note_status status monitor of
             Inl e \<Rightarrow> (Inl e, mg)
           | Inr m \<Rightarrow> (Inr (), mg\<lparr>mg_health_monitors := hm_insert name m (mg_health_monitors mg)\<rparr>)))"

definition check_service :: "'w host \<Rightarrow> (OrchError \<Rightarrow> string) \<Rightarrow> string \<Rightarrow> ('b, 'w, HHealth) mg_act" where
  "check_service H display name mg =
     (case hm_get (mg_health_monitors mg) name of
        None \<Rightarrow> (Inr HUnknown, mg)
      | Some monitor \<Rightarrow>
          act_bind (on_exec (act_try (on_world (check_health H (hm_config monitor))))) (\<lambda>r.
          let status = (case r of Inr status \<Rightarrow> status | Inl e \<Rightarrow> Unhealthy (display e)) in
          act_bind (update_monitor name status) (\<lambda>_.
          act_ret status)) mg)"

fun check_services ::
    "'w host \<Rightarrow> (OrchError \<Rightarrow> string) \<Rightarrow> string list \<Rightarrow> (string, HHealth) hmap \<Rightarrow> ('b, 'w, (string, HHealth) hmap) mg_act" where
  "check_services H display [] results = act_ret results"
| "check_services H display (name # names) results =
     act_bind (check_service H display name) (\<lambda>status.
     check_services H display names (hm_insert name status results))"

definition run_health_checks :: "'w host \<Rightarrow> (OrchError \<Rightarrow> string) \<Rightarrow> ('b, 'w, (string, HHealth) hmap) mg_act" where
  "run_health_checks H display mg = check_services H display (hm_keys (mg_health_monitors mg)) [] mg"

section \<open>The executors as the manager sees them\<close>

locale orchestrator =
  fixes executors :: "('k, 's executor) hmap"
  assumes all_exec: "x \<in> set (hm_values executors) \<Longrightarrow> service_exec x"
begin

lemma found: "find_executor executors c = Inr x \<Longrightarrow> x \<in> set (hm_values executors) \<and> ex_can_handle x c"
  by (auto simp: find_executor_def find_Some_iff intro: nth_mem)

text \<open>The executor that started a service is the one found for stopping it.\<close>

lemma started_stoppable:
  assumes "find_executor executors c = Inr x" and "ex_start x c s = (Inr r, s')"
  shows "rs_name r = sc_name c \<and> rs_config r = c \<and> find_executor executors (rs_config r) = Inr x"
  using service_exec.started [OF all_exec assms(2)] found [OF assms(1)] assms(1) by simp

end

interpretation std: orchestrator "std_executors H" for H :: "'w host"
proof (rule orchestrator.intro)
  fix x :: "'w exec_state executor"
  assume "x \<in> set (hm_values (std_executors H))"
  then have "x = docker_executor H \<or> x = process_executor H"
    by (auto simp: std_executors_def hm_values_def hm_insert_def)
  then show "service_exec x"
    using docker_exec.service_exec_axioms process_exec.service_exec_axioms by blast
qed

lemma same_executors:
  "set executors = set (std_executors H) \<Longrightarrow> orchestrator executors"
  using std.orchestrator_axioms [of H] by (simp add: orchestrator_def hm_values_def)

section \<open>The operations, branch by branch\<close>

definition add_monitor :: "string \<Rightarrow> ServiceConfig \<Rightarrow> (string, HealthMonitor) hmap \<Rightarrow> (string, HealthMonitor) hmap" where
  "add_monitor name config ms =
     (case sc_health_check config of None \<Rightarrow> ms | Some hc \<Rightarrow> hm_insert name (monitor_new hc) ms)"

lemma start_service_cases:
  assumes "start_service B created now name config mg = (r, mg')"
  obtains (exists) "hm_has (mg_active_services mg) name" "r = Inl (OServiceExists name)" "mg' = mg"
  | (unsupported) e where "\<not> hm_has (mg_active_services mg) name"
      "find_executor (mg_executors mg) config = Inl e" "r = Inl e" "mg' = mg"
  | (failed) x e s where "\<not> hm_has (mg_active_services mg) name"
      "find_executor (mg_executors mg) config = Inr x"
      "ex_start x config (mg_exec mg) = (Inl e, s)" "r = Inl e" "mg' = mg\<lparr>mg_exec := s\<rparr>"
  | (started) x sv s g where "\<not> hm_has (mg_active_services mg) name"
      "find_executor (mg_executors mg) config = Inr x"
      "ex_start x config (mg_exec mg) = (Inr sv, s)"
      "mg' = mg\<lparr>mg_exec := s, mg_health_monitors := add_monitor name config (mg_health_monitors mg),
         mg_active_services := hm_insert name sv (mg_active_services mg), mg_registry := g\<rparr>"
      "case entry_new created name ''1.0.0'' (execution_info name config sv) LocLocal of
         Inl e \<Rightarrow> r = Inl (ORegistry e) \<and> g = mg_registry mg
       | Inr entry \<Rightarrow> r = Inr sv \<and> g = snd (register B now entry (mg_registry mg))"
proof (cases "hm_has (mg_active_services mg) name")
  case True
  with assms have "r = Inl (OServiceExists name)" "mg' = mg" by (simp_all add: start_service_def)
  with True show thesis by (rule exists)
next
  case False
  show thesis
  proof (cases "find_executor (mg_executors mg) config")
    case (Inl e)
    with False assms have "r = Inl e" "mg' = mg"
      by (simp_all add: start_service_def inject_network_config_def act_bind_def)
    with False Inl show thesis by (rule unsupported)
  next
    case x: (Inr x)
    obtain q s where q: "ex_start x config (mg_exec mg) = (q, s)" by fastforce
    show thesis
    proof (cases q)
      case (Inl e)
      with False x q assms have "r = Inl e" "mg' = mg\<lparr>mg_exec := s\<rparr>"
        by (simp_all add: start_service_def inject_network_config_def act_bind_def on_exec_def)
      with False x q [unfolded Inl] show thesis by (rule failed)
    next
      case (Inr sv)
      let ?e = "entry_new created name ''1.0.0'' (execution_info name config sv) LocLocal"
      let ?g = "case ?e of Inl e \<Rightarrow> mg_registry mg | Inr entry \<Rightarrow> snd (register B now entry (mg_registry mg))"
      have res: "(r, mg') = (case ?e of Inl e \<Rightarrow> Inl (ORegistry e) | Inr entry \<Rightarrow> Inr sv,
          mg\<lparr>mg_exec := s, mg_health_monitors := add_monitor name config (mg_health_monitors mg),
            mg_active_services := hm_insert name sv (mg_active_services mg), mg_registry := ?g\<rparr>)"
        using False x q Inr assms
        by (auto simp: start_service_def inject_network_config_def act_bind_def on_exec_def on_registry_def
            monitor_service_def activate_def add_monitor_def split: sum.splits option.splits prod.splits)
      show thesis
        by (rule started [OF False x q [unfolded Inr], of ?g]) (use res in \<open>auto split: sum.splits\<close>)
    qed
  qed
qed

lemma stop_service_cases:
  assumes "stop_service B now name mg = (r, mg')"
  obtains (unknown) "hm_get (mg_active_services mg) name = None" "r = Inl (OServiceNotFound name)"
      "mg' = mg\<lparr>mg_active_services := hm_remove name (mg_active_services mg)\<rparr>"
  | (unsupported) sv e where "hm_get (mg_active_services mg) name = Some sv"
      "find_executor (mg_executors mg) (rs_config sv) = Inl e" "r = Inl e"
      "mg' = mg\<lparr>mg_active_services := hm_remove name (mg_active_services mg)\<rparr>"
  | (failed) sv x e s where "hm_get (mg_active_services mg) name = Some sv"
      "find_executor (mg_executors mg) (rs_config sv) = Inr x"
      "ex_stop x sv (mg_exec mg) = (Inl e, s)" "r = Inl e"
      "mg' = mg\<lparr>mg_active_services := hm_remove name (mg_active_services mg), mg_exec := s\<rparr>"
  | (stopped) sv x s where "hm_get (mg_active_services mg) name = Some sv"
      "find_executor (mg_executors mg) (rs_config sv) = Inr x"
      "ex_stop x sv (mg_exec mg) = (Inr (), s)" "r = Inr ()"
      "mg' = mg\<lparr>mg_active_services := hm_remove name (mg_active_services mg), mg_exec := s,
         mg_health_monitors := hm_remove name (mg_health_monitors mg),
         mg_registry := snd (update_state B now name Stopped (mg_registry mg))\<rparr>"
proof (cases "hm_get (mg_active_services mg) name")
  case None
  with assms have "r = Inl (OServiceNotFound name)"
    "mg' = mg\<lparr>mg_active_services := hm_remove name (mg_active_services mg)\<rparr>"
    by (simp_all add: stop_service_def)
  with None show thesis by (rule unknown)
next
  case sv: (Some sv)
  show thesis
  proof (cases "find_executor (mg_executors mg) (rs_config sv)")
    case (Inl e)
    with sv assms have "r = Inl e" "mg' = mg\<lparr>mg_active_services := hm_remove name (mg_active_services mg)\<rparr>"
      by (simp_all add: stop_service_def act_bind_def)
    with sv Inl show thesis by (rule unsupported)
  next
    case x: (Inr x)
    obtain q s where q: "ex_stop x sv (mg_exec mg) = (q, s)" by fastforce
    show thesis
    proof (cases q)
      case (Inl e)
      with sv x q assms have "r = Inl e"
        "mg' = mg\<lparr>mg_active_services := hm_remove name (mg_active_services mg), mg_exec := s\<rparr>"
        by (simp_all add: stop_service_def act_bind_def on_exec_def)
      with sv x q [unfolded Inl] show thesis by (rule failed)
    next
      case (Inr u)
      with sv x q assms have "r = Inr ()"
        "mg' = mg\<lparr>mg_active_services := hm_remove name (mg_active_services mg), mg_exec := s,
           mg_health_monitors := hm_remove name (mg_health_monitors mg),
           mg_registry := snd (update_state B now name Stopped (mg_registry mg))\<rparr>"
        by (auto simp: stop_service_def act_bind_def on_exec_def on_registry_def split: prod.splits)
      with sv x q [unfolded Inr] show thesis by (intro stopped) simp_all
    qed
  qed
qed

text \<open>A round of health checks, name by name.\<close>

lemma note_status_keeps:
  assumes "note_status st m = Inr m'"
  shows "hm_config m' = hm_config m \<and> hm_last_status m' = st \<and>
    unat (hm_consecutive_failures m') =
      (if st = Healthy then 0
       else if is_unhealthy st then Suc (unat (hm_consecutive_failures m))
       else unat (hm_consecutive_failures m))"
proof (cases st)
  case (Unhealthy msg)
  with assms have no: "hm_consecutive_failures m \<noteq> - 1"
    and m': "m' = m\<lparr>hm_consecutive_failures := hm_consecutive_failures m + 1, hm_last_status := st\<rparr>"
    by (auto simp: note_status_def count_failure_def split: if_splits)
  have "hm_consecutive_failures m + 1 \<noteq> 0" using no by (simp add: eq_neg_iff_add_eq_0)
  then have "unat (hm_consecutive_failures m + 1) = Suc (unat (hm_consecutive_failures m))"
    using unatSuc [of "hm_consecutive_failures m"] by (simp add: add.commute)
  with m' Unhealthy show ?thesis by (simp add: is_unhealthy_def)
qed (use assms in \<open>auto simp: note_status_def is_unhealthy_def\<close>)

definition same_but_monitors :: "('b, 'w) manager \<Rightarrow> ('b, 'w) manager \<Rightarrow> bool" where
  "same_but_monitors mg mg' \<longleftrightarrow> mg_registry mg' = mg_registry mg \<and> mg_active_services mg' = mg_active_services mg \<and>
     mg_executors mg' = mg_executors mg \<and> mg_network_manager mg' = mg_network_manager mg"

lemma check_service_run:
  assumes m: "hm_get (mg_health_monitors mg) name = Some m" and run: "check_service H display name mg = (r, mg')"
  shows "same_but_monitors mg mg' \<and>
    (case r of
       Inr st \<Rightarrow> (\<exists>m'. note_status st m = Inr m' \<and> mg_health_monitors mg' = hm_insert name m' (mg_health_monitors mg))
     | Inl e \<Rightarrow> mg_health_monitors mg' = mg_health_monitors mg)"
proof -
  obtain q w where q: "check_health H (hm_config m) (xs_world (mg_exec mg)) = (q, w)" by fastforce
  define st where "st = (case q of Inr status \<Rightarrow> status | Inl e \<Rightarrow> Unhealthy (display e))"
  have "on_exec (act_try (on_world (check_health H (hm_config m)))) mg =
      (Inr q, mg\<lparr>mg_exec := (mg_exec mg)\<lparr>xs_world := w\<rparr>\<rparr>)"
    by (simp add: on_exec_def act_try_def on_world_def q)
  with run m have "act_bind (update_monitor name st) (\<lambda>_. act_ret st)
      (mg\<lparr>mg_exec := (mg_exec mg)\<lparr>xs_world := w\<rparr>\<rparr>) = (r, mg')"
    by (simp add: check_service_def st_def Let_def)
  with m show ?thesis
    by (cases "note_status st m") (auto simp: act_bind_def update_monitor_def same_but_monitors_def)
qed

lemma check_services_run:
  assumes "distinct names" and "\<forall>n\<in>set names. hm_has (mg_health_monitors mg) n"
    and "hm_wf (mg_health_monitors mg)" and "check_services H display names results mg = (r, mg')"
  shows "same_but_monitors mg mg' \<and> hm_wf (mg_health_monitors mg') \<and>
    (\<forall>n m. hm_get (mg_health_monitors mg) n = Some m \<longrightarrow>
       (\<exists>m'. hm_get (mg_health_monitors mg') n = Some m' \<and> hm_config m' = hm_config m)) \<and>
    (\<forall>n. n \<notin> set names \<longrightarrow> hm_get (mg_health_monitors mg') n = hm_get (mg_health_monitors mg) n) \<and>
    (\<forall>res. r = Inr res \<longrightarrow>
       (\<forall>n. n \<notin> set names \<longrightarrow> hm_get res n = hm_get results n) \<and>
       (\<forall>n\<in>set names. \<exists>st m m'. hm_get res n = Some st \<and> hm_get (mg_health_monitors mg) n = Some m \<and>
          note_status st m = Inr m' \<and> hm_get (mg_health_monitors mg') n = Some m'))"
  using assms
proof (induction names arbitrary: results mg)
  case Nil
  then show ?case by (auto simp: same_but_monitors_def)
next
  case (Cons name names)
  obtain m where m: "hm_get (mg_health_monitors mg) name = Some m"
    using Cons.prems(2) by (auto simp: hm_has_iff)
  from Cons.prems(4) have "act_bind (check_service H display name)
      (\<lambda>status. check_services H display names (hm_insert name status results)) mg = (r, mg')" by simp
  then show ?case
  proof (cases rule: act_bind_cases)
    case (fail e)
    with check_service_run [OF m fail(1)] Cons.prems(3) show ?thesis by (auto simp: same_but_monitors_def)
  next
    case (ok st mg1)
    from check_service_run [OF m ok(1)] obtain m1 where same: "same_but_monitors mg mg1"
      and m1: "note_status st m = Inr m1" "mg_health_monitors mg1 = hm_insert name m1 (mg_health_monitors mg)" by auto
    have pre: "distinct names" "\<forall>n\<in>set names. hm_has (mg_health_monitors mg1) n" "hm_wf (mg_health_monitors mg1)"
      using Cons.prems(1-3) m1(2) by auto
    note IH = Cons.IH [OF pre ok(2)]
    have name: "name \<notin> set names" using Cons.prems(1) by simp
    have cfg: "hm_config m1 = hm_config m" using note_status_keeps [OF m1(1)] by simp
    have get1: "hm_get (mg_health_monitors mg1) n = (if n = name then Some m1 else hm_get (mg_health_monitors mg) n)" for n
      by (simp add: m1(2))
    have keeps: "\<exists>m'. hm_get (mg_health_monitors mg') n = Some m' \<and> hm_config m' = hm_config k"
      if k: "hm_get (mg_health_monitors mg) n = Some k" for n k
    proof (cases "n = name")
      case True
      with IH get1 [of n] name k m cfg show ?thesis by auto
    next
      case False
      with IH get1 [of n] k show ?thesis by auto
    qed
    have res: "(\<forall>n. n \<notin> set (name # names) \<longrightarrow> hm_get out n = hm_get results n) \<and>
       (\<forall>n\<in>set (name # names). \<exists>st m m'. hm_get out n = Some st \<and> hm_get (mg_health_monitors mg) n = Some m \<and>
          note_status st m = Inr m' \<and> hm_get (mg_health_monitors mg') n = Some m')" if out: "r = Inr out" for out
    proof (intro conjI allI ballI impI)
      fix n assume "n \<notin> set (name # names)"
      with IH out show "hm_get out n = hm_get results n" by simp
    next
      fix n assume n: "n \<in> set (name # names)"
      show "\<exists>st m m'. hm_get out n = Some st \<and> hm_get (mg_health_monitors mg) n = Some m \<and>
          note_status st m = Inr m' \<and> hm_get (mg_health_monitors mg') n = Some m'"
      proof (cases "n = name")
        case True
        with IH out name m m1(1) get1 [of n] show ?thesis by auto
      next
        case False
        with n have "n \<in> set names" by simp
        with IH out have "\<exists>st m m'. hm_get out n = Some st \<and> hm_get (mg_health_monitors mg1) n = Some m \<and>
            note_status st m = Inr m' \<and> hm_get (mg_health_monitors mg') n = Some m'" by blast
        with False show ?thesis by (simp add: get1)
      qed
    qed
    from IH same have "same_but_monitors mg mg'" by (simp add: same_but_monitors_def)
    with IH keeps res get1 show ?thesis by auto
  qed
qed

section \<open>Runs of the manager\<close>

datatype mg_op =
    MgStart Timestamp Timestamp string ServiceConfig
  | MgStop Timestamp string
  | MgStatus string
  | MgCheck

fun mg_step :: "'w host \<Rightarrow> (OrchError \<Rightarrow> string) \<Rightarrow> 'b backend \<Rightarrow> mg_op \<Rightarrow> ('b, 'w) manager \<Rightarrow> ('b, 'w) manager" where
  "mg_step H display B (MgStart created now name config) mg = snd (start_service B created now name config mg)"
| "mg_step H display B (MgStop now name) mg = snd (stop_service B now name mg)"
| "mg_step H display B (MgStatus name) mg = snd (get_service_status B name mg)"
| "mg_step H display B MgCheck mg = snd (run_health_checks H display mg)"

inductive mg_reach :: "'w host \<Rightarrow> (OrchError \<Rightarrow> string) \<Rightarrow> 'b backend \<Rightarrow> ('b, 'w) manager \<Rightarrow> ('b, 'w) manager \<Rightarrow> bool"
  for H :: "'w host" and display :: "OrchError \<Rightarrow> string" and B :: "'b backend" and mg0 :: "('b, 'w) manager" where
  mg_start: "mg_reach H display B mg0 mg0"
| mg_more: "mg_reach H display B mg0 mg \<Longrightarrow> mg_reach H display B mg0 (mg_step H display B op mg)"

text \<open>
  The invariant: the registry's; the maps have one value for each key; every active service has an executor
  that handles it and, if it has a health check, a monitor for that check.
\<close>

definition covered :: "('b, 'w) manager \<Rightarrow> bool" where
  "covered mg \<longleftrightarrow> (\<forall>n r. hm_get (mg_active_services mg) n = Some r \<longrightarrow>
     is_ok (find_executor (mg_executors mg) (rs_config r)) \<and>
     (\<forall>hc. sc_health_check (rs_config r) = Some hc \<longrightarrow>
        (\<exists>m. hm_get (mg_health_monitors mg) n = Some m \<and> hm_config m = hc)))"

definition mg_inv :: "('b \<Rightarrow> string \<Rightarrow> ServiceEntry option) \<Rightarrow> (ServiceEntry \<Rightarrow> bool) \<Rightarrow> 'w host \<Rightarrow> ('b, 'w) manager \<Rightarrow> bool" where
  "mg_inv view storable H mg \<longleftrightarrow> rg_inv view storable (mg_registry mg) \<and>
     hm_wf (mg_active_services mg) \<and> hm_wf (mg_health_monitors mg) \<and>
     set (mg_executors mg) = set (std_executors H) \<and> covered mg"

text \<open>An entry that is not stopping is not changed by anything the manager does.\<close>

definition settled :: "(string \<Rightarrow> ServiceEntry option) \<Rightarrow> (string \<Rightarrow> ServiceEntry option) \<Rightarrow> bool" where
  "settled v v' \<longleftrightarrow> (\<forall>n e. v n = Some e \<and> se_state e \<noteq> Stopping \<longrightarrow> v' n = Some e)"

lemma settled_refl [simp]: "settled v v"
  by (simp add: settled_def)

lemma settled_trans: "settled u v \<Longrightarrow> settled v w \<Longrightarrow> settled u w"
  by (simp add: settled_def)

lemma covered_remove:
  "covered mg \<Longrightarrow> covered (mg\<lparr>mg_active_services := hm_remove name (mg_active_services mg), mg_exec := s\<rparr>)"
  "covered mg \<Longrightarrow> covered (mg\<lparr>mg_active_services := hm_remove name (mg_active_services mg)\<rparr>)"
  by (auto simp: covered_def)

lemma covered_stop:
  "covered mg \<Longrightarrow> covered (mg\<lparr>mg_active_services := hm_remove name (mg_active_services mg), mg_exec := s,
     mg_health_monitors := hm_remove name (mg_health_monitors mg), mg_registry := g\<rparr>)"
  by (fastforce simp: covered_def)

lemma covered_start:
  assumes cov: "covered mg" and new: "\<not> hm_has (mg_active_services mg) name"
    and ex: "set (mg_executors mg) = set (std_executors H)"
    and x: "find_executor (mg_executors mg) config = Inr x" "ex_start x config (mg_exec mg) = (Inr sv, s)"
  shows "covered (mg\<lparr>mg_exec := s, mg_health_monitors := add_monitor name config (mg_health_monitors mg),
     mg_active_services := hm_insert name sv (mg_active_services mg), mg_registry := g\<rparr>)"
proof -
  from orchestrator.started_stoppable [OF same_executors [OF ex] x]
  have sv: "rs_config sv = config" "find_executor (mg_executors mg) config = Inr x" using x(1) by simp_all
  have mon: "n \<noteq> name \<Longrightarrow> hm_get (add_monitor name config ms) n = hm_get ms n" for n ms
    by (simp add: add_monitor_def split: option.split)
  have "sc_health_check config = Some hc \<Longrightarrow> hm_get (add_monitor name config ms) name = Some (monitor_new hc)" for hc ms
    by (simp add: add_monitor_def)
  moreover have "hm_config (monitor_new hc) = hc" for hc by (simp add: monitor_new_def)
  ultimately show ?thesis using cov sv mon by (auto simp: covered_def)
qed

lemma entry_new_sel:
  "entry_new created name version ex loc = Inr e \<Longrightarrow>
     se_name e = name \<and> se_state e = Registered \<and> se_endpoints e = [] \<and> se_execution e = ex"
  by (auto simp: entry_new_def split: if_splits)

lemma entry_new_run:
  "entry_new created name ''1.0.0'' execution location =
     (if str_blank name then Inl (PackageErr (MsgText ''Service name cannot be empty''))
      else Inr \<lparr>se_name = name, se_version = ''1.0.0'', se_execution = execution, se_location = location,
        se_endpoints = [], se_depends_on = [], se_state = Registered, se_last_health_check = None,
        se_registered_at = created, se_last_state_change = created\<rparr>)"
proof -
  have "str_trim ''1.0.0'' \<noteq> []" by (simp add: str_trim_empty str_blank_def is_space_def)
  then show ?thesis by (simp add: entry_new_def str_trim_empty)
qed

text \<open>A registration over the database: which entry is there afterwards, by what the database answers.\<close>

context sled_db
begin

lemma register_sview:
  assumes e: "entry_encodable (jt_is_addr J) e" and run: "register (sled_backend S J) now e g = (r, g')"
  shows "rg_subscribers g' = rg_subscribers g \<and>
    sled_view content J (rg_backend g') =
      (if sl_get S (se_name e) (ss_services (rg_backend g)) = Inr None \<and>
          is_ok (fst (sl_insert S (se_name e) (jt_print J (entry_json e)) (ss_services (rg_backend g))))
       then (sled_view content J (rg_backend g))(se_name e \<mapsto> e) else sled_view content J (rg_backend g))"
proof (cases "sl_get S (se_name e) (ss_services (rg_backend g)) = Inr None")
  case False
  with run have "g' = g"
    by (cases "sl_get S (se_name e) (ss_services (rg_backend g))")
      (auto simp: register_def on_backend_def act_bind_def sled_backend_def sled_get_service_def act_err_def
        split: option.splits sum.splits prod.splits if_splits)
  with False show ?thesis by simp
next
  case True
  obtain q t where q: "sl_insert S (se_name e) (jt_print J (entry_json e)) (ss_services (rg_backend g)) = (q, t)"
    by fastforce
  obtain f u where f: "sl_flush S t = (f, u)" by fastforce
  let ?b = "\<lambda>t. (rg_backend g)\<lparr>ss_services := t\<rparr>"
  have g': "g' = g\<lparr>rg_backend := ?b (if is_ok q then u else t)\<rparr>"
    using run True q f
    by (cases q; cases f) (auto simp: register_def on_backend_def act_bind_def sled_backend_def sled_get_service_def
        sled_put_service_def on_services_def emit_def)
  have "content (ss_services (rg_backend g')) = (if is_ok q then
      (content (ss_services (rg_backend g)))(se_name e \<mapsto> jt_print J (entry_json e)) else content (ss_services (rg_backend g)))"
    using insert_content [OF q] flush_content [OF f] by (simp add: g')
  with True q sview_update [OF _ e, of "rg_backend g'" "rg_backend g"] sview_same [of "rg_backend g'" "rg_backend g"]
  show ?thesis by (auto simp: g' split: if_splits)
qed

end

context registry_store
begin

lemma register_settled:
  assumes "inv g" and "storable e"
  shows "inv (snd (register B now e g)) \<and> settled (rview g) (rview (snd (register B now e g)))"
proof -
  obtain r g' where "register B now e g = (r, g')" by fastforce
  with register_run [OF assms this] show ?thesis by (auto simp: settled_def split: sum.splits)
qed

lemma stopped_settled:
  assumes "inv g"
  shows "inv (snd (update_state B now n Stopped g)) \<and> settled (rview g) (rview (snd (update_state B now n Stopped g)))"
proof -
  obtain r g' where run: "update_state B now n Stopped g = (r, g')" by fastforce
  have "is_valid_transition st Stopped \<Longrightarrow> st = Stopping" for st by (cases st) auto
  with update_state_run [OF assms run] run show ?thesis
    by (auto simp: settled_def split: sum.splits if_splits)
qed

lemma get_settled:
  assumes "inv g"
  shows "inv (snd (get_entry B n g)) \<and> settled (rview g) (rview (snd (get_entry B n g)))"
proof -
  obtain r g' where run: "get_entry B n g = (r, g')" by fastforce
  with get_entry_run [OF assms run] same_inv [OF _ assms] show ?thesis by (auto simp: same_def)
qed

lemma mg_step_ok:
  assumes inv: "mg_inv view storable H mg"
    and fresh: "\<And>e. se_endpoints e = [] \<Longrightarrow> storable e"
  shows "mg_inv view storable H (mg_step H display B op mg) \<and>
    settled (rview (mg_registry mg)) (rview (mg_registry (mg_step H display B op mg)))"
proof (cases op)
  case (MgStart created now name config)
  obtain r mg' where run: "start_service B created now name config mg = (r, mg')" by fastforce
  from run show ?thesis
  proof (cases rule: start_service_cases)
    case (failed x e s)
    with inv run MgStart show ?thesis by (simp add: mg_inv_def covered_def)
  next
    case (started x sv s g)
    have reg: "inv g \<and> settled (rview (mg_registry mg)) (rview g)"
    proof (cases "entry_new created name ''1.0.0'' (execution_info name config sv) LocLocal")
      case (Inl e)
      with started(5) inv show ?thesis by (simp add: mg_inv_def)
    next
      case (Inr e)
      with started(5) register_settled [where g = "mg_registry mg" and e = e and now = now] inv fresh [of e] entry_new_sel [OF Inr]
      show ?thesis by (simp add: mg_inv_def)
    qed
    from inv have ex: "set (mg_executors mg) = set (std_executors H)" and cov: "covered mg"
      by (simp_all add: mg_inv_def)
    from covered_start [OF cov started(1) ex started(2,3), of g] reg inv run MgStart started(4) show ?thesis
      by (auto simp: mg_inv_def add_monitor_def split: option.splits)
  qed (use inv run MgStart in simp_all)
next
  case (MgStop now name)
  obtain r mg' where run: "stop_service B now name mg = (r, mg')" by fastforce
  from run show ?thesis
  proof (cases rule: stop_service_cases)
    case (stopped sv x s)
    with stopped_settled [where g = "mg_registry mg" and now = now and n = name] inv covered_stop [where mg = mg and name = name] run MgStop show ?thesis
      by (simp add: mg_inv_def)
  qed (use inv run MgStop in \<open>simp_all add: mg_inv_def covered_remove\<close>)
next
  case (MgStatus name)
  obtain r g where g: "get_entry B name (mg_registry mg) = (r, g)" by fastforce
  then have "snd (get_service_status B name mg) = mg\<lparr>mg_registry := g\<rparr>"
    by (simp add: get_service_status_def act_bind_def on_registry_def)
  with get_settled [where g = "mg_registry mg" and n = name] g inv MgStatus show ?thesis by (simp add: mg_inv_def covered_def)
next
  case MgCheck
  obtain r mg' where run: "run_health_checks H display mg = (r, mg')" by fastforce
  from inv have wf: "hm_wf (mg_health_monitors mg)" by (simp add: mg_inv_def)
  then have "distinct (hm_keys (mg_health_monitors mg))" by (simp add: hm_keys_def hm_wf_def)
  from check_services_run [OF this _ wf run [unfolded run_health_checks_def]]
  have "same_but_monitors mg mg'" "hm_wf (mg_health_monitors mg')"
    "\<forall>n m. hm_get (mg_health_monitors mg) n = Some m \<longrightarrow>
       (\<exists>m'. hm_get (mg_health_monitors mg') n = Some m' \<and> hm_config m' = hm_config m)" by simp_all
  with inv run MgCheck show ?thesis
    by (fastforce simp: mg_inv_def covered_def same_but_monitors_def)
qed

lemma mg_reach_ok:
  assumes "mg_reach H display B mg0 mg" and "mg_inv view storable H mg0"
    and "\<And>e. se_endpoints e = [] \<Longrightarrow> storable e"
  shows "mg_inv view storable H mg \<and> settled (rview (mg_registry mg0)) (rview (mg_registry mg))"
  using assms
proof (induction rule: mg_reach.induct)
  case (mg_more mg op)
  with mg_step_ok [of H mg display op] show ?case by (blast intro: settled_trans)
qed simp

end

section \<open>Properties\<close>

text \<open>A manager for the examples: the in-memory registry and the machine of the executors' examples.\<close>

definition demo_manager :: "((string, json) hmap sled_store, string list) manager" where
  "demo_manager = \<lparr>mg_registry = empty_registry, mg_network_manager = start_manager,
     mg_executors = std_executors demo_host, mg_active_services = [], mg_health_monitors = [], mg_exec = demo_state\<rparr>"

lemma demo_manager_inv:
  "mg_inv (sled_view hm_get mem_json) (entry_encodable (jt_is_addr mem_json)) demo_host demo_manager"
  using empty_registry_inv by (simp add: mg_inv_def demo_manager_def covered_def)

lemma fresh_encodable: "se_endpoints e = [] \<Longrightarrow> entry_encodable is_addr e"
  by (simp add: entry_encodable_def)

text \<open>
  C28. The manager's invariant. Whatever sequence of starts, stops, status queries and health
  rounds it goes through, with whatever errors, the registry keeps its invariant, both maps
  have one value for each key, and every active service has an executor that handles its
  configuration and, if it is configured with a health check, a monitor for that check.
\<close>

theorem manager_invariant:
  assumes db: "sled_db S content J"
    and init: "mg_inv (sled_view content J) (entry_encodable (jt_is_addr J)) H mg0"
    and reach: "mg_reach H display (sled_backend S J) mg0 mg"
  shows "mg_inv (sled_view content J) (entry_encodable (jt_is_addr J)) H mg"
  using registry_store.mg_reach_ok [OF sled_db.store_laws [OF db] reach init fresh_encodable] by blast

theorem manager_invariant_witness:
  "mg_inv (sled_view hm_get mem_json) (entry_encodable (jt_is_addr mem_json)) demo_host
     (mg_step demo_host (\<lambda>_. ''error'') (sled_backend mem_sled mem_json)
       (MgStart ''t1'' ''t2'' ''api'' (demo_config ''api'')) demo_manager)"
  by (rule manager_invariant [OF mem.sled_db_axioms demo_manager_inv mg_more [OF mg_start]])

text \<open>
  The registry never learns of a change of state. In every run of the manager an entry
  whose state is not \<open>Stopping\<close> stays exactly as it is: the entry a start registers stays
  \<open>Registered\<close>, the update to \<open>Stopped\<close> at a stop is refused, and starting the service again
  does not replace it, though it carries the identifier of the first process.
\<close>

theorem registry_entries_frozen:
  assumes db: "sled_db S content J"
    and init: "mg_inv (sled_view content J) (entry_encodable (jt_is_addr J)) H mg0"
    and reach: "mg_reach H display (sled_backend S J) mg0 mg"
    and old: "sled_view content J (rg_backend (mg_registry mg0)) n = Some e" "se_state e \<noteq> Stopping"
  shows "sled_view content J (rg_backend (mg_registry mg)) n = Some e"
  using registry_store.mg_reach_ok [OF sled_db.store_laws [OF db] reach init fresh_encodable] old
  unfolding settled_def by blast

theorem registry_entries_frozen_witness:
  "sled_view hm_get mem_json (rg_backend (mg_registry
     (mg_step demo_host (\<lambda>_. ''error'') (sled_backend mem_sled mem_json)
       (MgStart ''t1'' ''t2'' ''api'' (demo_config ''api''))
       (demo_manager\<lparr>mg_registry := registered_registry\<rparr>)))) ''api'' = Some (example_entry ''api'')"
proof -
  let ?m = "demo_manager\<lparr>mg_registry := registered_registry\<rparr>"
  have inv: "mg_inv (sled_view hm_get mem_json) (entry_encodable (jt_is_addr mem_json)) demo_host ?m"
    using registered_registry_inv demo_manager_inv by (simp add: mg_inv_def covered_def)
  have "sled_view hm_get mem_json (rg_backend registered_registry) ''api'' = Some (example_entry ''api'')"
    by code_simp
  then show ?thesis
    by (intro registry_entries_frozen [OF mem.sled_db_axioms inv mg_more [OF mg_start]])
      (simp_all add: example_entry_def)
qed

text \<open>
  C30. Starting a service, on every branch. If it is active already, or no executor handles it, that is
  the error and nothing changes. If its executor fails, its error is returned and only the
  executors' state has changed. If the executor starts it, the service carries its name and
  configuration, is active, and is monitored if it has a health check. Then, with a blank name, the
  call fails although the service is active, and the registry is as it was; with any other name it
  succeeds, and the registry has a new entry of that name, in the state \<open>Registered\<close> with what is
  executed, exactly if the database answers that it has none and takes it; otherwise every entry is
  as it was.
\<close>

theorem start_service_contract:
  assumes db: "sled_db S content J"
    and inv: "mg_inv (sled_view content J) (entry_encodable (jt_is_addr J)) H mg"
    and run: "start_service (sled_backend S J) created now name config mg = (r, mg')"
  shows "if hm_has (mg_active_services mg) name then r = Inl (OServiceExists name) \<and> mg' = mg
    else case find (\<lambda>x. ex_can_handle x config) (hm_values (mg_executors mg)) of
      None \<Rightarrow> r = Inl (OConfig (ONoExecutor (sc_target config))) \<and> mg' = mg
    | Some x \<Rightarrow>
      (case ex_start x config (mg_exec mg) of
         (Inl err, s) \<Rightarrow> r = Inl err \<and> mg' = mg\<lparr>mg_exec := s\<rparr>
       | (Inr sv, s) \<Rightarrow>
           rs_name sv = sc_name config \<and> rs_config sv = config \<and> mg_exec mg' = s \<and>
           mg_executors mg' = mg_executors mg \<and> mg_network_manager mg' = mg_network_manager mg \<and>
           (\<forall>n. hm_get (mg_active_services mg') n = (if n = name then Some sv else hm_get (mg_active_services mg) n)) \<and>
           (\<forall>n. hm_get (mg_health_monitors mg') n =
              (case sc_health_check config of
                 None \<Rightarrow> hm_get (mg_health_monitors mg) n
               | Some hc \<Rightarrow> if n = name then Some (monitor_new hc) else hm_get (mg_health_monitors mg) n)) \<and>
           (if str_blank name then
              r = Inl (ORegistry (PackageErr (MsgText ''Service name cannot be empty''))) \<and> mg_registry mg' = mg_registry mg
            else r = Inr sv \<and> rg_subscribers (mg_registry mg') = rg_subscribers (mg_registry mg) \<and>
              (\<exists>e. e = \<lparr>se_name = name, se_version = ''1.0.0'',
                  se_execution = (case sc_target config of
                      TProcess binary args _ _ \<Rightarrow> ManagedProcess (rs_pid sv) binary args
                    | TDocker img _ _ _ \<Rightarrow> DockerContainer (rs_container_id sv) img (Some (''orchestrator-'' @ name))
                    | _ \<Rightarrow> ManagedProcess None name []),
                  se_location = LocLocal, se_endpoints = [], se_depends_on = [], se_state = Registered,
                  se_last_health_check = None, se_registered_at = created, se_last_state_change = created\<rparr> \<and>
                sled_view content J (rg_backend (mg_registry mg')) =
                  (if sl_get S name (ss_services (rg_backend (mg_registry mg))) = Inr None \<and>
                      is_ok (fst (sl_insert S name (jt_print J (entry_json e)) (ss_services (rg_backend (mg_registry mg)))))
                   then (sled_view content J (rg_backend (mg_registry mg)))(name \<mapsto> e)
                   else sled_view content J (rg_backend (mg_registry mg))))))"
  using run
proof (cases rule: start_service_cases)
  case (started x sv s g)
  have ex: "set (mg_executors mg) = set (std_executors H)" using inv by (simp add: mg_inv_def)
  from orchestrator.started_stoppable [OF same_executors [OF ex] started(2,3)]
  have sv: "rs_name sv = sc_name config" "rs_config sv = config" by simp_all
  from started(2) have x: "find (\<lambda>x. ex_can_handle x config) (hm_values (mg_executors mg)) = Some x"
    by (cases "find (\<lambda>x. ex_can_handle x config) (hm_values (mg_executors mg))") (simp_all add: find_executor_def)
  have mon: "hm_get (mg_health_monitors mg') n = (case sc_health_check config of
       None \<Rightarrow> hm_get (mg_health_monitors mg) n
     | Some hc \<Rightarrow> if n = name then Some (monitor_new hc) else hm_get (mg_health_monitors mg) n)" for n
    by (simp add: started(4) add_monitor_def split: option.split)
  let ?e = "\<lparr>se_name = name, se_version = ''1.0.0'', se_execution = execution_info name config sv, se_location = LocLocal,
     se_endpoints = [], se_depends_on = [], se_state = Registered, se_last_health_check = None,
     se_registered_at = created, se_last_state_change = created\<rparr>"
  have reg: "r = Inr sv \<and> rg_subscribers g = rg_subscribers (mg_registry mg) \<and>
      sled_view content J (rg_backend g) =
        (if sl_get S name (ss_services (rg_backend (mg_registry mg))) = Inr None \<and>
            is_ok (fst (sl_insert S name (jt_print J (entry_json ?e)) (ss_services (rg_backend (mg_registry mg)))))
         then (sled_view content J (rg_backend (mg_registry mg)))(name \<mapsto> ?e)
         else sled_view content J (rg_backend (mg_registry mg)))" if "\<not> str_blank name"
    using started(5) that sled_db.register_sview [OF db fresh_encodable, of ?e now "mg_registry mg"]
    by (cases "register (sled_backend S J) now ?e (mg_registry mg)") (simp add: entry_new_run)
  show ?thesis
  proof (cases "str_blank name")
    case True
    with started x sv mon show ?thesis by (simp add: entry_new_run)
  next
    case False
    with started x sv mon reg [OF False] show ?thesis by (simp add: execution_info_def)
  qed
qed (auto simp: find_executor_def split: option.splits)

theorem start_service_contract_witness:
  "\<exists>sv mg'. start_service (sled_backend mem_sled mem_json) ''t1'' ''t2'' ''api'' (demo_config ''api'') demo_manager = (Inr sv, mg') \<and>
     hm_get (mg_active_services mg') ''api'' = Some sv \<and> rs_pid sv = Some 7 \<and>
     sled_view hm_get mem_json (rg_backend (mg_registry mg')) ''api'' =
       Some \<lparr>se_name = ''api'', se_version = ''1.0.0'', se_execution = ManagedProcess (Some 7) ''srv'' [''-p''],
         se_location = LocLocal, se_endpoints = [], se_depends_on = [], se_state = Registered,
         se_last_health_check = None, se_registered_at = ''t1'', se_last_state_change = ''t1''\<rparr>"
proof -
  let ?p = "start_service (sled_backend mem_sled mem_json) ''t1'' ''t2'' ''api'' (demo_config ''api'') demo_manager"
  have target: "sc_target (demo_config ''api'') = TProcess ''srv'' [''-p''] [(''A'', ''1'')] None" by (simp add: demo_config_def)
  have find: "find (\<lambda>x. ex_can_handle x (demo_config ''api'')) (hm_values (mg_executors demo_manager)) =
      Some (process_executor demo_host)"
    by (simp add: demo_manager_def std_executors_def hm_values_def hm_insert_def target docker_executor_def
        process_executor_def docker_can_handle_def process_can_handle_def)
  obtain sv s where start: "ex_start (process_executor demo_host) (demo_config ''api'') (mg_exec demo_manager) = (Inr sv, s)"
    and pid: "rs_pid sv = Some 7"
    using process_start_run [OF target, of demo_host demo_state]
    by (simp add: process_executor_def demo_manager_def demo_host_def demo_state_def)
  obtain r mg' where run: "?p = (r, mg')" by fastforce
  have empty: "hm_get (ss_services (rg_backend (mg_registry demo_manager))) ''api'' = None" by code_simp
  have new: "\<not> hm_has (mg_active_services demo_manager) ''api''" "\<not> str_blank ''api''" by code_simp+
  from start_service_contract [OF mem.sled_db_axioms demo_manager_inv run] run empty pid show ?thesis
    by (simp add: new find start target) (simp add: mem_sled_def)
qed





end
