(* ===== verification/Reg_Websocket.thy ===== *)
theory Reg_Websocket
  imports Reg_Registry
begin

text \<open>
  The registry over a websocket: the connection handler of
  \<^verbatim>\<open>crates/service-registry/src/websocket.rs\<close> (both variants of its macro) and the client of
  \<^verbatim>\<open>client.rs\<close>. The socket's \<open>send\<close> is a parameter on the state \<open>'s\<close> of the connection, incoming
  frames are a list, a text is printed and parsed by the JSON library \<open>we_json\<close>, and
  \<open>we_display\<close> prints an error. A oneshot channel is a number, and what was sent on it is kept
  with the client.
\<close>

section \<open>The connection handler\<close>

datatype 'x out_frame = OutText 'x | OutPong string | OutClose

datatype 'x in_frame = InText 'x | InClose | InPing string | InOther | InError string

record ('b, 's, 'x) ws_env =
  we_backend :: "'b backend"
  we_json :: "'x json_text"
  we_send :: "'x out_frame \<Rightarrow> ('s, RegError, unit) act"
  we_display :: "RegError \<Rightarrow> string"

record ('b, 's) ws_conn =
  wc_registry :: "'b registry"
  wc_socket :: 's
  wc_addr :: SocketAddr
  wc_subscriptions :: "EventType list"

type_synonym ('b, 's, 'a) conn_act = "(('b, 's) ws_conn, RegError, 'a) act"

definition conn_registry :: "('b, 'a) rg_act \<Rightarrow> ('b, 's, 'a) conn_act" where
  "conn_registry m c = (case m (wc_registry c) of (r, g) \<Rightarrow> (r, c\<lparr>wc_registry := g\<rparr>))"

definition send_frame :: "('b, 's, 'x) ws_env \<Rightarrow> 'x out_frame \<Rightarrow> ('b, 's, unit) conn_act" where
  "send_frame E f c = (case we_send E f (wc_socket c) of (r, s) \<Rightarrow> (r, c\<lparr>wc_socket := s\<rparr>))"

definition send_message :: "('b, 's, 'x) ws_env \<Rightarrow> WsMessage \<Rightarrow> ('b, 's, unit) conn_act" where
  "send_message E msg = send_frame E (OutText (jt_print (we_json E) (message_json msg)))"

definition send_response :: "('b, 's, 'x) ws_env \<Rightarrow> string \<Rightarrow> json \<Rightarrow> ('b, 's, unit) conn_act" where
  "send_response E i data = send_message E (WsResponse i (Some data) None)"

definition send_error_response :: "('b, 's, 'x) ws_env \<Rightarrow> string \<Rightarrow> RegError \<Rightarrow> ('b, 's, unit) conn_act" where
  "send_error_response E i e =
     send_message E (WsResponse i None (Some \<lparr>err_code = ''error'', err_message = we_display E e, err_details = None\<rparr>))"

definition from_value :: "'x json_text \<Rightarrow> (json \<Rightarrow> 'a option) \<Rightarrow> json \<Rightarrow> RegError + 'a" where
  "from_value J dec j = ok_or (dec j) (JsonErr (jt_reject J j))"

definition entries_json :: "ServiceEntry list \<Rightarrow> json" where
  "entries_json es = JArr (map entry_json es)"

definition events_json :: "EventType list \<Rightarrow> json" where
  "events_json evs = JArr (map event_json evs)"

definition handle_list_services :: "('b, 's, 'x) ws_env \<Rightarrow> ('b, 's, json) conn_act" where
  "handle_list_services E =
     act_bind (conn_registry (list_entries (we_backend E))) (\<lambda>services. act_ret (entries_json services))"

definition handle_get_service :: "('b, 's, 'x) ws_env \<Rightarrow> json \<Rightarrow> ('b, 's, json) conn_act" where
  "handle_get_service E params =
     act_bind (act_lift (from_value (we_json E) (json_field json_str ''name'') params)) (\<lambda>name.
     act_bind (conn_registry (get_entry (we_backend E) name)) (\<lambda>service.
     act_ret (entry_json service)))"

definition json_action_params :: "json \<Rightarrow> (string \<times> ServiceAction) option" where
  "json_action_params j =
     opt_bind (json_field json_str ''name'' j) (\<lambda>name.
     map_option (Pair name) (json_field json_service_action ''action'' j))"

definition target_state :: "ServiceAction \<Rightarrow> ServiceState option" where
  "target_state a = (case a of
     ActStart \<Rightarrow> Some Starting | ActStop \<Rightarrow> Some Stopping | ActRestart \<Rightarrow> Some Starting | ActReload \<Rightarrow> None)"

definition handle_service_action :: "('b, 's, 'x) ws_env \<Rightarrow> Timestamp \<Rightarrow> json \<Rightarrow> ('b, 's, json) conn_act" where
  "handle_service_action E now params =
     act_bind (act_lift (from_value (we_json E) json_action_params params)) (\<lambda>(name, action).
     case target_state action of
       None \<Rightarrow> act_ret (JObj [(''status'', JStr ''reload_initiated'')])
     | Some new_state \<Rightarrow>
         act_bind (conn_registry (update_state (we_backend E) now name new_state)) (\<lambda>(old_state, _).
         act_ret (JObj [(''service'', JStr name), (''old_state'', state_json old_state),
           (''new_state'', state_json new_state)])))"

definition handle_list_endpoints :: "('b, 's, 'x) ws_env \<Rightarrow> ('b, 's, json) conn_act" where
  "handle_list_endpoints E =
     act_bind (conn_registry (list_endpoints (we_backend E))) (\<lambda>endpoints.
     act_ret (map_json (\<lambda>eps. JArr (map endpoint_json eps)) endpoints))"

definition subscribed_json :: "('b, 's) ws_conn \<Rightarrow> json" where
  "subscribed_json c = JObj [(''subscribed'', events_json (wc_subscriptions c))]"

definition handle_subscribe :: "('b, 's, 'x) ws_env \<Rightarrow> json \<Rightarrow> ('b, 's, json) conn_act" where
  "handle_subscribe E params =
     act_bind (act_lift (from_value (we_json E) (json_field (json_arr json_event) ''events'') params)) (\<lambda>events c.
     let c = c\<lparr>wc_subscriptions := foldl (\<lambda>acc e. hs_insert e acc) (wc_subscriptions c) events\<rparr> in
     act_bind (conn_registry (subscribe (wc_addr c) events)) (\<lambda>_ c. (Inr (subscribed_json c), c)) c)"

definition handle_unsubscribe :: "('b, 's, 'x) ws_env \<Rightarrow> json \<Rightarrow> ('b, 's, json) conn_act" where
  "handle_unsubscribe E params =
     act_bind (act_lift (from_value (we_json E) (json_field (json_arr json_event) ''events'') params)) (\<lambda>events c.
     let c = c\<lparr>wc_subscriptions := foldl (\<lambda>acc e. hs_remove e acc) (wc_subscriptions c) events\<rparr> in
     act_bind (conn_registry (unsubscribe (wc_addr c) events)) (\<lambda>_ c. (Inr (subscribed_json c), c)) c)"

definition handle_deploy_package :: "json \<Rightarrow> ('b, 's, json) conn_act" where
  "handle_deploy_package params = act_err (PackageErr (MsgText ''Package deployment not yet implemented''))"

definition dispatch_action :: "('b, 's, 'x) ws_env \<Rightarrow> Timestamp \<Rightarrow> Action \<Rightarrow> json \<Rightarrow> ('b, 's, json) conn_act" where
  "dispatch_action E now action params =
     (case action of
        ListServices \<Rightarrow> handle_list_services E
      | GetService \<Rightarrow> handle_get_service E params
      | ServiceActionReq \<Rightarrow> handle_service_action E now params
      | ListEndpoints \<Rightarrow> handle_list_endpoints E
      | Subscribe \<Rightarrow> handle_subscribe E params
      | Unsubscribe \<Rightarrow> handle_unsubscribe E params
      | DeployPackage \<Rightarrow> handle_deploy_package params)"

definition handle_request :: "('b, 's, 'x) ws_env \<Rightarrow> Timestamp \<Rightarrow> string \<Rightarrow> Action \<Rightarrow> json \<Rightarrow> ('b, 's, unit) conn_act" where
  "handle_request E now i action params =
     act_bind (act_try (dispatch_action E now action params)) (\<lambda>response.
     case response of
       Inr data \<Rightarrow> send_response E i data
     | Inl e \<Rightarrow> send_error_response E i e)"

definition process_text_message :: "('b, 's, 'x) ws_env \<Rightarrow> Timestamp \<Rightarrow> 'x \<Rightarrow> ('b, 's, unit) conn_act" where
  "process_text_message E now text =
     act_bind (act_lift (from_slice (we_json E) json_message text)) (\<lambda>msg.
     case msg of
       WsRequest i action params \<Rightarrow> handle_request E now i action params
     | _ \<Rightarrow> act_ret ())"

definition send_initial_state :: "('b, 's, 'x) ws_env \<Rightarrow> ('b, 's, unit) conn_act" where
  "send_initial_state E =
     act_bind (conn_registry (list_entries (we_backend E))) (\<lambda>services.
     send_message E (WsEvent EvRegistryLoaded (entries_json services)))"

text \<open>The frames arrive with the instants at which they are handled.\<close>

fun process_frames :: "('b, 's, 'x) ws_env \<Rightarrow> (Timestamp \<times> 'x in_frame) list \<Rightarrow> ('b, 's, unit) conn_act" where
  "process_frames E [] = act_ret ()"
| "process_frames E ((now, InText text) # fs) =
     act_bind (act_try (process_text_message E now text)) (\<lambda>r.
     case r of
       Inr _ \<Rightarrow> process_frames E fs
     | Inl e \<Rightarrow> act_bind (send_error_response E [] e) (\<lambda>_. process_frames E fs))"
| "process_frames E ((now, InClose) # fs) = act_ret ()"
| "process_frames E ((now, InPing data) # fs) =
     act_bind (send_frame E (OutPong data)) (\<lambda>_. process_frames E fs)"
| "process_frames E ((now, InOther) # fs) = process_frames E fs"
| "process_frames E ((now, InError e) # fs) = act_ret ()"

definition handle_connection :: "('b, 's, 'x) ws_env \<Rightarrow> (Timestamp \<times> 'x in_frame) list \<Rightarrow> ('b, 's, unit) conn_act" where
  "handle_connection E frames =
     act_bind (send_initial_state E) (\<lambda>_.
     act_bind (process_frames E frames) (\<lambda>_ c.
     conn_registry (remove_subscriber (wc_addr c)) c))"

definition is_subscribed :: "('b, 's) ws_conn \<Rightarrow> EventType \<Rightarrow> bool" where
  "is_subscribed c event_type = (event_type \<in> set (wc_subscriptions c))"

definition send_event :: "('b, 's, 'x) ws_env \<Rightarrow> EventType \<Rightarrow> json \<Rightarrow> ('b, 's, unit) conn_act" where
  "send_event E event data c =
     (if is_subscribed c event then send_message E (WsEvent event data) c else (Inr (), c))"

section \<open>The client\<close>

record ws_client =
  cl_pending_requests :: "(string, nat) hmap"
  cl_sent :: "(nat \<times> (RegError + json)) list"

definition client_new :: ws_client where
  "client_new = \<lparr>cl_pending_requests = [], cl_sent = []\<rparr>"

definition response_result :: "json option \<Rightarrow> ErrorInfo option \<Rightarrow> RegError + json" where
  "response_result data error =
     (case error of
        Some e \<Rightarrow> Inl (PackageErr (MsgText (err_message e)))
      | None \<Rightarrow>
          (case data of
             Some d \<Rightarrow> Inr d
           | None \<Rightarrow> Inl (PackageErr (MsgText ''Empty response''))))"

definition handle_message :: "'x json_text \<Rightarrow> 'x \<Rightarrow> (ws_client, RegError, unit) act" where
  "handle_message J text cl =
     (case from_slice J json_message text of
        Inl e \<Rightarrow> (Inl e, cl)
      | Inr (WsResponse i data error) \<Rightarrow>
          (case hm_get (cl_pending_requests cl) i of
             None \<Rightarrow> (Inr (), cl)
           | Some tx \<Rightarrow>
               (Inr (), cl\<lparr>cl_pending_requests := hm_remove i (cl_pending_requests cl),
                  cl_sent := cl_sent cl @ [(tx, response_result data error)]\<rparr>))
      | Inr _ \<Rightarrow> (Inr (), cl))"

definition register_request :: "string \<Rightarrow> nat \<Rightarrow> ws_client \<Rightarrow> ws_client" where
  "register_request i tx cl = cl\<lparr>cl_pending_requests := hm_insert i tx (cl_pending_requests cl)\<rparr>"

text \<open>
  One step of the client's loop: a request from a handle, a request to close, the last handle
  gone, or a frame; \<open>False\<close> when the loop ends.
\<close>

datatype 'x client_event = ClRequest WsMessage | ClClose | ClNoHandle | ClFrame "'x in_frame" | ClEnd

definition client_step ::
    "'x json_text \<Rightarrow> ('x out_frame \<Rightarrow> ('s, RegError, unit) act) \<Rightarrow> 'x client_event \<Rightarrow> (ws_client \<times> 's, RegError, bool) act" where
  "client_step J send ev = (\<lambda>(cl, s).
     case ev of
       ClRequest msg \<Rightarrow>
         (case send (OutText (jt_print J (message_json msg))) s of (r, s') \<Rightarrow> (map_sum id (\<lambda>_. True) r, (cl, s')))
     | ClClose \<Rightarrow> (case send OutClose s of (r, s') \<Rightarrow> (map_sum id (\<lambda>_. False) r, (cl, s')))
     | ClNoHandle \<Rightarrow> (Inr False, (cl, s))
     | ClFrame (InText text) \<Rightarrow> (Inr True, (snd (handle_message J text cl), s))
     | ClFrame InClose \<Rightarrow> (Inr False, (cl, s))
     | ClFrame (InError e) \<Rightarrow> (Inr False, (cl, s))
     | ClFrame _ \<Rightarrow> (Inr True, (cl, s))
     | ClEnd \<Rightarrow> (Inr False, (cl, s)))"

section \<open>The client's calls, over a request operation\<close>

type_synonym ('s, 'a) requester = "Action \<Rightarrow> json \<Rightarrow> ('s, RegError, 'a) act"

definition client_list_services :: "'x json_text \<Rightarrow> ('s, json) requester \<Rightarrow> ('s, RegError, ServiceEntry list) act" where
  "client_list_services J request =
     act_bind (request ListServices (JObj [])) (\<lambda>data.
     act_lift (from_value J (json_arr (json_entry (jt_is_addr J))) data))"

definition client_get_service :: "'x json_text \<Rightarrow> ('s, json) requester \<Rightarrow> string \<Rightarrow> ('s, RegError, ServiceEntry) act" where
  "client_get_service J request name =
     act_bind (request GetService (JObj [(''name'', JStr name)])) (\<lambda>data.
     act_lift (from_value J (json_entry (jt_is_addr J)) data))"

definition client_service_action :: "('s, json) requester \<Rightarrow> string \<Rightarrow> ServiceAction \<Rightarrow> ('s, RegError, json) act" where
  "client_service_action request name action =
     request ServiceActionReq (JObj [(''name'', JStr name), (''action'', service_action_json action)])"

definition client_list_endpoints ::
    "'x json_text \<Rightarrow> ('s, json) requester \<Rightarrow> ('s, RegError, (string, Endpoint list) hmap) act" where
  "client_list_endpoints J request =
     act_bind (request ListEndpoints (JObj [])) (\<lambda>data.
     act_lift (from_value J (json_map (json_arr (json_endpoint (jt_is_addr J)))) data))"

definition subscribed_of :: "'x json_text \<Rightarrow> string \<Rightarrow> json \<Rightarrow> RegError + EventType list" where
  "subscribed_of J complaint data =
     (case json_get ''subscribed'' data of
        Some evs \<Rightarrow> from_value J (json_arr json_event) evs
      | None \<Rightarrow> Inl (PackageErr (MsgText complaint)))"

definition client_subscribe :: "'x json_text \<Rightarrow> ('s, json) requester \<Rightarrow> EventType list \<Rightarrow> ('s, RegError, EventType list) act" where
  "client_subscribe J request events =
     act_bind (request Subscribe (JObj [(''events'', events_json events)])) (\<lambda>data.
     act_lift (subscribed_of J ''Invalid subscribe response'' data))"

definition client_unsubscribe :: "'x json_text \<Rightarrow> ('s, json) requester \<Rightarrow> EventType list \<Rightarrow> ('s, RegError, EventType list) act" where
  "client_unsubscribe J request events =
     act_bind (request Unsubscribe (JObj [(''events'', events_json events)])) (\<lambda>data.
     act_lift (subscribed_of J ''Invalid unsubscribe response'' data))"

definition client_deploy_package :: "('s, json) requester \<Rightarrow> string \<Rightarrow> string option \<Rightarrow> ('s, RegError, json) act" where
  "client_deploy_package request package_path target_node =
     request DeployPackage (JObj ((''package_path'', JStr package_path) #
       (case target_node of None \<Rightarrow> [] | Some node \<Rightarrow> [(''target_node'', JStr node)])))"

section \<open>Lemmas\<close>

lemma conn_registry_run:
  "conn_registry m c = (r, c') \<longleftrightarrow> (\<exists>g. m (wc_registry c) = (r, g) \<and> c' = c\<lparr>wc_registry := g\<rparr>)"
  by (auto simp: conn_registry_def split: prod.splits)

lemma act_bind_run:
  "act_bind m f s = (r, s') \<longleftrightarrow>
     (\<exists>e. m s = (Inl e, s') \<and> r = Inl e) \<or> (\<exists>x t. m s = (Inr x, t) \<and> f x t = (r, s'))"
  by (auto simp: act_bind_def split: prod.splits sum.splits)

lemmas handler_defs = handle_list_services_def handle_get_service_def handle_service_action_def
  handle_list_endpoints_def handle_subscribe_def handle_unsubscribe_def handle_deploy_package_def

text \<open>A handler leaves the socket alone and never answers with null.\<close>

lemma dispatch_socket:
  "dispatch_action E now action params c = (r, c') \<Longrightarrow>
     wc_socket c' = wc_socket c \<and> wc_addr c' = wc_addr c \<and> r \<noteq> Inr JNull"
  by (cases action)
    (auto simp: dispatch_action_def handler_defs act_bind_run conn_registry_run Let_def entries_json_def
      entry_json_def map_json_def subscribed_json_def split: option.splits prod.splits)

definition append_send :: "'x out_frame \<Rightarrow> ('x out_frame list, RegError, unit) act" where
  "append_send f s = (Inr (), s @ [f])"

text \<open>
  A request over a faultless socket: the client registers it under the identifier \<open>i\<close>, its text is
  handled by the connection, and every text that comes back by the client.
\<close>

definition exchange ::
    "('b, 'x out_frame list, 'x) ws_env \<Rightarrow> Timestamp \<Rightarrow> string \<Rightarrow> Action \<Rightarrow> json \<Rightarrow> ('b, 'x out_frame list, json) conn_act" where
  "exchange E now i action params c =
     (let text = jt_print (we_json E) (message_json (WsRequest i action params));
          c' = snd (process_text_message E now text (c\<lparr>wc_socket := []\<rparr>));
          cl = foldl (\<lambda>cl f. case f of OutText t \<Rightarrow> snd (handle_message (we_json E) t cl) | _ \<Rightarrow> cl)
                 (register_request i 0 client_new) (wc_socket c') in
      (case map_of (cl_sent cl) 0 of
         Some result \<Rightarrow> result
       | None \<Rightarrow> Inl (PackageErr (MsgText ''Request cancelled'')), c'))"

definition remote_error :: "('b, 's, 'x) ws_env \<Rightarrow> RegError \<Rightarrow> RegError" where
  "remote_error E e = PackageErr (MsgText (we_display E e))"

lemma exchange_run:
  assumes parse: "\<And>j. jt_parse (we_json E) (jt_print (we_json E) j) = Inr j"
    and send: "we_send E = append_send"
    and run: "dispatch_action E now action params (c\<lparr>wc_socket := []\<rparr>) = (r, c1)"
  shows "\<exists>t. exchange E now i action params c = (map_err (remote_error E) r, c1\<lparr>wc_socket := [OutText t]\<rparr>)"
proof -
  from dispatch_socket [OF run] have c1: "wc_socket c1 = []" "r \<noteq> Inr JNull" by simp_all
  have reads: "from_slice (we_json E) json_message (jt_print (we_json E) (message_json m)) = Inr m"
    if "message_encodable m" for m
    using parse that by (simp add: from_slice_def message_json_round)
  define reply where "reply = (case r of Inr d \<Rightarrow> WsResponse i (Some d) None
    | Inl e \<Rightarrow> WsResponse i None (Some \<lparr>err_code = ''error'', err_message = we_display E e, err_details = None\<rparr>))"
  have enc: "message_encodable reply" using c1(2)
    by (auto simp: reply_def message_encodable_def split: sum.splits)
  let ?t = "jt_print (we_json E) (message_json reply)"
  have "process_text_message E now (jt_print (we_json E) (message_json (WsRequest i action params))) (c\<lparr>wc_socket := []\<rparr>)
      = (Inr (), c1\<lparr>wc_socket := [OutText ?t]\<rparr>)"
    using run c1(1)
    by (cases r) (simp_all add: process_text_message_def reads message_encodable_def handle_request_def act_bind_def
      act_try_def send_response_def send_error_response_def send_message_def send_frame_def send append_send_def reply_def
      del: message_json.simps)
  moreover have "snd (handle_message (we_json E) ?t (register_request i 0 client_new)) =
      \<lparr>cl_pending_requests = [], cl_sent = [(0, map_err (remote_error E) r)]\<rparr>"
    by (cases r) (simp_all add: handle_message_def reads [OF enc], simp_all add: reply_def register_request_def
      client_new_def response_result_def remote_error_def hm_insert_def hm_remove_def hm_get_def AList.delete_eq)
  ultimately show ?thesis by (intro exI [of _ ?t]) (simp add: exchange_def Let_def)
qed

text \<open>The frames that end a loop over frames, the connection's and the client's.\<close>

definition ends_loop :: "'x in_frame \<Rightarrow> bool" where
  "ends_loop f = (case f of InClose \<Rightarrow> True | InError _ \<Rightarrow> True | _ \<Rightarrow> False)"

section \<open>Runs of the client\<close>

text \<open>
  What happens to a client: requests registered by its handles, and events of its loop. Once
  the loop has ended nothing reads the socket any more, but handles may still register.
\<close>

datatype 'x client_op = CoRegister string nat | CoEvent "'x client_event"

fun client_late :: "'x client_op list \<Rightarrow> ws_client \<Rightarrow> ws_client" where
  "client_late [] cl = cl"
| "client_late (CoRegister i tx # ops) cl = client_late ops (register_request i tx cl)"
| "client_late (CoEvent ev # ops) cl = client_late ops cl"

fun client_run ::
    "'x json_text \<Rightarrow> ('x out_frame \<Rightarrow> ('s, RegError, unit) act) \<Rightarrow> 'x client_op list \<Rightarrow> ws_client \<times> 's \<Rightarrow> ws_client" where
  "client_run J send [] st = fst st"
| "client_run J send (CoRegister i tx # ops) st = client_run J send ops (register_request i tx (fst st), snd st)"
| "client_run J send (CoEvent ev # ops) st =
     (case client_step J send ev st of
        (Inr True, st') \<Rightarrow> client_run J send ops st'
      | (_, st') \<Rightarrow> client_late ops (fst st'))"

fun registered :: "'x client_op list \<Rightarrow> (string \<times> nat) list" where
  "registered [] = []"
| "registered (CoRegister i tx # ops) = (i, tx) # registered ops"
| "registered (CoEvent ev # ops) = registered ops"

definition fresh_requests :: "(string \<times> nat) list \<Rightarrow> bool" where
  "fresh_requests R \<longleftrightarrow> distinct (map fst R) \<and> distinct (map snd R)"

text \<open>
  What the loop should do, said without the client: the socket after an event that it survives,
  the part of a run that it lives through, and the result a response carries for a request.
\<close>

fun goes_on ::
    "'x json_text \<Rightarrow> ('x out_frame \<Rightarrow> ('s, RegError, unit) act) \<Rightarrow> 'x client_event \<Rightarrow> 's \<Rightarrow> 's option" where
  "goes_on J send (ClRequest msg) s =
     (case send (OutText (jt_print J (message_json msg))) s of (Inr _, s') \<Rightarrow> Some s' | (Inl _, _) \<Rightarrow> None)"
| "goes_on J send (ClFrame f) s = (if ends_loop f then None else Some s)"
| "goes_on J send _ s = None"

fun lived ::
    "'x json_text \<Rightarrow> ('x out_frame \<Rightarrow> ('s, RegError, unit) act) \<Rightarrow> 'x client_op list \<Rightarrow> 's \<Rightarrow> 'x client_op list" where
  "lived J send [] s = []"
| "lived J send (CoRegister i tx # ops) s = CoRegister i tx # lived J send ops s"
| "lived J send (CoEvent ev # ops) s =
     (case goes_on J send ev s of None \<Rightarrow> [] | Some s' \<Rightarrow> CoEvent ev # lived J send ops s')"

fun response_to :: "'x json_text \<Rightarrow> string \<Rightarrow> 'x client_op \<Rightarrow> (RegError + json) option" where
  "response_to J i (CoEvent (ClFrame (InText text))) =
     (case from_slice J json_message text of
        Inr (WsResponse j data error) \<Rightarrow>
          if j \<noteq> i then None
          else Some (case error of
              Some e \<Rightarrow> Inl (PackageErr (MsgText (err_message e)))
            | None \<Rightarrow> (case data of Some d \<Rightarrow> Inr d | None \<Rightarrow> Inl (PackageErr (MsgText ''Empty response''))))
      | _ \<Rightarrow> None)"
| "response_to J i _ = None"

definition responses :: "'x json_text \<Rightarrow> string \<Rightarrow> 'x client_op list \<Rightarrow> (RegError + json) list" where
  "responses J i ops = List.map_filter (response_to J i) ops"

lemma responses_simps [simp]:
  "responses J i [] = []"
  "responses J i (op # ops) = (case response_to J i op of None \<Rightarrow> [] | Some res \<Rightarrow> [res]) @ responses J i ops"
  by (simp_all add: responses_def map_filter_simps split: option.split)

text \<open>What a client has for a request: the results sent to its channel, and the channel if it is pending.\<close>

definition outcome :: "string \<Rightarrow> nat \<Rightarrow> ws_client \<Rightarrow> (nat \<times> (RegError + json)) list \<times> nat option" where
  "outcome i tx cl = (filter (\<lambda>(t, _). t = tx) (cl_sent cl), hm_get (cl_pending_requests cl) i)"

text \<open>No other request is pending on the channel.\<close>

definition lone :: "string \<Rightarrow> nat \<Rightarrow> ws_client \<Rightarrow> bool" where
  "lone i tx cl \<longleftrightarrow> (\<forall>j ty. hm_get (cl_pending_requests cl) j = Some ty \<longrightarrow> (j = i) = (ty = tx))"

definition answered :: "nat \<Rightarrow> (RegError + json) list \<Rightarrow>
    (nat \<times> (RegError + json)) list \<times> nat option \<Rightarrow> (nat \<times> (RegError + json)) list \<times> nat option" where
  "answered tx rs out = (case (rs, snd out) of (r # _, Some _) \<Rightarrow> (fst out @ [(tx, r)], None) | _ \<Rightarrow> out)"

lemma answered_simps [simp]:
  "answered tx [] out = out" "answered tx (r # rs) (sent, None) = (sent, None)"
  "answered tx (r # rs) (sent, Some t) = (sent @ [(tx, r)], None)"
  by (simp_all add: answered_def split: list.split)

lemma answered_append: "answered tx (rs @ rs') out = answered tx rs' (answered tx rs out)"
  by (cases out; cases "snd out"; cases rs; cases rs') simp_all

lemma register_outcome:
  "lone i tx cl \<Longrightarrow> j \<noteq> i \<Longrightarrow> ty \<noteq> tx \<Longrightarrow>
     outcome i tx (register_request j ty cl) = outcome i tx cl \<and> lone i tx (register_request j ty cl)"
  by (simp add: outcome_def lone_def register_request_def)

definition heard :: "'x json_text \<Rightarrow> 'x client_event \<Rightarrow> ws_client \<Rightarrow> ws_client" where
  "heard J ev cl = (case ev of ClFrame (InText text) \<Rightarrow> snd (handle_message J text cl) | _ \<Rightarrow> cl)"

lemma heard_outcome:
  assumes "lone i tx cl"
  shows "outcome i tx (heard J ev cl) = answered tx (responses J i [CoEvent ev]) (outcome i tx cl) \<and> lone i tx (heard J ev cl)"
proof (cases "\<exists>text j data error. ev = ClFrame (InText text) \<and> from_slice J json_message text = Inr (WsResponse j data error)")
  case False
  then have "heard J ev cl = cl"
    by (auto simp: heard_def handle_message_def split: client_event.splits in_frame.splits sum.splits WsMessage.splits)
  moreover from False have "response_to J i (CoEvent ev) = None"
    by (cases "(J, i, CoEvent ev)" rule: response_to.cases) (auto split: sum.splits WsMessage.splits)
  ultimately show ?thesis using assms by simp
next
  case True
  then obtain m j data error where ev: "ev = ClFrame (InText m)" and
    m: "from_slice J json_message m = Inr (WsResponse j data error)" by blast
  show ?thesis
  proof (cases "hm_get (cl_pending_requests cl) j")
    case None
    then have "heard J ev cl = cl" by (simp add: heard_def ev handle_message_def m)
    with assms None show ?thesis by (auto simp: ev m outcome_def)
  next
    case (Some ty)
    with assms have ty: "(j = i) = (ty = tx)" by (simp add: lone_def)
    from Some have cl: "heard J ev cl = cl\<lparr>cl_pending_requests := hm_remove j (cl_pending_requests cl),
        cl_sent := cl_sent cl @ [(ty, response_result data error)]\<rparr>"
      by (simp add: heard_def ev handle_message_def m)
    have "lone i tx (heard J ev cl)" using assms by (simp add: cl lone_def hm_get_remove)
    with Some ty show ?thesis unfolding cl
      by (auto simp: ev m outcome_def hm_get_remove response_result_def)
  qed
qed

lemma client_step_goes_on:
  "client_step J send ev (cl, s) = (case goes_on J send ev s of
      Some s' \<Rightarrow> (Inr True, (heard J ev cl, s'))
    | None \<Rightarrow> client_step J send ev (cl, s)) \<and>
   (goes_on J send ev s = None \<longrightarrow>
      fst (client_step J send ev (cl, s)) \<noteq> Inr True \<and> fst (snd (client_step J send ev (cl, s))) = cl)"
  by (cases ev) (auto simp: client_step_def heard_def ends_loop_def split: in_frame.splits prod.splits sum.splits)

lemma client_run_event:
  "client_run J send (CoEvent ev # ops) (cl, s) =
     (case goes_on J send ev s of
        Some s' \<Rightarrow> client_run J send ops (heard J ev cl, s')
      | None \<Rightarrow> client_late ops cl)"
  using client_step_goes_on [of J send ev cl s]
  by (auto split: option.splits prod.splits sum.splits bool.splits)

lemma client_late_outcome:
  "lone i tx cl \<Longrightarrow> \<forall>(j, ty)\<in>set (registered ops). j \<noteq> i \<and> ty \<noteq> tx \<Longrightarrow>
     outcome i tx (client_late ops cl) = outcome i tx cl \<and> lone i tx (client_late ops cl)"
  by (induction ops cl rule: client_late.induct) (auto simp: register_outcome)

lemma client_run_outcome:
  "lone i tx cl \<Longrightarrow> \<forall>(j, ty)\<in>set (registered ops). j \<noteq> i \<and> ty \<noteq> tx \<Longrightarrow>
     outcome i tx (client_run J send ops (cl, s)) = answered tx (responses J i (lived J send ops s)) (outcome i tx cl) \<and>
     lone i tx (client_run J send ops (cl, s))"
proof (induction ops arbitrary: cl s)
  case (Cons op ops)
  show ?case
  proof (cases op)
    case (CoRegister j ty)
    with Cons.prems have "j \<noteq> i" "ty \<noteq> tx" by auto
    from register_outcome [OF Cons.prems(1) this] Cons.prems(2) Cons.IH [of "register_request j ty cl" s] CoRegister
    show ?thesis by simp
  next
    case (CoEvent ev)
    show ?thesis
    proof (cases "goes_on J send ev s")
      case None
      with client_late_outcome [OF Cons.prems(1), of ops] Cons.prems(2) CoEvent
      show ?thesis by (simp add: client_run_event del: client_run.simps)
    next
      case (Some s')
      from heard_outcome [OF Cons.prems(1), of J ev] Some CoEvent Cons.prems(2) Cons.IH [of "heard J ev cl" s']
      show ?thesis by (simp add: client_run_event answered_append del: client_run.simps)
    qed
  qed
qed simp

text \<open>A request that is registered in the middle of a run.\<close>

fun loop_state ::
    "'x json_text \<Rightarrow> ('x out_frame \<Rightarrow> ('s, RegError, unit) act) \<Rightarrow> 'x client_op list \<Rightarrow> 's \<Rightarrow> 's option" where
  "loop_state J send [] s = Some s"
| "loop_state J send (CoRegister i tx # ops) s = loop_state J send ops s"
| "loop_state J send (CoEvent ev # ops) s = opt_bind (goes_on J send ev s) (loop_state J send ops)"

lemma lived_append:
  "case loop_state J send ops s of
     Some s' \<Rightarrow> lived J send (ops @ rest) s = ops @ lived J send rest s'
   | None \<Rightarrow> length (lived J send (ops @ rest) s) \<le> length ops"
  by (induction J send ops s rule: lived.induct) (auto split: option.splits)

lemma client_late_append: "client_late (ops @ rest) cl = client_late rest (client_late ops cl)"
  by (induction ops cl rule: client_late.induct) simp_all

lemma client_run_append:
  "client_run J send (ops @ rest) (cl, s) =
     (case loop_state J send ops s of
        Some s' \<Rightarrow> client_run J send rest (client_run J send ops (cl, s), s')
      | None \<Rightarrow> client_late rest (client_run J send ops (cl, s)))"
proof (induction ops arbitrary: cl s)
  case (Cons op ops)
  show ?case
  proof (cases op)
    case (CoEvent ev)
    with Cons show ?thesis
      by (cases "goes_on J send ev s")
        (simp_all add: client_run_event client_late_append del: client_run.simps(3) split: option.split)
  qed (simp add: Cons split: option.split)
qed simp

lemma request_outcome:
  assumes fresh: "fresh_requests (registered (earlier @ CoRegister i tx # later))"
  shows "outcome i tx (client_run J send (earlier @ CoRegister i tx # later) (client_new, s)) =
    answered tx (responses J i (drop (Suc (length earlier)) (lived J send (earlier @ CoRegister i tx # later) s))) ([], Some tx)"
proof -
  have append: "registered (xs @ ys) = registered xs @ registered ys" for xs ys :: "'a client_op list"
    by (induction xs rule: registered.induct) simp_all
  have other: "\<forall>(j, ty)\<in>set (registered earlier). j \<noteq> i \<and> ty \<noteq> tx" "\<forall>(j, ty)\<in>set (registered later). j \<noteq> i \<and> ty \<noteq> tx"
    using fresh by (auto simp: fresh_requests_def append image_iff Ball_def)
  let ?cl = "client_run J send earlier (client_new, s)"
  have start: "lone i tx client_new" "outcome i tx client_new = ([], None)"
    by (simp_all add: lone_def outcome_def client_new_def)
  have none: "answered tx rs ([], None) = ([], None)" for rs by (cases rs) simp_all
  from client_run_outcome [OF start(1) other(1), of J send s] start(2) none
  have one: "outcome i tx ?cl = ([], None)" "lone i tx ?cl" by simp_all
  then have now: "outcome i tx (register_request i tx ?cl) = ([], Some tx)" "lone i tx (register_request i tx ?cl)"
    by (auto simp: outcome_def lone_def register_request_def)
  show ?thesis
  proof (cases "loop_state J send earlier s")
    case None
    with lived_append [of J send earlier "CoRegister i tx # later" s] client_late_outcome [OF now(2) other(2)] now(1)
    show ?thesis by (simp add: client_run_append)
  next
    case (Some s')
    with lived_append [of J send earlier "CoRegister i tx # later" s] client_run_outcome [OF now(2) other(2), of J send s'] now(1)
    show ?thesis by (simp add: client_run_append)
  qed
qed

section \<open>Properties\<close>

text \<open>
  C33. The registry over the wire. With a socket that delivers, a JSON library that reads back
  what it prints, and a registry that satisfies its invariant, a client's look-up, listing and
  action return what the registry itself returns, and leave it as the operation does: entries
  arrive unchanged, errors as their text. Start and restart ask for \<open>Starting\<close> and stop for
  \<open>Stopping\<close>, and the reply names the service, its old state and the new one; a reload is
  acknowledged and changes nothing.
\<close>

theorem remote_registry:
  assumes db: "sled_db S content J"
    and env: "we_backend E = sled_backend S J" "we_json E = J" "we_send E = append_send"
    and inv: "rg_inv (sled_view content J) (entry_encodable (jt_is_addr J)) (wc_registry c)"
  shows "(case client_get_service J (exchange E now i) name c of (r, c') \<Rightarrow>
      (r, wc_registry c') = map_prod (map_err (remote_error E)) id (get_entry (sled_backend S J) name (wc_registry c))) \<and>
    (case client_list_services J (exchange E now i) c of (r, c') \<Rightarrow>
      (r, wc_registry c') = list_entries (sled_backend S J) (wc_registry c)) \<and>
    (case client_service_action (exchange E now i) name action c of (r, c') \<Rightarrow>
      if action = ActReload then r = Inr (JObj [(''status'', JStr ''reload_initiated'')]) \<and> wc_registry c' = wc_registry c
      else
        (case update_state (sled_backend S J) now name (if action = ActStop then Stopping else Starting) (wc_registry c) of
           (Inr (old, _), g) \<Rightarrow> wc_registry c' = g \<and> r = Inr (JObj [(''service'', JStr name),
             (''old_state'', state_json old),
             (''new_state'', state_json (if action = ActStop then Stopping else Starting))])
         | (Inl e, g) \<Rightarrow> wc_registry c' = g \<and> r = Inl (remote_error E e)))"
proof (intro conjI)
  have parse: "jt_parse (we_json E) (jt_print (we_json E) j) = Inr j" for j
    using sled_db.print_parse [OF db] env(2) by simp
  note ex = exchange_run [OF parse env(3)]
  show "case client_get_service J (exchange E now i) name c of (r, c') \<Rightarrow>
      (r, wc_registry c') = map_prod (map_err (remote_error E)) id (get_entry (sled_backend S J) name (wc_registry c))"
  proof -
    obtain q g where q: "get_entry (sled_backend S J) name (wc_registry c) = (q, g)" by fastforce
    have "dispatch_action E now GetService (JObj [(''name'', JStr name)]) (c\<lparr>wc_socket := []\<rparr>) =
        (map_sum id entry_json q, c\<lparr>wc_socket := [], wc_registry := g\<rparr>)"
      using q by (cases q) (simp_all add: dispatch_action_def handle_get_service_def act_bind_def from_value_def
        json_field_def conn_registry_def env(1))
    from ex [OF this, of i] obtain t where t: "exchange E now i GetService (JObj [(''name'', JStr name)]) c =
        (map_err (remote_error E) (map_sum id entry_json q), c\<lparr>wc_registry := g, wc_socket := [OutText t]\<rparr>)" by auto
    have "q = Inr e \<Longrightarrow> from_value J (json_entry (jt_is_addr J)) (entry_json e) = Inr e" for e
      using registry_store.get_entry_run [OF sled_db.store_laws [OF db] inv q]
      by (simp add: from_value_def entry_json_round)
    with t q show ?thesis
      by (cases q) (simp_all add: client_get_service_def act_bind_def)
  qed
  show "case client_list_services J (exchange E now i) c of (r, c') \<Rightarrow>
      (r, wc_registry c') = list_entries (sled_backend S J) (wc_registry c)"
  proof -
    obtain q b where q: "bk_list_services (sled_backend S J) (rg_backend (wc_registry c)) = (q, b)" by fastforce
    define es where "es = (case q of Inl _ \<Rightarrow> [] | Inr services \<Rightarrow> services)"
    have list: "list_entries (sled_backend S J) (wc_registry c) = (Inr es, (wc_registry c)\<lparr>rg_backend := b\<rparr>)"
      by (simp add: list_entries_def act_bind_def act_try_def on_backend_def q es_def)
    have key: "keyed (entry_encodable (jt_is_addr J)) (sled_view content J (rg_backend (wc_registry c)))"
      using inv by (simp add: rg_inv_def)
    have enc: "\<forall>e\<in>set es. entry_encodable (jt_is_addr J) e"
    proof (cases q)
      case (Inr l)
      with registry_store.list_view [OF sled_db.store_laws [OF db] key q] key
      show ?thesis by (auto simp: es_def keyed_def ran_def)
    qed (simp add: es_def)
    have "dispatch_action E now ListServices (JObj []) (c\<lparr>wc_socket := []\<rparr>) =
        (Inr (entries_json es), c\<lparr>wc_socket := [], wc_registry := (wc_registry c)\<lparr>rg_backend := b\<rparr>\<rparr>)"
      by (simp add: dispatch_action_def handle_list_services_def act_bind_def conn_registry_def env(1) list)
    from ex [OF this, of i] obtain t where t: "exchange E now i ListServices (JObj []) c =
        (Inr (entries_json es), c\<lparr>wc_registry := (wc_registry c)\<lparr>rg_backend := b\<rparr>, wc_socket := [OutText t]\<rparr>)" by auto
    have "from_value J (json_arr (json_entry (jt_is_addr J))) (entries_json es) = Inr es"
      using enc by (simp add: from_value_def entries_json_def json_list_round entry_json_round)
    with t list show ?thesis by (simp add: client_list_services_def act_bind_def)
  qed
  show "case client_service_action (exchange E now i) name action c of (r, c') \<Rightarrow>
      if action = ActReload then r = Inr (JObj [(''status'', JStr ''reload_initiated'')]) \<and> wc_registry c' = wc_registry c
      else
        (case update_state (sled_backend S J) now name (if action = ActStop then Stopping else Starting) (wc_registry c) of
           (Inr (old, _), g) \<Rightarrow> wc_registry c' = g \<and> r = Inr (JObj [(''service'', JStr name),
             (''old_state'', state_json old),
             (''new_state'', state_json (if action = ActStop then Stopping else Starting))])
         | (Inl e, g) \<Rightarrow> wc_registry c' = g \<and> r = Inl (remote_error E e))"
  proof -
    let ?params = "JObj [(''name'', JStr name), (''action'', service_action_json action)]"
    have args: "from_value J json_action_params ?params = Inr (name, action)"
      by (simp add: from_value_def json_action_params_def json_field_def)
    obtain r c1 where r: "dispatch_action E now ServiceActionReq ?params (c\<lparr>wc_socket := []\<rparr>) = (r, c1)" by fastforce
    from ex [OF r, of i] obtain t where t: "exchange E now i ServiceActionReq ?params c =
        (map_err (remote_error E) r, c1\<lparr>wc_socket := [OutText t]\<rparr>)" by auto
    show ?thesis
    proof (cases "action = ActReload")
      case True
      then have "target_state action = None" by (simp add: target_state_def)
      with r have "r = Inr (JObj [(''status'', JStr ''reload_initiated'')])" "c1 = c\<lparr>wc_socket := []\<rparr>"
        by (simp_all add: dispatch_action_def handle_service_action_def env(2) args)
      with t True show ?thesis by (simp add: client_service_action_def)
    next
      case False
      then have state: "target_state action = Some (if action = ActStop then Stopping else Starting)"
        by (cases action) (simp_all add: target_state_def)
      with r env(1) have "act_bind (conn_registry (update_state (sled_backend S J) now name
            (if action = ActStop then Stopping else Starting))) (\<lambda>(old_state, _).
          act_ret (JObj [(''service'', JStr name), (''old_state'', state_json old_state),
            (''new_state'', state_json (if action = ActStop then Stopping else Starting))])) (c\<lparr>wc_socket := []\<rparr>) = (r, c1)"
        by (simp add: dispatch_action_def handle_service_action_def env(2) args)
      with t False show ?thesis
        by (auto simp: client_service_action_def act_bind_def conn_registry_def split: prod.splits sum.splits)
    qed
  qed
qed

text \<open>A connection for the examples: the in-memory registry, and a socket that keeps what is sent.\<close>

definition demo_env :: "((string, json) hmap sled_store, json out_frame list, json) ws_env" where
  "demo_env = \<lparr>we_backend = sled_backend mem_sled mem_json, we_json = mem_json, we_send = append_send,
     we_display = (\<lambda>_. ''error'')\<rparr>"

definition demo_conn :: "((string, json) hmap sled_store, json out_frame list) ws_conn" where
  "demo_conn = \<lparr>wc_registry = registered_registry, wc_socket = [], wc_addr = ''9.9.9.9:1'', wc_subscriptions = []\<rparr>"

theorem remote_registry_witness:
  "fst (client_get_service mem_json (exchange demo_env ''now'' ''id'') ''api'' demo_conn) = Inr (example_entry ''api'') \<and>
   fst (client_service_action (exchange demo_env ''now'' ''id'') ''api'' ActRestart demo_conn) =
     Inr (JObj [(''service'', JStr ''api''), (''old_state'', state_json Registered), (''new_state'', state_json Starting)])"
proof
  have inv: "rg_inv (sled_view hm_get mem_json) (entry_encodable (jt_is_addr mem_json)) (wc_registry demo_conn)"
    using registered_registry_inv by (simp add: demo_conn_def)
  have env: "we_backend demo_env = sled_backend mem_sled mem_json" "we_json demo_env = mem_json"
    "we_send demo_env = append_send" by (simp_all add: demo_env_def)
  note remote = remote_registry [where now = "''now''" and i = "''id''" and name = "''api''" and action = ActRestart,
    OF mem.sled_db_axioms env inv]
  have get: "fst (get_entry (sled_backend mem_sled mem_json) ''api'' registered_registry) = Inr (example_entry ''api'')"
    by code_simp
  have "(case client_get_service mem_json (exchange demo_env ''now'' ''id'') ''api'' demo_conn of (r, c') \<Rightarrow>
      (r, wc_registry c') = map_prod (map_err (remote_error demo_env)) id
        (get_entry (sled_backend mem_sled mem_json) ''api'' (wc_registry demo_conn)))"
    by (rule conjunct1 [OF remote])
  then have "fst (client_get_service mem_json (exchange demo_env ''now'' ''id'') ''api'' demo_conn) =
      map_err (remote_error demo_env) (fst (get_entry (sled_backend mem_sled mem_json) ''api'' registered_registry))"
    by (auto simp: demo_conn_def prod_eq_iff split: prod.splits)
  with get show "fst (client_get_service mem_json (exchange demo_env ''now'' ''id'') ''api'' demo_conn) =
      Inr (example_entry ''api'')" by simp
  let ?u = "update_state (sled_backend mem_sled mem_json) ''now'' ''api'' Starting registered_registry"
  have "map_sum id fst (fst ?u) = Inr Registered" by code_simp
  then obtain out g where u: "?u = (Inr (Registered, out), g)"
    by (cases "?u"; cases "fst ?u") auto
  from conjunct2 [OF conjunct2 [OF remote]]
  show "fst (client_service_action (exchange demo_env ''now'' ''id'') ''api'' ActRestart demo_conn) =
     Inr (JObj [(''service'', JStr ''api''), (''old_state'', state_json Registered), (''new_state'', state_json Starting)])"
    using u by (auto simp: demo_conn_def split: prod.split_asm)
qed

text \<open>
  A reply to a subscription can promise more than the registry keeps. After two
  subscriptions the connection's own set, which the reply lists, has the event types of both;
  the registry, which decides who is sent an event, has those of the second only.
\<close>

theorem subscription_reply_diverges:
  assumes first: "handle_subscribe E (JObj [(''events'', events_json evs1)]) c = (r1, c1)"
    and second: "handle_subscribe E (JObj [(''events'', events_json evs2)]) c1 = (r2, c2)"
  shows "is_ok r1 \<and> (\<exists>evs. r2 = Inr (JObj [(''subscribed'', events_json evs)]) \<and>
      set evs = set (wc_subscriptions c) \<union> set evs1 \<union> set evs2) \<and>
    (\<forall>ev. subscribed (wc_registry c2) (wc_addr c) ev \<longleftrightarrow> ev \<in> set evs2)"
proof -
  have params: "from_value (we_json E) (json_field (json_arr json_event) ''events'') (JObj [(''events'', events_json evs)]) = Inr evs" for evs
    by (simp add: from_value_def json_field_def events_json_def json_list_round)
  have run: "handle_subscribe E (JObj [(''events'', events_json evs)]) d =
      (let s = foldl (\<lambda>acc e. hs_insert e acc) (wc_subscriptions d) evs in
       (Inr (JObj [(''subscribed'', events_json s)]),
        d\<lparr>wc_subscriptions := s, wc_registry := snd (subscribe (wc_addr d) evs (wc_registry d))\<rparr>))" for evs d
    by (simp add: handle_subscribe_def params act_bind_def conn_registry_def subscribe_def subscribed_json_def Let_def)
  from first second show ?thesis
    by (auto simp: run Let_def set_foldl_insert subscribed_def subscribe_def)
qed

theorem subscription_reply_diverges_witness:
  "\<exists>r1 c1 r2 c2. handle_subscribe demo_env (JObj [(''events'', events_json [EvServiceRegistered])]) demo_conn = (r1, c1) \<and>
     handle_subscribe demo_env (JObj [(''events'', events_json [EvEndpointUpdated])]) c1 = (r2, c2) \<and>
     \<not> subscribed (wc_registry c2) ''9.9.9.9:1'' EvServiceRegistered"
proof -
  let ?p = "JObj [(''events'', events_json [EvServiceRegistered])]" and ?q = "JObj [(''events'', events_json [EvEndpointUpdated])]"
  obtain r1 c1 where 1: "handle_subscribe demo_env ?p demo_conn = (r1, c1)" by fastforce
  obtain r2 c2 where 2: "handle_subscribe demo_env ?q c1 = (r2, c2)" by fastforce
  from subscription_reply_diverges [OF 1 2] have "\<not> subscribed (wc_registry c2) ''9.9.9.9:1'' EvServiceRegistered"
    by (simp add: demo_conn_def)
  with 1 2 show ?thesis by blast
qed

text \<open>No step of a connection changes its address.\<close>

lemma send_frame_addr: "send_frame E f c = (r, c') \<Longrightarrow> wc_addr c' = wc_addr c \<and> wc_registry c' = wc_registry c"
  by (auto simp: send_frame_def split: prod.splits)

lemma send_message_addr: "send_message E m c = (r, c') \<Longrightarrow> wc_addr c' = wc_addr c \<and> wc_registry c' = wc_registry c"
  unfolding send_message_def by (rule send_frame_addr)

lemma handle_request_addr: "handle_request E now i action params c = (r, c') \<Longrightarrow> wc_addr c' = wc_addr c"
  by (auto simp: handle_request_def act_bind_run act_try_def send_response_def send_error_response_def
      dest!: dispatch_socket send_message_addr split: prod.splits sum.splits)

lemma process_text_addr: "process_text_message E now t c = (r, c') \<Longrightarrow> wc_addr c' = wc_addr c"
proof -
  assume run: "process_text_message E now t c = (r, c')"
  show ?thesis
  proof (cases "from_slice (we_json E) json_message t")
    case (Inr m)
    with run show ?thesis
      by (cases m) (auto simp: process_text_message_def dest: handle_request_addr)
  qed (use run in \<open>simp add: process_text_message_def\<close>)
qed

lemma process_frames_addr: "process_frames E fs c = (r, c') \<Longrightarrow> wc_addr c' = wc_addr c"
proof (induction E fs arbitrary: c rule: process_frames.induct)
  case (2 E now t fs)
  obtain q d where d: "process_text_message E now t c = (q, d)" by (cases "process_text_message E now t c")
  from process_text_addr [OF d] 2 d show ?case
    by (cases q) (auto simp: act_bind_run act_try_def send_error_response_def dest!: send_message_addr)
qed (auto simp: act_bind_run dest!: send_frame_addr)

text \<open>The loop over the frames fails exactly at a frame whose answer, or whose error response, cannot be sent.\<close>

definition answer_fails ::
    "('b, 's, 'x) ws_env \<Rightarrow> Timestamp \<Rightarrow> 'x in_frame \<Rightarrow> ('b, 's) ws_conn \<Rightarrow> RegError \<Rightarrow> ('b, 's) ws_conn \<Rightarrow> bool" where
  "answer_fails E now f c1 e c' \<longleftrightarrow>
     (\<exists>data. f = InPing data \<and> send_frame E (OutPong data) c1 = (Inl e, c')) \<or>
     (\<exists>text e1 c2. f = InText text \<and> process_text_message E now text c1 = (Inl e1, c2) \<and>
        send_error_response E [] e1 c2 = (Inl e, c'))"

lemma answer_fails_registry:
  "answer_fails E now f c1 e c' \<longleftrightarrow>
     (\<exists>data. f = InPing data \<and> send_frame E (OutPong data) c1 = (Inl e, c') \<and> wc_registry c' = wc_registry c1) \<or>
     (\<exists>text e1 c2. f = InText text \<and> process_text_message E now text c1 = (Inl e1, c2) \<and>
        send_error_response E [] e1 c2 = (Inl e, c') \<and> wc_registry c' = wc_registry c2)"
  unfolding answer_fails_def send_error_response_def
  using send_frame_addr [of E _ c1 "Inl e" c'] send_message_addr [of E _ _ "Inl e" c'] by blast

lemma process_frames_fails:
  "process_frames E frames c = (Inl e, c') \<longleftrightarrow>
     (\<exists>earlier now f rest c1. frames = earlier @ (now, f) # rest \<and> (\<forall>(t, g)\<in>set earlier. \<not> ends_loop g) \<and>
        process_frames E earlier c = (Inr (), c1) \<and> answer_fails E now f c1 e c')"
  (is "_ \<longleftrightarrow> (\<exists>earlier now f rest c1. ?fails frames c earlier now f rest c1)")
proof
  assume "process_frames E frames c = (Inl e, c')"
  then show "\<exists>earlier now f rest c1. ?fails frames c earlier now f rest c1"
  proof (induction frames arbitrary: c)
    case (Cons x fs)
    obtain now f where x: "x = (now, f)" by (cases x)
    have later: ?case if "\<not> ends_loop f" "\<And>earlier. process_frames E (x # earlier) c = process_frames E earlier d"
      "process_frames E fs d = (Inl e, c')" for d
    proof -
      from Cons.IH [OF that(3)] obtain earlier now' f' rest c1 where "?fails fs d earlier now' f' rest c1" by blast
      with that(1,2) x show ?thesis by (intro exI [of _ "x # earlier"] exI) auto
    qed
    have here: ?case if "answer_fails E now f c e c'"
      using that x by (intro exI [of _ "[]"] exI [of _ now] exI [of _ f] exI [of _ fs] exI [of _ c]) simp
    show ?case
    proof (cases f)
      case (InText m)
      obtain q c2 where q: "process_text_message E now m c = (q, c2)" by fastforce
      show ?thesis
      proof (cases q)
        case (Inr u)
        with later [of c2] Cons.prems q show ?thesis by (simp add: x InText ends_loop_def act_bind_def act_try_def)
      next
        case (Inl e1)
        obtain p c3 where p: "send_error_response E [] e1 c2 = (p, c3)" by fastforce
        with later [of c3] here Cons.prems q Inl show ?thesis
          by (cases p) (auto simp: x InText ends_loop_def answer_fails_def act_bind_def act_try_def)
      qed
    next
      case (InPing data)
      obtain q c2 where q: "send_frame E (OutPong data) c = (q, c2)" by fastforce
      with later [of c2] here Cons.prems show ?thesis
        by (cases q) (auto simp: x InPing ends_loop_def answer_fails_def act_bind_def)
    qed (use Cons.prems later [of c] in \<open>simp_all add: x ends_loop_def\<close>)
  qed simp
next
  assume "\<exists>earlier now f rest c1. ?fails frames c earlier now f rest c1"
  then obtain earlier now f rest c1 where "?fails frames c earlier now f rest c1" by blast
  then show "process_frames E frames c = (Inl e, c')"
  proof (induction earlier arbitrary: frames c)
    case Nil
    then show ?case by (auto simp: answer_fails_def act_bind_def act_try_def)
  next
    case (Cons x fs)
    obtain t g where x: "x = (t, g)" by (cases x)
    from Cons show ?case
      by (cases g) (auto simp: x ends_loop_def act_bind_def act_try_def split: sum.split_asm prod.splits)
  qed
qed

text \<open>
  C34. Connections clean up only if every answer can be sent. A connection whose handler returns
  without an error, on whatever frames, leaves no subscription of its address. It returns an
  error exactly if the initial state cannot be sent, or if at some frame before the end of the
  loop a pong cannot be sent, or neither the answer to a text message nor, after that or after a
  message that does not parse, the error response can; then the registry is as that frame left
  it, with whatever subscription the address has.
\<close>

theorem connection_cleanup:
  assumes run: "handle_connection E frames c = (r, c')"
  shows "(is_ok r \<longrightarrow> hm_get (rg_subscribers (wc_registry c')) (wc_addr c) = None) \<and>
    (\<forall>e. r = Inl e \<longleftrightarrow>
       send_initial_state E c = (Inl e, c') \<or>
       (\<exists>c0 earlier now f rest c1. send_initial_state E c = (Inr (), c0) \<and>
          frames = earlier @ (now, f) # rest \<and> (\<forall>(t, g)\<in>set earlier. \<not> ends_loop g) \<and>
          process_frames E earlier c0 = (Inr (), c1) \<and>
          ((\<exists>data. f = InPing data \<and> send_frame E (OutPong data) c1 = (Inl e, c') \<and>
              wc_registry c' = wc_registry c1) \<or>
           (\<exists>text e1 c2. f = InText text \<and> process_text_message E now text c1 = (Inl e1, c2) \<and>
              send_error_response E [] e1 c2 = (Inl e, c') \<and> wc_registry c' = wc_registry c2))))"
proof (intro conjI impI allI)
  have init: "wc_addr c1 = wc_addr c" if "send_initial_state E c = (q, c1)" for q c1
    using that by (auto simp: send_initial_state_def act_bind_run conn_registry_run dest!: send_message_addr)
  show "hm_get (rg_subscribers (wc_registry c')) (wc_addr c) = None" if ok: "is_ok r"
    using run ok
    by (auto simp: handle_connection_def act_bind_run conn_registry_run remove_subscriber_def
        dest!: process_frames_addr init)
next
  fix e
  have "r = Inl e \<longleftrightarrow> send_initial_state E c = (Inl e, c') \<or>
      (\<exists>c0. send_initial_state E c = (Inr (), c0) \<and> process_frames E frames c0 = (Inl e, c'))"
    using run by (auto simp: handle_connection_def act_bind_run conn_registry_run remove_subscriber_def)
  then show "r = Inl e \<longleftrightarrow>
       send_initial_state E c = (Inl e, c') \<or>
       (\<exists>c0 earlier now f rest c1. send_initial_state E c = (Inr (), c0) \<and>
          frames = earlier @ (now, f) # rest \<and> (\<forall>(t, g)\<in>set earlier. \<not> ends_loop g) \<and>
          process_frames E earlier c0 = (Inr (), c1) \<and>
          ((\<exists>data. f = InPing data \<and> send_frame E (OutPong data) c1 = (Inl e, c') \<and>
              wc_registry c' = wc_registry c1) \<or>
           (\<exists>text e1 c2. f = InText text \<and> process_text_message E now text c1 = (Inl e1, c2) \<and>
              send_error_response E [] e1 c2 = (Inl e, c') \<and> wc_registry c' = wc_registry c2)))"
    unfolding process_frames_fails answer_fails_registry by blast
qed

text \<open>A socket over which pongs cannot be sent.\<close>

definition no_pong :: "'x out_frame \<Rightarrow> ('x out_frame list, RegError, unit) act" where
  "no_pong f s = (case f of OutPong _ \<Rightarrow> (Inl (PackageErr (MsgText ''closed'')), s) | _ \<Rightarrow> append_send f s)"

theorem connection_cleanup_witness:
  "hm_get (rg_subscribers (wc_registry (snd (handle_connection demo_env [] (demo_conn\<lparr>wc_addr := ''1.2.3.4:5''\<rparr>)))))
     ''1.2.3.4:5'' = None \<and>
   hm_get (rg_subscribers (wc_registry (snd (handle_connection (demo_env\<lparr>we_send := no_pong\<rparr>) [(''t'', InPing [])]
     (demo_conn\<lparr>wc_addr := ''1.2.3.4:5''\<rparr>))))) ''1.2.3.4:5'' = Some [EvServiceStateChanged]"
proof
  let ?c = "demo_conn\<lparr>wc_addr := ''1.2.3.4:5''\<rparr>" and ?E = "demo_env\<lparr>we_send := no_pong\<rparr>"
  let ?h = "handle_connection demo_env [] ?c" and ?k = "handle_connection ?E [(''t'', InPing [])] ?c"
  have "is_ok (fst ?h)" by code_simp
  with connection_cleanup [of demo_env "[]" ?c "fst ?h" "snd ?h"]
  show "hm_get (rg_subscribers (wc_registry (snd ?h))) ''1.2.3.4:5'' = None" by simp
  have fails: "fst ?k = Inl (PackageErr (MsgText ''closed''))" by code_simp
  have init: "send_initial_state ?E ?c = (Inr (), snd (send_initial_state ?E ?c))"
    by (rule prod_eqI) (simp_all, code_simp)
  have subs: "hm_get (rg_subscribers (wc_registry (snd (send_initial_state ?E ?c)))) ''1.2.3.4:5'' =
      Some [EvServiceStateChanged]" by code_simp
  have "?k = (Inl (PackageErr (MsgText ''closed'')), snd ?k)" by (rule prod_eqI) (simp_all add: fails)
  from spec [OF conjunct2 [OF connection_cleanup [OF this]], of "PackageErr (MsgText ''closed'')"] init
  have "wc_registry (snd ?k) = wc_registry (snd (send_initial_state ?E ?c))"
    by (auto simp: Cons_eq_append_conv)
  with subs show "hm_get (rg_subscribers (wc_registry (snd ?k))) ''1.2.3.4:5'' = Some [EvServiceStateChanged]" by simp
qed

text \<open>
  C35. A request is answered once, by the first response to it, or never. With fresh identifiers
  and channels, in every run of a client, over any traffic and any failure to send, a registered
  request is sent the result of the first response with its identifier that the loop reads after the
  request was registered (the message of an error, else the data, else the complaint that the
  response is empty), and no other result; it is then no longer pending. If the loop reads none, because none
  comes or because it ended before (a failed send, a close, a frame that ends it, the end of the
  stream, the last handle gone), nothing is sent and the request is pending for ever: the end of the
  loop answers none of those left.
\<close>

theorem client_answers_once:
  assumes fresh: "fresh_requests (registered (earlier @ CoRegister i tx # later))"
    and cl: "client_run J send (earlier @ CoRegister i tx # later) (client_new, s) = cl"
  shows "case responses J i (drop (Suc (length earlier)) (lived J send (earlier @ CoRegister i tx # later) s)) of
      [] \<Rightarrow> filter (\<lambda>(t, _). t = tx) (cl_sent cl) = [] \<and> hm_get (cl_pending_requests cl) i = Some tx
    | result # _ \<Rightarrow> filter (\<lambda>(t, _). t = tx) (cl_sent cl) = [(tx, result)] \<and> hm_get (cl_pending_requests cl) i = None"
  using request_outcome [OF fresh, of J send s] by (simp add: cl outcome_def answered_def split: list.splits)

theorem client_answers_once_witness:
  "\<exists>cl. client_run mem_json append_send [CoRegister ''a'' 4, CoRegister ''b'' 6,
       CoEvent (ClFrame (InText (message_json (WsResponse ''b'' (Some (JBool True)) None)))),
       CoEvent (ClFrame InClose),
       CoEvent (ClFrame (InText (message_json (WsResponse ''a'' (Some (JBool True)) None))))] (client_new, []) = cl \<and>
     hm_get (cl_pending_requests cl) ''a'' = Some 4 \<and> hm_get (cl_pending_requests cl) ''b'' = None \<and>
     filter (\<lambda>(t, _). t = 6) (cl_sent cl) = [(6, Inr (JBool True))]"
proof -
  let ?later = "[CoEvent (ClFrame (InText (message_json (WsResponse ''b'' (Some (JBool True)) None)))),
       CoEvent (ClFrame InClose),
       CoEvent (ClFrame (InText (message_json (WsResponse ''a'' (Some (JBool True)) None))))]"
  let ?s = "[] :: json out_frame list"
  have fresh: "fresh_requests (registered ([] @ CoRegister ''a'' 4 # CoRegister ''b'' 6 # ?later))"
    "fresh_requests (registered ([CoRegister ''a'' 4] @ CoRegister ''b'' 6 # ?later))" by (simp_all add: fresh_requests_def)
  have a: "responses mem_json ''a'' (drop (Suc (length ([] :: json client_op list)))
      (lived mem_json append_send ([] @ CoRegister ''a'' 4 # CoRegister ''b'' 6 # ?later) ?s)) = []" by code_simp
  have b: "responses mem_json ''b'' (drop (Suc (length ([CoRegister ''a'' 4] :: json client_op list)))
      (lived mem_json append_send ([CoRegister ''a'' 4] @ CoRegister ''b'' 6 # ?later) ?s)) = [Inr (JBool True)]" by code_simp
  obtain cl where cl: "client_run mem_json append_send (CoRegister ''a'' 4 # CoRegister ''b'' 6 # ?later) (client_new, ?s) = cl"
    by blast
  then have runs: "client_run mem_json append_send ([] @ CoRegister ''a'' 4 # CoRegister ''b'' 6 # ?later) (client_new, ?s) = cl"
    "client_run mem_json append_send ([CoRegister ''a'' 4] @ CoRegister ''b'' 6 # ?later) (client_new, ?s) = cl"
    by (simp_all only: append.simps)
  from client_answers_once [OF fresh(1) runs(1)] have "hm_get (cl_pending_requests cl) ''a'' = Some 4"
    by (simp only: a list.case)
  moreover from client_answers_once [OF fresh(2) runs(2)]
  have "hm_get (cl_pending_requests cl) ''b'' = None \<and> filter (\<lambda>(t, _). t = 6) (cl_sent cl) = [(6, Inr (JBool True))]"
    by (simp only: b list.case)
  ultimately show ?thesis using cl by blast
qed

end
