(* ===== verification/Dmn_Handlers.thy ===== *)
theory Dmn_Handlers
  imports Orch_Manager Reg_Websocket
begin

text \<open>
  The executor daemon of \<^verbatim>\<open>crates/harness\<close>: the protocol (\<^verbatim>\<open>protocol.rs\<close>), the request handlers
  (\<^verbatim>\<open>daemon/handlers.rs\<close>) over the service manager, and the connection loop
  (\<^verbatim>\<open>daemon/server.rs\<close>). The instants a start or stop reads come with the request; printing an error
  and a health status, and the variables of the process, are parameters. Of a handler that panics, which takes
  2^32 failures of one health check in a row, the model says that it reports an error.
\<close>

section \<open>The protocol\<close>

datatype Request =
    ReqStart string ServiceConfig
  | ReqStop string
  | ReqStatus string
  | ReqList
  | ReqListDetailed
  | ReqHealthChecks
  | ReqShutdown
  | ReqEnv "string list"

record ServiceNetworkInfo =
  sn_ip :: string
  sn_port :: "u16 option"
  sn_hostname :: string
  sn_ports :: "u16 list"

record DetailedServiceInfo =
  di_name :: string
  di_status :: ServiceStatus
  di_network_info :: "ServiceNetworkInfo option"
  di_endpoints :: "(string, string) hmap"
  di_pid :: "u32 option"
  di_container_id :: "string option"
  di_start_time :: "string option"
  di_dependencies :: "string list"

datatype Response =
    RespSuccess
  | RespError string
  | RespStarted string ServiceNetworkInfo
  | RespStatus ServiceStatus
  | RespList "(string, ServiceStatus) hmap"
  | RespListDetailed "DetailedServiceInfo list"
  | RespHealth "(string, string) hmap"
  | RespEnv "(string, string) hmap"

section \<open>The handlers\<close>

record ('b, 'w) daemon_ctx =
  dm_backend :: "'b backend"
  dm_host :: "'w host"
  dm_display :: "OrchError \<Rightarrow> string"
  dm_debug_health :: "HHealth \<Rightarrow> string"
  dm_vars :: "(string \<times> string) list"
  dm_var :: "string \<Rightarrow> string option"

definition network_info_of :: "NetworkInfo \<Rightarrow> ServiceNetworkInfo" where
  "network_info_of ni = \<lparr>sn_ip = ni_ip ni, sn_port = ni_port ni, sn_hostname = ni_hostname ni, sn_ports = ni_ports ni\<rparr>"

definition started_network_info :: "string \<Rightarrow> RunningService \<Rightarrow> ServiceNetworkInfo" where
  "started_network_info name running_service =
     (case rs_network_info running_service of
        Some net_info \<Rightarrow> network_info_of net_info
      | None \<Rightarrow> \<lparr>sn_ip = ''127.0.0.1'', sn_port = None, sn_hostname = name @ ''.local'', sn_ports = []\<rparr>)"

definition dependency_text :: "Dependency \<Rightarrow> string" where
  "dependency_text dep = (case dep of DepService s \<Rightarrow> s | DepTask t \<Rightarrow> ''task:'' @ t)"

definition detailed_info :: "string \<Rightarrow> ServiceStatus \<Rightarrow> RunningService option \<Rightarrow> DetailedServiceInfo" where
  "detailed_info name status running_service =
     (case running_service of
        Some running \<Rightarrow>
          \<lparr>di_name = name, di_status = status, di_network_info = map_option network_info_of (rs_network_info running),
           di_endpoints = rs_endpoints running, di_pid = rs_pid running, di_container_id = rs_container_id running,
           di_start_time = hm_get (rs_metadata running) ''start_time'',
           di_dependencies = map dependency_text (sc_dependencies (rs_config running))\<rparr>
      | None \<Rightarrow>
          \<lparr>di_name = name, di_status = status, di_network_info = None, di_endpoints = [], di_pid = None,
           di_container_id = None, di_start_time = None, di_dependencies = []\<rparr>)"

fun list_statuses ::
    "'b backend \<Rightarrow> string list \<Rightarrow> (string, ServiceStatus) hmap \<Rightarrow> ('b, 'w, (string, ServiceStatus) hmap) mg_act" where
  "list_statuses B [] service_status = act_ret service_status"
| "list_statuses B (name # names) service_status =
     act_bind (act_try (get_service_status B name)) (\<lambda>r.
     list_statuses B names (case r of
         Inr status \<Rightarrow> hm_insert name status service_status
       | Inl _ \<Rightarrow> service_status))"

fun list_details :: "'b backend \<Rightarrow> string list \<Rightarrow> DetailedServiceInfo list \<Rightarrow> ('b, 'w, DetailedServiceInfo list) mg_act" where
  "list_details B [] details = act_ret details"
| "list_details B (name # names) details =
     act_bind (act_try (get_service_status B name)) (\<lambda>r mg.
     list_details B names (case r of
         Inr status \<Rightarrow> details @ [detailed_info name status (get_service_info mg name)]
       | Inl _ \<Rightarrow> details) mg)"

definition or_error :: "('b, 'w) daemon_ctx \<Rightarrow> string \<Rightarrow> ('a \<Rightarrow> Response) \<Rightarrow> (OrchError + 'a) \<times> 'm \<Rightarrow> Response \<times> 'm" where
  "or_error D complaint ok rm =
     (case rm of
        (Inr x, mg) \<Rightarrow> (ok x, mg)
      | (Inl e, mg) \<Rightarrow> (RespError (complaint @ dm_display D e), mg))"

definition daemon_request ::
    "('b, 'w) daemon_ctx \<Rightarrow> Timestamp \<Rightarrow> Timestamp \<Rightarrow> Request \<Rightarrow> ('b, 'w) manager \<Rightarrow> Response \<times> ('b, 'w) manager" where
  "daemon_request D created now request mg =
     (case request of
        ReqStart name config \<Rightarrow>
          or_error D ''Failed to start service: '' (\<lambda>running. RespStarted name (started_network_info name running))
            (start_service (dm_backend D) created now name config mg)
      | ReqStop name \<Rightarrow>
          or_error D ''Failed to stop service: '' (\<lambda>_. RespSuccess) (stop_service (dm_backend D) now name mg)
      | ReqStatus name \<Rightarrow>
          or_error D ''Failed to get service status: '' RespStatus (get_service_status (dm_backend D) name mg)
      | ReqList \<Rightarrow>
          or_error D ''Failed to list services: '' RespList (list_statuses (dm_backend D) (list_services mg) [] mg)
      | ReqListDetailed \<Rightarrow>
          or_error D ''Failed to list services: '' RespListDetailed (list_details (dm_backend D) (list_services mg) [] mg)
      | ReqHealthChecks \<Rightarrow>
          or_error D ''Failed to run health checks: ''
            (\<lambda>results. RespHealth (map (\<lambda>(k, v). (k, dm_debug_health D v)) results))
            (run_health_checks (dm_host D) (dm_display D) mg)
      | ReqShutdown \<Rightarrow> (RespSuccess, mg)
      | ReqEnv names \<Rightarrow>
          (RespEnv (if names = [] then hm_extend [] (dm_vars D)
             else hm_extend [] (List.map_filter (\<lambda>n. map_option (Pair n) (dm_var D n)) names)), mg))"

section \<open>A connection\<close>

record ('s, 'x) wire =
  wi_parse :: "'x \<Rightarrow> string + Request"
  wi_print :: "Response \<Rightarrow> 'x"
  wi_send :: "'x out_frame \<Rightarrow> ('s, string, unit) act"

text \<open>
  The loop over the frames of a connection: each with the instants its request reads. An answer that
  cannot be sent ends the connection.
\<close>

fun serve ::
    "('b, 'w) daemon_ctx \<Rightarrow> ('s, 'x) wire \<Rightarrow> (Timestamp \<times> Timestamp \<times> 'x in_frame) list \<Rightarrow> (('b, 'w) manager \<times> 's, string, unit) act" where
  "serve D W [] = act_ret ()"
| "serve D W ((created, now, InText text) # fs) = (\<lambda>(mg, s).
     case wi_parse W text of
       Inl e \<Rightarrow>
         (case wi_send W (OutText (wi_print W (RespError (''Invalid request format: '' @ e)))) s of
            (Inr _, s) \<Rightarrow> serve D W fs (mg, s)
          | (Inl e, s) \<Rightarrow> (Inl e, (mg, s)))
     | Inr request \<Rightarrow>
         (case daemon_request D created now request mg of (response, mg) \<Rightarrow>
          case wi_send W (OutText (wi_print W response)) s of
            (Inr _, s) \<Rightarrow> serve D W fs (mg, s)
          | (Inl e, s) \<Rightarrow> (Inl e, (mg, s))))"
| "serve D W ((created, now, InClose) # fs) = act_ret ()"
| "serve D W ((created, now, InError e) # fs) = act_ret ()"
| "serve D W ((created, now, InPing data) # fs) = serve D W fs"
| "serve D W ((created, now, InOther) # fs) = serve D W fs"

section \<open>Requests as steps of the manager\<close>

text \<open>A status query changes the registry only, and of an active service it tells what the manager knows.\<close>

lemma active_status_registry [simp]: "active_status name (mg\<lparr>mg_registry := g\<rparr>) = active_status name mg"
  by (simp add: active_status_def)

lemma status_run:
  obtains st g where "get_service_status B name mg = (Inr st, mg\<lparr>mg_registry := g\<rparr>)"
    and "hm_has (mg_active_services mg) name \<Longrightarrow> st = active_status name mg"
proof (cases "get_entry B name (mg_registry mg)")
  case (Pair r g)
  show thesis
    by (rule that [of "case r of Inr e \<Rightarrow> if \<not> hm_has (mg_active_services mg) name then registry_status (se_state e)
        else active_status name mg | Inl _ \<Rightarrow> active_status name mg" g])
      (simp_all add: get_service_status_def act_bind_def on_registry_def Pair split: sum.split)
qed

lemma mg_reach_status:
  assumes "mg_reach H display B mg0 mg"
  shows "mg_reach H display B mg0 (snd (get_service_status B name mg))"
  using mg_more [OF assms, of "MgStatus name"] by simp

lemma list_statuses_run:
  assumes "mg_reach H display B mg0 mg" and "\<forall>n\<in>set names. hm_has (mg_active_services mg) n"
  shows "\<exists>out g. list_statuses B names acc mg = (Inr out, mg\<lparr>mg_registry := g\<rparr>) \<and>
    (\<forall>n. hm_get out n = (if n \<in> set names then Some (active_status n mg) else hm_get acc n)) \<and>
    mg_reach H display B mg0 (mg\<lparr>mg_registry := g\<rparr>)"
  using assms
proof (induction names arbitrary: mg acc)
  case Nil
  then show ?case by (auto intro!: exI [of _ "mg_registry mg"])
next
  case (Cons name names)
  obtain st g where st: "get_service_status B name mg = (Inr st, mg\<lparr>mg_registry := g\<rparr>)" "st = active_status name mg"
    using status_run [of B name mg] Cons(3) by (metis list.set_intros(1))
  let ?mg = "mg\<lparr>mg_registry := g\<rparr>"
  have "mg_reach H display B mg0 ?mg" using mg_reach_status [OF Cons(2), of name] st by simp
  from Cons(1) [OF this, of "hm_insert name st acc"] Cons(3) obtain out g' where
    "list_statuses B names (hm_insert name st acc) ?mg = (Inr out, ?mg\<lparr>mg_registry := g'\<rparr>)"
    "\<forall>n. hm_get out n = (if n \<in> set names then Some (active_status n ?mg) else hm_get (hm_insert name st acc) n)"
    "mg_reach H display B mg0 (?mg\<lparr>mg_registry := g'\<rparr>)" by auto
  with st show ?case by (auto simp: act_bind_def)
qed

lemma list_details_run:
  assumes "mg_reach H display B mg0 mg"
  shows "\<exists>out g. list_details B names acc mg = (Inr out, mg\<lparr>mg_registry := g\<rparr>) \<and>
    map di_name out = map di_name acc @ names \<and> mg_reach H display B mg0 (mg\<lparr>mg_registry := g\<rparr>)"
  using assms
proof (induction names arbitrary: mg acc)
  case Nil
  then show ?case by (auto intro!: exI [of _ "mg_registry mg"])
next
  case (Cons name names)
  obtain st g where st: "get_service_status B name mg = (Inr st, mg\<lparr>mg_registry := g\<rparr>)"
    using status_run [of B name mg] by blast
  let ?mg = "mg\<lparr>mg_registry := g\<rparr>"
  have "mg_reach H display B mg0 ?mg" using mg_reach_status [OF Cons(2), of name] st by simp
  from Cons(1) [OF this, of "acc @ [detailed_info name st (get_service_info ?mg name)]"] st show ?case
    by (auto simp: act_bind_def detailed_info_def split: option.splits)
qed

lemma or_error_snd [simp]: "snd (or_error D c ok rm) = snd rm"
  by (auto simp: or_error_def split: prod.splits sum.splits)

lemma daemon_request_reach:
  assumes "mg_reach (dm_host D) (dm_display D) (dm_backend D) mg0 mg" and wf: "hm_wf (mg_active_services mg)"
  shows "mg_reach (dm_host D) (dm_display D) (dm_backend D) mg0 (snd (daemon_request D created now request mg))"
proof (cases request)
  case (ReqStart name config)
  with mg_more [OF assms(1), of "MgStart created now name config"] show ?thesis by (simp add: daemon_request_def)
next
  case (ReqStop name)
  with mg_more [OF assms(1), of "MgStop now name"] show ?thesis by (simp add: daemon_request_def)
next
  case (ReqStatus name)
  with mg_more [OF assms(1), of "MgStatus name"] show ?thesis by (simp add: daemon_request_def)
next
  case ReqList
  have "\<forall>n\<in>set (list_services mg). hm_has (mg_active_services mg) n" by (simp add: list_services_def)
  from list_statuses_run [OF assms(1) this, of "[]"] ReqList show ?thesis by (auto simp: daemon_request_def)
next
  case ReqListDetailed
  with list_details_run [OF assms(1), of "list_services mg" "[]"] show ?thesis by (auto simp: daemon_request_def)
next
  case ReqHealthChecks
  with mg_more [OF assms(1), of MgCheck] show ?thesis by (simp add: daemon_request_def)
qed (simp_all add: daemon_request_def assms(1))

section \<open>Runs of a connection\<close>

text \<open>The texts of a connection before it closes, and the answers to them, one after the other.\<close>

fun texts_before_close :: "(Timestamp \<times> Timestamp \<times> 'x in_frame) list \<Rightarrow> (Timestamp \<times> Timestamp \<times> 'x) list" where
  "texts_before_close [] = []"
| "texts_before_close ((c, n, InText t) # fs) = (c, n, t) # texts_before_close fs"
| "texts_before_close ((c, n, InClose) # fs) = []"
| "texts_before_close ((c, n, InError e) # fs) = []"
| "texts_before_close ((c, n, InPing d) # fs) = texts_before_close fs"
| "texts_before_close ((c, n, InOther) # fs) = texts_before_close fs"

definition answer :: "('b, 'w) daemon_ctx \<Rightarrow> ('s, 'x) wire \<Rightarrow> Timestamp \<times> Timestamp \<times> 'x \<Rightarrow> ('b, 'w) manager \<Rightarrow> Response \<times> ('b, 'w) manager" where
  "answer D W req mg =
     (case req of (created, now, t) \<Rightarrow>
        (case wi_parse W t of
           Inl e \<Rightarrow> (RespError (''Invalid request format: '' @ e), mg)
         | Inr request \<Rightarrow> daemon_request D created now request mg))"

fun answers ::
    "('b, 'w) daemon_ctx \<Rightarrow> ('s, 'x) wire \<Rightarrow> (Timestamp \<times> Timestamp \<times> 'x) list \<Rightarrow> ('b, 'w) manager \<Rightarrow> Response list \<times> ('b, 'w) manager" where
  "answers D W [] mg = ([], mg)"
| "answers D W (req # reqs) mg =
     (case answer D W req mg of (r, mg) \<Rightarrow> case answers D W reqs mg of (rs, mg) \<Rightarrow> (r # rs, mg))"

lemma answers_length: "answers D W reqs mg = (rs, mg') \<Longrightarrow> length rs = length reqs"
  by (induction reqs arbitrary: mg rs) (auto split: prod.splits)

lemma serve_answers:
  assumes "wi_send W = (\<lambda>f s. (Inr (), s @ [f]))" and "answers D W (texts_before_close fs) mg = (rs, mg')"
  shows "serve D W fs (mg, s) = (Inr (), (mg', s @ map (\<lambda>r. OutText (wi_print W r)) rs))"
  using assms(2)
proof (induction fs arbitrary: mg s rs)
  case (Cons f fs)
  obtain created now fr where f: "f = (created, now, fr)" by (cases f)
  show ?case
  proof (cases fr)
    case (InText t)
    obtain r mg1 where r: "answer D W (created, now, t) mg = (r, mg1)" by (cases "answer D W (created, now, t) mg")
    obtain rs1 mg2 where rs1: "answers D W (texts_before_close fs) mg1 = (rs1, mg2)"
      by (cases "answers D W (texts_before_close fs) mg1")
    from Cons(2) r rs1 have eq: "rs = r # rs1" "mg2 = mg'" by (simp_all add: f InText)
    have "serve D W (f # fs) (mg, s) = serve D W fs (mg1, s @ [OutText (wi_print W r)])"
      using r by (cases "wi_parse W t") (auto simp: f InText assms(1) answer_def split: prod.splits)
    with Cons(1) [OF rs1 [unfolded eq(2)]] eq show ?thesis by simp
  qed (use Cons in \<open>auto simp: f\<close>)
qed simp

section \<open>Properties\<close>

text \<open>
  C36. The daemon over any conversation. On any frames of a connection whose socket delivers, each text before
  the close is answered by exactly one text, in order, a malformed one by an error; the
  manager keeps its invariant, and whatever changes it, does so in steps of the manager. The list
  of services names exactly the active ones, each with its status. A request to shut down is answered
  with success and does nothing.
\<close>

theorem daemon_conversation:
  assumes db: "sled_db S content J"
    and ctx: "dm_backend D = sled_backend S J" "wi_send W = (\<lambda>f s. (Inr (), s @ [f]))"
    and init: "mg_inv (sled_view content J) (entry_encodable (jt_is_addr J)) (dm_host D) mg"
  shows "(case answers D W (texts_before_close fs) mg of (rs, mg') \<Rightarrow>
      serve D W fs (mg, s) = (Inr (), (mg', s @ map (\<lambda>r. OutText (wi_print W r)) rs)) \<and>
      length rs = length (texts_before_close fs) \<and>
      mg_reach (dm_host D) (dm_display D) (dm_backend D) mg mg' \<and>
      mg_inv (sled_view content J) (entry_encodable (jt_is_addr J)) (dm_host D) mg' \<and>
      (\<exists>l g. daemon_request D created now ReqList mg' = (RespList l, mg'\<lparr>mg_registry := g\<rparr>) \<and>
        (\<forall>n. hm_get l n = (if hm_has (mg_active_services mg') n then Some (active_status n mg') else None))) \<and>
      daemon_request D created now ReqShutdown mg' = (RespSuccess, mg'))"
proof -
  let ?inv = "mg_inv (sled_view content J) (entry_encodable (jt_is_addr J)) (dm_host D)"
  let ?reach = "mg_reach (dm_host D) (dm_display D) (dm_backend D)"
  have inv: "?inv mg2" if "?reach mg mg2" for mg2
    using registry_store.mg_reach_ok [OF sled_db.store_laws [OF db] _ init fresh_encodable] that ctx(1) by fastforce
  have reach: "?reach mg mg3" if "answers D W reqs mg2 = (rs, mg3)" "?reach mg mg2" for reqs rs mg2 mg3
    using that
  proof (induction reqs arbitrary: mg2 rs)
    case (Cons req reqs)
    obtain created now t where req: "req = (created, now, t)" by (cases req)
    obtain r mg4 where r: "answer D W req mg2 = (r, mg4)" by (cases "answer D W req mg2")
    have "hm_wf (mg_active_services mg2)" using inv [OF Cons(3)] by (simp add: mg_inv_def)
    from daemon_request_reach [OF Cons(3) this, of created now] r Cons(3) have "?reach mg mg4"
      by (auto simp: answer_def req split: sum.splits) (metis snd_conv)
    with Cons r show ?case by (auto split: prod.splits)
  qed simp
  obtain rs mg' where a: "answers D W (texts_before_close fs) mg = (rs, mg')"
    by (cases "answers D W (texts_before_close fs) mg")
  from reach [OF a mg_start] have r: "?reach mg mg'" .
  have "\<forall>n\<in>set (list_services mg'). hm_has (mg_active_services mg') n" by (simp add: list_services_def)
  from list_statuses_run [OF r this, of "[]"] obtain l g where
    "list_statuses (dm_backend D) (list_services mg') [] mg' = (Inr l, mg'\<lparr>mg_registry := g\<rparr>)"
    "\<forall>n. hm_get l n = (if n \<in> set (list_services mg') then Some (active_status n mg') else None)" by auto
  then have "daemon_request D created now ReqList mg' = (RespList l, mg'\<lparr>mg_registry := g\<rparr>)"
    "\<forall>n. hm_get l n = (if hm_has (mg_active_services mg') n then Some (active_status n mg') else None)"
    by (simp_all add: daemon_request_def or_error_def list_services_def)
  with serve_answers [OF ctx(2) a] answers_length [OF a] r inv [OF r] a show ?thesis
    by (auto simp: daemon_request_def)
qed

definition demo_daemon :: "((string, json) hmap sled_store, string list) daemon_ctx" where
  "demo_daemon = \<lparr>dm_backend = sled_backend mem_sled mem_json, dm_host = demo_host, dm_display = (\<lambda>_. ''error''),
     dm_debug_health = (\<lambda>_. ''status''), dm_vars = [], dm_var = (\<lambda>_. None)\<rparr>"

definition demo_wire :: "((Request + Response) out_frame list, Request + Response) wire" where
  "demo_wire = \<lparr>wi_parse = (\<lambda>x. case x of Inl r \<Rightarrow> Inr r | Inr _ \<Rightarrow> Inl ''a response''), wi_print = Inr,
     wi_send = (\<lambda>f s. (Inr (), s @ [f]))\<rparr>"

theorem daemon_conversation_witness:
  "\<exists>rs mg'. serve demo_daemon demo_wire [(''t'', ''t'', InText (Inl (ReqStart ''api'' (demo_config ''api'')))),
       (''t'', ''t'', InOther), (''t'', ''t'', InText (Inl ReqShutdown)), (''t'', ''t'', InClose)] (demo_manager, []) =
     (Inr (), (mg', map (\<lambda>r. OutText (Inr r)) rs)) \<and> length rs = 2"
proof -
  let ?fs = "[(''t'', ''t'', InText (Inl (ReqStart ''api'' (demo_config ''api'')))),
       (''t'', ''t'', InOther), (''t'', ''t'', InText (Inl ReqShutdown)), (''t'', ''t'', InClose)]"
  have ctx: "dm_backend demo_daemon = sled_backend mem_sled mem_json" "wi_send demo_wire = (\<lambda>f s. (Inr (), s @ [f]))"
    by (simp_all add: demo_daemon_def demo_wire_def)
  have init: "mg_inv (sled_view hm_get mem_json) (entry_encodable (jt_is_addr mem_json)) (dm_host demo_daemon) demo_manager"
    using demo_manager_inv by (simp add: demo_daemon_def)
  obtain rs mg' where a: "answers demo_daemon demo_wire (texts_before_close ?fs) demo_manager = (rs, mg')"
    by (cases "answers demo_daemon demo_wire (texts_before_close ?fs) demo_manager")
  from daemon_conversation [OF mem.sled_db_axioms ctx init, where fs = ?fs and s = "[]", unfolded a prod.case]
  have "serve demo_daemon demo_wire ?fs (demo_manager, []) = (Inr (), (mg', map (\<lambda>r. OutText (wi_print demo_wire r)) rs))"
    "length rs = 2" by simp_all
  then show ?thesis by (auto simp: demo_wire_def)
qed

end
