(* ===== verification/Cli_Client.thy ===== *)
theory Cli_Client
  imports Cfg_Parser Dmn_Handlers "HOL-Library.Sublist"
begin

text \<open>
  What the commands of \<^verbatim>\<open>crates/harness/src/commands\<close> share: a connection to the daemon that answers
  requests (\<^verbatim>\<open>client/mod.rs\<close>), a clock and a timer on a state \<open>'d\<close>, and the loop that polls a service's
  status. Progress output has no effect here; a run that does not return, or panics, is \<open>None\<close>.
\<close>

section \<open>What a command runs on\<close>

text \<open>The clock counts milliseconds; \<open>ce_vars\<close> and \<open>ce_env\<close> are the variables of the process.\<close>

record 'd cli_env =
  ce_request :: "Request \<Rightarrow> ('d, string, Response) act"
  ce_connect :: "('d, string, unit) act"
  ce_now :: "'d \<Rightarrow> nat"
  ce_sleep :: "nat \<Rightarrow> 'd \<Rightarrow> 'd"
  ce_vars :: "(string \<times> string) list"
  ce_env :: "string \<Rightarrow> string option"
  ce_show_config_error :: "ConfigError \<Rightarrow> string"

datatype CliError =
    CliConfig ConfigError
  | CliDaemon string
  | CliDeps dep_error
  | CliMissing string
  | CliFailed nat
  | CliIo string

section \<open>Polling a status\<close>

text \<open>
  Ask for the status until it is final, the time has expired, or the daemon does not answer with
  a status.
\<close>

partial_function (option) poll_status ::
    "'d cli_env \<Rightarrow> (nat \<Rightarrow> bool) \<Rightarrow> (ServiceStatus \<Rightarrow> bool) \<Rightarrow> string \<Rightarrow> nat \<Rightarrow> 'd \<Rightarrow> 'd option" where
  "poll_status E expired is_final name start d =
     (if expired (ce_now E d - start) then Some d
      else case ce_request E (ReqStatus name) d of
        (Inr (RespStatus status), d) \<Rightarrow>
          (if is_final status then Some d else poll_status E expired is_final name start (ce_sleep E 500 d))
      | (_, d) \<Rightarrow> Some d)"

section \<open>Recording the requests\<close>

text \<open>The same environment with a record of the requests that were made and their outcomes.\<close>

type_synonym 'd logged = "'d \<times> (Request \<times> (string + Response)) list"

definition log_requests :: "'d cli_env \<Rightarrow> 'd logged cli_env" where
  "log_requests E = \<lparr>
     ce_request = (\<lambda>req (d, log). case ce_request E req d of (r, d) \<Rightarrow> (r, (d, log @ [(req, r)]))),
     ce_connect = (\<lambda>(d, log). case ce_connect E d of (r, d) \<Rightarrow> (r, (d, log))),
     ce_now = (\<lambda>(d, log). ce_now E d), ce_sleep = (\<lambda>t (d, log). (ce_sleep E t d, log)),
     ce_vars = ce_vars E, ce_env = ce_env E, ce_show_config_error = ce_show_config_error E\<rparr>"

lemma log_requests_simps [simp]:
  "ce_request (log_requests E) req dl =
     (case ce_request E req (fst dl) of (r, d) \<Rightarrow> (r, (d, snd dl @ [(req, r)])))"
  "ce_now (log_requests E) dl = ce_now E (fst dl)"
  "ce_sleep (log_requests E) t dl = (ce_sleep E t (fst dl), snd dl)"
  "ce_vars (log_requests E) = ce_vars E" "ce_env (log_requests E) = ce_env E"
  "ce_show_config_error (log_requests E) = ce_show_config_error E"
  "ce_connect (log_requests E) dl = (case ce_connect E (fst dl) of (r, d) \<Rightarrow> (r, (d, snd dl)))"
  by (simp_all add: log_requests_def split: prod.splits)

text \<open>The answers by which the daemon refuses a request.\<close>

definition refused :: "string + Response \<Rightarrow> bool" where
  "refused r = (case r of Inr (RespError _) \<Rightarrow> True | Inl _ \<Rightarrow> True | _ \<Rightarrow> False)"

text \<open>What every status request and every pause keeps, polling keeps.\<close>

lemma poll_status_keeps:
  assumes R: "reflp R" "transp R" and run: "poll_status E expired is_final name start d = Some d'"
  shows "(\<forall>n d. R d (snd (ce_request E (ReqStatus n) d))) \<longrightarrow> (\<forall>t d. R d (ce_sleep E t d)) \<longrightarrow> R d d'"
proof (rule poll_status.raw_induct [OF _ run, where P = "\<lambda>E expired is_final name start d d'.
    (\<forall>n d. R d (snd (ce_request E (ReqStatus n) d))) \<longrightarrow> (\<forall>t d. R d (ce_sleep E t d)) \<longrightarrow> R d d'"], intro impI)
  fix self E expired is_final name start d d'
  assume IH: "\<And>E expired is_final name start d d'. self E expired is_final name start d = Some d' \<Longrightarrow>
      (\<forall>n d. R d (snd (ce_request E (ReqStatus n) d))) \<longrightarrow> (\<forall>t d. R d (ce_sleep E t d)) \<longrightarrow> R d d'"
    and step: "(if expired (ce_now E d - start) then Some d
      else case ce_request E (ReqStatus name) d of
        (Inr (RespStatus status), d) \<Rightarrow>
          (if is_final status then Some d else self E expired is_final name start (ce_sleep E 500 d))
      | (_, d) \<Rightarrow> Some d) = Some d'"
    and sent: "\<forall>n d. R d (snd (ce_request E (ReqStatus n) d))" and slept: "\<forall>t d. R d (ce_sleep E t d)"
  obtain r d1 where rd: "ce_request E (ReqStatus name) d = (r, d1)" by fastforce
  with sent have d1: "R d d1" by (metis snd_conv)
  have "d' = d \<or> d' = d1 \<or> self E expired is_final name start (ce_sleep E 500 d1) = Some d'"
  proof (cases "expired (ce_now E d - start)")
    case True
    with step show ?thesis by simp
  next
    case False
    note answered = step [unfolded rd if_not_P [OF False] prod.case]
    show ?thesis
    proof (cases "\<exists>s. r = Inr (RespStatus s)")
      case True
      then obtain s where "r = Inr (RespStatus s)" ..
      with answered show ?thesis by (cases "is_final s") simp_all
    next
      case False
      with answered show ?thesis by (cases r; cases "projr r") simp_all
    qed
  qed
  then consider "d' = d" | "d' = d1" | "self E expired is_final name start (ce_sleep E 500 d1) = Some d'" by blast
  then show "R d d'"
  proof cases
    case 1
    with reflpD [OF R(1)] show ?thesis by simp
  next
    case 2
    with d1 show ?thesis by simp
  next
    case 3
    from IH [OF 3] sent slept have "R (ce_sleep E 500 d1) d'" by blast
    with slept d1 show ?thesis using transpD [OF R(2)] by meson
  qed
qed

lemma subseq_facts: "subseq xs ys \<Longrightarrow> set xs \<subseteq> set ys \<and> (distinct ys \<longrightarrow> distinct xs)"
  by (induction rule: list_emb.induct) auto

text \<open>Polling records status requests only.\<close>

definition only_polled :: "'d logged \<Rightarrow> 'd logged \<Rightarrow> bool" where
  "only_polled dl dl' \<longleftrightarrow> (\<exists>reqs. snd dl' = snd dl @ reqs \<and> (\<forall>x\<in>set reqs. \<exists>n. fst x = ReqStatus n))"

lemma only_polled_refl [simp]: "only_polled dl dl"
  by (simp add: only_polled_def)

lemma poll_status_log:
  assumes "poll_status (log_requests E) expired is_final name start dl = Some dl'"
  shows "only_polled dl dl'"
proof -
  have "reflp (only_polled :: 'a logged \<Rightarrow> _)" by (simp add: reflp_def only_polled_def)
  moreover have "transp (only_polled :: 'a logged \<Rightarrow> _)" by (auto simp: transp_def only_polled_def)
  moreover have "only_polled d (snd (ce_request (log_requests E) (ReqStatus n) d))"
      "only_polled d (ce_sleep (log_requests E) t d)" for n t and d :: "'a logged"
    by (simp_all add: only_polled_def split: prod.splits)
  ultimately show ?thesis using poll_status_keeps [of only_polled] assms by metis
qed

section \<open>The clock\<close>

text \<open>A pause lasts as long as asked, and a request does not turn the clock back.\<close>

definition steady_clock :: "'d cli_env \<Rightarrow> bool" where
  "steady_clock E \<longleftrightarrow> (\<forall>t d. ce_now E d + t \<le> ce_now E (ce_sleep E t d)) \<and>
     (\<forall>req d. ce_now E d \<le> ce_now E (snd (ce_request E req d)))"

lemma poll_status_returns:
  assumes clock: "steady_clock E" and limit: "\<And>t. t > limit \<Longrightarrow> expired t"
  shows "\<exists>d'. poll_status E expired is_final name start d = Some d'"
proof (induction "Suc (start + limit) - ce_now E d" arbitrary: d rule: less_induct)
  case less
  show ?case
  proof (cases "expired (ce_now E d - start)")
    case True
    then show ?thesis by (simp add: poll_status.simps)
  next
    case False
    then have early: "\<not> ce_now E d - start > limit" using limit by blast
    obtain r d1 where rd: "ce_request E (ReqStatus name) d = (r, d1)" by fastforce
    with clock have "ce_now E d \<le> ce_now E d1" unfolding steady_clock_def by (metis snd_conv)
    moreover have "ce_now E d1 + 500 \<le> ce_now E (ce_sleep E 500 d1)" using clock by (simp add: steady_clock_def)
    ultimately have "Suc (start + limit) - ce_now E (ce_sleep E 500 d1) < Suc (start + limit) - ce_now E d"
      using early by linarith
    from less.hyps [OF this] False rd show ?thesis
      by (subst poll_status.simps) (simp split: sum.split Response.split)
  qed
qed

section \<open>A demonstration\<close>

text \<open>A daemon whose answer depends only on the request, on a clock that the pauses turn.\<close>

definition demo_cli :: "(Request \<Rightarrow> Response) \<Rightarrow> nat cli_env" where
  "demo_cli reply = \<lparr>ce_request = (\<lambda>req d. (Inr (reply req), d)), ce_connect = (\<lambda>d. (Inr (), d)), ce_now = id,
     ce_sleep = (+), ce_vars = [], ce_env = (\<lambda>_. None), ce_show_config_error = (\<lambda>_. ''error'')\<rparr>"

lemma demo_cli_simps [simp]:
  "ce_request (demo_cli reply) req d = (Inr (reply req), d)" "ce_connect (demo_cli reply) d = (Inr (), d)"
  "ce_now (demo_cli reply) d = d" "ce_sleep (demo_cli reply) t d = t + d" "ce_vars (demo_cli reply) = []"
  "ce_env (demo_cli reply) = (\<lambda>_. None)" "ce_show_config_error (demo_cli reply) e = ''error''"
  by (simp_all add: demo_cli_def)

lemma demo_cli_steady: "steady_clock (demo_cli reply)"
  by (simp add: steady_clock_def)

end
