(* ===== verification/Cli_Start.thy ===== *)
theory Cli_Start
  imports Cli_Client Cli_Deps
begin

text \<open>
  The command that starts services, \<^verbatim>\<open>crates/harness/src/commands/start.rs\<close>: in dependency order, each
  converted with what is known of the services started before it.
\<close>

section \<open>Waiting for a service\<close>

definition startup_timeout_ms :: "CfgService \<Rightarrow> nat" where
  "startup_timeout_ms service_def =
     1000 * (case svc_startup_timeout service_def of Some t \<Rightarrow> unat t | None \<Rightarrow> 60)"

definition wait_healthy :: "'d cli_env \<Rightarrow> string \<Rightarrow> nat \<Rightarrow> nat \<Rightarrow> 'd \<Rightarrow> 'd option" where
  "wait_healthy E name start timeout =
     poll_status E (\<lambda>elapsed. elapsed > timeout)
       (\<lambda>status. case status of OsRunning \<Rightarrow> True | OsFailed _ \<Rightarrow> True | _ \<Rightarrow> False) name start"

definition await_start :: "'d cli_env \<Rightarrow> string \<Rightarrow> CfgService \<Rightarrow> 'd \<Rightarrow> 'd option" where
  "await_start E name service_def d =
     (if svc_health_check service_def \<noteq> None then
        wait_healthy E name (ce_now E d) (startup_timeout_ms service_def) d
      else Some d)"

section \<open>Starting in order\<close>

record start_state =
  sst_failures :: "(string \<times> string) list"
  sst_started :: "string list"
  sst_context :: ResolutionContext

definition note_failure :: "string \<Rightarrow> string \<Rightarrow> start_state \<Rightarrow> start_state" where
  "note_failure name error st = st\<lparr>sst_failures := sst_failures st @ [(name, error)]\<rparr>"

definition note_started :: "string \<Rightarrow> string \<Rightarrow> u16 option \<Rightarrow> string \<Rightarrow> start_state \<Rightarrow> start_state" where
  "note_started name ip port host st =
     st\<lparr>sst_started := sst_started st @ [name], sst_context := add_service name ip port host (sst_context st)\<rparr>"

text \<open>The loop: a daemon error ends it, a conversion error or an unexpected reply does not.\<close>

fun start_loop ::
    "nom \<Rightarrow> 'd cli_env \<Rightarrow> Config \<Rightarrow> string list \<Rightarrow> start_state \<Rightarrow> 'd \<Rightarrow> ((CliError + start_state) \<times> 'd) option" where
  "start_loop N E config [] st d = Some (Inr st, d)"
| "start_loop N E config (name # names) st d =
     (case hm_get (cfg_services config) name of
        None \<Rightarrow> Some (Inl (CliMissing name), d)
      | Some service_def \<Rightarrow>
          (case convert_to_orchestrator_with_context N (ce_env E) (ce_vars E) config name (Some (sst_context st)) of
             None \<Rightarrow> None
           | Some (Inl e) \<Rightarrow> start_loop N E config names (note_failure name (ce_show_config_error E e) st) d
           | Some (Inr service_config) \<Rightarrow>
               (case ce_request E (ReqStart name service_config) d of
                  (Inr (RespStarted _ ni), d) \<Rightarrow>
                    (case await_start E name service_def d of
                       None \<Rightarrow> None
                     | Some d \<Rightarrow>
                         start_loop N E config names (note_started name (sn_ip ni) (sn_port ni) (sn_hostname ni) st) d)
                | (Inr RespSuccess, d) \<Rightarrow>
                    (case await_start E name service_def d of
                       None \<Rightarrow> None
                     | Some d \<Rightarrow>
                         start_loop N E config names (note_started name ''127.0.0.1'' None (name @ ''.local'') st) d)
                | (Inr (RespError message), d) \<Rightarrow> Some (Inr (note_failure name message st), d)
                | (Inr _, d) \<Rightarrow> start_loop N E config names (note_failure name ''Unexpected response'' st) d
                | (Inl e, d) \<Rightarrow> Some (Inr (note_failure name e st), d))))"

definition start_summary :: "start_state \<Rightarrow> CliError + unit" where
  "start_summary st = (if sst_failures st = [] then Inr () else Inl (CliFailed (length (sst_failures st))))"

text \<open>
  The command: \<open>parsed\<close> is the result of parsing the file, and \<open>ord\<close> the order in which a hash set is
  gone through by the sort.
\<close>

definition start_run ::
    "nom \<Rightarrow> 'd cli_env \<Rightarrow> (string list \<Rightarrow> string list) \<Rightarrow> (ConfigError + Config) option \<Rightarrow> string list \<Rightarrow> 'd \<Rightarrow>
      ((CliError + unit) \<times> 'd) option" where
  "start_run N E ord parsed services d =
     (case parsed of
        None \<Rightarrow> None
      | Some (Inl e) \<Rightarrow> Some (Inl (CliConfig e), d)
      | Some (Inr config) \<Rightarrow>
          (case ce_connect E d of
             (Inl e, d) \<Rightarrow> Some (Inl (CliDaemon e), d)
           | (Inr _, d) \<Rightarrow>
               (case topological_sort ord config services of
                  None \<Rightarrow> None
                | Some (Inl e) \<Rightarrow> Some (Inl (CliDeps e), d)
                | Some (Inr ordered_services) \<Rightarrow>
                    map_option (map_prod (\<lambda>r. res_bind r start_summary) id)
                      (start_loop N E config ordered_services
                        \<lparr>sst_failures = [], sst_started = [], sst_context = resolution_context_new (ce_vars E)\<rparr> d))))"

text \<open>The start requests of a record, and the answers that count as a start.\<close>

fun starts_of :: "(Request \<times> (string + Response)) list \<Rightarrow> (string \<times> (string + Response)) list" where
  "starts_of [] = []"
| "starts_of ((ReqStart name config, r) # log) = (name, r) # starts_of log"
| "starts_of (_ # log) = starts_of log"

definition accepted :: "string + Response \<Rightarrow> bool" where
  "accepted r = (case r of Inr (RespStarted _ _) \<Rightarrow> True | Inr RespSuccess \<Rightarrow> True | _ \<Rightarrow> False)"

lemma starts_of_append [simp]: "starts_of (xs @ ys) = starts_of xs @ starts_of ys"
  by (induction xs rule: starts_of.induct) auto

lemma starts_of_polls: "\<forall>x\<in>set reqs. \<exists>n. fst x = ReqStatus n \<Longrightarrow> starts_of reqs = []"
  by (induction reqs rule: starts_of.induct) auto

lemma await_start_log:
  assumes "await_start (log_requests E) name service dl = Some dl'"
  shows "\<exists>reqs. snd dl' = snd dl @ reqs \<and> starts_of reqs = []"
proof -
  have "only_polled dl dl'"
    using assms by (auto simp: await_start_def wait_healthy_def split: if_splits intro: poll_status_log simp del: split_paired_All)
  then show ?thesis using starts_of_polls by (auto simp: only_polled_def)
qed

section \<open>The loop\<close>

text \<open>What the loop asks for: in order, nothing after a refusal, and everything if nothing failed.\<close>

definition start_trace ::
    "Config \<Rightarrow> string list \<Rightarrow> start_state \<Rightarrow> (Request \<times> (string + Response)) list \<Rightarrow> CliError + start_state \<Rightarrow> bool" where
  "start_trace config names st reqs r \<longleftrightarrow>
     subseq (map fst (starts_of reqs)) names \<and> (\<forall>x\<in>set (butlast (starts_of reqs)). \<not> refused (snd x)) \<and>
     (case r of
        Inl e \<Rightarrow> \<exists>n\<in>set names. e = CliMissing n \<and> \<not> hm_has (cfg_services config) n
      | Inr st' \<Rightarrow>
          sst_started st' = sst_started st @ map fst (filter (accepted \<circ> snd) (starts_of reqs)) \<and>
          (\<exists>fs. sst_failures st' = sst_failures st @ fs \<and>
             (fs = [] \<longrightarrow> map fst (starts_of reqs) = names \<and> (\<forall>x\<in>set (starts_of reqs). accepted (snd x)))))"

lemma start_trace_Nil: "start_trace config [] st [] (Inr st)"
  by (simp add: start_trace_def)

lemma start_trace_missing: "\<not> hm_has (cfg_services config) name \<Longrightarrow> start_trace config (name # names) st [] (Inl (CliMissing name))"
  by (simp add: start_trace_def)

lemma start_trace_skip:
  "start_trace config names (note_failure name e st) reqs r \<Longrightarrow> start_trace config (name # names) st reqs r"
  by (auto simp: start_trace_def note_failure_def split: sum.splits)

lemma start_trace_refused:
  "refused a \<Longrightarrow> start_trace config (name # names) st [(ReqStart name sc, a)] (Inr (note_failure name e st))"
  by (auto simp: start_trace_def note_failure_def refused_def accepted_def split: sum.splits Response.splits)

lemma start_trace_started:
  assumes "start_trace config names (note_started name ip port host st) reqs r" and "accepted a" and "starts_of wait = []"
  shows "start_trace config (name # names) st ((ReqStart name sc, a) # wait @ reqs) r"
  using assms
  by (auto simp: start_trace_def note_started_def refused_def accepted_def split: sum.splits Response.splits)

lemma start_trace_unexpected:
  assumes "start_trace config names (note_failure name e st) reqs r" and "\<not> accepted a" and "\<not> refused a"
  shows "start_trace config (name # names) st ((ReqStart name sc, a) # reqs) r"
  using assms by (auto simp: start_trace_def note_failure_def split: sum.splits)

lemma start_loop_trace:
  "start_loop N (log_requests E) config names st dl = Some (r, dl') \<Longrightarrow>
     \<exists>reqs. snd dl' = snd dl @ reqs \<and> start_trace config names st reqs r"
proof (induction names arbitrary: st dl)
  case Nil
  then show ?case using start_trace_Nil by auto
next
  case (Cons name names)
  show ?case
  proof (cases "hm_get (cfg_services config) name")
    case None
    with Cons.prems start_trace_missing [of config name] show ?thesis by (auto simp: hm_has_iff)
  next
    case (Some service)
    from Cons.prems Some obtain c where
      c: "convert_to_orchestrator_with_context N (ce_env E) (ce_vars E) config name (Some (sst_context st)) = Some c"
      by (fastforce split: option.splits)
    show ?thesis
    proof (cases c)
      case (Inl e)
      with Cons.prems Some c have "start_loop N (log_requests E) config names
          (note_failure name (ce_show_config_error E e) st) dl = Some (r, dl')" by simp
      from Cons.IH [OF this] start_trace_skip show ?thesis by blast
    next
      case (Inr sc)
      obtain a d where a: "ce_request E (ReqStart name sc) (fst dl) = (a, d)" by fastforce
      let ?dl = "(d, snd dl @ [(ReqStart name sc, a)])"
      have go: "\<exists>reqs. snd dl' = snd dl @ reqs \<and> start_trace config (name # names) st reqs r"
        if acc: "accepted a" and aw: "await_start (log_requests E) name service ?dl = Some dl1"
          and rest: "start_loop N (log_requests E) config names (note_started name ip port host st) dl1 = Some (r, dl')"
        for dl1 ip port host
      proof -
        from await_start_log [OF aw] obtain w where w: "snd dl1 = snd ?dl @ w" "starts_of w = []" by blast
        from Cons.IH [OF rest] obtain reqs where
          reqs: "snd dl' = snd dl1 @ reqs" "start_trace config names (note_started name ip port host st) reqs r" by blast
        from start_trace_started [OF reqs(2) acc w(2)] reqs(1) w(1) show ?thesis by auto
      qed
      have over: "\<exists>reqs. snd dl' = snd dl @ reqs \<and> start_trace config (name # names) st reqs r"
        if "refused a" and "r = Inr (note_failure name e st)" and "dl' = ?dl" for e
        using start_trace_refused [OF that(1)] that(2,3) by auto
      have on: "\<exists>reqs. snd dl' = snd dl @ reqs \<and> start_trace config (name # names) st reqs r"
        if "\<not> accepted a" and "\<not> refused a"
          and "start_loop N (log_requests E) config names (note_failure name e st) ?dl = Some (r, dl')" for e
        using Cons.IH [OF that(3)] start_trace_unexpected [OF _ that(1,2)] by fastforce
      note run = Cons.prems Some c [unfolded Inr] a
      show ?thesis
      proof (cases a)
        case (Inl e)
        with run over show ?thesis by (auto simp: refused_def)
      next
        case (Inr resp)
        with run go over on show ?thesis
          by (cases resp) (auto simp: refused_def accepted_def split: option.splits)
      qed
    qed
  qed
qed

lemma await_start_returns: "steady_clock E \<Longrightarrow> \<exists>d'. await_start E name service d = Some d'"
  by (simp add: await_start_def wait_healthy_def poll_status_returns)

lemma resolve_env_total:
  assumes nom: "nom_library N"
  shows "\<exists>r. resolve_env_loop N env ctx kvs resolved = Some r"
proof (induction kvs arbitrary: resolved)
  case (Cons kv kvs)
  obtain k v where kv: "kv = (k, v)" by fastforce
  obtain rs where rs: "find_variables N v = Some rs" "placed v 0 rs"
    using nom_library.find_variables_placed [OF nom] by blast
  then have "\<exists>r. resolve_string N env ctx v = Some r"
    by (simp add: resolve_string_def resolve_loop_total)
  then obtain r where "resolve_string N env ctx v = Some r" by blast
  with Cons.IH kv show ?case by (cases r) auto
qed simp

lemma convert_total:
  assumes "nom_library N"
  shows "\<exists>r. convert_to_orchestrator_with_context N env vars config name context = Some r"
proof (cases "hm_get (cfg_services config) name")
  case (Some service)
  let ?ctx = "case context of Some c \<Rightarrow> c | None \<Rightarrow> resolution_context_new vars"
  obtain r where "resolve_service_env N env service ?ctx = Some r"
    using resolve_env_total [OF assms] unfolding resolve_service_env_def by blast
  with Some show ?thesis by (cases r) (simp_all add: convert_to_orchestrator_with_context_def Let_def)
qed (simp add: convert_to_orchestrator_with_context_def)

lemma start_loop_returns:
  assumes nom: "nom_library N" and clock: "steady_clock E"
  shows "start_loop N E config names st d \<noteq> None"
proof (induction names arbitrary: st d)
  case (Cons name names)
  obtain c where c: "convert_to_orchestrator_with_context N (ce_env E) (ce_vars E) config name (Some (sst_context st)) = Some c"
    using convert_total [OF nom] by blast
  have wait: "await_start E name service x \<noteq> None" for service x
    using await_start_returns [OF clock] by fastforce
  show ?case
    by (auto simp: c wait Cons.IH simp del: not_None_eq split: option.split sum.split prod.split Response.split)
qed simp

section \<open>Properties\<close>

text \<open>
  C3. What \<open>start\<close> asks the daemon for. Whatever the daemon answers, each service is asked for at
  most once, only requested services and what they depend on, and nothing after a start that the
  daemon refused. And when the command reports success, all of them were asked for and accepted,
  each after everything it depends on.
\<close>

theorem start_in_dependency_order:
  assumes wf: "hm_wf (cfg_services config)" and ord: "iteration_order ord"
    and run: "start_run N (log_requests E) ord (Some (Inr config)) services (d, []) = Some (r, (d', log))"
    and names: "started = map fst (starts_of log)"
  shows "distinct started \<and> set started \<subseteq> (edges_of (cfg_deps config))\<^sup>* `` set (requested config services) \<and>
    (\<forall>x\<in>set (butlast (starts_of log)). \<not> refused (snd x)) \<and>
    (r = Inr () \<longrightarrow>
       set started = (edges_of (cfg_deps config))\<^sup>* `` set (requested config services) \<and>
       (\<forall>x\<in>set (starts_of log). accepted (snd x)) \<and>
       (\<forall>i<length started. \<forall>dep\<in>set (cfg_deps config (started ! i)). \<exists>j<i. started ! j = dep))"
proof -
  obtain u d1 where u: "ce_connect E d = (u, d1)" by fastforce
  obtain s where s: "topological_sort ord config services = Some s" using start_sort_returns [OF wf ord] by blast
  show ?thesis
  proof (cases "is_ok u \<and> is_ok s")
    case False
    with run u s have "log = [] \<and> r \<noteq> Inr ()" by (cases u; cases s) (auto simp: start_run_def)
    with names show ?thesis by simp
  next
    case True
    then obtain ordered where ordered: "u = Inr ()" "s = Inr ordered" by (cases u; cases s) auto
    note order = start_order [OF wf ord s [unfolded ordered]]
    let ?st = "\<lparr>sst_failures = [], sst_started = [], sst_context = resolution_context_new (ce_vars E)\<rparr>"
    from run u s ordered obtain x where
      loop: "start_loop N (log_requests E) config ordered ?st (d1, []) = Some (x, (d', log))"
      and r: "r = res_bind x start_summary" by (auto simp: start_run_def)
    from start_loop_trace [OF loop] have trace: "start_trace config ordered ?st log x" by simp
    then have sub: "subseq started ordered" using names by (simp add: start_trace_def)
    have all: "started = ordered \<and> (\<forall>x\<in>set (starts_of log). accepted (snd x))" if "r = Inr ()"
    proof -
      from that r obtain st' where "x = Inr st'" "sst_failures st' = []"
        by (cases x) (auto simp: start_summary_def split: if_splits)
      with trace names show ?thesis by (simp add: start_trace_def)
    qed
    have "distinct started" "set started \<subseteq> set ordered"
      using subseq_facts [OF sub] order by simp_all
    with all trace order show ?thesis by (auto simp: start_trace_def)
  qed
qed

lemma convert_without_env:
  "hm_get (cfg_services config) name = Some service \<Longrightarrow> svc_env service = [] \<Longrightarrow>
     \<exists>sc. convert_to_orchestrator_with_context N env vars config name context = Some (Inr sc)"
  by (simp add: convert_to_orchestrator_with_context_def resolve_service_env_def Let_def)

theorem start_in_dependency_order_witness:
  "\<exists>r d' log. start_run nom_reference (log_requests (demo_cli (\<lambda>_. RespSuccess))) rev
      (Some (Inr (plain_config [(''api'', [''db'']), (''db'', [])]))) [''api''] (0, []) = Some (r, (d', log)) \<and>
    map fst (starts_of log) = [''db'', ''api''] \<and> distinct (map fst (starts_of log))"
proof -
  let ?c = "plain_config [(''api'', [''db'']), (''db'', [])]"
  have wf: "hm_wf (cfg_services ?c)" by (simp add: hm_wf_def)
  have s: "topological_sort rev ?c [''api''] = Some (Inr [''db'', ''api''])" by code_simp
  have svc: "hm_get (cfg_services ?c) ''db'' = Some (plain_service [])"
    "hm_get (cfg_services ?c) ''api'' = Some (plain_service [''db''])" by (simp_all add: hm_get_def)
  have plain: "svc_env (plain_service ds) = []" "svc_health_check (plain_service ds) = None" for ds
    by (simp_all add: plain_service_def)
  have conv: "\<exists>sc. convert_to_orchestrator_with_context nom_reference (\<lambda>_. None) [] ?c n ctx = Some (Inr sc)"
    if "n \<in> {''db'', ''api''}" for n ctx
    using that convert_without_env [OF svc(1) plain(1)] convert_without_env [OF svc(2) plain(1)] by auto
  let ?E = "demo_cli (\<lambda>_. RespSuccess)"
  let ?st = "\<lparr>sst_failures = [], sst_started = [], sst_context = resolution_context_new []\<rparr>"
  let ?st1 = "note_started ''db'' ''127.0.0.1'' None (''db'' @ ''.local'') ?st"
  obtain sc1 where sc1: "convert_to_orchestrator_with_context nom_reference (\<lambda>_. None) [] ?c ''db'' (Some (sst_context ?st)) =
      Some (Inr sc1)" using conv by blast
  obtain sc2 where sc2: "convert_to_orchestrator_with_context nom_reference (\<lambda>_. None) [] ?c ''api'' (Some (sst_context ?st1)) =
      Some (Inr sc2)" using conv by blast
  let ?log = "[(ReqStart ''db'' sc1, Inr RespSuccess), (ReqStart ''api'' sc2, Inr RespSuccess)]"
  have "\<exists>st'. start_loop nom_reference (log_requests ?E) ?c [''db'', ''api''] ?st (0, []) = Some (Inr st', (0, ?log))"
    using svc plain sc1 sc2 by (simp add: await_start_def)
  then obtain r where run: "start_run nom_reference (log_requests ?E) rev (Some (Inr ?c)) [''api''] (0, []) = Some (r, (0, ?log))"
    using s by (auto simp: start_run_def)
  from start_in_dependency_order [OF wf iteration_order_rev run refl] run show ?thesis by auto
qed

text \<open>
  \<open>start\<close> comes to an end. On a clock that moves, for a parsed or refused configuration, the
  command returns: no wait for a health check lasts for ever, and no slice of a value panics.
\<close>

theorem start_returns:
  assumes nom: "nom_library N" and clock: "steady_clock E"
    and wf: "hm_wf (cfg_services config)" and ord: "iteration_order ord"
  shows "start_run N E ord (Some (Inr config)) services d \<noteq> None"
proof -
  obtain u d1 where u: "ce_connect E d = (u, d1)" by fastforce
  obtain s where s: "topological_sort ord config services = Some s" using start_sort_returns [OF wf ord] by blast
  show ?thesis by (auto simp: start_run_def u s start_loop_returns [OF nom clock] simp del: not_None_eq split: sum.split)
qed

theorem start_returns_witness:
  "start_run nom_reference (demo_cli (\<lambda>_. RespStatus OsStarting)) rev
     (Some (Inr (plain_config [(''api'', [''db'']), (''db'', [])]))) [] 0 \<noteq> None"
  by (rule start_returns [OF nom_ref.nom_library_axioms demo_cli_steady _ iteration_order_rev]) (simp add: hm_wf_def)

text \<open>
  A service that cannot be converted does not end the command: what depends on it is started all the
  same, although a refusal by the daemon ends it because \<open>dependent services cannot start\<close>.
\<close>

lemma start_continues_after_failed_conversion:
  fixes config :: Config
  defines "E \<equiv> log_requests (demo_cli (\<lambda>_. RespSuccess))"
    and "config \<equiv> (plain_config [])\<lparr>cfg_services :=
      [(''db'', (plain_service [])\<lparr>svc_env := [(''DIR'', ''${NOPE}'')]\<rparr>), (''api'', plain_service [''db''])]\<rparr>"
  shows "\<exists>log. start_run nom_reference E rev (Some (Inr config)) [''api''] (0, []) = Some (Inl (CliFailed 1), (0, log)) \<and>
    map fst (starts_of log) = [''api'']"
proof -
  let ?t = "([([], EnvVar ''NOPE'' None)], []) :: template"
  have ok: "template_ok ?t" by code_simp
  have find: "find_variables nom_reference ''${NOPE}'' = Some [Inr (0, 7, EnvVar ''NOPE'' None)]"
    using nom_ref.find_variables_loop_template [OF ok, of 0 "[]"]
    by (simp add: show_template_def show_hole_def show_var_def find_variables_def Let_def)
  have s: "topological_sort rev config [''api''] = Some (Inr [''db'', ''api''])"
    unfolding config_def by code_simp
  have db: "hm_get (cfg_services config) ''db'' = Some ((plain_service [])\<lparr>svc_env := [(''DIR'', ''${NOPE}'')]\<rparr>)"
    and api: "hm_get (cfg_services config) ''api'' = Some (plain_service [''db''])"
    by (simp_all add: config_def hm_get_def)
  have bad: "\<exists>e. convert_to_orchestrator_with_context nom_reference (\<lambda>_. None) [] config ''db''
      (Some (resolution_context_new [])) = Some (Inl e)"
    using find
    by (simp add: convert_to_orchestrator_with_context_def db resolve_service_env_def resolve_string_def
        resolve_variable_def resolution_context_new_def str_slice_def)
  then obtain e where bad: "convert_to_orchestrator_with_context nom_reference (\<lambda>_. None) [] config ''db''
      (Some (resolution_context_new [])) = Some (Inl e)" by blast
  obtain sc where good: "convert_to_orchestrator_with_context nom_reference (\<lambda>_. None) [] config ''api''
      (Some (resolution_context_new [])) = Some (Inr sc)"
    using convert_without_env [OF api] by (fastforce simp: plain_service_def)
  show ?thesis
    using db api bad good
    by (simp add: start_run_def s E_def await_start_def note_failure_def note_started_def start_summary_def)
      (simp add: plain_service_def)
qed

text \<open>
  A service that the health check declares failed still counts as started, and the command reports
  success.
\<close>

lemma failed_service_counts_as_started:
  fixes reply :: "Request \<Rightarrow> Response"
  defines "reply \<equiv> \<lambda>req. case req of ReqStatus _ \<Rightarrow> RespStatus (OsFailed ''down'') | _ \<Rightarrow> RespSuccess"
    and "config \<equiv> (plain_config [])\<lparr>cfg_services := [(''db'', (plain_service [])\<lparr>svc_health_check :=
      Some \<lparr>chc_check_type = CheckHttp ''http://db'', chc_interval = 30, chc_retries = 3, chc_timeout = 10,
        chc_start_period = 0\<rparr>\<rparr>)]\<rparr>"
  shows "start_run nom_reference (demo_cli reply) rev (Some (Inr config)) [] 0 = Some (Inr (), 0)"
proof -
  have s: "topological_sort rev config [] = Some (Inr [''db''])" unfolding config_def by code_simp
  obtain service where db: "hm_get (cfg_services config) ''db'' = Some service" "svc_env service = []"
    by (auto simp: config_def hm_get_def plain_service_def)
  from convert_without_env [OF db] obtain sc where
    "convert_to_orchestrator_with_context nom_reference (\<lambda>_. None) [] config ''db''
      (Some (resolution_context_new [])) = Some (Inr sc)" by blast
  moreover have "await_start (demo_cli reply) ''db'' service 0 = Some 0"
    by (simp add: await_start_def wait_healthy_def poll_status.simps reply_def)
  ultimately show ?thesis
    using db by (simp add: start_run_def s note_started_def start_summary_def) (simp add: reply_def note_started_def start_summary_def)
qed

end
