(* ===== verification/Cli_Stop.thy ===== *)
theory Cli_Stop
  imports Cli_Client Cli_Deps
begin

text \<open>
  The command that stops services, \<^verbatim>\<open>crates/harness/src/commands/stop.rs\<close>: of the requested services and
  everything that depends on them, those that run, dependents first; with a question before other
  services are taken down. The line typed in answer is a parameter.
\<close>

section \<open>Waiting\<close>

definition wait_stopped :: "'d cli_env \<Rightarrow> string \<Rightarrow> nat \<Rightarrow> nat \<Rightarrow> 'd \<Rightarrow> 'd option" where
  "wait_stopped E name timeout_secs start =
     poll_status E (\<lambda>elapsed. elapsed div 1000 > timeout_secs) (\<lambda>status. status = OsStopped) name start"

definition await_stop :: "'d cli_env \<Rightarrow> string \<Rightarrow> u64 option \<Rightarrow> 'd \<Rightarrow> 'd option" where
  "await_stop E name timeout d =
     (case timeout of
        None \<Rightarrow> Some d
      | Some timeout_secs \<Rightarrow> wait_stopped E name (unat timeout_secs) (ce_now E d) d)"

section \<open>Stopping in order\<close>

type_synonym failures = "(string \<times> string) list"

text \<open>A refusal ends the loop, unless forced.\<close>

fun stop_loop ::
    "'d cli_env \<Rightarrow> Config \<Rightarrow> bool \<Rightarrow> u64 option \<Rightarrow> string list \<Rightarrow> failures \<Rightarrow> 'd \<Rightarrow> (failures \<times> 'd) option" where
  "stop_loop E config force timeout [] failures d = Some (failures, d)"
| "stop_loop E config force timeout (name # names) failures d =
     (if \<not> hm_has (cfg_services config) name then stop_loop E config force timeout names failures d
      else case ce_request E (ReqStop name) d of
        (Inr RespSuccess, d) \<Rightarrow>
          (case await_stop E name timeout d of
             None \<Rightarrow> None
           | Some d \<Rightarrow> stop_loop E config force timeout names failures d)
      | (Inr (RespError message), d) \<Rightarrow>
          (if force then stop_loop E config force timeout names (failures @ [(name, message)]) d
           else Some (failures @ [(name, message)], d))
      | (Inr _, d) \<Rightarrow>
          stop_loop E config force timeout names (failures @ [(name, ''Unexpected response'')]) d
      | (Inl e, d) \<Rightarrow>
          (if force then stop_loop E config force timeout names (failures @ [(name, e)]) d
           else Some (failures @ [(name, e)], d)))"

definition counts_as_running :: "ServiceStatus \<Rightarrow> bool" where
  "counts_as_running status = (status = OsRunning \<or> status = OsStarting \<or> status = OsUnhealthy)"

definition running_names :: "(string, ServiceStatus) hmap \<Rightarrow> string list" where
  "running_names service_status = map fst (filter (counts_as_running \<circ> snd) service_status)"

definition names_to_stop :: "string list \<Rightarrow> string list \<Rightarrow> string list" where
  "names_to_stop running_services services =
     (if services = [] then running_services else filter (\<lambda>s. s \<in> set running_services) services)"

text \<open>How the command ends: the number it reports as stopped, and the failures.\<close>

datatype stop_outcome = StopNothing | StopAborted | StopReport nat failures

definition stop_report :: "string list \<Rightarrow> failures \<Rightarrow> stop_outcome" where
  "stop_report ordered_services failures = StopReport (length ordered_services - length failures) failures"

definition stop_ordered ::
    "'d cli_env \<Rightarrow> (string list \<Rightarrow> string list) \<Rightarrow> Config \<Rightarrow> string list \<Rightarrow> string list \<Rightarrow> bool \<Rightarrow> u64 option \<Rightarrow> 'd \<Rightarrow>
      ((CliError + stop_outcome) \<times> 'd) option" where
  "stop_ordered E ord config running_services services_to_stop force timeout d =
     (case reverse_topological_sort ord config services_to_stop of
        None \<Rightarrow> None
      | Some (Inl e) \<Rightarrow> Some (Inl (CliDeps e), d)
      | Some (Inr ordered_services) \<Rightarrow>
          (let ordered_services = filter (\<lambda>s. s \<in> set running_services) ordered_services in
           map_option (map_prod (Inr \<circ> stop_report ordered_services) id)
             (stop_loop E config force timeout ordered_services [] d)))"

definition said_yes :: "string \<Rightarrow> bool" where
  "said_yes input = (to_lowercase (str_trim input) = ''y'')"

definition stop_running ::
    "'d cli_env \<Rightarrow> (string list \<Rightarrow> string list) \<Rightarrow> Config \<Rightarrow> string list \<Rightarrow> string list \<Rightarrow> bool \<Rightarrow> u64 option \<Rightarrow>
      string + string \<Rightarrow> 'd \<Rightarrow> ((CliError + stop_outcome) \<times> 'd) option" where
  "stop_running E ord config running_services services_to_stop force timeout line d =
     (if services_to_stop = [] then Some (Inr StopNothing, d)
      else case get_affected_services config services_to_stop of
        None \<Rightarrow> None
      | Some affected \<Rightarrow>
          (if affected \<noteq> [] \<and> \<not> force then
             (case line of
                Inl e \<Rightarrow> Some (Inl (CliIo e), d)
              | Inr input \<Rightarrow>
                  if \<not> said_yes input then Some (Inr StopAborted, d)
                  else stop_ordered E ord config running_services services_to_stop force timeout d)
           else stop_ordered E ord config running_services services_to_stop force timeout d))"

definition stop_run ::
    "'d cli_env \<Rightarrow> (string list \<Rightarrow> string list) \<Rightarrow> (ConfigError + Config) option \<Rightarrow> string list \<Rightarrow> bool \<Rightarrow> u64 option \<Rightarrow>
      string + string \<Rightarrow> 'd \<Rightarrow> ((CliError + stop_outcome) \<times> 'd) option" where
  "stop_run E ord parsed services force timeout line d =
     (case parsed of
        None \<Rightarrow> None
      | Some (Inl e) \<Rightarrow> Some (Inl (CliConfig e), d)
      | Some (Inr config) \<Rightarrow>
          (case ce_connect E d of
             (Inl e, d) \<Rightarrow> Some (Inl (CliDaemon e), d)
           | (Inr _, d) \<Rightarrow>
               (case ce_request E ReqList d of
                  (Inl e, d) \<Rightarrow> Some (Inl (CliDaemon e), d)
                | (Inr (RespList service_status), d) \<Rightarrow>
                    (let running_services = running_names service_status in
                     stop_running E ord config running_services (names_to_stop running_services services)
                       force timeout line d)
                | (Inr (RespError message), d) \<Rightarrow> Some (Inl (CliDaemon (''Failed to get service list: '' @ message)), d)
                | (Inr _, d) \<Rightarrow> Some (Inl (CliDaemon ''Unexpected response from daemon''), d))))"

text \<open>What the process reports.\<close>

definition stop_exit :: "CliError + stop_outcome \<Rightarrow> CliError + unit" where
  "stop_exit r =
     res_bind r (\<lambda>outcome. case outcome of
       StopReport n failures \<Rightarrow> if failures = [] then Inr () else Inl (CliFailed (length failures))
     | _ \<Rightarrow> Inr ())"

section \<open>The loop\<close>

fun stops_of :: "(Request \<times> (string + Response)) list \<Rightarrow> (string \<times> (string + Response)) list" where
  "stops_of [] = []"
| "stops_of ((ReqStop name, r) # log) = (name, r) # stops_of log"
| "stops_of (_ # log) = stops_of log"

lemma stops_of_append [simp]: "stops_of (xs @ ys) = stops_of xs @ stops_of ys"
  by (induction xs rule: stops_of.induct) auto

lemma stops_of_polls: "\<forall>x\<in>set reqs. \<exists>n. fst x = ReqStatus n \<Longrightarrow> stops_of reqs = []"
  by (induction reqs rule: stops_of.induct) auto

lemma await_stop_log:
  assumes "await_stop (log_requests E) name timeout dl = Some dl'"
  shows "\<exists>reqs. snd dl' = snd dl @ reqs \<and> stops_of reqs = []"
proof -
  have "only_polled dl dl'"
    using assms by (auto simp: await_stop_def wait_stopped_def split: option.splits intro: poll_status_log simp del: split_paired_All)
  then show ?thesis using stops_of_polls by (auto simp: only_polled_def)
qed

text \<open>What the loop asks for: a first part of what is configured, all of it if nothing failed.\<close>

definition stop_trace ::
    "Config \<Rightarrow> bool \<Rightarrow> string list \<Rightarrow> failures \<Rightarrow> (Request \<times> (string + Response)) list \<Rightarrow> failures \<Rightarrow> bool" where
  "stop_trace config force names failures reqs failures' \<longleftrightarrow>
     prefix (map fst (stops_of reqs)) (filter (hm_has (cfg_services config)) names) \<and>
     (\<not> force \<longrightarrow> (\<forall>x\<in>set (butlast (stops_of reqs)). \<not> refused (snd x))) \<and>
     (\<exists>fs. failures' = failures @ fs \<and>
        map fst fs = map fst (filter (\<lambda>x. snd x \<noteq> Inr RespSuccess) (stops_of reqs)) \<and>
        (fs = [] \<or> force \<longrightarrow> map fst (stops_of reqs) = filter (hm_has (cfg_services config)) names))"

lemma stop_trace_Nil: "stop_trace config force [] failures [] failures"
  by (simp add: stop_trace_def)

lemma stop_trace_unknown:
  "\<not> hm_has (cfg_services config) name \<Longrightarrow> stop_trace config force names failures reqs failures' \<Longrightarrow>
     stop_trace config force (name # names) failures reqs failures'"
  by (simp add: stop_trace_def)

lemma stop_trace_stopped:
  "hm_has (cfg_services config) name \<Longrightarrow> stop_trace config force names failures reqs failures' \<Longrightarrow> stops_of wait = [] \<Longrightarrow>
     stop_trace config force (name # names) failures ((ReqStop name, Inr RespSuccess) # wait @ reqs) failures'"
  by (auto simp: stop_trace_def refused_def)

lemma stop_trace_refused:
  "hm_has (cfg_services config) name \<Longrightarrow> \<not> force \<Longrightarrow> refused a \<Longrightarrow>
     stop_trace config force (name # names) failures [(ReqStop name, a)] (failures @ [(name, e)])"
  by (auto simp: stop_trace_def refused_def)

lemma stop_trace_failed:
  "hm_has (cfg_services config) name \<Longrightarrow> stop_trace config force names (failures @ [(name, e)]) reqs failures' \<Longrightarrow>
     force \<or> \<not> refused a \<Longrightarrow> a \<noteq> Inr RespSuccess \<Longrightarrow>
     stop_trace config force (name # names) failures ((ReqStop name, a) # reqs) failures'"
  by (auto simp: stop_trace_def)

lemma stop_loop_trace:
  "stop_loop (log_requests E) config force timeout names failures dl = Some (failures', dl') \<Longrightarrow>
     \<exists>reqs. snd dl' = snd dl @ reqs \<and> stop_trace config force names failures reqs failures'"
proof (induction names arbitrary: failures dl)
  case Nil
  then show ?case using stop_trace_Nil by auto
next
  case (Cons name names)
  show ?case
  proof (cases "hm_has (cfg_services config) name")
    case False
    with Cons.prems Cons.IH stop_trace_unknown [OF False] show ?thesis by fastforce
  next
    case True
    obtain a d where a: "ce_request E (ReqStop name) (fst dl) = (a, d)" by fastforce
    let ?dl = "(d, snd dl @ [(ReqStop name, a)])"
    let ?traced = "\<exists>reqs. snd dl' = snd dl @ reqs \<and> stop_trace config force (name # names) failures reqs failures'"
    have stopped: ?traced
      if a_ok: "a = Inr RespSuccess" and aw: "await_stop (log_requests E) name timeout ?dl = Some dl1"
        and rest: "stop_loop (log_requests E) config force timeout names failures dl1 = Some (failures', dl')" for dl1
    proof -
      from await_stop_log [OF aw] obtain w where w: "snd dl1 = snd ?dl @ w" "stops_of w = []" by blast
      from Cons.IH [OF rest] obtain reqs where
        reqs: "snd dl' = snd dl1 @ reqs" "stop_trace config force names failures reqs failures'" by blast
      from stop_trace_stopped [OF True reqs(2) w(2)] reqs(1) w(1) a_ok show ?thesis by auto
    qed
    have over: ?traced if "refused a" and "\<not> force" and "failures' = failures @ [(name, e)]" and "dl' = ?dl" for e
      using stop_trace_refused [OF True that(2,1)] that(3,4) by auto
    have on: ?traced if "force \<or> \<not> refused a" and "a \<noteq> Inr RespSuccess"
        and "stop_loop (log_requests E) config force timeout names (failures @ [(name, e)]) ?dl = Some (failures', dl')" for e
      using Cons.IH [OF that(3)] stop_trace_failed [OF True _ that(1,2)] by fastforce
    show ?thesis
    proof (cases a)
      case (Inl e)
      with Cons.prems True a over on show ?thesis by (cases force) (auto simp: refused_def)
    next
      case (Inr resp)
      with Cons.prems True a stopped over on show ?thesis
        by (cases resp; cases force) (auto simp: refused_def split: option.splits)
    qed
  qed
qed

section \<open>Order\<close>

lemma before_in_filter:
  assumes "\<forall>i<length xs. \<forall>s. R (xs ! i) s \<longrightarrow> (\<exists>j<i. xs ! j = s)" and "i < length (filter P xs)"
    and "R (filter P xs ! i) s" and "P s"
  shows "\<exists>j<i. filter P xs ! j = s"
  using assms
proof (induction xs arbitrary: i rule: rev_induct)
  case (snoc x xs)
  have old: "\<forall>i<length xs. \<forall>s. R (xs ! i) s \<longrightarrow> (\<exists>j<i. xs ! j = s)"
  proof (intro allI impI)
    fix i s
    assume i: "i < length xs" "R (xs ! i) s"
    have "i < length (xs @ [x])" "R ((xs @ [x]) ! i) s" using i by (simp_all add: nth_append)
    with snoc.prems(1) obtain j where "j < i" "(xs @ [x]) ! j = s" by blast
    with i show "\<exists>j<i. xs ! j = s" by (auto simp: nth_append)
  qed
  show ?case
  proof (cases "i < length (filter P xs)")
    case True
    with snoc.prems(3) have "R (filter P xs ! i) s" by (simp add: nth_append)
    from snoc.IH [OF old True this snoc.prems(4)] obtain j where "j < i" "filter P xs ! j = s" by blast
    with True show ?thesis by (intro exI [of _ j]) (simp add: nth_append)
  next
    case False
    with snoc.prems(2,3) have x: "P x" "i = length (filter P xs)" "R x s" by (auto simp: nth_append split: if_splits)
    have "length xs < length (xs @ [x])" "R ((xs @ [x]) ! length xs) s" using x(3) by simp_all
    with snoc.prems(1) obtain j where "j < length xs" "(xs @ [x]) ! j = s" by blast
    then have "s \<in> set (filter P xs)" using snoc.prems(4) by (auto simp: nth_append)
    then obtain j where "j < length (filter P xs)" "filter P xs ! j = s" by (meson in_set_conv_nth)
    with x show ?thesis by (intro exI [of _ j]) (simp add: nth_append)
  qed
qed simp

lemma before_in_prefix:
  assumes "\<forall>i<length xs. \<forall>s. R (xs ! i) s \<longrightarrow> (\<exists>j<i. xs ! j = s)" and pre: "prefix ys (filter P xs)"
    and "i < length ys" and "R (ys ! i) s" and "P s"
  shows "\<exists>j<i. ys ! j = s"
proof -
  from pre obtain zs where zs: "filter P xs = ys @ zs" by (auto simp: prefix_def)
  have "\<exists>j<i. filter P xs ! j = s"
    by (rule before_in_filter [OF assms(1)]) (use assms(3-5) zs in \<open>simp_all add: nth_append\<close>)
  with zs assms(3) show ?thesis by (auto simp: nth_append)
qed

lemma running_names_iff: "hm_wf status \<Longrightarrow> x \<in> set (running_names status) \<longleftrightarrow> (\<exists>s. hm_get status x = Some s \<and> counts_as_running s)"
  by (force simp: running_names_def hm_get_iff_mem)

text \<open>A run that asks for a stop got through to the ordered part.\<close>

lemma stop_run_ordered:
  assumes run: "stop_run (log_requests E) ord (Some (Inr config)) services force timeout line (d, []) = Some (r, (d', log))"
    and listed: "fst (ce_request E ReqList (snd (ce_connect E d))) = Inr (RespList status)"
    and names: "names = names_to_stop (running_names status) services"
  shows "stops_of log = [] \<and> (\<forall>n. r \<noteq> Inr (StopReport n [])) \<or>
    (\<exists>dl. stops_of (snd dl) = [] \<and> names \<noteq> [] \<and>
       stop_ordered (log_requests E) ord config (running_names status) names force timeout dl = Some (r, (d', log)) \<and>
       (force \<or> get_affected_services config names = Some [] \<or> (\<exists>input. line = Inr input \<and> said_yes input)))"
proof -
  obtain u d1 where u: "ce_connect E d = (u, d1)" by fastforce
  obtain a d2 where a: "ce_request E ReqList d1 = (a, d2)" by fastforce
  let ?dl = "(d2, [(ReqList, Inr (RespList status))])"
  from u a listed have al: "a = Inr (RespList status)" by simp
  show ?thesis
  proof (cases u)
    case (Inl e)
    with run u show ?thesis by (auto simp: stop_run_def)
  next
    case (Inr _)
    with run u a al have run: "stop_running (log_requests E) ord config (running_names status) names force timeout line ?dl
        = Some (r, (d', log))" by (simp add: stop_run_def Let_def names)
    show ?thesis
    proof (cases "names = []")
      case True
      with run show ?thesis by (auto simp: stop_running_def)
    next
      case False
      then obtain affected where aff: "get_affected_services config names = Some affected"
        using run by (cases "get_affected_services config names") (auto simp: stop_running_def)
      consider (asked) e where "affected \<noteq> []" "\<not> force" "line = Inl e"
        | (no) input where "affected \<noteq> []" "\<not> force" "line = Inr input" "\<not> said_yes input"
        | (go) "force \<or> affected = [] \<or> (\<exists>input. line = Inr input \<and> said_yes input)" by (cases line) auto
      then show ?thesis
      proof cases
        case asked
        with run False aff show ?thesis by (auto simp: stop_running_def)
      next
        case no
        with run False aff show ?thesis by (auto simp: stop_running_def)
      next
        case go
        with run False aff have
          "stop_ordered (log_requests E) ord config (running_names status) names force timeout ?dl = Some (r, (d', log))"
          by (auto simp: stop_running_def split: sum.splits if_splits)
        with go aff False show ?thesis by (intro disjI2 exI [of _ ?dl]) auto
      qed
    qed
  qed
qed

lemma stop_ordered_trace:
  assumes wf: "hm_wf (cfg_services config)"
    and run: "stop_ordered (log_requests E) ord config running names force timeout dl = Some (r, dl')"
  shows "\<exists>reqs. snd dl' = snd dl @ reqs \<and>
    (stops_of reqs = [] \<and> (\<forall>n. r \<noteq> Inr (StopReport n [])) \<or>
     (\<exists>ordered failures. reverse_topological_sort ord config names = Some (Inr ordered) \<and>
        r = Inr (stop_report (filter (\<lambda>s. s \<in> set running) ordered) failures) \<and>
        stop_trace config force (filter (\<lambda>s. s \<in> set running) ordered) [] reqs failures))"
proof -
  from run obtain s where s: "reverse_topological_sort ord config names = Some s"
    by (auto simp: stop_ordered_def split: option.splits)
  show ?thesis
  proof (cases s)
    case (Inl e)
    with run s show ?thesis by (auto simp: stop_ordered_def)
  next
    case (Inr ordered)
    with run s obtain failures where
      "stop_loop (log_requests E) config force timeout (filter (\<lambda>s. s \<in> set running) ordered) [] dl = Some (failures, dl')"
      and r: "r = Inr (stop_report (filter (\<lambda>s. s \<in> set running) ordered) failures)"
      by (auto simp: stop_ordered_def Let_def)
    from stop_loop_trace [OF this(1)] r s Inr show ?thesis by blast
  qed
qed

text \<open>What a run asks for, and what must have been agreed to first.\<close>

lemma stop_run_trace:
  assumes wf: "hm_wf (cfg_services config)"
    and run: "stop_run (log_requests E) ord (Some (Inr config)) services force timeout line (d, []) = Some (r, (d', log))"
    and listed: "fst (ce_request E ReqList (snd (ce_connect E d))) = Inr (RespList status)"
    and names: "names = names_to_stop (running_names status) services"
  obtains (none) "stops_of log = []" "\<forall>n. r \<noteq> Inr (StopReport n [])"
    | (some) ordered failures where "names \<noteq> []" "reverse_topological_sort ord config names = Some (Inr ordered)"
        "r = Inr (stop_report (filter (\<lambda>s. s \<in> set (running_names status)) ordered) failures)"
        "stop_trace config force (filter (\<lambda>s. s \<in> set (running_names status)) ordered) [] log failures"
        "force \<or> get_affected_services config names = Some [] \<or> (\<exists>input. line = Inr input \<and> said_yes input)"
proof (cases "stops_of log = [] \<and> (\<forall>n. r \<noteq> Inr (StopReport n []))")
  case True
  with none show thesis by blast
next
  case False
  with stop_run_ordered [OF run listed names] obtain dl where
    empty: "stops_of (snd dl) = []" and nonempty: "names \<noteq> []"
    and ordered: "stop_ordered (log_requests E) ord config (running_names status) names force timeout dl = Some (r, (d', log))"
    and consent: "force \<or> get_affected_services config names = Some [] \<or> (\<exists>input. line = Inr input \<and> said_yes input)"
    by blast
  from stop_ordered_trace [OF wf ordered] obtain reqs where log: "log = snd dl @ reqs" and
    reqs: "stops_of reqs = [] \<and> (\<forall>n. r \<noteq> Inr (StopReport n [])) \<or>
      (\<exists>ordered failures. reverse_topological_sort ord config names = Some (Inr ordered) \<and>
        r = Inr (stop_report (filter (\<lambda>s. s \<in> set (running_names status)) ordered) failures) \<and>
        stop_trace config force (filter (\<lambda>s. s \<in> set (running_names status)) ordered) [] reqs failures)" by auto
  from log empty have same: "stops_of log = stops_of reqs" by simp
  with reqs False obtain ordered failures where "reverse_topological_sort ord config names = Some (Inr ordered)"
      "r = Inr (stop_report (filter (\<lambda>s. s \<in> set (running_names status)) ordered) failures)"
      "stop_trace config force (filter (\<lambda>s. s \<in> set (running_names status)) ordered) [] reqs failures" by metis
  with same nonempty consent some show thesis by (simp add: stop_trace_def)
qed

section \<open>Properties\<close>

text \<open>
  C6. A stop takes the dependents down first. Of the daemon's listing, only services that run and
  are configured are asked to stop, each at most once and only if requested or dependent on something
  requested; before a service is asked to stop, every running service that depends on it has been
  asked. Without force nothing is asked after a refusal. And when the report has no failure, all of
  them were asked and the daemon confirmed each.
\<close>

theorem stop_takes_dependents_first:
  assumes wf: "hm_wf (cfg_services config)" and known: "deps_known config" and ord: "iteration_order ord"
    and run: "stop_run (log_requests E) ord (Some (Inr config)) services force timeout line (d, []) = Some (r, (d', log))"
    and listed: "fst (ce_request E ReqList (snd (ce_connect E d))) = Inr (RespList status)"
    and up: "up = set (running_names status) \<inter> {s. hm_has (cfg_services config) s}"
    and names: "names = names_to_stop (running_names status) services"
    and stops: "stops = map fst (stops_of log)"
  shows "distinct stops \<and> set stops \<subseteq> up \<inter> {s. \<exists>t\<in>set names. (s, t) \<in> (edges_of (cfg_deps config))\<^sup>*} \<and>
    (\<forall>i<length stops. \<forall>s\<in>up. stops ! i \<in> set (cfg_deps config s) \<longrightarrow> (\<exists>j<i. stops ! j = s)) \<and>
    (\<not> force \<longrightarrow> (\<forall>x\<in>set (butlast (stops_of log)). \<not> refused (snd x))) \<and>
    (\<forall>n. r = Inr (StopReport n []) \<longrightarrow>
       set stops = up \<inter> {s. \<exists>t\<in>set names. (s, t) \<in> (edges_of (cfg_deps config))\<^sup>*} \<and>
       (\<forall>x\<in>set (stops_of log). snd x = Inr RespSuccess))"
proof (cases rule: stop_run_trace [OF wf run listed names])
  case 1
  with stops show ?thesis by simp
next
  case (2 ordered failures)
  let ?R = "\<lambda>s. s \<in> set (running_names status)" and ?has = "hm_has (cfg_services config)"
  note order = stop_order [OF wf ord 2(2)]
  have up_filter: "filter ?has (filter ?R ordered) = filter (\<lambda>s. s \<in> up) ordered"
    using up by (auto intro: filter_cong)
  from 2(4) stops up_filter have pre: "prefix stops (filter (\<lambda>s. s \<in> up) ordered)"
    by (simp add: stop_trace_def)
  have reach: "set ordered = {s. \<exists>t\<in>set names. (s, t) \<in> (edges_of (cfg_deps config))\<^sup>*}"
    using order 2(1) graph_edges_converse [OF wf known]
    by (auto simp: requested_def rtrancl_converse)
  have "subseq stops ordered" using pre subseq_filter_left prefix_imp_subseq subseq_order.trans by blast
  then have "distinct stops" "set stops \<subseteq> set ordered" using order subseq_facts by blast+
  moreover have "set stops \<subseteq> up" using set_mono_prefix [OF pre] by auto
  moreover have "\<exists>j<i. stops ! j = s"
    if "i < length stops" "s \<in> up" "stops ! i \<in> set (cfg_deps config s)" for i s
  proof (rule before_in_prefix [OF _ pre that(1)])
    show "\<forall>i<length ordered. \<forall>s. (?has (ordered ! i) \<and> ordered ! i \<in> set (cfg_deps config s)) \<longrightarrow> (\<exists>j<i. ordered ! j = s)"
      using order by blast
    show "?has (stops ! i) \<and> stops ! i \<in> set (cfg_deps config s)"
      using that \<open>set stops \<subseteq> up\<close> up by (auto dest: nth_mem)
  qed (rule that(2))
  moreover have "\<not> force \<longrightarrow> (\<forall>x\<in>set (butlast (stops_of log)). \<not> refused (snd x))"
    using 2(4) by (simp add: stop_trace_def)
  moreover have "set stops = up \<inter> set ordered \<and> (\<forall>x\<in>set (stops_of log). snd x = Inr RespSuccess)"
    if "r = Inr (StopReport n [])" for n
  proof -
    from that 2(3) have "failures = []" by (simp add: stop_report_def)
    with 2(4) stops up_filter show ?thesis by (auto simp: stop_trace_def filter_empty_conv)
  qed
  ultimately show ?thesis unfolding reach by auto
qed

text \<open>A daemon with \<open>api\<close> on \<open>db\<close>, both running.\<close>

abbreviation demo_stop_config :: Config where
  "demo_stop_config \<equiv> plain_config [(''api'', [''db'']), (''db'', [])]"

definition demo_reply :: "Response \<Rightarrow> Request \<Rightarrow> Response" where
  "demo_reply stopped req =
     (case req of ReqList \<Rightarrow> RespList [(''db'', OsRunning), (''api'', OsRunning)] | _ \<Rightarrow> stopped)"

lemma demo_stop_facts:
  "hm_wf (cfg_services demo_stop_config)" "deps_known demo_stop_config"
  "reverse_topological_sort rev demo_stop_config [''db''] = Some (Inr [''api'', ''db''])"
  "get_affected_services demo_stop_config [''db''] = Some [''api'']"
  "names_to_stop (running_names [(''db'', OsRunning), (''api'', OsRunning)]) [''db''] = [''db'']"
proof -
  show "hm_wf (cfg_services demo_stop_config)" by (simp add: hm_wf_def)
  show "deps_known demo_stop_config" by (simp add: deps_known_def hm_has_def hm_values_def plain_service_def)
  show "reverse_topological_sort rev demo_stop_config [''db''] = Some (Inr [''api'', ''db''])" by code_simp
  show "get_affected_services demo_stop_config [''db''] = Some [''api'']" by code_simp
  show "names_to_stop (running_names [(''db'', OsRunning), (''api'', OsRunning)]) [''db''] = [''db'']" by code_simp
qed

theorem stop_takes_dependents_first_witness:
  "\<exists>r d' log. stop_run (log_requests (demo_cli (demo_reply RespSuccess))) rev (Some (Inr demo_stop_config)) [''db''] True None (Inl [])
      (0, []) = Some (r, (d', log)) \<and> map fst (stops_of log) = [''api'', ''db''] \<and> distinct (map fst (stops_of log))"
proof -
  let ?E = "demo_cli (demo_reply RespSuccess)" and ?status = "[(''db'', OsRunning), (''api'', OsRunning)]"
  have up: "running_names ?status = [''db'', ''api'']" by code_simp
  let ?log = "[(ReqList, Inr (RespList ?status)), (ReqStop ''api'', Inr RespSuccess), (ReqStop ''db'', Inr RespSuccess)]"
  have run: "stop_run (log_requests ?E) rev (Some (Inr demo_stop_config)) [''db''] True None (Inl []) (0, []) =
      Some (Inr (StopReport 2 []), (0, ?log))"
    using demo_stop_facts up
    by (simp add: stop_run_def stop_running_def stop_ordered_def demo_reply_def hm_has_def await_stop_def stop_report_def)
  have listed: "fst (ce_request ?E ReqList (snd (ce_connect ?E 0))) = Inr (RespList ?status)"
    by (simp add: demo_reply_def)
  from stop_takes_dependents_first [OF demo_stop_facts(1,2) iteration_order_rev run listed refl refl refl] run show ?thesis by auto
qed

text \<open>
  C7. Nothing else goes down without consent. Unless forced, or agreed to with a \<open>y\<close>, only services
  that were requested are asked to stop, or, when none is named, those that run.
\<close>

theorem stop_needs_consent:
  assumes wf: "hm_wf (cfg_services config)" and known: "deps_known config" and ord: "iteration_order ord"
    and run: "stop_run (log_requests E) ord (Some (Inr config)) services False timeout line (d, []) = Some (r, (d', log))"
    and listed: "fst (ce_request E ReqList (snd (ce_connect E d))) = Inr (RespList status)"
    and declined: "\<nexists>input. line = Inr input \<and> said_yes input"
  shows "set (map fst (stops_of log)) \<subseteq> set (names_to_stop (running_names status) services)"
proof (cases rule: stop_run_trace [OF wf run listed refl])
  case 1
  then show ?thesis by simp
next
  case (2 ordered failures)
  let ?names = "names_to_stop (running_names status) services"
  from 2(5) declined have "get_affected_services config ?names = Some []" by simp
  with affected_exact [OF wf known, of ?names]
  have closed: "\<And>s t. t \<in> set ?names \<Longrightarrow> (s, t) \<in> (edges_of (cfg_deps config))\<^sup>+ \<Longrightarrow> s \<in> set ?names" by auto
  have "set ordered = {s. \<exists>t\<in>set ?names. (s, t) \<in> (edges_of (cfg_deps config))\<^sup>*}"
    using stop_order [OF wf ord 2(2)] 2(1) graph_edges_converse [OF wf known]
    by (auto simp: requested_def rtrancl_converse)
  with closed have "set ordered \<subseteq> set ?names" by (auto simp: rtrancl_eq_or_trancl)
  moreover from 2(4) have "prefix (map fst (stops_of log))
      (filter (hm_has (cfg_services config)) (filter (\<lambda>s. s \<in> set (running_names status)) ordered))"
    by (simp add: stop_trace_def)
  from set_mono_prefix [OF this] have "set (map fst (stops_of log)) \<subseteq> set ordered" by auto
  ultimately show ?thesis by blast
qed

theorem stop_needs_consent_witness:
  "\<exists>r d' log. stop_run (log_requests (demo_cli (demo_reply RespSuccess))) rev (Some (Inr demo_stop_config)) [''db''] False None (Inr ''n'')
      (0, []) = Some (r, (d', log)) \<and> r = Inr StopAborted \<and> set (map fst (stops_of log)) \<subseteq> {''db''}"
proof -
  let ?E = "demo_cli (demo_reply RespSuccess)" and ?status = "[(''db'', OsRunning), (''api'', OsRunning)]"
  have no: "\<not> said_yes ''n''" by code_simp
  have run: "stop_run (log_requests ?E) rev (Some (Inr demo_stop_config)) [''db''] False None (Inr ''n'') (0, []) =
      Some (Inr StopAborted, (0, [(ReqList, Inr (RespList ?status))]))"
    using demo_stop_facts no by (simp add: stop_run_def stop_running_def demo_reply_def)
  have listed: "fst (ce_request ?E ReqList (snd (ce_connect ?E 0))) = Inr (RespList ?status)"
    by (simp add: demo_reply_def)
  have declined: "\<nexists>input. Inr ''n'' = (Inr input :: string + string) \<and> said_yes input" using no by simp
  from stop_needs_consent [OF demo_stop_facts(1,2) iteration_order_rev run listed declined] run demo_stop_facts(5)
  show ?thesis by auto
qed

text \<open>
  The number reported counts what was not attempted: when the first of two stops is refused, and the
  other is never asked for, one service is reported stopped and none is.
\<close>

lemma stop_report_counts_unattempted:
  "\<exists>log. stop_run (log_requests (demo_cli (demo_reply (RespError ''no'')))) rev (Some (Inr demo_stop_config)) [''db''] False None (Inr ''y'')
      (0, []) = Some (Inr (StopReport 1 [(''api'', ''no'')]), (0, log)) \<and>
    stops_of log = [(''api'', Inr (RespError ''no''))]"
proof -
  have "running_names [(''db'', OsRunning), (''api'', OsRunning)] = [''db'', ''api'']" "said_yes ''y''" by code_simp+
  with demo_stop_facts show ?thesis
    by (simp add: stop_run_def stop_running_def stop_ordered_def demo_reply_def hm_has_def stop_report_def)
qed

end
