(* ===== verification/Orch_Json.thy ===== *)
theory Orch_Json
  imports Reg_Json Orch_Config
begin

text \<open>
  The serde form of the orchestration data, \<^verbatim>\<open>crates/service-orchestration/src/config.rs\<close> and
  \<^verbatim>\<open>task_config.rs\<close>: untagged dependencies and remote modes, targets tagged \<open>type\<close>, flattened
  instances, defaults for missing lists and maps. Each decoder reads back what its encoder wrote.
\<close>

section \<open>Dependencies, health checks, status\<close>

fun dependency_json :: "Dependency \<Rightarrow> json" where
  "dependency_json (DepService service) = JObj [(''service'', JStr service)]"
| "dependency_json (DepTask task) = JObj [(''task'', JStr task)]"

definition json_dependency :: "json \<Rightarrow> Dependency option" where
  "json_dependency j =
     (case json_field json_str ''service'' j of
        Some service \<Rightarrow> Some (DepService service)
      | None \<Rightarrow> map_option DepTask (json_field json_str ''task'' j))"

definition health_check_json :: "HealthCheck \<Rightarrow> json" where
  "health_check_json hc = JObj [(''command'', JStr (hc_command hc)), (''args'', JArr (map JStr (hc_args hc))),
     (''interval'', word_json (hc_interval hc)), (''retries'', word_json (hc_retries hc)),
     (''timeout'', word_json (hc_timeout hc))]"

definition json_health_check :: "json \<Rightarrow> HealthCheck option" where
  "json_health_check j =
     opt_bind (json_field json_str ''command'' j) (\<lambda>command.
     opt_bind (json_field (json_arr json_str) ''args'' j) (\<lambda>args.
     opt_bind (json_field json_word ''interval'' j) (\<lambda>interval.
     opt_bind (json_field json_word ''retries'' j) (\<lambda>retries.
     opt_bind (json_field json_word ''timeout'' j) (\<lambda>timeout.
     Some \<lparr>hc_command = command, hc_args = args, hc_interval = interval, hc_retries = retries,
        hc_timeout = timeout\<rparr>)))))"

fun status_json :: "ServiceStatus \<Rightarrow> json" where
  "status_json OsStopped = JStr ''Stopped''"
| "status_json OsStarting = JStr ''Starting''"
| "status_json OsRunning = JStr ''Running''"
| "status_json OsUnhealthy = JStr ''Unhealthy''"
| "status_json (OsFailed message) = JObj [(''Failed'', JStr message)]"

fun json_status :: "json \<Rightarrow> ServiceStatus option" where
  "json_status (JStr s) =
     (if s = ''Stopped'' then Some OsStopped else if s = ''Starting'' then Some OsStarting
      else if s = ''Running'' then Some OsRunning else if s = ''Unhealthy'' then Some OsUnhealthy else None)"
| "json_status (JObj [(k, v)]) = (if k = ''Failed'' then map_option OsFailed (json_str v) else None)"
| "json_status _ = None"

section \<open>Targets\<close>

fun mode_fields :: "RemoteMode \<Rightarrow> (string \<times> json) list" where
  "mode_fields (RmProcess binary args) = [(''binary'', JStr binary), (''args'', JArr (map JStr args))]"
| "mode_fields (RmPackage package) = [(''package'', JStr package)]"

definition json_mode :: "json \<Rightarrow> RemoteMode option" where
  "json_mode j =
     (case opt_bind (json_field json_str ''binary'' j) (\<lambda>binary.
        map_option (RmProcess binary) (json_field (json_arr json_str) ''args'' j)) of
        Some mode \<Rightarrow> Some mode
      | None \<Rightarrow> map_option RmPackage (json_field json_str ''package'' j))"

abbreviation strings_json :: "string list \<Rightarrow> json" where "strings_json ss \<equiv> JArr (map JStr ss)"

fun target_json :: "ServiceTarget \<Rightarrow> json" where
  "target_json (TProcess binary args env working_dir) = JObj [(''type'', JStr ''process''), (''binary'', JStr binary),
     (''args'', strings_json args), (''env'', map_json JStr env), (''working_dir'', opt_json JStr working_dir)]"
| "target_json (TDocker img env ports volumes) = JObj [(''type'', JStr ''docker''), (''image'', JStr img),
     (''env'', map_json JStr env), (''ports'', JArr (map word_json ports)), (''volumes'', strings_json volumes)]"
| "target_json (TDockerAttach container env) = JObj [(''type'', JStr ''docker-attach''),
     (''container'', JStr container), (''env'', map_json JStr env)]"
| "target_json (TProcessAttach pid process_name env) = JObj [(''type'', JStr ''process-attach''),
     (''pid'', opt_json word_json pid), (''process_name'', opt_json JStr process_name), (''env'', map_json JStr env)]"
| "target_json (TRemote host user mode env) = JObj ([(''type'', JStr ''remote''), (''host'', JStr host),
     (''user'', JStr user)] @ mode_fields mode @ [(''env'', map_json JStr env)])"
| "target_json (TRemoteLan host user binary args) = JObj [(''type'', JStr ''remote-lan''), (''host'', JStr host),
     (''user'', JStr user), (''binary'', JStr binary), (''args'', strings_json args)]"
| "target_json (TWireguard host user package) = JObj [(''type'', JStr ''wireguard''), (''host'', JStr host),
     (''user'', JStr user), (''package'', JStr package)]"

definition json_list_field :: "(json \<Rightarrow> 'a option) \<Rightarrow> string \<Rightarrow> json \<Rightarrow> 'a list option" where
  "json_list_field f k j = (case json_get k j of None \<Rightarrow> Some [] | Some v \<Rightarrow> json_arr f v)"

definition json_target :: "json \<Rightarrow> ServiceTarget option" where
  "json_target j = opt_bind (json_field json_str ''type'' j) (\<lambda>tag.
     if tag = ''process'' then
       opt_bind (json_field json_str ''binary'' j) (\<lambda>binary.
       opt_bind (json_field (json_arr json_str) ''args'' j) (\<lambda>args.
       opt_bind (json_field (json_map json_str) ''env'' j) (\<lambda>env.
       map_option (TProcess binary args env) (json_opt_field json_str ''working_dir'' j))))
     else if tag = ''docker'' then
       opt_bind (json_field json_str ''image'' j) (\<lambda>img.
       opt_bind (json_field (json_map json_str) ''env'' j) (\<lambda>env.
       opt_bind (json_field (json_arr json_word) ''ports'' j) (\<lambda>ports.
       map_option (TDocker img env ports) (json_list_field json_str ''volumes'' j))))
     else if tag = ''docker-attach'' then
       opt_bind (json_field json_str ''container'' j) (\<lambda>container.
       map_option (TDockerAttach container) (json_field (json_map json_str) ''env'' j))
     else if tag = ''process-attach'' then
       opt_bind (json_opt_field json_word ''pid'' j) (\<lambda>pid.
       opt_bind (json_opt_field json_str ''process_name'' j) (\<lambda>process_name.
       map_option (TProcessAttach pid process_name) (json_field (json_map json_str) ''env'' j)))
     else if tag = ''remote'' then
       opt_bind (json_field json_str ''host'' j) (\<lambda>host.
       opt_bind (json_field json_str ''user'' j) (\<lambda>user.
       opt_bind (json_mode j) (\<lambda>mode.
       map_option (TRemote host user mode) (json_field (json_map json_str) ''env'' j))))
     else if tag = ''remote-lan'' then
       opt_bind (json_field json_str ''host'' j) (\<lambda>host.
       opt_bind (json_field json_str ''user'' j) (\<lambda>user.
       opt_bind (json_field json_str ''binary'' j) (\<lambda>binary.
       map_option (TRemoteLan host user binary) (json_field (json_arr json_str) ''args'' j))))
     else if tag = ''wireguard'' then
       opt_bind (json_field json_str ''host'' j) (\<lambda>host.
       opt_bind (json_field json_str ''user'' j) (\<lambda>user.
       map_option (TWireguard host user) (json_field json_str ''package'' j)))
     else None)"

section \<open>Services, tasks and stacks\<close>

definition service_fields :: "ServiceConfig \<Rightarrow> (string \<times> json) list" where
  "service_fields c = [(''name'', JStr (sc_name c)), (''target'', target_json (sc_target c)),
     (''dependencies'', JArr (map dependency_json (sc_dependencies c))),
     (''health_check'', opt_json health_check_json (sc_health_check c))]"

definition service_config_json :: "ServiceConfig \<Rightarrow> json" where
  "service_config_json c = JObj (service_fields c)"

definition json_service_config :: "json \<Rightarrow> ServiceConfig option" where
  "json_service_config j =
     opt_bind (json_field json_str ''name'' j) (\<lambda>name.
     opt_bind (json_field json_target ''target'' j) (\<lambda>target.
     opt_bind (json_list_field json_dependency ''dependencies'' j) (\<lambda>dependencies.
     opt_bind (json_opt_field json_health_check ''health_check'' j) (\<lambda>health_check.
     Some \<lparr>sc_name = name, sc_target = target, sc_dependencies = dependencies, sc_health_check = health_check\<rparr>))))"

definition instance_json :: "ServiceInstanceConfig \<Rightarrow> json" where
  "instance_json c = JObj ((''service_type'', JStr (sic_service_type c)) # service_fields (sic_orchestration c))"

definition json_instance :: "json \<Rightarrow> ServiceInstanceConfig option" where
  "json_instance j =
     opt_bind (json_field json_str ''service_type'' j) (\<lambda>service_type.
     opt_bind (json_service_config j) (\<lambda>orchestration.
     Some \<lparr>sic_service_type = service_type, sic_orchestration = orchestration\<rparr>))"

definition task_config_json :: "TaskConfig \<Rightarrow> json" where
  "task_config_json t = JObj [(''task_type'', JStr (tk_task_type t)), (''target'', target_json (tk_target t)),
     (''dependencies'', JArr (map dependency_json (tk_dependencies t))), (''config'', map_json id (tk_config t))]"

definition json_map_field :: "(json \<Rightarrow> 'a option) \<Rightarrow> string \<Rightarrow> json \<Rightarrow> (string, 'a) hmap option" where
  "json_map_field f k j = (case json_get k j of None \<Rightarrow> Some [] | Some v \<Rightarrow> json_map f v)"

definition json_task_config :: "json \<Rightarrow> TaskConfig option" where
  "json_task_config j =
     opt_bind (json_field json_str ''task_type'' j) (\<lambda>task_type.
     opt_bind (json_field json_target ''target'' j) (\<lambda>target.
     opt_bind (json_list_field json_dependency ''dependencies'' j) (\<lambda>dependencies.
     opt_bind (json_map_field json_value ''config'' j) (\<lambda>config.
     Some \<lparr>tk_task_type = task_type, tk_target = target, tk_dependencies = dependencies, tk_config = config\<rparr>))))"

definition stack_json :: "StackConfig \<Rightarrow> json" where
  "stack_json s = JObj [(''name'', JStr (stk_name s)), (''description'', opt_json JStr (stk_description s)),
     (''services'', map_json instance_json (stk_services s)), (''tasks'', map_json task_config_json (stk_tasks s))]"

definition json_stack :: "json \<Rightarrow> StackConfig option" where
  "json_stack j =
     opt_bind (json_field json_str ''name'' j) (\<lambda>name.
     opt_bind (json_opt_field json_str ''description'' j) (\<lambda>description.
     opt_bind (json_map_field json_instance ''services'' j) (\<lambda>services.
     opt_bind (json_map_field json_task_config ''tasks'' j) (\<lambda>tasks.
     Some \<lparr>stk_name = name, stk_description = description, stk_services = services, stk_tasks = tasks\<rparr>))))"

section \<open>Round trips\<close>

lemmas orch_json_defs = json_defs json_list_field_def json_map_field_def

lemma dependency_json_round [simp]: "json_dependency (dependency_json d) = Some d"
  by (cases d) (simp_all add: json_dependency_def json_defs)

lemma health_check_json_round [simp]: "json_opt json_health_check (health_check_json hc) = Some (Some hc)"
  by (rule opt_json_round)
    (simp_all add: json_health_check_def health_check_json_def json_defs json_list_round)

lemma status_json_round [simp]: "json_status (status_json s) = Some s"
  by (cases s) simp_all

lemma json_strings [simp]: "json_list json_str (map JStr ss) = Some ss"
  by (rule json_list_round) simp

lemma json_words [simp]: "json_list json_word (map word_json ws) = Some ws"
  by (rule json_list_round) simp

lemma json_dependencies [simp]: "json_list json_dependency (map dependency_json ds) = Some ds"
  by (rule json_list_round) simp

lemma json_string_map [simp]: "hm_wf m \<Longrightarrow> json_map json_str (map_json JStr m) = Some m"
  by (rule map_json_round) simp_all

lemma target_json_round [simp]:
  assumes "hm_wf (target_env t)"
  shows "json_target (target_json t) = Some t"
proof (cases t)
  case (TRemote host user mode env)
  with assms show ?thesis by (cases mode) (simp_all add: json_target_def json_mode_def json_defs)
next
  case (TProcess binary args env working_dir)
  with assms show ?thesis by (cases working_dir) (simp_all add: json_target_def json_defs)
next
  case (TProcessAttach pid process_name env)
  with assms show ?thesis by (cases pid; cases process_name) (simp_all add: json_target_def json_defs)
qed (use assms in \<open>simp_all add: json_target_def orch_json_defs\<close>)

definition service_encodable :: "ServiceConfig \<Rightarrow> bool" where
  "service_encodable c = hm_wf (target_env (sc_target c))"

lemma service_fields_round:
  assumes "service_encodable c" and "\<And>k. k \<in> {''name'', ''target'', ''dependencies'', ''health_check''} \<Longrightarrow>
    json_get k j = map_of (service_fields c) k"
  shows "json_service_config j = Some c"
  using assms
  by (cases "sc_health_check c")
    (simp_all add: json_service_config_def service_fields_def orch_json_defs service_encodable_def)

lemma service_config_json_round [simp]: "service_encodable c \<Longrightarrow> json_service_config (service_config_json c) = Some c"
  by (rule service_fields_round) (simp_all add: service_config_json_def)

lemma instance_json_round:
  assumes "service_encodable (sic_orchestration c)"
  shows "json_instance (instance_json c) = Some c"
proof -
  have "json_service_config (instance_json c) = Some (sic_orchestration c)"
    by (rule service_fields_round [OF assms]) (auto simp: instance_json_def)
  moreover have "json_field json_str ''service_type'' (instance_json c) = Some (sic_service_type c)"
    by (simp add: instance_json_def json_field_def)
  ultimately show ?thesis by (simp add: json_instance_def)
qed

lemma task_config_json_round:
  assumes "hm_wf (target_env (tk_target t))" and "hm_wf (tk_config t)"
  shows "json_task_config (task_config_json t) = Some t"
  using assms map_json_round [of "tk_config t" json_value id]
  by (simp add: json_task_config_def task_config_json_def orch_json_defs)

definition stack_encodable :: "StackConfig \<Rightarrow> bool" where
  "stack_encodable s \<longleftrightarrow> hm_wf (stk_services s) \<and> hm_wf (stk_tasks s) \<and>
     (\<forall>(n, c)\<in>set (stk_services s). service_encodable (sic_orchestration c)) \<and>
     (\<forall>(n, t)\<in>set (stk_tasks s). hm_wf (target_env (tk_target t)) \<and> hm_wf (tk_config t))"

lemma stack_json_round:
  assumes "stack_encodable s"
  shows "json_stack (stack_json s) = Some s"
proof -
  have "json_map json_instance (map_json instance_json (stk_services s)) = Some (stk_services s)"
    by (rule map_json_round) (use assms in \<open>auto simp: stack_encodable_def intro!: instance_json_round\<close>)
  moreover have "json_map json_task_config (map_json task_config_json (stk_tasks s)) = Some (stk_tasks s)"
    by (rule map_json_round) (use assms in \<open>auto simp: stack_encodable_def intro!: task_config_json_round\<close>)
  ultimately show ?thesis
    by (cases "stk_description s") (simp_all add: json_stack_def stack_json_def orch_json_defs)
qed

end
