(* ===== verification/Dmn_Json.thy ===== *)
theory Dmn_Json
  imports Orch_Json Dmn_Handlers
begin

text \<open>
  The protocol of the executor daemon as JSON, \<^verbatim>\<open>crates/harness/src/protocol.rs\<close> (enums tagged \<open>type\<close>),
  and the client's \<open>send_request\<close>, \<^verbatim>\<open>client/mod.rs\<close>: one text sent, one frame read. The websocket is a
  parameter; the last part joins the client to the daemon's connection loop.
\<close>

section \<open>Requests\<close>

fun request_json :: "Request \<Rightarrow> json" where
  "request_json (ReqStart name config) = JObj [(''type'', JStr ''StartService''), (''name'', JStr name),
     (''config'', service_config_json config)]"
| "request_json (ReqStop name) = JObj [(''type'', JStr ''StopService''), (''name'', JStr name)]"
| "request_json (ReqStatus name) = JObj [(''type'', JStr ''GetServiceStatus''), (''name'', JStr name)]"
| "request_json ReqList = JObj [(''type'', JStr ''ListServices'')]"
| "request_json ReqListDetailed = JObj [(''type'', JStr ''ListServicesDetailed'')]"
| "request_json ReqHealthChecks = JObj [(''type'', JStr ''RunHealthChecks'')]"
| "request_json ReqShutdown = JObj [(''type'', JStr ''Shutdown'')]"
| "request_json (ReqEnv names) = JObj [(''type'', JStr ''GetEnvironmentVariables''), (''names'', strings_json names)]"

definition json_request :: "json \<Rightarrow> Request option" where
  "json_request j = opt_bind (json_field json_str ''type'' j) (\<lambda>tag.
     if tag = ''StartService'' then
       opt_bind (json_field json_str ''name'' j) (\<lambda>name.
       map_option (ReqStart name) (json_field json_service_config ''config'' j))
     else if tag = ''StopService'' then map_option ReqStop (json_field json_str ''name'' j)
     else if tag = ''GetServiceStatus'' then map_option ReqStatus (json_field json_str ''name'' j)
     else if tag = ''ListServices'' then Some ReqList
     else if tag = ''ListServicesDetailed'' then Some ReqListDetailed
     else if tag = ''RunHealthChecks'' then Some ReqHealthChecks
     else if tag = ''Shutdown'' then Some ReqShutdown
     else if tag = ''GetEnvironmentVariables'' then map_option ReqEnv (json_field (json_arr json_str) ''names'' j)
     else None)"

section \<open>Responses\<close>

definition network_info_json :: "ServiceNetworkInfo \<Rightarrow> json" where
  "network_info_json ni = JObj [(''ip'', JStr (sn_ip ni)), (''port'', opt_json word_json (sn_port ni)),
     (''hostname'', JStr (sn_hostname ni)), (''ports'', JArr (map word_json (sn_ports ni)))]"

definition json_network_info :: "json \<Rightarrow> ServiceNetworkInfo option" where
  "json_network_info j =
     opt_bind (json_field json_str ''ip'' j) (\<lambda>ip.
     opt_bind (json_opt_field json_word ''port'' j) (\<lambda>port.
     opt_bind (json_field json_str ''hostname'' j) (\<lambda>hostname.
     opt_bind (json_field (json_arr json_word) ''ports'' j) (\<lambda>ports.
     Some \<lparr>sn_ip = ip, sn_port = port, sn_hostname = hostname, sn_ports = ports\<rparr>))))"

definition detailed_info_json :: "DetailedServiceInfo \<Rightarrow> json" where
  "detailed_info_json d = JObj [(''name'', JStr (di_name d)), (''status'', status_json (di_status d)),
     (''network_info'', opt_json network_info_json (di_network_info d)), (''endpoints'', map_json JStr (di_endpoints d)),
     (''pid'', opt_json word_json (di_pid d)), (''container_id'', opt_json JStr (di_container_id d)),
     (''start_time'', opt_json JStr (di_start_time d)), (''dependencies'', strings_json (di_dependencies d))]"

definition json_detailed_info :: "json \<Rightarrow> DetailedServiceInfo option" where
  "json_detailed_info j =
     opt_bind (json_field json_str ''name'' j) (\<lambda>name.
     opt_bind (json_field json_status ''status'' j) (\<lambda>status.
     opt_bind (json_opt_field json_network_info ''network_info'' j) (\<lambda>ni.
     opt_bind (json_field (json_map json_str) ''endpoints'' j) (\<lambda>endpoints.
     opt_bind (json_opt_field json_word ''pid'' j) (\<lambda>pid.
     opt_bind (json_opt_field json_str ''container_id'' j) (\<lambda>container_id.
     opt_bind (json_opt_field json_str ''start_time'' j) (\<lambda>start_time.
     opt_bind (json_field (json_arr json_str) ''dependencies'' j) (\<lambda>dependencies.
     Some \<lparr>di_name = name, di_status = status, di_network_info = ni, di_endpoints = endpoints, di_pid = pid,
        di_container_id = container_id, di_start_time = start_time, di_dependencies = dependencies\<rparr>))))))))"

fun response_json :: "Response \<Rightarrow> json" where
  "response_json RespSuccess = JObj [(''type'', JStr ''Success'')]"
| "response_json (RespError message) = JObj [(''type'', JStr ''Error''), (''message'', JStr message)]"
| "response_json (RespStarted name ni) = JObj [(''type'', JStr ''ServiceStarted''), (''name'', JStr name),
     (''network_info'', network_info_json ni)]"
| "response_json (RespStatus status) = JObj [(''type'', JStr ''ServiceStatus''), (''status'', status_json status)]"
| "response_json (RespList services) = JObj [(''type'', JStr ''ServiceList''), (''services'', map_json status_json services)]"
| "response_json (RespListDetailed services) = JObj [(''type'', JStr ''ServiceListDetailed''),
     (''services'', JArr (map detailed_info_json services))]"
| "response_json (RespHealth results) = JObj [(''type'', JStr ''HealthCheckResults''), (''results'', map_json JStr results)]"
| "response_json (RespEnv variables) = JObj [(''type'', JStr ''EnvironmentVariables''),
     (''variables'', map_json JStr variables)]"

definition json_response :: "json \<Rightarrow> Response option" where
  "json_response j = opt_bind (json_field json_str ''type'' j) (\<lambda>tag.
     if tag = ''Success'' then Some RespSuccess
     else if tag = ''Error'' then map_option RespError (json_field json_str ''message'' j)
     else if tag = ''ServiceStarted'' then
       opt_bind (json_field json_str ''name'' j) (\<lambda>name.
       map_option (RespStarted name) (json_field json_network_info ''network_info'' j))
     else if tag = ''ServiceStatus'' then map_option RespStatus (json_field json_status ''status'' j)
     else if tag = ''ServiceList'' then map_option RespList (json_field (json_map json_status) ''services'' j)
     else if tag = ''ServiceListDetailed'' then
       map_option RespListDetailed (json_field (json_arr json_detailed_info) ''services'' j)
     else if tag = ''HealthCheckResults'' then map_option RespHealth (json_field (json_map json_str) ''results'' j)
     else if tag = ''EnvironmentVariables'' then map_option RespEnv (json_field (json_map json_str) ''variables'' j)
     else None)"

section \<open>The client\<close>

record ('c, 'x) client_socket =
  ck_send :: "'x out_frame \<Rightarrow> ('c, string, unit) act"
  ck_next :: "'c \<Rightarrow> 'x in_frame option \<times> 'c"

definition send_request :: "('c, 'x) client_socket \<Rightarrow> 'x json_text \<Rightarrow> Request \<Rightarrow> ('c, string, Response) act" where
  "send_request K J request =
     act_bind (ck_send K (OutText (jt_print J (request_json request)))) (\<lambda>_ c.
     case ck_next K c of
       (Some (InText text), c) \<Rightarrow>
         (case from_slice J json_response text of
            Inr response \<Rightarrow> (Inr response, c)
          | Inl _ \<Rightarrow> (Inl ''Failed to parse daemon response'', c))
     | (Some InClose, c) \<Rightarrow> (Inl ''Connection closed by daemon'', c)
     | (Some (InError e), c) \<Rightarrow> (Inl (''WebSocket error: '' @ e), c)
     | (None, c) \<Rightarrow> (Inl ''Connection closed unexpectedly'', c)
     | (Some _, c) \<Rightarrow> (Inl ''Unexpected message type from daemon'', c))"

section \<open>Round trips\<close>

definition request_encodable :: "Request \<Rightarrow> bool" where
  "request_encodable r = (case r of ReqStart _ c \<Rightarrow> service_encodable c | _ \<Rightarrow> True)"

definition response_encodable :: "Response \<Rightarrow> bool" where
  "response_encodable r = (case r of
     RespList m \<Rightarrow> hm_wf m | RespHealth m \<Rightarrow> hm_wf m | RespEnv m \<Rightarrow> hm_wf m
   | RespListDetailed ds \<Rightarrow> list_all (\<lambda>d. hm_wf (di_endpoints d)) ds | _ \<Rightarrow> True)"

lemma request_json_round: "request_encodable r \<Longrightarrow> json_request (request_json r) = Some r"
  by (cases r) (simp_all add: request_encodable_def json_request_def json_defs)

lemma network_info_json_round [simp]: "json_network_info (network_info_json ni) = Some ni"
  by (cases "sn_port ni") (simp_all add: json_network_info_def network_info_json_def json_defs)

lemma json_opt_network_info [simp]: "json_opt json_network_info (network_info_json ni) = Some (Some ni)"
  by (rule opt_json_round) (simp, simp add: network_info_json_def)

lemma opt_field_round:
  assumes "\<And>x. f (g x) = Some x" and "\<And>x. g x \<noteq> JNull"
  shows "json_opt f (opt_json g m) = Some m"
proof (cases m)
  case None
  then show ?thesis by (simp add: opt_json_def json_opt_def)
next
  case (Some x)
  with opt_json_round [of f g x] assms show ?thesis by (simp add: opt_json_def)
qed

lemma detailed_info_json_round: "hm_wf (di_endpoints d) \<Longrightarrow> json_detailed_info (detailed_info_json d) = Some d"
proof -
  assume wf: "hm_wf (di_endpoints d)"
  have opts: "json_opt json_network_info (opt_json network_info_json m1) = Some m1"
    "json_opt json_word (opt_json word_json m2) = Some m2" "json_opt json_str (opt_json JStr m3) = Some m3"
    for m1 and m2 :: "u32 option" and m3
    by (rule opt_field_round, simp, simp add: network_info_json_def word_json_def)+
  show ?thesis
    using wf by (simp add: json_detailed_info_def detailed_info_json_def json_field_def json_opt_field_def opts)
qed

lemma response_json_round:
  assumes "response_encodable r"
  shows "json_response (response_json r) = Some r"
proof (cases r)
  case (RespList m)
  with assms have "json_map json_status (map_json status_json m) = Some m"
    by (intro map_json_round) (auto simp: response_encodable_def)
  with RespList show ?thesis by (simp add: json_response_def json_defs)
next
  case (RespListDetailed ds)
  with assms have "json_list json_detailed_info (map detailed_info_json ds) = Some ds"
    by (intro json_list_round) (auto simp: response_encodable_def list_all_iff detailed_info_json_round)
  with RespListDetailed show ?thesis by (simp add: json_response_def json_defs)
qed (use assms in \<open>simp_all add: json_response_def json_defs response_encodable_def\<close>)

section \<open>The daemon's responses\<close>

text \<open>
  No executor gives a service endpoints, so their names are distinct; and a container's identifier is
  long enough for its host name.
\<close>

definition plain_service_info :: "RunningService \<Rightarrow> bool" where
  "plain_service_info r \<longleftrightarrow> rs_endpoints r = [] \<and> (\<forall>i. rs_container_id r = Some i \<longrightarrow> 12 \<le> length i)"

definition plain_services :: "'w host \<Rightarrow> ('b, 'w) manager \<Rightarrow> bool" where
  "plain_services H mg \<longleftrightarrow> set (mg_executors mg) = set (std_executors H) \<and> hm_wf (mg_active_services mg) \<and>
     (\<forall>n r. hm_get (mg_active_services mg) n = Some r \<longrightarrow> plain_service_info r)"

lemma with_endpoints [simp]:
  "rs_endpoints (rs_with_pid p r) = rs_endpoints r" "rs_endpoints (rs_with_metadata k v r) = rs_endpoints r"
  "rs_endpoints (rs_with_container_id c r) = rs_endpoints r" "rs_endpoints (rs_with_network_info ni r) = rs_endpoints r"
  "rs_endpoints (running_new u n cfg) = []"
  by (simp_all add: rs_with_pid_def rs_with_metadata_def rs_with_container_id_def rs_with_network_info_def running_new_def)

lemma with_container [simp]:
  "rs_container_id (rs_with_pid p r) = rs_container_id r" "rs_container_id (running_new u n cfg) = None"
  by (simp_all add: rs_with_pid_def running_new_def)

lemma container_info_long: "get_container_network_info H i w = (Inr ni, w') \<Longrightarrow> 12 \<le> length i"
  by (auto simp: get_container_network_info_def act_bind_Inr_iff network_info_def split: if_splits)

lemma adopt_plain: "adopt_container H cs config s = (Inr r, s') \<Longrightarrow> plain_service_info r"
  by (auto simp: adopt_container_def act_bind_Inr_iff new_service_run on_world_run plain_service_info_def
      dest: container_info_long)

lemma run_plain: "run_container H config args s = (Inr r, s') \<Longrightarrow> plain_service_info r"
  by (auto simp: run_container_def act_bind_Inr_iff new_service_run on_world_run plain_service_info_def Let_def
      dest: container_info_long split: if_splits)

lemma docker_plain: "docker_start H config s = (Inr r, s') \<Longrightarrow> plain_service_info r"
  by (auto simp: docker_start_def act_bind_Inr_iff Let_def adopt_plain run_plain
      split: ServiceTarget.splits option.splits if_splits)

lemma std_plain:
  assumes "x \<in> set (hm_values (std_executors H))" and "ex_start x config s = (Inr r, s')"
  shows "plain_service_info r"
proof -
  from assms(1) have "x = docker_executor H \<or> x = process_executor H"
    by (auto simp: std_executors_def hm_values_def hm_insert_def)
  then show ?thesis
  proof
    assume "x = process_executor H"
    with assms(2) have "process_start H config s = (Inr r, s')" by (simp add: process_executor_def)
    then show ?thesis by (rule process_start_cases) (simp add: plain_service_info_def)
  qed (use assms(2) in \<open>auto simp: docker_executor_def intro: docker_plain\<close>)
qed

lemma check_service_keeps:
  "mg_active_services (snd (check_service H display name mg)) = mg_active_services mg \<and>
   mg_executors (snd (check_service H display name mg)) = mg_executors mg"
proof (cases "hm_get (mg_health_monitors mg) name")
  case None
  then show ?thesis by (simp add: check_service_def)
next
  case (Some m)
  with check_service_run [OF Some, of H display] show ?thesis
    by (cases "check_service H display name mg") (auto simp: same_but_monitors_def)
qed

lemma check_services_keeps:
  "mg_active_services (snd (check_services H display names acc mg)) = mg_active_services mg \<and>
   mg_executors (snd (check_services H display names acc mg)) = mg_executors mg"
proof (induction names arbitrary: acc mg)
  case (Cons name names)
  obtain r mg1 where r: "check_service H display name mg = (r, mg1)" by fastforce
  with check_service_keeps [of H display name mg] Cons show ?case by (cases r) (simp_all add: act_bind_def)
qed simp

lemma plain_services_step: "plain_services H mg \<Longrightarrow> plain_services H (mg_step H display B op mg)"
proof -
  assume inv: "plain_services H mg"
  show ?thesis
  proof (cases op)
    case (MgStart created now name config)
    obtain r mg' where run: "start_service B created now name config mg = (r, mg')" by fastforce
    from run show ?thesis
    proof (cases rule: start_service_cases)
      case (started x sv s g)
      have "x \<in> set (hm_values (std_executors H))"
        using orchestrator.found [OF same_executors started(2)] inv by (auto simp: plain_services_def hm_values_def)
      from std_plain [OF this started(3)] inv started(4) run MgStart show ?thesis
        by (auto simp: plain_services_def)
    qed (use inv run MgStart in \<open>auto simp: plain_services_def\<close>)
  next
    case (MgStop now name)
    obtain r mg' where run: "stop_service B now name mg = (r, mg')" by fastforce
    from run have "mg_active_services mg' = hm_remove name (mg_active_services mg) \<and> mg_executors mg' = mg_executors mg"
      by (cases rule: stop_service_cases) simp_all
    with inv run MgStop show ?thesis by (auto simp: plain_services_def split: if_splits)
  next
    case (MgStatus name)
    obtain st g where "get_service_status B name mg = (Inr st, mg\<lparr>mg_registry := g\<rparr>)"
      using status_run [of B name mg] by blast
    with inv MgStatus show ?thesis by (simp add: plain_services_def)
  next
    case MgCheck
    with inv show ?thesis by (simp add: plain_services_def run_health_checks_def check_services_keeps)
  qed
qed

lemma plain_services_request:
  assumes "plain_services (dm_host D) mg"
  shows "plain_services (dm_host D) (snd (daemon_request D created now request mg))"
proof -
  have "hm_wf (mg_active_services mg)" using assms by (simp add: plain_services_def)
  from daemon_request_reach [OF mg_start this, where D = D] show ?thesis
  proof (induction rule: mg_reach.induct)
    case mg_start
    show ?case by (rule assms)
  next
    case (mg_more mg' op)
    then show ?case using plain_services_step by blast
  qed
qed

lemma list_statuses_wf: "list_statuses B names acc mg = (Inr out, mg') \<Longrightarrow> hm_wf acc \<Longrightarrow> hm_wf out"
proof (induction names arbitrary: acc mg)
  case (Cons name names)
  obtain st g where "get_service_status B name mg = (Inr st, mg\<lparr>mg_registry := g\<rparr>)"
    using status_run [of B name mg] by blast
  with Cons.prems Cons.IH [of "hm_insert name st acc"] show ?case by (simp add: act_bind_def act_try_def)
qed simp

lemma list_details_wf:
  "list_details B names acc mg = (Inr out, mg') \<Longrightarrow> plain_services H mg \<Longrightarrow>
     list_all (\<lambda>d. hm_wf (di_endpoints d)) acc \<Longrightarrow> list_all (\<lambda>d. hm_wf (di_endpoints d)) out"
proof (induction names arbitrary: acc mg)
  case (Cons name names)
  obtain st g where st: "get_service_status B name mg = (Inr st, mg\<lparr>mg_registry := g\<rparr>)"
    using status_run [of B name mg] by blast
  let ?mg = "mg\<lparr>mg_registry := g\<rparr>"
  have "hm_wf (di_endpoints (detailed_info name st (get_service_info ?mg name)))"
    using Cons.prems(2) by (auto simp: detailed_info_def get_service_info_def plain_services_def plain_service_info_def split: option.split)
  moreover have "plain_services H ?mg" using Cons.prems(2) by (simp add: plain_services_def)
  ultimately show ?case
    using Cons.prems st Cons.IH [of "acc @ [detailed_info name st (get_service_info ?mg name)]" ?mg]
    by (simp add: act_bind_def act_try_def)
qed simp

lemma check_services_wf: "check_services H display names acc mg = (Inr out, mg') \<Longrightarrow> hm_wf acc \<Longrightarrow> hm_wf out"
  by (induction names arbitrary: acc mg) (auto simp: act_bind_Inr_iff)

lemma hm_wf_mapped: "hm_wf (map (\<lambda>(k, v). (k, f v)) m) = hm_wf m"
  by (simp add: hm_wf_def comp_def case_prod_unfold)

lemma daemon_response_encodable:
  assumes "plain_services (dm_host D) mg"
  shows "response_encodable (fst (daemon_request D created now request mg))"
proof (cases request)
  case ReqList
  obtain r mg1 where "list_statuses (dm_backend D) (list_services mg) [] mg = (r, mg1)"
    by (cases "list_statuses (dm_backend D) (list_services mg) [] mg")
  with ReqList list_statuses_wf [of _ _ "[]"] show ?thesis
    by (cases r) (auto simp: daemon_request_def or_error_def response_encodable_def)
next
  case ReqListDetailed
  obtain r mg1 where "list_details (dm_backend D) (list_services mg) [] mg = (r, mg1)"
    by (cases "list_details (dm_backend D) (list_services mg) [] mg")
  with ReqListDetailed list_details_wf [of _ _ "[]", OF _ assms] show ?thesis
    by (cases r) (auto simp: daemon_request_def or_error_def response_encodable_def)
next
  case ReqHealthChecks
  obtain r mg1 where "run_health_checks (dm_host D) (dm_display D) mg = (r, mg1)"
    by (cases "run_health_checks (dm_host D) (dm_display D) mg")
  with ReqHealthChecks check_services_wf [of _ _ _ "[]"] show ?thesis
    by (cases r) (auto simp: daemon_request_def or_error_def response_encodable_def run_health_checks_def hm_wf_mapped)
qed (auto simp: daemon_request_def or_error_def response_encodable_def split: prod.split sum.split)

section \<open>Client and daemon joined\<close>

text \<open>The daemon's side of the protocol over a JSON library.\<close>

definition daemon_wire :: "'x json_text \<Rightarrow> ('x out_frame list, 'x) wire" where
  "daemon_wire J = \<lparr>
     wi_parse = (\<lambda>t. case jt_parse J t of Inl e \<Rightarrow> Inl e | Inr j \<Rightarrow> ok_or (json_request j) (jt_reject J j)),
     wi_print = jt_print J \<circ> response_json, wi_send = (\<lambda>f s. (Inr (), s @ [f]))\<rparr>"

text \<open>
  A connection that delivers: what the client sends is served at once, at the instants given, and the
  answers wait for the client in order.
\<close>

definition incoming :: "'x out_frame \<Rightarrow> 'x in_frame" where
  "incoming f = (case f of OutText t \<Rightarrow> InText t | OutPong _ \<Rightarrow> InOther | OutClose \<Rightarrow> InClose)"

definition joined ::
    "('b, 'w) daemon_ctx \<Rightarrow> 'x json_text \<Rightarrow> Timestamp \<Rightarrow> Timestamp \<Rightarrow> (('b, 'w) manager \<times> 'x out_frame list, 'x) client_socket" where
  "joined D J created now = \<lparr>
     ck_send = (\<lambda>f s. (Inr (), snd (serve D (daemon_wire J) [(created, now, incoming f)] s))),
     ck_next = (\<lambda>(mg, out). case out of [] \<Rightarrow> (None, (mg, [])) | f # fs \<Rightarrow> (Some (incoming f), (mg, fs)))\<rparr>"

fun send_requests :: "('c, 'x) client_socket \<Rightarrow> 'x json_text \<Rightarrow> Request list \<Rightarrow> 'c \<Rightarrow> (string + Response) list \<times> 'c" where
  "send_requests K J [] c = ([], c)"
| "send_requests K J (request # requests) c =
     (case send_request K J request c of (r, c) \<Rightarrow>
      case send_requests K J requests c of (rs, c) \<Rightarrow> (r # rs, c))"

fun daemon_requests ::
    "('b, 'w) daemon_ctx \<Rightarrow> Timestamp \<Rightarrow> Timestamp \<Rightarrow> Request list \<Rightarrow> ('b, 'w) manager \<Rightarrow> Response list \<times> ('b, 'w) manager" where
  "daemon_requests D created now [] mg = ([], mg)"
| "daemon_requests D created now (request # requests) mg =
     (case daemon_request D created now request mg of (r, mg) \<Rightarrow>
      case daemon_requests D created now requests mg of (rs, mg) \<Rightarrow> (r # rs, mg))"

lemma send_request_joined:
  assumes json: "\<And>j. jt_parse J (jt_print J j) = Inr j"
    and inv: "plain_services (dm_host D) mg" and enc: "request_encodable request"
  shows "send_request (joined D J created now) J request (mg, []) =
    (case daemon_request D created now request mg of (r, mg') \<Rightarrow> (Inr r, (mg', [])))"
proof -
  obtain r mg' where r: "daemon_request D created now request mg = (r, mg')" by fastforce
  with daemon_response_encodable [OF inv, of created now request] have "response_encodable r" by simp
  then have "from_slice J json_response (jt_print J (response_json r)) = Inr r"
    by (simp add: from_slice_def json response_json_round)
  then show ?thesis
    by (simp add: send_request_def act_bind_def joined_def incoming_def daemon_wire_def json
        request_json_round [OF enc] r)
qed

section \<open>Properties\<close>

text \<open>
  C37. The client gets the daemon's answers. Over a JSON library that parses what it prints and a connection
  that delivers, any sequence of requests whose configurations are maps receives, in order, exactly
  the responses of the daemon's handlers, each run on the manager the ones before left behind;
  no response is lost or altered by its encoding, and none stays behind for the next request.
\<close>

theorem client_reaches_daemon:
  assumes json: "\<And>j. jt_parse J (jt_print J j) = Inr j"
    and inv: "plain_services (dm_host D) mg" and enc: "list_all request_encodable requests"
  shows "send_requests (joined D J created now) J requests (mg, []) =
    (case daemon_requests D created now requests mg of (rs, mg') \<Rightarrow> (map Inr rs, (mg', [])))"
  using inv enc
proof (induction requests arbitrary: mg)
  case (Cons request requests)
  obtain r mg' where r: "daemon_request D created now request mg = (r, mg')" by fastforce
  with plain_services_request [OF Cons.prems(1), of created now request] have "plain_services (dm_host D) mg'" by simp
  from Cons.IH [OF this] Cons.prems(2) send_request_joined [OF json Cons.prems(1), where request = request] r
  show ?case by (auto split: prod.split)
qed simp

theorem client_reaches_daemon_witness:
  "\<exists>r mg'. send_requests (joined demo_daemon mem_json ''t'' ''t'') mem_json [ReqStart ''api'' (demo_config ''api''), ReqShutdown]
     (demo_manager, []) = ([Inr r, Inr RespSuccess], (mg', []))"
proof -
  have json: "jt_parse mem_json (jt_print mem_json j) = Inr j" for j by (simp add: mem_json_def)
  have inv: "plain_services (dm_host demo_daemon) demo_manager"
    using demo_manager_inv by (auto simp: plain_services_def mg_inv_def demo_daemon_def demo_manager_def)
  have enc: "list_all request_encodable [ReqStart ''api'' (demo_config ''api''), ReqShutdown]"
    by (simp add: request_encodable_def service_encodable_def demo_config_def hm_wf_def)
  show ?thesis
    using client_reaches_daemon [OF json inv enc, of "''t''" "''t''"]
    by (auto simp: daemon_request_def split: prod.splits)
qed

end
