(* ===== verification/Cli_Daemon.thy ===== *)
theory Cli_Daemon
  imports Cli_Start Cli_Stop Dmn_Json
begin

text \<open>
  The commands against the daemon itself: requests travel as JSON over a connection that delivers, and
  the daemon's handlers run on its manager. The clock is the one the pauses turn. What \<open>start\<close> leaves
  behind is then a statement about the services that are active.
\<close>

section \<open>The environment\<close>

text \<open>
  The command and the daemon are taken to run in one environment, and one instant stands for the time an
  entry is created and the time of its events.
\<close>

type_synonym ('b, 'w, 'x) cli_world = "(('b, 'w) manager \<times> 'x out_frame list) \<times> nat"

definition daemon_cli ::
    "('b, 'w) daemon_ctx \<Rightarrow> 'x json_text \<Rightarrow> (nat \<Rightarrow> Timestamp) \<Rightarrow> ('b, 'w, 'x) cli_world cli_env" where
  "daemon_cli D J stamp = \<lparr>
     ce_request = (\<lambda>req (c, t). case send_request (joined D J (stamp t) (stamp t)) J req c of (r, c) \<Rightarrow> (r, (c, t))),
     ce_connect = act_ret (), ce_now = snd, ce_sleep = (\<lambda>ms (c, t). (c, t + ms)),
     ce_vars = dm_vars D, ce_env = dm_var D, ce_show_config_error = (\<lambda>_. ''error'')\<rparr>"

lemma daemon_cli_simps [simp]:
  "ce_connect (daemon_cli D J stamp) = act_ret ()" "ce_now (daemon_cli D J stamp) = snd"
  "ce_sleep (daemon_cli D J stamp) ms ct = (fst ct, snd ct + ms)"
  "ce_vars (daemon_cli D J stamp) = dm_vars D" "ce_env (daemon_cli D J stamp) = dm_var D"
  by (simp_all add: daemon_cli_def case_prod_unfold)

lemma daemon_cli_request:
  assumes json: "\<And>j. jt_parse J (jt_print J j) = Inr j"
    and inv: "plain_services (dm_host D) mg" and enc: "request_encodable request"
  shows "ce_request (daemon_cli D J stamp) request ((mg, []), t) =
    (case daemon_request D (stamp t) (stamp t) request mg of (r, mg') \<Rightarrow> (Inr r, ((mg', []), t)))"
  by (simp add: daemon_cli_def send_request_joined [OF json inv enc] split: prod.split)

lemma daemon_cli_steady: "steady_clock (daemon_cli D J stamp)"
  by (auto simp: steady_clock_def daemon_cli_def split: prod.split)

section \<open>What a run keeps\<close>

text \<open>Services that are active stay as they are; those that are new are among \<open>names\<close>.\<close>

definition grown_by :: "string set \<Rightarrow> ('b, 'w) manager \<Rightarrow> ('b, 'w) manager \<Rightarrow> bool" where
  "grown_by names mg mg' \<longleftrightarrow>
     (\<forall>n sv. hm_get (mg_active_services mg) n = Some sv \<longrightarrow> hm_get (mg_active_services mg') n = Some sv) \<and>
     (\<forall>n. hm_has (mg_active_services mg') n \<longrightarrow> hm_has (mg_active_services mg) n \<or> n \<in> names)"

lemma grown_by_refl [simp]: "grown_by names mg mg"
  by (simp add: grown_by_def)

lemma grown_trans: "grown_by names mg mg1 \<Longrightarrow> grown_by names' mg1 mg2 \<Longrightarrow> names \<union> names' \<subseteq> all \<Longrightarrow> grown_by all mg mg2"
  by (simp add: grown_by_def) blast

lemma grown_has: "grown_by names mg mg' \<Longrightarrow> hm_has (mg_active_services mg) n \<Longrightarrow> hm_has (mg_active_services mg') n"
  by (auto simp: grown_by_def hm_has_iff)

text \<open>Polling a status touches the registry only.\<close>

definition polled :: "'w host \<Rightarrow> ('b, 'w, 'x) cli_world \<Rightarrow> ('b, 'w, 'x) cli_world \<Rightarrow> bool" where
  "polled H c c' \<longleftrightarrow> (\<forall>mg t. c = ((mg, []), t) \<and> plain_services H mg \<longrightarrow>
     (\<exists>g t'. c' = ((mg\<lparr>mg_registry := g\<rparr>, []), t') \<and> plain_services H (mg\<lparr>mg_registry := g\<rparr>)))"

lemma polled_refl: "reflp (polled H)"
proof (rule reflpI)
  fix c
  show "polled H c c"
  proof (unfold polled_def, intro allI impI)
    fix mg t
    assume "c = ((mg, []), t) \<and> plain_services H mg"
    then show "\<exists>g t'. c = ((mg\<lparr>mg_registry := g\<rparr>, []), t') \<and> plain_services H (mg\<lparr>mg_registry := g\<rparr>)"
      by (intro exI [of _ "mg_registry mg"] exI [of _ t]) simp
  qed
qed

lemma polled_trans: "transp (polled H)"
  by (rule transpI) (fastforce simp: polled_def)

lemma request_encodable_status [simp]: "request_encodable (ReqStatus n)"
  by (simp add: request_encodable_def)

lemma polled_status:
  assumes json: "\<And>j. jt_parse J (jt_print J j) = Inr j"
  shows "polled (dm_host D) c (snd (ce_request (daemon_cli D J stamp) (ReqStatus n) c))"
proof (unfold polled_def, intro allI impI)
  fix mg t
  assume c: "c = ((mg, []), t) \<and> plain_services (dm_host D) mg"
  obtain st g where st: "get_service_status (dm_backend D) n mg = (Inr st, mg\<lparr>mg_registry := g\<rparr>)"
    using status_run [of "dm_backend D" n mg] by blast
  have "plain_services (dm_host D) (mg\<lparr>mg_registry := g\<rparr>)" using c by (simp add: plain_services_def)
  with c st show "\<exists>g t'. snd (ce_request (daemon_cli D J stamp) (ReqStatus n) c) = ((mg\<lparr>mg_registry := g\<rparr>, []), t') \<and>
      plain_services (dm_host D) (mg\<lparr>mg_registry := g\<rparr>)"
    by (intro exI [of _ g] exI [of _ t])
      (simp add: daemon_cli_request [OF json] daemon_request_def or_error_def)
qed

lemma polled_poll:
  fixes D :: "('a, 'b) daemon_ctx" and J :: "'c json_text"
  assumes json: "\<And>j. jt_parse J (jt_print J j) = Inr j"
    and run: "poll_status (daemon_cli D J stamp) ex fin name start c = Some c'"
  shows "polled (dm_host D) c c'"
proof -
  have slept: "polled (dm_host D) c (ce_sleep (daemon_cli D J stamp) ms c)" for ms and c :: "('a, 'b, 'c) cli_world"
  proof (unfold polled_def, intro allI impI)
    fix mg t0
    assume "c = ((mg, []), t0) \<and> plain_services (dm_host D) mg"
    then show "\<exists>g t'. ce_sleep (daemon_cli D J stamp) ms c = ((mg\<lparr>mg_registry := g\<rparr>, []), t') \<and>
        plain_services (dm_host D) (mg\<lparr>mg_registry := g\<rparr>)"
      by (intro exI [of _ "mg_registry mg"]) simp
  qed
  from poll_status_keeps [OF polled_refl polled_trans] polled_status [OF json] slept run show ?thesis by metis
qed

lemma polled_await:
  assumes json: "\<And>j. jt_parse J (jt_print J j) = Inr j"
    and run: "await_start (daemon_cli D J stamp) name service ((mg, []), t) = Some c'" and inv: "plain_services (dm_host D) mg"
  shows "\<exists>g t'. c' = ((mg\<lparr>mg_registry := g\<rparr>, []), t') \<and> plain_services (dm_host D) (mg\<lparr>mg_registry := g\<rparr>)"
proof -
  have "polled (dm_host D) ((mg, []), t) c'"
    using run by (auto simp: await_start_def wait_healthy_def intro: polled_poll [OF json] reflpD [OF polled_refl] split: if_splits)
  with inv show ?thesis by (simp add: polled_def)
qed

section \<open>Starting a service\<close>

lemma resolved_env_wf: "resolve_env_loop N env ctx kvs acc = Some (Inr m) \<Longrightarrow> hm_wf acc \<Longrightarrow> hm_wf m"
  by (induction kvs arbitrary: acc) (auto split: prod.splits option.splits sum.splits)

lemma converted_encodable:
  assumes "convert_to_orchestrator_with_context N env vars config name context = Some (Inr sc)"
  shows "service_encodable sc \<and> sc_name sc = name"
  using assms
  by (auto simp: convert_to_orchestrator_with_context_def service_encodable_def convert_target_def Let_def
      resolve_service_env_def resolved_env_wf split: option.splits sum.splits ServiceType.splits)

lemma start_request_run:
  assumes inv: "plain_services (dm_host D) mg"
    and run: "daemon_request D created now (ReqStart name sc) mg = (resp, mg')"
  shows "grown_by {name} mg mg' \<and> plain_services (dm_host D) mg' \<and>
    ((\<exists>ni. resp = RespStarted name ni) \<and> \<not> hm_has (mg_active_services mg) name \<and>
       (\<exists>sv. hm_get (mg_active_services mg') name = Some sv \<and> rs_name sv = sc_name sc) \<or>
     (\<exists>m. resp = RespError m))"
proof -
  obtain r where start: "start_service (dm_backend D) created now name sc mg = (r, mg')"
    using run by (cases "start_service (dm_backend D) created now name sc mg")
      (auto simp: daemon_request_def or_error_def split: sum.splits)
  with run have resp: "resp = (case r of Inr running \<Rightarrow> RespStarted name (started_network_info name running)
      | Inl e \<Rightarrow> RespError (''Failed to start service: '' @ dm_display D e))"
    by (cases r) (simp_all add: daemon_request_def or_error_def)
  have inv': "plain_services (dm_host D) mg'"
    using plain_services_request [OF inv, of created now "ReqStart name sc"] run by simp
  from start show ?thesis
  proof (cases rule: start_service_cases)
    case (started x sv s g)
    have "set (mg_executors mg) = set (std_executors (dm_host D))" using inv by (simp add: plain_services_def)
    from orchestrator.started_stoppable [OF same_executors [OF this] started(2,3)] have "rs_name sv = sc_name sc" by simp
    moreover have "grown_by {name} mg mg'" using started(1,4) by (auto simp: grown_by_def hm_has_iff)
    ultimately show ?thesis using inv' started by (auto simp: resp split: sum.splits)
  qed (use inv' in \<open>auto simp: resp grown_by_def\<close>)
qed

section \<open>The loop\<close>

definition started_all :: "string list \<Rightarrow> ('b, 'w) manager \<Rightarrow> ('b, 'w) manager \<Rightarrow> bool" where
  "started_all names mg mg' \<longleftrightarrow> (\<forall>n\<in>set names. \<not> hm_has (mg_active_services mg) n \<and>
     (\<exists>sv. hm_get (mg_active_services mg') n = Some sv \<and> rs_name sv = n))"

definition loop_outcome ::
    "'w host \<Rightarrow> string list \<Rightarrow> start_state \<Rightarrow> ('b, 'w) manager \<Rightarrow> CliError + start_state \<Rightarrow> ('b, 'w, 'x) cli_world \<Rightarrow> bool" where
  "loop_outcome H names st mg r c \<longleftrightarrow>
     (\<exists>mg' t'. c = ((mg', []), t') \<and> plain_services H mg' \<and> grown_by (set names) mg mg' \<and>
       (\<forall>st'. r = Inr st' \<longrightarrow> (\<exists>fs. sst_failures st' = sst_failures st @ fs \<and> (fs = [] \<longrightarrow> started_all names mg mg'))))"

lemma loop_outcome_fail:
  assumes "loop_outcome H names (note_failure name e st) mg1 r c" and "grown_by {name} mg mg1"
  shows "loop_outcome H (name # names) st mg r c"
  using assms grown_trans [of "{name}" mg mg1 "set names" _ "set (name # names)"]
  by (fastforce simp: loop_outcome_def note_failure_def)

lemma loop_outcome_started:
  assumes rest: "loop_outcome H names (note_started name ip port host st) mg1 r c" and g: "grown_by {name} mg mg1"
    and fresh: "\<not> hm_has (mg_active_services mg) name" and sv: "hm_get (mg_active_services mg1) name = Some sv" "rs_name sv = name"
  shows "loop_outcome H (name # names) st mg r c"
proof -
  from rest obtain mg' t' where r: "c = ((mg', []), t')" "plain_services H mg'" "grown_by (set names) mg1 mg'"
    and fs: "\<forall>st'. r = Inr st' \<longrightarrow> (\<exists>fs. sst_failures st' = sst_failures (note_started name ip port host st) @ fs \<and>
        (fs = [] \<longrightarrow> started_all names mg1 mg'))" unfolding loop_outcome_def by blast
  have "grown_by (set (name # names)) mg mg'" by (rule grown_trans [OF g r(3)]) simp
  moreover have "started_all (name # names) mg mg'" if "started_all names mg1 mg'"
    using that fresh sv r(3) grown_has [OF g] by (auto simp: started_all_def grown_by_def)
  ultimately show ?thesis using r fs by (fastforce simp: loop_outcome_def note_started_def)
qed

lemma start_loop_outcome:
  assumes json: "\<And>j. jt_parse J (jt_print J j) = Inr j"
  shows "plain_services (dm_host D) mg \<Longrightarrow>
    start_loop N (daemon_cli D J stamp) config names st ((mg, []), t) = Some (r, c) \<Longrightarrow>
    loop_outcome (dm_host D) names st mg r c"
proof (induction names arbitrary: st mg t)
  case Nil
  then show ?case by (auto simp: loop_outcome_def started_all_def)
next
  case (Cons name names)
  let ?E = "daemon_cli D J stamp"
  show ?case
  proof (cases "hm_get (cfg_services config) name")
    case None
    with Cons.prems show ?thesis by (auto simp: loop_outcome_def)
  next
    case (Some service)
    from Cons.prems(2) Some obtain q where
      q: "convert_to_orchestrator_with_context N (dm_var D) (dm_vars D) config name (Some (sst_context st)) = Some q"
      by (fastforce split: option.splits)
    show ?thesis
    proof (cases q)
      case (Inl e)
      with Cons.prems(2) Some q have "start_loop N ?E config names
          (note_failure name (ce_show_config_error ?E e) st) ((mg, []), t) = Some (r, c)" by simp
      from loop_outcome_fail [OF Cons.IH [OF Cons.prems(1) this] grown_by_refl] show ?thesis .
    next
      case (Inr sc)
      note sc = converted_encodable [OF q [unfolded Inr]]
      obtain resp mg1 where d: "daemon_request D (stamp t) (stamp t) (ReqStart name sc) mg = (resp, mg1)" by fastforce
      have req: "ce_request ?E (ReqStart name sc) ((mg, []), t) = (Inr resp, ((mg1, []), t))"
        using daemon_cli_request [OF json Cons.prems(1), of "ReqStart name sc"] sc d by (simp add: request_encodable_def)
      from start_request_run [OF Cons.prems(1) d] have g: "grown_by {name} mg mg1" and inv1: "plain_services (dm_host D) mg1"
        and cases: "(\<exists>ni. resp = RespStarted name ni) \<and> \<not> hm_has (mg_active_services mg) name \<and>
             (\<exists>sv. hm_get (mg_active_services mg1) name = Some sv \<and> rs_name sv = sc_name sc) \<or>
           (\<exists>m. resp = RespError m)" by blast+
      note run = Cons.prems(2) Some q [unfolded Inr] req
      show ?thesis
      proof (cases "\<exists>m. resp = RespError m")
        case True
        then obtain m where m: "resp = RespError m" by blast
        with run have "r = Inr (note_failure name m st)" "c = ((mg1, []), t)" by simp_all
        moreover have "grown_by (set (name # names)) mg mg1" by (rule grown_trans [OF g grown_by_refl [of "{}"]]) simp
        ultimately show ?thesis using inv1 by (simp add: loop_outcome_def note_failure_def)
      next
        case False
        with cases obtain ni sv where ni: "resp = RespStarted name ni" and fresh: "\<not> hm_has (mg_active_services mg) name"
          and sv: "hm_get (mg_active_services mg1) name = Some sv" "rs_name sv = sc_name sc" by blast
        from run ni obtain c1 where aw: "await_start ?E name service ((mg1, []), t) = Some c1"
          and rest: "start_loop N ?E config names (note_started name (sn_ip ni) (sn_port ni) (sn_hostname ni) st) c1 = Some (r, c)"
          by (auto split: option.splits)
        from polled_await [OF json aw inv1] obtain g1 t1 where c1: "c1 = ((mg1\<lparr>mg_registry := g1\<rparr>, []), t1)"
          and inv2: "plain_services (dm_host D) (mg1\<lparr>mg_registry := g1\<rparr>)" by blast
        have g2: "grown_by {name} mg (mg1\<lparr>mg_registry := g1\<rparr>)" using g by (simp add: grown_by_def)
        from loop_outcome_started [OF Cons.IH [OF inv2 rest [unfolded c1]] g2 fresh] sv sc show ?thesis by simp
      qed
    qed
  qed
qed

section \<open>Properties\<close>

text \<open>
  C4. What \<open>start\<close> leaves behind. Run against the daemon over a JSON library that parses what it
  prints, the command returns; whatever its outcome, every service that was active
  stays active and untouched, and only services that were asked for or that those depend on become
  active. If it reports success, all of these are active under their names, and none of them was
  active before: a run that reaches a service that is already active cannot succeed.
\<close>

theorem start_activates_services:
  assumes json: "\<And>j. jt_parse J (jt_print J j) = Inr j" and nom: "nom_library N"
    and inv: "plain_services (dm_host D) mg"
    and wf: "hm_wf (cfg_services config)" and ord: "iteration_order ord"
    and reached: "reached = (edges_of (cfg_deps config))\<^sup>* `` set (requested config services)"
  shows "\<exists>r mg' t'. start_run N (daemon_cli D J stamp) ord (Some (Inr config)) services ((mg, []), t) = Some (r, ((mg', []), t')) \<and>
    (\<forall>n sv. hm_get (mg_active_services mg) n = Some sv \<longrightarrow> hm_get (mg_active_services mg') n = Some sv) \<and>
    (\<forall>n. hm_has (mg_active_services mg') n \<longrightarrow> hm_has (mg_active_services mg) n \<or> n \<in> reached) \<and>
    (r = Inr () \<longrightarrow> (\<forall>n\<in>reached. \<not> hm_has (mg_active_services mg) n \<and>
       (\<exists>sv. hm_get (mg_active_services mg') n = Some sv \<and> rs_name sv = n)))"
proof -
  obtain s where s: "topological_sort ord config services = Some s" using start_sort_returns [OF wf ord] by blast
  show ?thesis
  proof (cases s)
    case (Inl e)
    with s show ?thesis by (simp add: start_run_def)
  next
    case (Inr ordered)
    note order = start_order [OF wf ord s [unfolded Inr]]
    let ?E = "daemon_cli D J stamp"
    let ?st = "\<lparr>sst_failures = [], sst_started = [], sst_context = resolution_context_new (ce_vars ?E)\<rparr>"
    obtain x c where loop: "start_loop N ?E config ordered ?st ((mg, []), t) = Some (x, c)"
      using start_loop_returns [OF nom daemon_cli_steady, of D J stamp config ordered ?st "((mg, []), t)"] by auto
    from start_loop_outcome [OF json inv loop] obtain mg' t' where
      c: "c = ((mg', []), t')" and g: "grown_by (set ordered) mg mg'"
      and fs: "\<forall>st'. x = Inr st' \<longrightarrow> (\<exists>fs. sst_failures st' = sst_failures ?st @ fs \<and> (fs = [] \<longrightarrow> started_all ordered mg mg'))"
      unfolding loop_outcome_def by blast
    have run: "start_run N ?E ord (Some (Inr config)) services ((mg, []), t) = Some (res_bind x start_summary, ((mg', []), t'))"
      using loop by (simp add: start_run_def s Inr c)
    have "started_all ordered mg mg'" if "res_bind x start_summary = Inr ()"
      using that fs by (cases x) (auto simp: start_summary_def split: if_splits)
    with run g order show ?thesis by (auto simp: grown_by_def started_all_def reached)
  qed
qed

theorem start_activates_services_witness:
  "\<exists>r mg' t'. start_run nom_reference (daemon_cli demo_daemon mem_json (\<lambda>_. ''t'')) rev
       (Some (Inr (plain_config [(''db'', [])]))) [''db''] ((demo_manager, []), 0) = Some (r, ((mg', []), t')) \<and>
     fst ` set (mg_active_services mg') \<subseteq> {''db''}"
proof -
  let ?c = "plain_config [(''db'', [])]"
  have json: "jt_parse mem_json (jt_print mem_json j) = Inr j" for j by (simp add: mem_json_def)
  have inv: "plain_services (dm_host demo_daemon) demo_manager"
    using demo_manager_inv by (auto simp: plain_services_def mg_inv_def demo_daemon_def demo_manager_def)
  have wf: "hm_wf (cfg_services ?c)" by (simp add: hm_wf_def)
  have "edges_of (cfg_deps ?c) = {}"
    by (auto simp: edges_of_def cfg_deps_def plain_config_def plain_service_def hm_get_def split: option.splits if_splits)
  moreover have "requested ?c [''db''] = [''db'']" by (simp add: requested_def)
  ultimately have reached: "{''db''} = (edges_of (cfg_deps ?c))\<^sup>* `` set (requested ?c [''db''])" by simp
  have "fst ` set (mg_active_services demo_manager) = {}" by (simp add: demo_manager_def)
  then show ?thesis
    using start_activates_services [OF json nom_ref.nom_library_axioms inv wf iteration_order_rev reached, of "\<lambda>_. ''t''" 0]
    by (fastforce simp: hm_has_def)
qed

end
