(* ===== verification/Cli_Status.thy ===== *)
theory Cli_Status
  imports Cli_Daemon
begin

text \<open>
  The commands that show what the daemon knows, \<^verbatim>\<open>crates/harness/src/commands/status.rs\<close> and
  \<^verbatim>\<open>env.rs\<close>: one table row per configured service, or the reply as JSON. What is printed is a value; a
  slice beyond the end of an identifier is a panic. The rounds of the watch mode are in
  \<open>Cli_Report\<close>.
\<close>

section \<open>Rows\<close>

datatype colour = DarkGrey | Yellow | Green | Red

type_synonym basic_row = "string \<times> (string \<times> colour) \<times> string"

definition basic_cells :: "ServiceStatus \<Rightarrow> (string \<times> colour) \<times> string" where
  "basic_cells status = (case status of
     OsStopped \<Rightarrow> ((''stopped'', DarkGrey), ''-'')
   | OsStarting \<Rightarrow> ((''starting'', Yellow), ''...'')
   | OsRunning \<Rightarrow> ((''running'', Green), ''healthy'')
   | OsUnhealthy \<Rightarrow> ((''running'', Red), ''unhealthy'')
   | OsFailed msg \<Rightarrow> ((''failed'', Red), msg))"

definition display_basic_table :: "(string, ServiceStatus) hmap \<Rightarrow> Config \<Rightarrow> basic_row list" where
  "display_basic_table services_status config =
     map (\<lambda>(name, service). (name, basic_cells (case hm_get services_status name of Some st \<Rightarrow> st | None \<Rightarrow> OsStopped)))
       (cfg_services config)"

record detailed_row =
  dr_service :: string
  dr_status :: "string \<times> colour"
  dr_network :: string
  dr_process :: string
  dr_dependencies :: string
  dr_endpoints :: string

definition detailed_status :: "DetailedServiceInfo option \<Rightarrow> string \<times> colour" where
  "detailed_status info = (case info of
     None \<Rightarrow> (''unknown'', DarkGrey)
   | Some i \<Rightarrow> (case di_status i of
       OsStopped \<Rightarrow> (''stopped'', DarkGrey) | OsStarting \<Rightarrow> (''starting'', Yellow) | OsRunning \<Rightarrow> (''running'', Green)
     | OsUnhealthy \<Rightarrow> (''unhealthy'', Red) | OsFailed _ \<Rightarrow> (''failed'', Red)))"

definition network_cell :: "DetailedServiceInfo option \<Rightarrow> string" where
  "network_cell info = (case opt_bind info di_network_info of
     None \<Rightarrow> ''-''
   | Some net \<Rightarrow> (case sn_port net of Some port \<Rightarrow> sn_ip net @ '':'' @ show_nat (unat port) | None \<Rightarrow> sn_ip net))"

definition process_cell :: "DetailedServiceInfo option \<Rightarrow> string option" where
  "process_cell info = (case info of
     None \<Rightarrow> Some ''-''
   | Some i \<Rightarrow> (case di_pid i of
       Some pid \<Rightarrow> Some (''PID '' @ show_nat (unat pid))
     | None \<Rightarrow> (case di_container_id i of
         Some container \<Rightarrow> map_option ((@) ''Container '') (str_slice container 0 12)
       | None \<Rightarrow> Some ''-'')))"

definition dash_if_empty :: "string \<Rightarrow> string" where
  "dash_if_empty s = (if s = [] then ''-'' else s)"

definition endpoints_cell :: "DetailedServiceInfo option \<Rightarrow> string" where
  "endpoints_cell info = (case info of
     None \<Rightarrow> ''-''
   | Some i \<Rightarrow>
       if di_endpoints i = [] then ''-''
       else str_join '', '' (map (\<lambda>(k, v). k @ '':'' @ v) (di_endpoints i)))"

fun detailed_rows :: "(string, DetailedServiceInfo) hmap \<Rightarrow> (string \<times> CfgService) list \<Rightarrow> detailed_row list option" where
  "detailed_rows service_map [] = Some []"
| "detailed_rows service_map ((name, service) # services) =
     (let info = hm_get service_map name in
      opt_bind (process_cell info) (\<lambda>process.
      map_option ((#) \<lparr>dr_service = name, dr_status = detailed_status info, dr_network = network_cell info,
          dr_process = process, dr_dependencies = dash_if_empty (str_join '', '' (svc_dependencies service)),
          dr_endpoints = endpoints_cell info\<rparr>)
        (detailed_rows service_map services)))"

definition display_detailed_table :: "DetailedServiceInfo list \<Rightarrow> Config \<Rightarrow> detailed_row list option" where
  "display_detailed_table detailed_services config =
     detailed_rows (hm_extend [] (map (\<lambda>s. (di_name s, s)) detailed_services)) (cfg_services config)"

section \<open>The commands\<close>

datatype shown =
    ShownJson json
  | ShownBasic "basic_row list"
  | ShownDetailed "detailed_row list"

datatype StatusError =
    StConfig ConfigError
  | StDaemon string
  | StFormat string
  | StFailed string
  | StUnexpected

text \<open>A connection, one request, and what the reply shows; \<open>None\<close> if it panics.\<close>

definition ask :: "'d cli_env \<Rightarrow> Request \<Rightarrow> (Response \<Rightarrow> (StatusError + shown) option) \<Rightarrow> 'd \<Rightarrow> ((StatusError + shown) \<times> 'd) option" where
  "ask E request show_reply d =
     (case ce_connect E d of
        (Inl e, d) \<Rightarrow> Some (Inl (StDaemon e), d)
      | (Inr _, d) \<Rightarrow>
          (case ce_request E request d of
             (Inl e, d) \<Rightarrow> Some (Inl (StDaemon e), d)
           | (Inr response, d) \<Rightarrow> map_option (\<lambda>r. (r, d)) (show_reply response)))"

definition run_once ::
    "'d cli_env \<Rightarrow> (ConfigError + Config) option \<Rightarrow> string \<Rightarrow> bool \<Rightarrow> 'd \<Rightarrow> ((StatusError + shown) \<times> 'd) option" where
  "run_once E parsed format detailed d =
     (case parsed of
        None \<Rightarrow> None
      | Some (Inl e) \<Rightarrow> Some (Inl (StConfig e), d)
      | Some (Inr config) \<Rightarrow>
          if detailed then
            ask E ReqListDetailed (\<lambda>response. case response of
                RespListDetailed services \<Rightarrow>
                  if format = ''json'' then Some (Inr (ShownJson (JArr (map detailed_info_json services))))
                  else map_option (Inr \<circ> ShownDetailed) (display_detailed_table services config)
              | RespError message \<Rightarrow> Some (Inl (StFailed (''Failed to get detailed service list: '' @ message)))
              | _ \<Rightarrow> Some (Inl StUnexpected)) d
          else
            ask E ReqList (\<lambda>response. case response of
                RespList services \<Rightarrow>
                  if format = ''json'' then Some (Inr (ShownJson (map_json status_json services)))
                  else Some (Inr (ShownBasic (display_basic_table services config)))
              | RespError message \<Rightarrow> Some (Inl (StFailed (''Failed to get service list: '' @ message)))
              | _ \<Rightarrow> Some (Inl StUnexpected)) d)"

definition status_command ::
    "'d cli_env \<Rightarrow> (ConfigError + Config) option \<Rightarrow> string \<Rightarrow> bool \<Rightarrow> 'd \<Rightarrow> ((StatusError + shown) \<times> 'd) option" where
  "status_command E parsed format detailed d =
     (if format \<noteq> ''table'' \<and> format \<noteq> ''json'' then Some (Inl (StFormat format), d)
      else run_once E parsed format detailed d)"

text \<open>The lines that the variables of the daemon are shown as, sorted by name.\<close>

datatype env_shown = EnvNoneSet | EnvNoneFound | EnvLines "string list"

definition env_get :: "'d cli_env \<Rightarrow> string list \<Rightarrow> 'd \<Rightarrow> (StatusError + env_shown) \<times> 'd" where
  "env_get E names d =
     (case ce_connect E d of
        (Inl e, d) \<Rightarrow> (Inl (StDaemon e), d)
      | (Inr _, d) \<Rightarrow>
          (case ce_request E (ReqEnv names) d of
             (Inl e, d) \<Rightarrow> (Inl (StDaemon e), d)
           | (Inr (RespEnv variables), d) \<Rightarrow>
               (Inr (if variables = [] then (if names = [] then EnvNoneSet else EnvNoneFound)
                  else EnvLines (map (\<lambda>(key, value). key @ ''='' @ value) (sort_key fst variables))), d)
           | (Inr (RespError message), d) \<Rightarrow> (Inl (StFailed (''Failed to get environment variables: '' @ message)), d)
           | (Inr _, d) \<Rightarrow> (Inl StUnexpected, d)))"

section \<open>Lemmas\<close>

text \<open>What is known of a service: the detailed information the daemon gives of it, if it is active.\<close>

definition info_known :: "('b, 'w) manager \<Rightarrow> DetailedServiceInfo option \<Rightarrow> string \<Rightarrow> bool" where
  "info_known mg info n \<longleftrightarrow> (case hm_get (mg_active_services mg) n of
     None \<Rightarrow> info = None
   | Some r \<Rightarrow> info = Some (detailed_info n (active_status n mg) (Some r)))"

lemma active_same [simp]: "get_service_info (mg\<lparr>mg_registry := g\<rparr>) n = get_service_info mg n"
  by (simp add: get_service_info_def)

lemma list_details_exact:
  assumes "\<forall>n\<in>set names. hm_has (mg_active_services mg) n"
  shows "\<exists>g. list_details B names acc mg = (Inr (acc @ map (\<lambda>n. detailed_info n (active_status n mg) (get_service_info mg n)) names),
    mg\<lparr>mg_registry := g\<rparr>)"
  using assms
proof (induction names arbitrary: acc mg)
  case Nil
  then show ?case by (auto intro!: exI [of _ "mg_registry mg"])
next
  case (Cons name names)
  obtain st g where st: "get_service_status B name mg = (Inr st, mg\<lparr>mg_registry := g\<rparr>)" "st = active_status name mg"
    using status_run [of B name mg] Cons(2) by (metis list.set_intros(1))
  from Cons(1) [of "mg\<lparr>mg_registry := g\<rparr>" "acc @ [detailed_info name st (get_service_info mg name)]"] Cons(2) st
  show ?case by (auto simp: act_bind_def act_try_def)
qed

lemma detailed_map:
  "hm_get (hm_extend [] (map (\<lambda>s. (di_name s, s)) (map (\<lambda>n. detailed_info n (active_status n mg) (get_service_info mg n))
      (list_services mg)))) name =
   (case hm_get (mg_active_services mg) name of None \<Rightarrow> None | Some r \<Rightarrow> Some (detailed_info name (active_status name mg) (Some r)))"
proof -
  let ?f = "\<lambda>n. detailed_info n (active_status n mg) (get_service_info mg n)"
  have name: "di_name (?f n) = n" for n by (simp add: detailed_info_def split: option.split)
  have look: "map_of (rev (map (\<lambda>n. (di_name (?f n), ?f n)) ns)) name = (if name \<in> set ns then Some (?f name) else None)" for ns
    by (induction ns rule: rev_induct) (auto simp: name)
  have "map_of (rev (map (\<lambda>s. (di_name s, s)) (map ?f (list_services mg)))) name =
      (if hm_has (mg_active_services mg) name then Some (?f name) else None)"
    using look [of "list_services mg"] by (simp add: comp_def list_services_def)
  then show ?thesis by (auto simp: hm_get_extend get_service_info_def hm_has_iff split: option.split)
qed

lemma detailed_rows_shown:
  assumes "\<forall>n info. hm_get m n = Some info \<longrightarrow> process_cell (Some info) \<noteq> None"
  shows "\<exists>rows. detailed_rows m services = Some rows \<and> map dr_service rows = map fst services \<and>
    (\<forall>row\<in>set rows. dr_status row = detailed_status (hm_get m (dr_service row)) \<and>
       dr_network row = network_cell (hm_get m (dr_service row)) \<and>
       process_cell (hm_get m (dr_service row)) = Some (dr_process row))"
proof (induction services)
  case (Cons ns services)
  obtain n service where ns: "ns = (n, service)" by (cases ns)
  obtain p where "process_cell (hm_get m n) = Some p"
    using assms by (cases "hm_get m n") (auto simp: process_cell_def)
  with Cons show ?case by (auto simp: ns Let_def)
qed simp

lemma process_cell_plain:
  assumes "plain_services H mg" and "hm_get (mg_active_services mg) n = Some r"
  shows "process_cell (Some (detailed_info n st (Some r))) \<noteq> None"
  using assms by (auto simp: process_cell_def detailed_info_def plain_services_def plain_service_info_def str_slice_def
      split: option.split)

lemma list_details_reply:
  "\<exists>g. daemon_request D created now ReqListDetailed mg = (RespListDetailed
     (map (\<lambda>n. detailed_info n (active_status n mg) (get_service_info mg n)) (list_services mg)), mg\<lparr>mg_registry := g\<rparr>)"
  using list_details_exact [of "list_services mg" mg "dm_backend D" "[]"]
  by (auto simp: daemon_request_def or_error_def list_services_def)

lemma list_statuses_reply:
  "\<exists>l g. daemon_request D created now ReqList mg = (RespList l, mg\<lparr>mg_registry := g\<rparr>) \<and>
     (\<forall>n. hm_get l n = (if hm_has (mg_active_services mg) n then Some (active_status n mg) else None))"
proof -
  have "\<forall>n\<in>set (list_services mg). hm_has (mg_active_services mg) n" by (simp add: list_services_def)
  from list_statuses_run [OF mg_start this, of "dm_backend D" "[]"] show ?thesis
    by (fastforce simp: daemon_request_def or_error_def list_services_def)
qed

lemma run_once_daemon:
  assumes json: "\<And>j. jt_parse J (jt_print J j) = Inr j" and inv: "plain_services (dm_host D) mg"
    and reply: "daemon_request D (stamp t) (stamp t) request mg = (r, mg')"
    and "request \<in> {ReqList, ReqListDetailed}"
  shows "ask (daemon_cli D J stamp) request show_reply ((mg, []), t) = map_option (\<lambda>x. (x, ((mg', []), t))) (show_reply r)"
proof -
  have "request_encodable request" using assms(4) by (auto simp: request_encodable_def)
  from daemon_cli_request [OF json inv this, of stamp t] reply show ?thesis by (simp add: ask_def)
qed

section \<open>Properties\<close>

text \<open>
  The status tables show the daemon's services. Against the daemon, neither table panics, both have one
  row per configured service, in the order of the configuration, and asking changes nothing but what
  the registry counts. A service that is active is shown with the status the manager has for it; one that is not
  is shown as stopped in the short table and as unknown in the detailed one.
\<close>

theorem status_shows_services:
  assumes json: "\<And>j. jt_parse J (jt_print J j) = Inr j" and inv: "plain_services (dm_host D) mg"
  shows "(\<exists>rows g. status_command (daemon_cli D J stamp) (Some (Inr config)) ''table'' True ((mg, []), t) =
        Some (Inr (ShownDetailed rows), ((mg\<lparr>mg_registry := g\<rparr>, []), t)) \<and>
      map dr_service rows = map fst (cfg_services config) \<and>
      (\<forall>row\<in>set rows. dr_status row =
         (case hm_get (mg_active_services mg) (dr_service row) of
            None \<Rightarrow> (''unknown'', DarkGrey)
          | Some r \<Rightarrow> detailed_status (Some (detailed_info (dr_service row) (active_status (dr_service row) mg) (Some r)))))) \<and>
    (\<exists>g. status_command (daemon_cli D J stamp) (Some (Inr config)) ''table'' False ((mg, []), t) =
        Some (Inr (ShownBasic (map (\<lambda>(n, service). (n, basic_cells
            (if hm_has (mg_active_services mg) n then active_status n mg else OsStopped))) (cfg_services config))),
          ((mg\<lparr>mg_registry := g\<rparr>, []), t)))"
proof
  let ?infos = "map (\<lambda>n. detailed_info n (active_status n mg) (get_service_info mg n)) (list_services mg)"
  let ?m = "hm_extend [] (map (\<lambda>s. (di_name s, s)) ?infos)"
  obtain g where g: "daemon_request D (stamp t) (stamp t) ReqListDetailed mg = (RespListDetailed ?infos, mg\<lparr>mg_registry := g\<rparr>)"
    using list_details_reply by blast
  have "\<forall>n info. hm_get ?m n = Some info \<longrightarrow> process_cell (Some info) \<noteq> None"
    using process_cell_plain [OF inv] unfolding detailed_map by (auto split: option.splits)
  from detailed_rows_shown [OF this, of "cfg_services config"] obtain rows where
    rows: "detailed_rows ?m (cfg_services config) = Some rows" "map dr_service rows = map fst (cfg_services config)"
      "\<forall>row\<in>set rows. dr_status row = detailed_status (hm_get ?m (dr_service row))" by blast
  have "status_command (daemon_cli D J stamp) (Some (Inr config)) ''table'' True ((mg, []), t) =
        Some (Inr (ShownDetailed rows), ((mg\<lparr>mg_registry := g\<rparr>, []), t))"
    using run_once_daemon [where stamp = stamp and t = t, OF json inv g] rows(1)
    by (simp add: status_command_def run_once_def display_detailed_table_def)
  moreover have "dr_status row = (case hm_get (mg_active_services mg) (dr_service row) of
            None \<Rightarrow> (''unknown'', DarkGrey)
          | Some r \<Rightarrow> detailed_status (Some (detailed_info (dr_service row) (active_status (dr_service row) mg) (Some r))))"
    if "row \<in> set rows" for row
    using rows(3) that unfolding detailed_map by (auto simp: detailed_status_def split: option.splits)
  ultimately show "\<exists>rows g. status_command (daemon_cli D J stamp) (Some (Inr config)) ''table'' True ((mg, []), t) =
        Some (Inr (ShownDetailed rows), ((mg\<lparr>mg_registry := g\<rparr>, []), t)) \<and>
      map dr_service rows = map fst (cfg_services config) \<and>
      (\<forall>row\<in>set rows. dr_status row =
         (case hm_get (mg_active_services mg) (dr_service row) of
            None \<Rightarrow> (''unknown'', DarkGrey)
          | Some r \<Rightarrow> detailed_status (Some (detailed_info (dr_service row) (active_status (dr_service row) mg) (Some r)))))"
    using rows(2) by blast
next
  obtain l g where l: "daemon_request D (stamp t) (stamp t) ReqList mg = (RespList l, mg\<lparr>mg_registry := g\<rparr>)"
    and look: "\<forall>n. hm_get l n = (if hm_has (mg_active_services mg) n then Some (active_status n mg) else None)"
    using list_statuses_reply by blast
  show "\<exists>g. status_command (daemon_cli D J stamp) (Some (Inr config)) ''table'' False ((mg, []), t) =
        Some (Inr (ShownBasic (map (\<lambda>(n, service). (n, basic_cells
            (if hm_has (mg_active_services mg) n then active_status n mg else OsStopped))) (cfg_services config))),
          ((mg\<lparr>mg_registry := g\<rparr>, []), t))"
    using run_once_daemon [where stamp = stamp and t = t, OF json inv l] look
    by (intro exI [of _ g]) (auto simp: status_command_def run_once_def display_basic_table_def)
qed

theorem status_shows_services_witness:
  "\<exists>rows g. status_command (daemon_cli demo_daemon mem_json (\<lambda>_. ''t'')) (Some (Inr (plain_config [(''db'', [])]))) ''table'' True
     ((demo_manager, []), 0) = Some (Inr (ShownDetailed rows), ((demo_manager\<lparr>mg_registry := g\<rparr>, []), 0)) \<and>
   map dr_service rows = [''db'']"
proof -
  have json: "jt_parse mem_json (jt_print mem_json j) = Inr j" for j by (simp add: mem_json_def)
  have inv: "plain_services (dm_host demo_daemon) demo_manager"
    using demo_manager_inv by (auto simp: plain_services_def mg_inv_def demo_daemon_def demo_manager_def)
  show ?thesis
    using status_shows_services [OF json inv, of "\<lambda>_. ''t''" "plain_config [(''db'', [])]" 0] by auto
qed

text \<open>A detailed table can panic on what another daemon answers: a container with a short identifier.\<close>

lemma short_container_panics:
  "display_detailed_table [\<lparr>di_name = ''db'', di_status = OsRunning, di_network_info = None, di_endpoints = [],
     di_pid = None, di_container_id = Some ''abc'', di_start_time = None, di_dependencies = []\<rparr>]
     (plain_config [(''db'', [])]) = None"
  by code_simp

end
