(* ===== verification/Cli_Validate.thy ===== *)
theory Cli_Validate
  imports Cli_Client Cli_Deps
begin

text \<open>
  The command that validates a configuration, \<^verbatim>\<open>crates/harness/src/commands/validate.rs\<close>: dependencies,
  ports, health checks, references and networks of a configuration that the parser accepted. A
  message is a constructor with its arguments; what is only printed has no effect here.
\<close>

section \<open>What a validation reports\<close>

datatype validation_error =
    VeDependencies dep_error
  | VePortShared u16 "string list"
  | VeTcpPortZero string
  | VeEmptyCommand string
  | VeInvalidRefs "string list"
  | VeMissingEnv "string list"

datatype validation_warning =
    VwUrl string
  | VwIntervalZero string
  | VwTimeout string u64 u64
  | VwNoPorts string
  | VwNotExposing string
  | VwEnvNotSet "string list"
  | VwLonelyNetwork string string
  | VwUnusedNetwork string

type_synonym report = "validation_error list \<times> validation_warning list"

section \<open>Ports\<close>

definition host_port :: "PortMapping \<Rightarrow> u16" where
  "host_port m = (case m of
     SimplePort p \<Rightarrow> p
   | FullPort mapping \<Rightarrow>
       (case str_split_once (CHR '':'') mapping of
          Some (h, _) \<Rightarrow> (case parse_unsigned (2 ^ 16) h of Some n \<Rightarrow> of_nat n | None \<Rightarrow> 0)
        | None \<Rightarrow> 0))"

text \<open>\<open>entry(k).or_default().push(v)\<close>\<close>

definition push_entry :: "'k \<Rightarrow> 'v \<Rightarrow> ('k, 'v list) hmap \<Rightarrow> ('k, 'v list) hmap" where
  "push_entry k v m = hm_insert k ((case hm_get m k of Some vs \<Rightarrow> vs | None \<Rightarrow> []) @ [v]) m"

fun note_ports :: "string \<Rightarrow> PortMapping list \<Rightarrow> (u16, string list) hmap \<Rightarrow> (u16, string list) hmap" where
  "note_ports name [] usage = usage"
| "note_ports name (m # ms) usage =
     note_ports name ms (if host_port m > 0 then push_entry (host_port m) name usage else usage)"

fun port_usage :: "(string \<times> CfgService) list \<Rightarrow> (u16, string list) hmap \<Rightarrow> (u16, string list) hmap" where
  "port_usage [] usage = usage"
| "port_usage ((name, service) # services) usage =
     port_usage services (case svc_type service of
         TyDocker _ ports _ _ _ \<Rightarrow> note_ports name ports usage
       | _ \<Rightarrow> usage)"

definition port_errors :: "(u16, string list) hmap \<Rightarrow> validation_error list" where
  "port_errors usage = map (\<lambda>(port, services). VePortShared port services) (filter (\<lambda>(port, services). length services > 1) usage)"

section \<open>Health checks\<close>

definition health_report :: "string \<Rightarrow> CfgHealthCheck \<Rightarrow> report" where
  "health_report name hc =
     (let (errors, warnings) = (case chc_check_type hc of
         CheckHttp http \<Rightarrow>
           ([], if \<not> str_starts_with http ''http://'' \<and> \<not> str_starts_with http ''https://'' then [VwUrl name] else [])
       | CheckTcp tcp \<Rightarrow> (if tcp_port tcp = 0 then [VeTcpPortZero name] else [], [])
       | CheckCommand command args \<Rightarrow> (if command = [] then [VeEmptyCommand name] else [], [])) in
      (errors, warnings @ (if chc_interval hc = 0 then [VwIntervalZero name] else []) @
         (if chc_timeout hc \<ge> chc_interval hc then [VwTimeout name (chc_timeout hc) (chc_interval hc)] else [])))"

fun health_reports :: "(string \<times> CfgService) list \<Rightarrow> report" where
  "health_reports [] = ([], [])"
| "health_reports ((name, service) # services) =
     (let (errors, warnings) = health_reports services in
      case svc_health_check service of
        None \<Rightarrow> (errors, warnings)
      | Some hc \<Rightarrow> (fst (health_report name hc) @ errors, snd (health_report name hc) @ warnings))"

section \<open>References and networks\<close>

fun ref_report :: "Config \<Rightarrow> string list \<Rightarrow> string list \<times> validation_warning list" where
  "ref_report config [] = ([], [])"
| "ref_report config (service_ref # refs) =
     (let (invalid, warnings) = ref_report config refs in
      case str_split_once (CHR ''.'') service_ref of
        None \<Rightarrow> (invalid, warnings)
      | Some (referred, ref_type) \<Rightarrow>
          (case hm_get (cfg_services config) referred of
             None \<Rightarrow> (service_ref # invalid, warnings)
           | Some service \<Rightarrow>
               if ref_type = ''port'' then
                 (case svc_type service of
                    TyDocker _ ports _ _ _ \<Rightarrow> (invalid, (if ports = [] then [VwNoPorts service_ref] else []) @ warnings)
                  | _ \<Rightarrow> (invalid, VwNotExposing service_ref # warnings))
               else (invalid, warnings)))"

fun services_per_network :: "(string \<times> CfgService) list \<Rightarrow> (string, string list) hmap \<Rightarrow> (string, string list) hmap" where
  "services_per_network [] m = m"
| "services_per_network ((name, service) # services) m =
     services_per_network services (push_entry (svc_network service) name m)"

definition network_warnings :: "Config \<Rightarrow> validation_warning list" where
  "network_warnings config =
     (let per = services_per_network (cfg_services config) [] in
      concat (map (\<lambda>(network, services). case services of
          [s] \<Rightarrow> if length (cfg_networks config) > 1 then [VwLonelyNetwork network s] else []
        | _ \<Rightarrow> []) per) @
      map VwUnusedNetwork (filter (\<lambda>n. \<not> hm_has per n) (hm_keys (cfg_networks config))))"

section \<open>The command\<close>

text \<open>
  \<open>parsed\<close> is the result of parsing the file; the result carries what was reported, and is an error if
  anything was.
\<close>

definition missing_vars :: "(string \<Rightarrow> string option) \<Rightarrow> string list \<Rightarrow> string list" where
  "missing_vars env env_vars = filter (\<lambda>v. env v = None) env_vars"

definition validate_report ::
    "(string \<Rightarrow> string option) \<Rightarrow> dep_error + string list \<Rightarrow> Config \<Rightarrow> bool \<Rightarrow> string list \<Rightarrow> string list \<Rightarrow> report" where
  "validate_report env order_found config strict env_vars service_refs =
     (let (health_errors, health_warnings) = health_reports (cfg_services config);
          (invalid_refs, ref_warnings) = ref_report config service_refs;
          missing = missing_vars env env_vars in
      ((case order_found of Inl e \<Rightarrow> [VeDependencies e] | Inr _ \<Rightarrow> []) @ port_errors (port_usage (cfg_services config) []) @
         health_errors @ (if invalid_refs \<noteq> [] then [VeInvalidRefs invalid_refs] else []) @
         (if missing \<noteq> [] \<and> strict then [VeMissingEnv missing] else []),
       health_warnings @ ref_warnings @ (if missing \<noteq> [] \<and> \<not> strict then [VwEnvNotSet missing] else []) @
         network_warnings config))"

definition validate_run ::
    "nom \<Rightarrow> (string \<Rightarrow> string option) \<Rightarrow> (string list \<Rightarrow> string list) \<Rightarrow> (ConfigError + Config) option \<Rightarrow> bool \<Rightarrow>
      ((CliError + unit) \<times> report) option" where
  "validate_run N env ord parsed strict =
     (case parsed of
        None \<Rightarrow> None
      | Some (Inl e) \<Rightarrow> Some (Inl (CliConfig e), ([], []))
      | Some (Inr config) \<Rightarrow>
          (case topological_sort ord config [] of
             None \<Rightarrow> None
           | Some order_found \<Rightarrow>
               (case find_all_references N config of
                  None \<Rightarrow> None
                | Some (Inl e) \<Rightarrow> Some (Inl (CliConfig e), ([], []))
                | Some (Inr (env_vars, service_refs)) \<Rightarrow>
                    (let report = validate_report env order_found config strict env_vars service_refs in
                     Some (if fst report = [] then Inr () else Inl (CliFailed (length (fst report))), report)))))"

section \<open>Lemmas\<close>

definition docker_ports :: "CfgService \<Rightarrow> PortMapping list" where
  "docker_ports service = (case svc_type service of TyDocker _ ports _ _ _ \<Rightarrow> ports | _ \<Rightarrow> [])"

text \<open>
  The host's port of a mapping, said without the splitting: the number before the first colon, zero if
  there is no colon or no number. So \<open>127.0.0.1:8080:80\<close>, whose first part is an address, counts as zero, as it does in
  the code.
\<close>

definition mapped_port :: "PortMapping \<Rightarrow> u16" where
  "mapped_port m = (case m of
     SimplePort p \<Rightarrow> p
   | FullPort mapping \<Rightarrow>
       if CHR '':'' \<in> set mapping
       then case parse_unsigned (2 ^ 16) (takeWhile (\<lambda>c. c \<noteq> CHR '':'') mapping) of Some n \<Rightarrow> of_nat n | None \<Rightarrow> 0
       else 0)"

lemma host_port_eq: "host_port m = mapped_port m"
proof (cases m)
  case (FullPort mapping)
  show ?thesis
  proof (cases "str_split_once (CHR '':'') mapping")
    case None
    then have "CHR '':'' \<notin> set mapping" by (simp add: str_split_once_None)
    then have "mapped_port m = 0" by (simp add: FullPort mapped_port_def)
    moreover from None have "host_port m = 0" by (simp only: FullPort host_port_def PortMapping.case option.case)
    ultimately show ?thesis by simp
  next
    case (Some hp)
    then obtain h p where hp: "str_split_once (CHR '':'') mapping = Some (h, p)" by (cases hp) simp
    from str_split_once_Some [OF hp] have "mapping = h @ CHR '':'' # p" "\<forall>c\<in>set h. c \<noteq> CHR '':''" by auto
    then have "takeWhile (\<lambda>c. c \<noteq> CHR '':'') mapping = h" "CHR '':'' \<in> set mapping" by simp_all
    then show ?thesis by (simp add: FullPort host_port_def mapped_port_def hp)
  qed
qed (simp add: host_port_def mapped_port_def)

definition host_ports :: "(string \<times> CfgService) list \<Rightarrow> u16 list" where
  "host_ports services = concat (map (\<lambda>(n, service). map mapped_port (docker_ports service)) services)"

definition users_of :: "(u16, string list) hmap \<Rightarrow> u16 \<Rightarrow> string list" where
  "users_of usage p = (case hm_get usage p of Some vs \<Rightarrow> vs | None \<Rightarrow> [])"

lemma push_entry_users:
  "users_of (push_entry k v m) p = users_of m p @ (if p = k then [v] else [])"
  by (simp add: users_of_def push_entry_def)

lemma push_entry_wf [simp]: "hm_wf m \<Longrightarrow> hm_wf (push_entry k v m)"
  by (simp add: push_entry_def)

lemma note_ports_users:
  "length (users_of (note_ports name ms usage) p) =
     length (users_of usage p) + (if p > 0 then count_list (map mapped_port ms) p else 0) \<and>
   (hm_wf usage \<longrightarrow> hm_wf (note_ports name ms usage))"
  by (induction ms arbitrary: usage) (auto simp: push_entry_users host_port_eq)

lemma port_usage_users:
  "length (users_of (port_usage services usage) p) =
     length (users_of usage p) + (if p > 0 then count_list (host_ports services) p else 0) \<and>
   (hm_wf usage \<longrightarrow> hm_wf (port_usage services usage))"
proof (induction services arbitrary: usage)
  case (Cons ns services)
  obtain name service where ns: "ns = (name, service)" by (cases ns)
  have "port_usage (ns # services) usage = port_usage services (note_ports name (docker_ports service) usage)"
    by (cases "svc_type service") (simp_all add: ns docker_ports_def)
  moreover have "host_ports (ns # services) = map mapped_port (docker_ports service) @ host_ports services"
    by (simp add: ns host_ports_def)
  ultimately show ?case
    using Cons.IH [of "note_ports name (docker_ports service) usage"] note_ports_users [of name "docker_ports service" usage p]
    by auto
qed (simp add: host_ports_def)

lemma port_errors_none:
  "port_errors (port_usage services []) = [] \<longleftrightarrow> (\<forall>p>0. count_list (host_ports services) p \<le> 1)"
proof -
  let ?u = "port_usage services []"
  have wf: "hm_wf ?u" using port_usage_users [of services "[]"] by simp
  have count: "length (users_of ?u p) = (if p > 0 then count_list (host_ports services) p else 0)" for p
    using port_usage_users [of services "[]" p] by (simp add: users_of_def)
  have "port_errors ?u = [] \<longleftrightarrow> (\<forall>(p, vs)\<in>set ?u. length vs \<le> 1)"
    by (auto simp: port_errors_def filter_empty_conv not_less)
  also have "\<dots> \<longleftrightarrow> (\<forall>p. length (users_of ?u p) \<le> 1)"
  proof
    assume "\<forall>(p, vs)\<in>set ?u. length vs \<le> 1"
    then show "\<forall>p. length (users_of ?u p) \<le> 1"
      by (auto simp: users_of_def split: option.split dest: hm_get_mem)
  next
    assume few: "\<forall>p. length (users_of ?u p) \<le> 1"
    show "\<forall>(p, vs)\<in>set ?u. length vs \<le> 1"
    proof (rule ballI, clarify)
      fix p vs assume "(p, vs) \<in> set ?u"
      then have "hm_get ?u p = Some vs" using hm_get_iff_mem [OF wf] by blast
      with few show "length vs \<le> 1" by (auto simp: users_of_def dest: spec [of _ p])
    qed
  qed
  also have "\<dots> \<longleftrightarrow> (\<forall>p>0. count_list (host_ports services) p \<le> 1)" by (simp add: count)
  finally show ?thesis .
qed

definition check_ok :: "CfgHealthCheck \<Rightarrow> bool" where
  "check_ok hc = (case chc_check_type hc of
     CheckHttp _ \<Rightarrow> True | CheckTcp tcp \<Rightarrow> tcp_port tcp \<noteq> 0 | CheckCommand command _ \<Rightarrow> command \<noteq> [])"

lemma health_report_errors: "fst (health_report name hc) = [] \<longleftrightarrow> check_ok hc"
  by (cases "chc_check_type hc") (simp_all add: health_report_def check_ok_def)

lemma health_reports_errors:
  "fst (health_reports services) = [] \<longleftrightarrow>
     (\<forall>(n, service)\<in>set services. \<forall>hc. svc_health_check service = Some hc \<longrightarrow> check_ok hc)"
proof (induction services)
  case (Cons ns services)
  obtain n service where ns: "ns = (n, service)" by (cases ns)
  show ?case using Cons
    by (cases "svc_health_check service") (auto simp: ns case_prod_unfold health_report_errors Let_def)
qed simp

lemma ref_report_invalid: "\<forall>r\<in>set refs. service_known config r \<Longrightarrow> fst (ref_report config refs) = []"
  by (induction refs)
    (auto simp: service_known_def case_prod_unfold hm_has_iff Let_def split: option.splits ServiceType.splits)

lemma note_references_vars:
  "note_references rs acc = Inr acc' \<Longrightarrow>
     set (fst acc') = set (fst acc) \<union> {n. \<exists>a b d. Inr (a, b, EnvVar n d) \<in> set rs}"
  by (induction rs acc rule: note_references.induct) auto

lemma references_vars:
  "references_of_values N vs acc = Some (Inr acc') \<Longrightarrow>
     set (fst acc') = set (fst acc) \<union> {n. \<exists>v\<in>set vs. \<exists>rs a b d. find_variables N v = Some rs \<and> Inr (a, b, EnvVar n d) \<in> set rs}"
proof (induction vs arbitrary: acc)
  case (Cons v vs)
  from Cons.prems obtain rs acc1 where rs: "find_variables N v = Some rs" "note_references rs acc = Inr acc1"
    "references_of_values N vs acc1 = Some (Inr acc')"
    by (auto split: option.splits sum.splits)
  from Cons.IH [OF rs(3)] note_references_vars [OF rs(2)] rs(1) show ?case by auto
qed simp

text \<open>The variables that the environments of a configuration mention, with or without a default.\<close>

definition mentioned_vars :: "nom \<Rightarrow> Config \<Rightarrow> string set" where
  "mentioned_vars N config = {n. \<exists>v\<in>set (env_values config). \<exists>rs a b d.
     find_variables N v = Some rs \<and> Inr (a, b, EnvVar n d) \<in> set rs}"

lemma references_of_parsed:
  assumes nom: "nom_library N" and wf: "config_wf N config"
  obtains env_vars refs where "find_all_references N config = Some (Inr (env_vars, refs))"
    and "set env_vars = mentioned_vars N config" and "\<forall>r\<in>set refs. service_known config r"
proof -
  obtain r where "validate_config N config = Some r" "is_ok r" using validate_config_run [OF nom, of config] wf by auto
  then have "validate_config N config = Some (Inr ())" by (cases r) simp_all
  then have ok: "validate_references N config = Some (Inr ())"
    by (auto simp: validate_config_def split: if_splits sum.splits)
  then obtain env_vars refs where find: "find_all_references N config = Some (Inr (env_vars, refs))"
    and refs: "check_service_refs config refs = Inr ()"
    by (auto simp: validate_references_def split: option.splits sum.splits)
  have "set env_vars = mentioned_vars N config"
    using references_vars [of N "env_values config" "([], [])" "(env_vars, refs)"] find
    by (simp add: find_all_references_def mentioned_vars_def)
  moreover have "\<forall>r\<in>set refs. service_known config r" using check_service_refs_ok [of config refs] refs by simp
  ultimately show thesis using that find by blast
qed

section \<open>Properties\<close>

text \<open>
  C9. What a validation decides. For a configuration that the parser accepts, the command returns, and reports
  success exactly if no dependencies are circular, no host port (the number before the colon of a
  mapping) is mapped twice, every TCP check
  has a port and every command check a command, and, when strict, every variable mentioned
  is set, one with a default included. The references to services are always found valid: the parser checked them.
\<close>

theorem validation_reports:
  assumes nom: "nom_library N" and parsed: "parse_str N from_yaml content = Some (Inr config)"
    and wf: "hm_wf (cfg_services config)" and ord: "iteration_order ord"
  shows "\<exists>r report. validate_run N env ord (Some (Inr config)) strict = Some (r, report) \<and>
    (r = Inr () \<longleftrightarrow> fst report = []) \<and>
    (fst report = [] \<longleftrightarrow>
       \<not> cycle_from (cfg_deps config) (hm_keys (cfg_services config)) \<and>
       (\<forall>p>0. count_list (host_ports (cfg_services config)) p \<le> 1) \<and>
       (\<forall>(n, service)\<in>set (cfg_services config). \<forall>hc. svc_health_check service = Some hc \<longrightarrow> check_ok hc) \<and>
       (strict \<longrightarrow> (\<forall>n\<in>mentioned_vars N config. env n \<noteq> None))) \<and>
    (\<forall>refs. VeInvalidRefs refs \<notin> set (fst report))"
proof -
  from parse_str_wf [OF nom parsed] have cwf: "config_wf N config" and known: "deps_known config" by auto
  from references_of_parsed [OF nom cwf] obtain env_vars refs where
    find: "find_all_references N config = Some (Inr (env_vars, refs))"
    and vars: "set env_vars = mentioned_vars N config" and refs: "\<forall>r\<in>set refs. service_known config r" .
  from start_decides [OF wf ord, of "[]"] known obtain order_found where
    ordered: "topological_sort ord config [] = Some order_found"
    and cycle: "(\<exists>e. order_found = Inl e) = cycle_from (cfg_deps config) (hm_keys (cfg_services config))"
    by (auto simp: requested_def)
  let ?rep = "validate_report env order_found config strict env_vars refs"
  have run: "validate_run N env ord (Some (Inr config)) strict =
      Some (if fst ?rep = [] then Inr () else Inl (CliFailed (length (fst ?rep))), ?rep)"
    by (simp add: validate_run_def ordered find Let_def)
  have invalid: "fst (ref_report config refs) = []" by (rule ref_report_invalid [OF refs])
  have errors: "fst ?rep = (case order_found of Inl e \<Rightarrow> [VeDependencies e] | Inr _ \<Rightarrow> []) @
      port_errors (port_usage (cfg_services config) []) @ fst (health_reports (cfg_services config)) @
      (if missing_vars env env_vars \<noteq> [] \<and> strict then [VeMissingEnv (missing_vars env env_vars)] else [])"
    using invalid by (simp add: validate_report_def case_prod_unfold Let_def)
  have missing: "missing_vars env env_vars = [] \<longleftrightarrow> (\<forall>n\<in>mentioned_vars N config. env n \<noteq> None)"
    by (auto simp: missing_vars_def filter_empty_conv vars)
  have health: "VeInvalidRefs rs \<notin> set (fst (health_reports services))" for rs services
    by (induction services)
      (auto simp: case_prod_unfold health_report_def Let_def split: option.splits HealthCheckType.splits)
  have "VeInvalidRefs rs \<notin> set (fst ?rep)" for rs
    using health by (auto simp: errors port_errors_def split: sum.splits)
  moreover have "fst ?rep = [] \<longleftrightarrow>
      \<not> cycle_from (cfg_deps config) (hm_keys (cfg_services config)) \<and>
      (\<forall>p>0. count_list (host_ports (cfg_services config)) p \<le> 1) \<and>
      (\<forall>(n, service)\<in>set (cfg_services config). \<forall>hc. svc_health_check service = Some hc \<longrightarrow> check_ok hc) \<and>
      (strict \<longrightarrow> (\<forall>n\<in>mentioned_vars N config. env n \<noteq> None))"
    unfolding errors append_is_Nil_conv port_errors_none health_reports_errors
    using cycle missing by (auto split: sum.splits)
  ultimately show ?thesis using run by auto
qed

theorem validation_reports_witness:
  "\<exists>report. validate_run nom_reference (\<lambda>_. None) rev (Some (Inr (plain_config [(''a'', [''b'']), (''b'', [''a''])]))) True =
     Some (Inl (CliFailed 1), report)"
proof -
  let ?c = "plain_config [(''a'', [''b'']), (''b'', [''a''])]"
  have "validate_config nom_reference ?c = Some (Inr ())"
    by (simp add: validate_config_def plain_config_def validate_references_def find_all_references_def
        env_values_def plain_service_def hm_has_def hm_values_def)
  then have parsed: "parse_str nom_reference (\<lambda>_. Inr ?c) [] = Some (Inr ?c)" by (simp add: parse_str_def)
  have wf: "hm_wf (cfg_services ?c)" by (simp add: hm_wf_def)
  have s: "topological_sort rev ?c [] = Some (Inl (CircularDependency ''a''))" by code_simp
  have run: "validate_run nom_reference (\<lambda>_. None) rev (Some (Inr ?c)) True = Some (r, report) \<longleftrightarrow>
      r = Inl (CliFailed 1) \<and> report = validate_report (\<lambda>_. None) (Inl (CircularDependency ''a'')) ?c True [] []" for r report
    by (simp add: validate_run_def s find_all_references_def env_values_def plain_service_def hm_values_def
        validate_report_def port_errors_def missing_vars_def Let_def) blast
  from validation_reports [OF nom_ref.nom_library_axioms parsed wf iteration_order_rev, of "\<lambda>_. None" True] run
  show ?thesis by metis
qed

end
