(* ===== verification/Cli_Report.thy ===== *)
theory Cli_Report
  imports Cli_Status Cli_Validate "HOL-Library.Multiset"
begin

text \<open>
  What the commands say at the end, \<^verbatim>\<open>crates/harness/src/commands/start.rs\<close>, \<^verbatim>\<open>stop.rs\<close>, the rounds of the
  watch mode of \<^verbatim>\<open>status.rs\<close>, and the exit code of the program, \<^verbatim>\<open>main.rs\<close>. Lines are without their symbols and
  colours; which stream they go to is not kept.
\<close>

section \<open>The summary of a start\<close>

definition not_started :: "string list \<Rightarrow> start_state \<Rightarrow> string list" where
  "not_started ordered_services st =
     filter (\<lambda>s. s \<notin> set (sst_started st) \<and> \<not> list_ex (\<lambda>(name, _). name = s) (sst_failures st)) ordered_services"

fun port_line :: "string \<Rightarrow> PortMapping \<Rightarrow> string list" where
  "port_line name (SimplePort p) = [''  '' @ name @ '': http://localhost:'' @ show_nat (unat p)]"
| "port_line name (FullPort mapping) = (case str_split_once (CHR '':'') mapping of
     Some (host, _) \<Rightarrow> [''  '' @ name @ '': http://localhost:'' @ host]
   | None \<Rightarrow> [])"

definition endpoint_lines :: "Config \<Rightarrow> string \<Rightarrow> string list" where
  "endpoint_lines config name = (case hm_get (cfg_services config) name of
     None \<Rightarrow> []
   | Some service_def \<Rightarrow> (case svc_type service_def of
       TyDocker _ ports _ _ _ \<Rightarrow> concat (map (port_line name) ports)
     | TyProcess _ _ _ _ \<Rightarrow> (case svc_health_check service_def of
         None \<Rightarrow> []
       | Some health_check \<Rightarrow> (case chc_check_type health_check of
           CheckHttp http \<Rightarrow> [''  '' @ name @ '': '' @ http]
         | CheckTcp tcp \<Rightarrow> [''  '' @ name @ '': tcp://localhost:'' @ show_nat (unat (tcp_port tcp))]
         | _ \<Rightarrow> []))
     | _ \<Rightarrow> []))"

definition start_report :: "Config \<Rightarrow> string list \<Rightarrow> start_state \<Rightarrow> string list" where
  "start_report config ordered_services st =
     [[], show_nat (length (sst_started st)) @ '' services started successfully''] @
     (if sst_failures st \<noteq> [] then
        [[], show_nat (length (sst_failures st)) @ '' services failed to start:''] @
        map (\<lambda>(service, error). ''  - '' @ service @ '': '' @ error) (sst_failures st) @
        (let left = not_started ordered_services st in
         if left \<noteq> [] then
           [[], show_nat (length left) @ '' services were not started due to dependency failures:''] @
           map (\<lambda>service. ''  - '' @ service) left
         else [])
      else []) @
     (if sst_failures st = [] \<and> sst_started st \<noteq> [] then
        [[], ''Service endpoints:''] @ concat (map (endpoint_lines config) (sst_started st))
      else [])"

section \<open>The summaries of the others\<close>

fun stop_lines :: "stop_outcome \<Rightarrow> string list" where
  "stop_lines StopNothing = []"
| "stop_lines StopAborted = []"
| "stop_lines (StopReport stopped_count failures) =
     [[], show_nat stopped_count @ '' services stopped successfully''] @
     (if failures \<noteq> [] then
        [[], show_nat (length failures) @ '' services failed to stop:''] @
        map (\<lambda>(service, error). ''  - '' @ service @ '': '' @ error) failures
      else [])"

text \<open>The lines for errors and warnings are printed from their messages, given by the first two arguments.\<close>

definition validation_summary :: "(validation_error \<Rightarrow> string) \<Rightarrow> (validation_warning \<Rightarrow> string) \<Rightarrow> report \<Rightarrow> string list" where
  "validation_summary show_error show_warning report =
     (let (validation_errors, warnings) = report in
      [[], ''Validation Summary:''] @
      (if validation_errors = [] \<and> warnings = [] then [''  All validation checks passed!'']
       else
         (if validation_errors \<noteq> [] then
            [[], ''Errors ('' @ show_nat (length validation_errors) @ ''):''] @
            map (\<lambda>error. ''  - '' @ show_error error) validation_errors
          else []) @
         (if warnings \<noteq> [] then
            [[], ''Warnings ('' @ show_nat (length warnings) @ ''):''] @
            map (\<lambda>warning. ''  - '' @ show_warning warning) warnings
          else [])))"

section \<open>Watching\<close>

text \<open>
  The rounds of the watch mode, each with what reading the file gives then: the command runs, an error is
  printed and does not end the loop, and a pause of two seconds follows.
\<close>

fun watch_rounds ::
    "'d cli_env \<Rightarrow> string \<Rightarrow> bool \<Rightarrow> (ConfigError + Config) option list \<Rightarrow> 'd \<Rightarrow> ((StatusError + shown) list \<times> 'd) option" where
  "watch_rounds E format detailed [] d = Some ([], d)"
| "watch_rounds E format detailed (parsed # later) d =
     (case run_once E parsed format detailed d of
        None \<Rightarrow> None
      | Some (r, d) \<Rightarrow> map_option (map_prod (Cons r) id) (watch_rounds E format detailed later (ce_sleep E 2000 d)))"

section \<open>The program\<close>

datatype Commands =
    Validate (cm_strict: bool)
  | Start (cm_services: "string list")
  | Stop (cm_stop_services: "string list") (cm_force: bool) (cm_timeout: "u64 option")
  | Status (cm_format: string) (cm_watch: bool) (cm_detailed: bool)
  | DaemonStatus
  | EnvGet (cm_names: "string list")

definition exit_code :: "'e + 'a \<Rightarrow> nat" where
  "exit_code r = (if is_ok r then 0 else 1)"

text \<open>
  The exit code of a command line that was understood. \<open>line\<close> is what the user types when asked,
  \<open>closed\<close> the result of closing a connection; the watch mode of a valid format does not return.
\<close>

definition main_run ::
    "nom \<Rightarrow> 'd cli_env \<Rightarrow> (string list \<Rightarrow> string list) \<Rightarrow> (ConfigError + Config) option \<Rightarrow> string + string \<Rightarrow> string + unit \<Rightarrow>
     Commands \<Rightarrow> 'd \<Rightarrow> (nat \<times> 'd) option" where
  "main_run N E ord parsed line closed command d = (case command of
     Validate strict \<Rightarrow> map_option (\<lambda>(r, _). (exit_code r, d)) (validate_run N (ce_env E) ord parsed strict)
   | Start services \<Rightarrow> map_option (map_prod exit_code id) (start_run N E ord parsed services d)
   | Stop services force timeout \<Rightarrow>
       map_option (map_prod (exit_code \<circ> stop_exit) id) (stop_run E ord parsed services force timeout line d)
   | Status format watch detailed \<Rightarrow>
       if watch \<and> (format = ''table'' \<or> format = ''json'') then None
       else map_option (map_prod exit_code id) (status_command E parsed format detailed d)
   | DaemonStatus \<Rightarrow>
       (case ce_connect E d of (r, d) \<Rightarrow> Some (exit_code (res_bind r (\<lambda>_. closed)), d))
   | EnvGet names \<Rightarrow> (case env_get E names d of (r, d) \<Rightarrow> Some (exit_code r, d)))"

section \<open>Every service is accounted for\<close>

definition accounts_for :: "string list \<Rightarrow> start_state \<Rightarrow> start_state \<Rightarrow> bool" where
  "accounts_for names st st' \<longleftrightarrow> (\<exists>k a f. sst_started st' = sst_started st @ a \<and>
     map fst (sst_failures st') = map fst (sst_failures st) @ f \<and>
     mset a + mset f = mset (take k names) \<and> (f = [] \<longrightarrow> a = names))"

lemma accounts_failed: "accounts_for names (note_failure name e st) st' \<Longrightarrow> accounts_for (name # names) st st'"
proof -
  assume "accounts_for names (note_failure name e st) st'"
  then obtain k a f where "sst_started st' = sst_started st @ a"
    "map fst (sst_failures st') = map fst (sst_failures st) @ name # f" "mset a + mset f = mset (take k names)"
    by (auto simp: accounts_for_def note_failure_def)
  then show ?thesis unfolding accounts_for_def
    by - (rule exI [of _ "Suc k"], rule exI [of _ a], rule exI [of _ "name # f"], simp)
qed

lemma accounts_started: "accounts_for names (note_started name ip port host st) st' \<Longrightarrow> accounts_for (name # names) st st'"
proof -
  assume "accounts_for names (note_started name ip port host st) st'"
  then obtain k a f where "sst_started st' = sst_started st @ name # a"
    "map fst (sst_failures st') = map fst (sst_failures st) @ f" "mset a + mset f = mset (take k names)" "f = [] \<longrightarrow> a = names"
    by (auto simp: accounts_for_def note_started_def)
  then show ?thesis unfolding accounts_for_def
    by - (rule exI [of _ "Suc k"], rule exI [of _ "name # a"], rule exI [of _ f], simp)
qed

lemma accounts_ended: "accounts_for (name # names) st (note_failure name e st)"
  unfolding accounts_for_def
  by (rule exI [of _ 1], rule exI [of _ "[]"], rule exI [of _ "[name]"]) (simp add: note_failure_def)

lemma start_loop_accounts:
  "start_loop N E config names st d = Some (Inr st', d') \<Longrightarrow> accounts_for names st st'"
proof (induction names arbitrary: st d)
  case Nil
  then show ?case by (auto simp: accounts_for_def)
next
  case (Cons name names)
  note failing = accounts_failed [OF Cons.IH] and starting = accounts_started [OF Cons.IH]
  from Cons.prems show ?case
    by (auto split: option.splits sum.splits prod.splits Response.splits intro: failing starting accounts_ended)
qed

text \<open>
  C8. The report of \<open>start\<close> accounts for every service once: those that started, those that failed and those
  it names as not started are together the services in the order it went through, and no failure means
  that all of them started, in that order.
\<close>

theorem start_report_accounts:
  assumes run: "start_loop N E config ordered_services
      \<lparr>sst_failures = [], sst_started = [], sst_context = ctx\<rparr> d = Some (Inr st, d')"
    and once: "distinct ordered_services"
  shows "mset (sst_started st @ map fst (sst_failures st) @ not_started ordered_services st) = mset ordered_services \<and>
    (sst_failures st = [] \<longrightarrow> sst_started st = ordered_services) \<and>
    (start_summary st = Inr () \<longleftrightarrow> sst_started st = ordered_services)"
proof -
  from start_loop_accounts [OF run] obtain k where
    parts: "mset (sst_started st @ map fst (sst_failures st)) = mset (take k ordered_services)"
      "map fst (sst_failures st) = [] \<longrightarrow> sst_started st = ordered_services" by (auto simp: accounts_for_def)
  have "set (sst_started st) \<union> set (map fst (sst_failures st)) = set (take k ordered_services)"
    using parts(1) by (metis set_append mset_eq_setD)
  moreover have "list_ex (\<lambda>(name, _). name = s) (sst_failures st) \<longleftrightarrow> s \<in> set (map fst (sst_failures st))" for s
    by (force simp: list_ex_iff)
  ultimately have left: "not_started ordered_services st = filter (\<lambda>s. s \<notin> set (take k ordered_services)) ordered_services"
    unfolding not_started_def by (intro filter_cong) auto
  have "distinct (take k ordered_services @ drop k ordered_services)" using once by simp
  then have apart: "set (take k ordered_services) \<inter> set (drop k ordered_services) = {}" by (simp only: distinct_append)
  have "filter (\<lambda>s. s \<notin> set (take k ordered_services)) (take k ordered_services @ drop k ordered_services) = drop k ordered_services"
    unfolding filter_append using apart by (auto simp: filter_empty_conv filter_id_conv)
  with left have "not_started ordered_services st = drop k ordered_services" by simp
  with parts(1) have all: "mset (sst_started st @ map fst (sst_failures st) @ not_started ordered_services st) = mset ordered_services"
    by (metis append.assoc append_take_drop_id mset_append)
  have none: "sst_failures st = []" if "sst_started st = ordered_services"
    using all unfolding that by simp
  have "start_summary st = Inr () \<longleftrightarrow> sst_failures st = []" by (simp add: start_summary_def)
  with all parts(2) none show ?thesis by blast
qed

theorem start_report_accounts_witness:
  "\<exists>st. start_loop nom_reference (demo_cli (\<lambda>_. RespError ''no'')) (plain_config [(''api'', [''db'']), (''db'', [])]) [''db'', ''api'']
      \<lparr>sst_failures = [], sst_started = [], sst_context = resolution_context_new []\<rparr> 0 = Some (Inr st, 0) \<and>
    mset (map fst (sst_failures st) @ not_started [''db'', ''api''] st) = mset [''db'', ''api''] \<and> sst_started st = []"
proof -
  let ?c = "plain_config [(''api'', [''db'']), (''db'', [])]"
  have svc: "hm_get (cfg_services ?c) ''db'' = Some (plain_service [])" by (simp add: hm_get_def)
  obtain sc where sc: "convert_to_orchestrator_with_context nom_reference (\<lambda>_. None) [] ?c ''db''
      (Some (resolution_context_new [])) = Some (Inr sc)"
    using convert_without_env [OF svc] by (fastforce simp: plain_service_def)
  let ?st = "\<lparr>sst_failures = [(''db'', ''no'')], sst_started = [], sst_context = resolution_context_new []\<rparr>"
  have run: "start_loop nom_reference (demo_cli (\<lambda>_. RespError ''no'')) ?c [''db'', ''api'']
      \<lparr>sst_failures = [], sst_started = [], sst_context = resolution_context_new []\<rparr> 0 = Some (Inr ?st, 0)"
    using svc sc by (simp add: demo_cli_def note_failure_def)
  have "mset (map fst (sst_failures ?st) @ not_started [''db'', ''api''] ?st) = mset [''db'', ''api''] \<and> sst_started ?st = []"
    using start_report_accounts [OF run] by simp
  with run show ?thesis by blast
qed

text \<open>The program exits with zero exactly when the command it ran was a success.\<close>

lemma start_exit:
  "main_run N E ord parsed line closed (Start services) d = Some (c, d') \<Longrightarrow>
     \<exists>r. start_run N E ord parsed services d = Some (r, d') \<and> (c = 0 \<longleftrightarrow> is_ok r)"
  by (auto simp: main_run_def exit_code_def split: if_splits)

text \<open>An error ends no watch: there is one result for each round.\<close>

lemma watch_goes_on:
  "watch_rounds E format detailed files d = Some (shown, d') \<Longrightarrow> length shown = length files"
  by (induction files arbitrary: d shown) (auto split: option.splits)

end
