(* ===== verification/Cli_Daemon_Stop.thy ===== *)
theory Cli_Daemon_Stop
  imports Cli_Status
begin

text \<open>
  The command that stops services against the daemon itself, as in \<open>Cli_Daemon\<close>: what is active after it.
\<close>

section \<open>Stopping a service\<close>

text \<open>Whatever the outcome, the service is no longer among the active ones, and the others are as they were.\<close>

lemma stop_request_run:
  assumes inv: "plain_services (dm_host D) mg"
    and run: "daemon_request D created now (ReqStop name) mg = (resp, mg')"
  shows "plain_services (dm_host D) mg' \<and> mg_active_services mg' = hm_remove name (mg_active_services mg) \<and>
    (resp = RespSuccess \<or> (\<exists>m. resp = RespError m))"
proof -
  obtain r where stop: "stop_service (dm_backend D) now name mg = (r, mg')"
    using run by (cases "stop_service (dm_backend D) now name mg")
      (auto simp: daemon_request_def or_error_def split: sum.splits)
  with run have "resp = RespSuccess \<or> (\<exists>m. resp = RespError m)"
    by (cases r) (auto simp: daemon_request_def or_error_def)
  moreover have "plain_services (dm_host D) mg'"
    using plain_services_request [OF inv, of created now "ReqStop name"] run by simp
  moreover have "mg_active_services mg' = hm_remove name (mg_active_services mg)"
    using stop by (cases rule: stop_service_cases) simp_all
  ultimately show ?thesis by blast
qed

lemma polled_await_stop:
  assumes json: "\<And>j. jt_parse J (jt_print J j) = Inr j"
    and run: "await_stop (daemon_cli D J stamp) name timeout ((mg, []), t) = Some c'" and inv: "plain_services (dm_host D) mg"
  shows "\<exists>g t'. c' = ((mg\<lparr>mg_registry := g\<rparr>, []), t') \<and> plain_services (dm_host D) (mg\<lparr>mg_registry := g\<rparr>)"
proof -
  have "polled (dm_host D) ((mg, []), t) c'"
    using run by (auto simp: await_stop_def wait_stopped_def intro: polled_poll [OF json] reflpD [OF polled_refl] split: option.splits)
  with inv show ?thesis by (simp add: polled_def)
qed

section \<open>The loop\<close>

text \<open>The services that were asked to stop are gone, and a loop without failures, or forced, has asked all.\<close>

definition without :: "string set \<Rightarrow> ('b, 'w) manager \<Rightarrow> ('b, 'w) manager \<Rightarrow> bool" where
  "without gone mg mg' \<longleftrightarrow>
     (\<forall>n. hm_get (mg_active_services mg') n = (if n \<in> gone then None else hm_get (mg_active_services mg) n))"

definition stop_loop_outcome ::
    "'w host \<Rightarrow> string set \<Rightarrow> bool \<Rightarrow> failures \<Rightarrow> ('b, 'w) manager \<Rightarrow> failures \<Rightarrow> ('b, 'w, 'x) cli_world \<Rightarrow> bool" where
  "stop_loop_outcome H todo force failures mg failures' c \<longleftrightarrow>
     (\<exists>mg' t' gone fs. c = ((mg', []), t') \<and> plain_services H mg' \<and> without gone mg mg' \<and> gone \<subseteq> todo \<and>
        failures' = failures @ fs \<and> (force \<or> fs = [] \<longrightarrow> gone = todo))"

lemma stop_loop_outcome_on:
  assumes "stop_loop_outcome H todo force (failures @ fs) mg1 failures' c" and "without {name} mg mg1"
  shows "stop_loop_outcome H (insert name todo) force failures mg failures' c"
proof -
  from assms(1) obtain mg' t' gone fs' where run: "c = ((mg', []), t')" "plain_services H mg'" "without gone mg1 mg'"
    "gone \<subseteq> todo" "failures' = failures @ fs @ fs'" "force \<or> fs' = [] \<longrightarrow> gone = todo"
    by (auto simp: stop_loop_outcome_def)
  have "without (insert name gone) mg mg'" using run(3) assms(2) by (simp add: without_def)
  with run show ?thesis unfolding stop_loop_outcome_def
    by - (rule exI [of _ mg'], rule exI [of _ t'], rule exI [of _ "insert name gone"], rule exI [of _ "fs @ fs'"], auto)
qed

lemma stop_loop_run:
  assumes json: "\<And>j. jt_parse J (jt_print J j) = Inr j"
  shows "plain_services (dm_host D) mg \<Longrightarrow>
    stop_loop (daemon_cli D J stamp) config force timeout names failures ((mg, []), t) = Some (failures', c) \<Longrightarrow>
    stop_loop_outcome (dm_host D) (set (filter (hm_has (cfg_services config)) names)) force failures mg failures' c"
proof (induction names arbitrary: failures mg t)
  case Nil
  then show ?case by (auto simp: stop_loop_outcome_def without_def)
next
  case (Cons name names)
  let ?E = "daemon_cli D J stamp" and ?todo = "set (filter (hm_has (cfg_services config)) names)"
  show ?case
  proof (cases "hm_has (cfg_services config) name")
    case False
    with Cons.prems Cons.IH [OF Cons.prems(1)] show ?thesis by simp
  next
    case True
    obtain resp mg1 where d: "daemon_request D (stamp t) (stamp t) (ReqStop name) mg = (resp, mg1)" by fastforce
    have req: "ce_request ?E (ReqStop name) ((mg, []), t) = (Inr resp, ((mg1, []), t))"
      using daemon_cli_request [OF json Cons.prems(1), of "ReqStop name"] d by (simp add: request_encodable_def)
    from stop_request_run [OF Cons.prems(1) d] have inv1: "plain_services (dm_host D) mg1"
      and gone: "without {name} mg mg1" and resp: "resp = RespSuccess \<or> (\<exists>m. resp = RespError m)"
      by (auto simp: without_def)
    note run = Cons.prems(2) True req
    have goal: "set (filter (hm_has (cfg_services config)) (name # names)) = insert name ?todo" using True by simp
    show ?thesis unfolding goal using resp
    proof (elim disjE exE)
      assume "resp = RespSuccess"
      with run obtain c1 where aw: "await_stop ?E name timeout ((mg1, []), t) = Some c1"
        and rest: "stop_loop ?E config force timeout names failures c1 = Some (failures', c)"
        by (auto split: option.splits)
      from polled_await_stop [OF json aw inv1] obtain g1 t1 where c1: "c1 = ((mg1\<lparr>mg_registry := g1\<rparr>, []), t1)"
        and inv2: "plain_services (dm_host D) (mg1\<lparr>mg_registry := g1\<rparr>)" by blast
      have "without {name} mg (mg1\<lparr>mg_registry := g1\<rparr>)" using gone by (simp add: without_def)
      from stop_loop_outcome_on [OF _ this, of _ _ _ failures "[]"] Cons.IH [OF inv2 rest [unfolded c1]]
      show "stop_loop_outcome (dm_host D) (insert name ?todo) force failures mg failures' c" by simp
    next
      fix m assume m: "resp = RespError m"
      show "stop_loop_outcome (dm_host D) (insert name ?todo) force failures mg failures' c"
      proof (cases force)
        case True
        with run m have "stop_loop ?E config force timeout names (failures @ [(name, m)]) ((mg1, []), t) = Some (failures', c)"
          by simp
        from stop_loop_outcome_on [OF Cons.IH [OF inv1 this] gone] show ?thesis .
      next
        case False
        with run m have "failures' = failures @ [(name, m)]" "c = ((mg1, []), t)" by simp_all
        with inv1 gone False show ?thesis unfolding stop_loop_outcome_def by blast
      qed
    qed
  qed
qed

lemma stop_loop_returns:
  assumes clock: "steady_clock E"
  shows "stop_loop E config force timeout names failures d \<noteq> None"
proof (induction names arbitrary: failures d)
  case (Cons name names)
  have wait: "await_stop E name timeout x \<noteq> None" for x
  proof (cases timeout)
    case (Some s)
    have late: "elapsed div 1000 > unat s" if "elapsed > 1000 * Suc (unat s)" for elapsed
      using that less_eq_div_iff_mult_less_eq [of 1000 "Suc (unat s)" elapsed] by simp
    have "\<exists>d'. poll_status E (\<lambda>elapsed. elapsed div 1000 > unat s) (\<lambda>status. status = OsStopped) name (ce_now E x) x = Some d'"
      by (rule poll_status_returns [OF clock late])
    with Some show ?thesis by (auto simp: await_stop_def wait_stopped_def)
  qed (simp add: await_stop_def)
  show ?case
    by (cases force)
      (use Cons.IH in \<open>auto simp: wait simp del: not_None_eq split: option.split sum.split prod.split Response.split\<close>)
qed simp

section \<open>Properties\<close>

lemma active_counts_as_running: "hm_has (mg_active_services mg) n \<Longrightarrow> counts_as_running (active_status n mg)"
  by (auto simp: counts_as_running_def active_status_def split: option.split HHealth.split)

lemma listed_are_active:
  assumes json: "\<And>j. jt_parse J (jt_print J j) = Inr j" and inv: "plain_services (dm_host D) mg"
  shows "\<exists>l g. ce_request (daemon_cli D J stamp) ReqList ((mg, []), t) = (Inr (RespList l), ((mg\<lparr>mg_registry := g\<rparr>, []), t)) \<and>
    set (running_names l) = {n. hm_has (mg_active_services mg) n} \<and> plain_services (dm_host D) (mg\<lparr>mg_registry := g\<rparr>)"
proof -
  from list_statuses_reply [of D "stamp t" "stamp t" mg] obtain l g where
    l: "daemon_request D (stamp t) (stamp t) ReqList mg = (RespList l, mg\<lparr>mg_registry := g\<rparr>)"
      "\<forall>n. hm_get l n = (if hm_has (mg_active_services mg) n then Some (active_status n mg) else None)" by blast
  obtain out mg' where "list_statuses (dm_backend D) (list_services mg) [] mg = (out, mg')" by fastforce
  with l(1) have "list_statuses (dm_backend D) (list_services mg) [] mg = (Inr l, mg')"
    by (cases out) (auto simp: daemon_request_def or_error_def)
  from list_statuses_wf [OF this] have "hm_wf l" by simp
  from running_names_iff [OF this] have "set (running_names l) = {n. hm_has (mg_active_services mg) n}"
    using l(2) active_counts_as_running by (auto split: if_splits)
  moreover have "plain_services (dm_host D) (mg\<lparr>mg_registry := g\<rparr>)" using inv by (simp add: plain_services_def)
  ultimately show ?thesis
    using daemon_cli_request [OF json inv, of ReqList] l(1) by (auto simp: request_encodable_def)
qed

text \<open>
  C5. What \<open>stop\<close> leaves behind. Run against the daemon over a JSON library that parses what it prints, the
  command returns; the services that are active afterwards are those that were, as they were, less some of
  the configured ones that were asked for or that depend, over any number of steps, on one that was. When it
  ends with a report that has no failure, or was forced, all of these are gone, also those whose stop failed.
\<close>

theorem stop_clears_services:
  assumes json: "\<And>j. jt_parse J (jt_print J j) = Inr j" and inv: "plain_services (dm_host D) mg"
    and wf: "hm_wf (cfg_services config)" and known: "deps_known config" and ord: "iteration_order ord"
    and asked: "asked = {n. hm_has (mg_active_services mg) n \<and> (services = [] \<or> n \<in> set services)}"
    and todo: "todo = {n. hm_has (mg_active_services mg) n \<and> hm_has (cfg_services config) n \<and>
      (\<exists>a\<in>asked. (n, a) \<in> (edges_of (cfg_deps config))\<^sup>*)}"
  shows "\<exists>r mg' t' gone.
    stop_run (daemon_cli D J stamp) ord (Some (Inr config)) services force timeout line ((mg, []), t) = Some (r, ((mg', []), t')) \<and>
    gone \<subseteq> todo \<and>
    (\<forall>n. hm_get (mg_active_services mg') n = (if n \<in> gone then None else hm_get (mg_active_services mg) n)) \<and>
    (\<forall>k fs. r = Inr (StopReport k fs) \<and> (force \<or> fs = []) \<longrightarrow> gone = todo)"
proof -
  let ?E = "daemon_cli D J stamp"
  obtain l g where list: "ce_request ?E ReqList ((mg, []), t) = (Inr (RespList l), ((mg\<lparr>mg_registry := g\<rparr>, []), t))"
    and up: "set (running_names l) = {n. hm_has (mg_active_services mg) n}"
    and inv1: "plain_services (dm_host D) (mg\<lparr>mg_registry := g\<rparr>)" using listed_are_active [OF json inv] by blast
  define names where "names = names_to_stop (running_names l) services"
  define mg1 where "mg1 = mg\<lparr>mg_registry := g\<rparr>"
  have names: "set names = asked" using up by (auto simp: names_def names_to_stop_def asked)
  have kept: "?thesis" if "stop_run ?E ord (Some (Inr config)) services force timeout line ((mg, []), t) = Some (r, ((mg1, []), t))"
    and "\<And>k fs. r \<noteq> Inr (StopReport k fs)" for r
    using that by (intro exI [of _ r] exI [of _ mg1] exI [of _ t] exI [of _ "{}"]) (simp add: mg1_def)
  obtain affected where affected: "get_affected_services config names = Some affected"
    using affected_exact [OF wf known, of names] by blast
  have run: "stop_run ?E ord (Some (Inr config)) services force timeout line ((mg, []), t) =
      stop_running ?E ord config (running_names l) names force timeout line ((mg1, []), t)"
    using list by (simp add: stop_run_def names_def mg1_def Let_def)
  obtain s where s: "reverse_topological_sort ord config names = Some s" using stop_sort_returns [OF wf ord] by blast
  have ordered: ?thesis
    if ran: "stop_run ?E ord (Some (Inr config)) services force timeout line ((mg, []), t) =
        stop_ordered ?E ord config (running_names l) names force timeout ((mg1, []), t)" and some: "names \<noteq> []"
  proof (cases s)
    case (Inl e)
    with ran s show ?thesis by (intro kept [of "Inl (CliDeps e)"]) (simp_all add: stop_ordered_def)
  next
    case (Inr sorted_names)
    let ?names = "filter (\<lambda>s. s \<in> set (running_names l)) sorted_names"
    obtain failures c where loop: "stop_loop ?E config force timeout ?names [] ((mg1, []), t) = Some (failures, c)"
      using stop_loop_returns [OF daemon_cli_steady, of D J stamp config force timeout ?names "[]" "((mg1, []), t)"] by auto
    have "set sorted_names = {s. \<exists>a\<in>asked. (s, a) \<in> (edges_of (cfg_deps config))\<^sup>*}"
      using stop_order [OF wf ord s [unfolded Inr]] some names graph_edges_converse [OF wf known]
      by (auto simp: requested_def rtrancl_converse)
    then have "set (filter (hm_has (cfg_services config)) ?names) = todo" using up by (auto simp: todo)
    with stop_loop_run [OF json inv1 [folded mg1_def] loop] obtain mg' t' gone where
      "c = ((mg', []), t')" "without gone mg1 mg'" "gone \<subseteq> todo" "force \<or> failures = [] \<longrightarrow> gone = todo"
      by (auto simp: stop_loop_outcome_def)
    with ran loop s Inr show ?thesis
      by (intro exI [of _ "Inr (stop_report ?names failures)"] exI [of _ mg'] exI [of _ t'] exI [of _ gone])
        (simp add: stop_ordered_def stop_report_def without_def mg1_def)
  qed
  show ?thesis
  proof (cases "names = []")
    case True
    with run show ?thesis by (intro kept [of "Inr StopNothing"]) (simp_all add: stop_running_def)
  next
    case False
    show ?thesis
    proof (cases "affected \<noteq> [] \<and> \<not> force")
      case asks: True
      show ?thesis
      proof (cases line)
        case (Inl e)
        with run False asks affected show ?thesis by (intro kept [of "Inl (CliIo e)"]) (simp_all add: stop_running_def)
      next
        case (Inr input)
        show ?thesis
        proof (cases "said_yes input")
          case True
          with run False asks affected Inr show ?thesis by (intro ordered) (simp_all add: stop_running_def)
        next
          case False
          with run \<open>names \<noteq> []\<close> asks affected Inr show ?thesis
            by (intro kept [of "Inr StopAborted"]) (simp_all add: stop_running_def)
        qed
      qed
    next
      case False
      with run \<open>names \<noteq> []\<close> affected show ?thesis by (intro ordered) (auto simp: stop_running_def)
    qed
  qed
qed

text \<open>Of a configured and an unknown service that run, a forced stop leaves the unknown one.\<close>

definition plain_running :: RunningService where
  "plain_running = running_new [] ''db'' \<lparr>sc_name = ''db'', sc_target = TProcess ''db'' [] [] None,
     sc_dependencies = [], sc_health_check = None\<rparr>"

definition two_active :: "RunningService \<Rightarrow> ((string, json) hmap sled_store, string list) manager" where
  "two_active sv = demo_manager\<lparr>mg_active_services := [(''db'', sv), (''web'', sv)]\<rparr>"

theorem stop_clears_services_witness:
  "\<exists>r mg' t'. stop_run (daemon_cli demo_daemon mem_json (\<lambda>_. ''t'')) rev (Some (Inr demo_stop_config)) [''db''] True None (Inr [])
       ((two_active plain_running, []), 0) = Some (r, ((mg', []), t')) \<and>
     hm_get (mg_active_services mg') ''web'' = Some plain_running \<and>
     (\<forall>k fs. r = Inr (StopReport k fs) \<longrightarrow> \<not> hm_has (mg_active_services mg') ''db'')"
proof -
  let ?mg = "two_active plain_running"
  have json: "jt_parse mem_json (jt_print mem_json j) = Inr j" for j by (simp add: mem_json_def)
  have inv: "plain_services (dm_host demo_daemon) ?mg"
    using demo_manager_inv
    by (auto simp: plain_services_def mg_inv_def demo_daemon_def demo_manager_def two_active_def hm_wf_def hm_get_def
        plain_service_info_def plain_running_def running_new_def)
  have active: "hm_get (mg_active_services ?mg) n = (if n \<in> {''db'', ''web''} then Some plain_running else None)" for n
    by (simp add: two_active_def hm_get_def)
  have config: "hm_has (cfg_services demo_stop_config) ''db''" "\<not> hm_has (cfg_services demo_stop_config) ''web''"
    by (simp_all add: hm_has_def)
  from stop_clears_services [OF json inv demo_stop_facts(1,2) iteration_order_rev refl refl,
        where services = "[''db'']" and stamp = "\<lambda>_. ''t''" and force = True and timeout = None and line = "Inr []" and t = 0]
  show ?thesis using config by (elim exE conjE) (fastforce simp: active hm_has_iff)
qed

end
