(* ===== verification/Host_Files.thy ===== *)
theory Host_Files
  imports Prelude
begin

text \<open>
  What the sources use of \<^verbatim>\<open>std::fs\<close>, \<^verbatim>\<open>std::path\<close> and the clock, as operations on a state of files, and errors
  of \<^verbatim>\<open>anyhow\<close> with their contexts. Paths are absolute or relative to a directory that exists; links are
  left out. Which calls fail is a parameter.
\<close>

section \<open>Errors\<close>

text \<open>An error of \<open>anyhow\<close> with its contexts; a panic passes every handler.\<close>

datatype AnyError = AnyMsg string | AnyContext string AnyError

datatype Failure = FailedWith AnyError | Panicked string

fun any_text :: "AnyError \<Rightarrow> string" where
  "any_text (AnyMsg m) = m"
| "any_text (AnyContext c e) = c"

definition failed :: "string \<Rightarrow> Failure + 'a" where
  "failed m = Inl (FailedWith (AnyMsg m))"

definition act_context :: "string \<Rightarrow> ('s, Failure, 'a) act \<Rightarrow> ('s, Failure, 'a) act" where
  "act_context c m s = (case m s of
     (Inl (FailedWith e), s') \<Rightarrow> (Inl (FailedWith (AnyContext c e)), s')
   | r \<Rightarrow> r)"

definition res_context :: "string \<Rightarrow> string + 'a \<Rightarrow> Failure + 'a" where
  "res_context c r = map_err (\<lambda>e. FailedWith (AnyContext c (AnyMsg e))) r"

section \<open>Files\<close>

record Disk =
  dk_files :: "(string, string) hmap"
  dk_modes :: "(string, nat) hmap"
  dk_dirs :: "string list"
  dk_ticks :: nat

text \<open>
  What the machine decides: the calls that fail, with what a failed write leaves in the file, the mode of
  a new file, and the time of the \<open>n\<close>-th reading of the clock, in nanoseconds of the epoch.
\<close>

record disk_env =
  de_create_dir :: "string \<Rightarrow> Disk \<Rightarrow> string option"
  de_open :: "string \<Rightarrow> Disk \<Rightarrow> string option"
  de_read :: "string \<Rightarrow> Disk \<Rightarrow> string option"
  de_write :: "string \<Rightarrow> string \<Rightarrow> Disk \<Rightarrow> (string \<times> string option) option"
  de_rename :: "string \<Rightarrow> string \<Rightarrow> Disk \<Rightarrow> string option"
  de_permissions :: "string \<Rightarrow> Disk \<Rightarrow> string option"
  de_new_mode :: nat
  de_clock :: "nat \<Rightarrow> int"

text \<open>\<open>PathBuf::join\<close>\<close>

definition path_push :: "string \<Rightarrow> string \<Rightarrow> string" where
  "path_push d p =
     (if str_starts_with p ''/'' then p
      else if d = [] \<or> last d = CHR ''/'' then d @ p else d @ ''/'' @ p)"

definition parent_dir :: "string \<Rightarrow> string" where
  "parent_dir p = rev (tl (dropWhile (\<lambda>c. c \<noteq> CHR ''/'') (rev p)))"

text \<open>The directories on the way to a path, and the path.\<close>

definition path_prefixes :: "string \<Rightarrow> string list" where
  "path_prefixes p = [take i p. i \<leftarrow> [1..<length p], p ! i = CHR ''/''] @ [p]"

text \<open>\<open>with_extension\<close>, for a path that ends in a file name.\<close>

definition file_stem :: "string \<Rightarrow> string" where
  "file_stem name = (case dropWhile (\<lambda>c. c \<noteq> CHR ''.'') (rev name) of
     _ # c # cs \<Rightarrow> rev (c # cs) | _ \<Rightarrow> name)"

definition with_extension :: "string \<Rightarrow> string \<Rightarrow> string" where
  "with_extension p ext =
     (let name = rev (takeWhile (\<lambda>c. c \<noteq> CHR ''/'') (rev p)) in
      if name = [] \<or> name = ''..'' then p
      else take (length p - length name) p @ file_stem name @ ''.'' @ ext)"

definition path_exists :: "string \<Rightarrow> Disk \<Rightarrow> bool" where
  "path_exists p d = (hm_has (dk_files d) p \<or> p \<in> set (dk_dirs d))"

definition put_file :: "'m disk_env_scheme \<Rightarrow> string \<Rightarrow> string \<Rightarrow> Disk \<Rightarrow> Disk" where
  "put_file E p content d = d\<lparr>dk_files := hm_insert p content (dk_files d),
     dk_modes := (if hm_has (dk_files d) p then dk_modes d else hm_insert p (de_new_mode E) (dk_modes d))\<rparr>"

definition fs_create_dir_all :: "'m disk_env_scheme \<Rightarrow> string \<Rightarrow> (Disk, Failure, unit) act" where
  "fs_create_dir_all E p d = (case de_create_dir E p d of
     Some e \<Rightarrow> (failed e, d)
   | None \<Rightarrow>
       if list_ex (hm_has (dk_files d)) (path_prefixes p) then (failed ''File exists (os error 17)'', d)
       else (Inr (), d\<lparr>dk_dirs := foldl (\<lambda>ds q. hs_insert q ds) (dk_dirs d) (path_prefixes p)\<rparr>))"

definition fs_open :: "'m disk_env_scheme \<Rightarrow> string \<Rightarrow> (Disk, Failure, unit) act" where
  "fs_open E p d = (case de_open E p d of
     Some e \<Rightarrow> (failed e, d)
   | None \<Rightarrow> if path_exists p d then (Inr (), d) else (failed ''No such file or directory (os error 2)'', d))"

definition fs_read_to_string :: "'m disk_env_scheme \<Rightarrow> string \<Rightarrow> (Disk, Failure, string) act" where
  "fs_read_to_string E p d = (case de_read E p d of
     Some e \<Rightarrow> (failed e, d)
   | None \<Rightarrow> (case hm_get (dk_files d) p of
         Some content \<Rightarrow> (Inr content, d)
       | None \<Rightarrow> (failed (if p \<in> set (dk_dirs d) then ''Is a directory (os error 21)''
                          else ''No such file or directory (os error 2)''), d)))"

definition fs_write :: "'m disk_env_scheme \<Rightarrow> string \<Rightarrow> string \<Rightarrow> (Disk, Failure, unit) act" where
  "fs_write E p content d = (case de_write E p content d of
     Some (e, None) \<Rightarrow> (failed e, d)
   | Some (e, Some torn) \<Rightarrow> (failed e, put_file E p torn d)
   | None \<Rightarrow>
       if p \<in> set (dk_dirs d) then (failed ''Is a directory (os error 21)'', d)
       else if parent_dir p \<noteq> [] \<and> parent_dir p \<notin> set (dk_dirs d) then
         (failed ''No such file or directory (os error 2)'', d)
       else (Inr (), put_file E p content d))"

text \<open>\<open>rename\<close> moves a file over another one, or a directory with what it holds.\<close>

definition moved :: "string \<Rightarrow> string \<Rightarrow> string \<Rightarrow> string" where
  "moved a b p = (if p = a then b else if str_starts_with p (a @ ''/'') then b @ drop (length a) p else p)"

definition fs_rename :: "'m disk_env_scheme \<Rightarrow> string \<Rightarrow> string \<Rightarrow> (Disk, Failure, unit) act" where
  "fs_rename E a b d = (case de_rename E a b d of
     Some e \<Rightarrow> (failed e, d)
   | None \<Rightarrow> (case hm_get (dk_files d) a of
       Some content \<Rightarrow>
         if b \<in> set (dk_dirs d) then (failed ''Is a directory (os error 21)'', d)
         else (Inr (), d\<lparr>dk_files := hm_insert b content (hm_remove a (dk_files d)),
                dk_modes := (case hm_get (dk_modes d) a of
                    Some mode \<Rightarrow> hm_insert b mode (hm_remove a (dk_modes d))
                  | None \<Rightarrow> dk_modes d)\<rparr>)
     | None \<Rightarrow>
         if a \<notin> set (dk_dirs d) then (failed ''No such file or directory (os error 2)'', d)
         else if hm_has (dk_files d) b then (failed ''Not a directory (os error 20)'', d)
         else if str_starts_with b (a @ ''/'') then (failed ''Invalid argument (os error 22)'', d)
         else if list_ex (\<lambda>p. str_starts_with p (b @ ''/'')) (hm_keys (dk_files d) @ dk_dirs d) then
           (failed ''Directory not empty (os error 39)'', d)
         else (Inr (), d\<lparr>dk_files := map (map_prod (moved a b) id) (dk_files d),
                dk_modes := map (map_prod (moved a b) id) (dk_modes d),
                dk_dirs := map (moved a b) (removeAll b (dk_dirs d))\<rparr>)))"

text \<open>\<open>metadata\<close> followed by \<open>set_permissions\<close>.\<close>

definition fs_set_mode :: "'m disk_env_scheme \<Rightarrow> string \<Rightarrow> nat \<Rightarrow> (Disk, Failure, unit) act" where
  "fs_set_mode E p mode d = (case de_permissions E p d of
     Some e \<Rightarrow> (failed e, d)
   | None \<Rightarrow>
       if path_exists p d then (Inr (), d\<lparr>dk_modes := hm_insert p mode (dk_modes d)\<rparr>)
       else (failed ''No such file or directory (os error 2)'', d))"

definition clock_now :: "'m disk_env_scheme \<Rightarrow> (Disk, Failure, int) act" where
  "clock_now E d = (Inr (de_clock E (dk_ticks d)), d\<lparr>dk_ticks := dk_ticks d + 1\<rparr>)"

section \<open>Lemmas\<close>

lemma path_push_eq_iff: "hd a \<noteq> CHR ''/'' \<Longrightarrow> hd b \<noteq> CHR ''/'' \<Longrightarrow> a \<noteq> [] \<Longrightarrow> b \<noteq> [] \<Longrightarrow>
    path_push d a = path_push d b \<longleftrightarrow> a = b"
  by (cases a; cases b) (simp_all add: path_push_def)

lemma act_context_ok [simp]: "act_context c m d = (Inr x, d') \<longleftrightarrow> m d = (Inr x, d')"
  by (auto simp: act_context_def split: prod.splits sum.splits Failure.splits)

lemma act_context_ok_state: "m d = (Inr x, d') \<Longrightarrow> act_context c m d = (Inr x, d')"
  by simp

lemma snd_act_context [simp]: "snd (act_context c m d) = snd (m d)"
  by (auto simp: act_context_def split: prod.splits sum.splits Failure.splits)

lemma res_context_ok [simp]: "res_context c r = Inr x \<longleftrightarrow> r = Inr x"
  by (cases r) (simp_all add: res_context_def)

lemma fs_write_ok:
  "fs_write E p content d = (Inr (), d') \<Longrightarrow> d' = put_file E p content d"
  by (auto simp: fs_write_def failed_def split: option.splits if_splits)

lemma fs_create_dir_ok:
  "fs_create_dir_all E p d = (Inr (), d') \<Longrightarrow> \<exists>dirs. d' = d\<lparr>dk_dirs := dirs\<rparr>"
  by (auto simp: fs_create_dir_all_def failed_def split: option.splits if_splits)

lemma fs_set_mode_ok:
  "fs_set_mode E p mode d = (Inr (), d') \<Longrightarrow> d' = d\<lparr>dk_modes := hm_insert p mode (dk_modes d)\<rparr>"
  by (auto simp: fs_set_mode_def failed_def split: option.splits if_splits)

lemma put_file_fields [simp]:
  "dk_files (put_file E p c d) = hm_insert p c (dk_files d)"
  "dk_dirs (put_file E p c d) = dk_dirs d" "dk_ticks (put_file E p c d) = dk_ticks d"
  "hm_get (dk_modes (put_file E p c d)) q =
     (if q = p \<and> \<not> hm_has (dk_files d) p then Some (de_new_mode E) else hm_get (dk_modes d) q)"
  by (simp_all add: put_file_def)

lemma read_ok_iff:
  "fs_read_to_string E p d = (Inr c, d') \<longleftrightarrow> de_read E p d = None \<and> hm_get (dk_files d) p = Some c \<and> d' = d"
  by (auto simp: fs_read_to_string_def failed_def split: option.splits)

lemma read_files [simp]: "snd (fs_read_to_string E p d) = d"
  by (auto simp: fs_read_to_string_def split: option.splits)

definition disk_works :: "'m disk_env_scheme \<Rightarrow> bool" where
  "disk_works E \<longleftrightarrow> (\<forall>p q c d. de_create_dir E p d = None \<and> de_open E p d = None \<and> de_read E p d = None \<and> de_write E p c d = None \<and>
     de_rename E p q d = None \<and> de_permissions E p d = None)"

lemma path_prefixes_length: "q \<in> set (path_prefixes p) \<Longrightarrow> length q \<le> length p"
  by (auto simp: path_prefixes_def)

lemma path_prefixes_self [simp]: "p \<in> set (path_prefixes p)"
  by (simp add: path_prefixes_def)

lemma set_foldl_hs: "set (foldl (\<lambda>ds q. hs_insert q ds) ds qs) = set ds \<union> set qs"
  by (induction qs arbitrary: ds) auto

lemma parent_dir_push:
  assumes "dir \<noteq> []" "last dir \<noteq> CHR ''/''" "CHR ''/'' \<notin> set name"
  shows "parent_dir (path_push dir name) = dir"
proof -
  have "path_push dir name = dir @ CHR ''/'' # name"
    using assms by (cases name) (auto simp: path_push_def)
  moreover have "dropWhile (\<lambda>c. c \<noteq> CHR ''/'') (rev name @ CHR ''/'' # rev dir) = CHR ''/'' # rev dir"
    using assms(3) by (subst dropWhile_append2) (auto simp: in_set_conv_nth)
  ultimately show ?thesis by (simp add: parent_dir_def)
qed

lemma with_extension_file:
  assumes "CHR ''/'' \<notin> set name" "CHR ''.'' \<notin> set name" "CHR ''/'' \<notin> set ext" "name \<noteq> []"
    "CHR ''.'' \<notin> set ext"
  shows "with_extension (path_push dir (name @ ''.'' @ ext)) new = path_push dir (name @ ''.'' @ new)"
proof -
  let ?file = "name @ ''.'' @ ext"
  have stem: "file_stem ?file = name"
  proof -
    obtain c cs where "rev name = c # cs" using \<open>name \<noteq> []\<close> by (cases "rev name") auto
    then have "name = rev (c # cs)" by (metis rev_rev_ident)
    then show ?thesis using assms by (simp add: file_stem_def dropWhile_append)
  qed
  have last: "rev (takeWhile (\<lambda>c. c \<noteq> CHR ''/'') (rev (pre @ ?file))) = ?file"
    if "pre = [] \<or> last pre = CHR ''/''" for pre
  proof -
    have "takeWhile (\<lambda>c. c \<noteq> CHR ''/'') (rev pre) = []"
      using that by (cases pre rule: rev_cases) auto
    moreover have "takeWhile (\<lambda>c. c \<noteq> CHR ''/'') (rev ?file @ rev pre) = rev ?file @ takeWhile (\<lambda>c. c \<noteq> CHR ''/'') (rev pre)"
      using assms by (intro takeWhile_append2) auto
    ultimately show ?thesis by simp
  qed
  have base: "with_extension (pre @ ?file) new = pre @ name @ ''.'' @ new" if "pre = [] \<or> last pre = CHR ''/''" for pre
  proof -
    have "hd ?file \<in> set name" using \<open>name \<noteq> []\<close> by simp
    then have "hd ?file \<noteq> CHR ''.''" using assms(2) by metis
    then have "?file \<noteq> ''..''" "?file \<noteq> []" by (metis list.sel(1), simp)
    then show ?thesis unfolding with_extension_def Let_def last [OF that] stem by simp
  qed
  have no_slash: "\<not> str_starts_with (name @ x) ''/''" for x
    using \<open>name \<noteq> []\<close> assms by (cases name) auto
  show ?thesis
    using base [of dir] base [of "dir @ ''/''"] no_slash by (auto simp: path_push_def)
qed

end
