(* ===== verification/Dmn_Certs.thy ===== *)
theory Dmn_Certs
  imports Host_Files "HOL-Library.Signed_Division"
begin

text \<open>
  The certificates of the executor daemon, \<^verbatim>\<open>crates/harness/src/daemon/certificates.rs\<close>: making them, keeping
  a backup when they are made anew, and the check of the expiry before the daemon starts. The files the
  code works on are a state with the calls of \<open>std::fs\<close> as operations on it; which calls fail, the clock
  and the libraries for X.509, base64 and key generation are parameters.
\<close>

section \<open>Making certificates\<close>

record CertParams =
  cp_not_before :: int
  cp_not_after :: int
  cp_distinguished_name :: "(string \<times> string) list"
  cp_subject_alt_names :: "string list"

text \<open>
  The libraries: \<open>rcgen\<close> makes a certificate with a key drawn at random (the first argument), \<open>base64\<close>
  decodes, \<open>x509_parser\<close> reads the end of the validity in seconds, \<open>chrono\<close> prints times.
\<close>

record 'k cert_env = disk_env +
  ks_from_params :: "nat \<Rightarrow> CertParams \<Rightarrow> string + 'k"
  ks_serialize_pem :: "'k \<Rightarrow> string + string"
  ks_private_key_pem :: "'k \<Rightarrow> string"
  ks_base64 :: "string \<Rightarrow> string + 8 word list"
  ks_not_after :: "8 word list \<Rightarrow> string + int"
  ks_timestamp_ok :: "int \<Rightarrow> bool"
  ks_format :: "int \<Rightarrow> string"

definition nanos_per_day :: int where
  "nanos_per_day = 86400000000000"

definition readme_text :: "string \<Rightarrow> string \<Rightarrow> string" where
  "readme_text generated expires = str_join [CHR 0x0A] [
     ''# Harness TLS Certificates'', [],
     ''These certificates secure communication between the harness CLI and executor daemon.'', [],
     ''## Current Certificate'',
     ''- Generated: '' @ generated,
     ''- Expires: '' @ expires,
     ''- Valid for: localhost, 127.0.0.1'', [],
     ''## Certificate Details'',
     ''- Algorithm: RSA 2048'',
     ''- Self-signed: Yes'',
     ''- Purpose: Development/Testing'', [],
     ''## To Regenerate'',
     ''Run: `harness daemon regenerate-certs`'', [],
     ''## Using Custom Certificates'',
     ''Replace server.crt and server.key with your own files.'',
     ''The daemon will use whatever valid certificates are present.'', [],
     ''## Security Note'',
     ''These are self-signed certificates suitable for local development.'',
     ''For production use, consider using certificates from a trusted CA.'', []]"

definition server_params :: "int \<Rightarrow> int \<Rightarrow> CertParams" where
  "server_params before after = \<lparr>cp_not_before = before, cp_not_after = after + 365 * nanos_per_day,
     cp_distinguished_name = [(''CommonName'', ''localhost''), (''OrganizationName'', ''Harness Executor Daemon'')],
     cp_subject_alt_names = [''localhost'', ''127.0.0.1'']\<rparr>"

definition generate_certificates :: "'k cert_env \<Rightarrow> string \<Rightarrow> (Disk, Failure, unit) act" where
  "generate_certificates E cert_dir =
     act_bind (act_context ''Failed to create certificate directory'' (fs_create_dir_all E cert_dir)) (\<lambda>_.
     act_bind (clock_now E) (\<lambda>before.
     act_bind (clock_now E) (\<lambda>after.
     act_bind (\<lambda>d. act_lift (res_context ''Failed to generate certificate''
       (ks_from_params E (dk_ticks d) (server_params before after))) d) (\<lambda>cert.
     act_bind (act_lift (res_context ''Failed to serialize certificate'' (ks_serialize_pem E cert))) (\<lambda>cert_pem.
     let key_pem = ks_private_key_pem E cert;
         cert_path = path_push cert_dir ''server.crt'';
         key_path = path_push cert_dir ''server.key'' in
     act_bind (act_context ''Failed to write certificate'' (fs_write E cert_path cert_pem)) (\<lambda>_.
     act_bind (act_context ''Failed to write private key'' (fs_write E key_path key_pem)) (\<lambda>_.
     act_bind (fs_set_mode E key_path 384) (\<lambda>_.
     act_bind (clock_now E) (\<lambda>generated.
     act_bind (clock_now E) (\<lambda>expires.
     act_context ''Failed to write README'' (fs_write E (path_push cert_dir ''README.md'')
       (readme_text (ks_format E generated) (ks_format E (expires + 365 * nanos_per_day))))))))))))))"

text \<open>\<open>rename\<close> to a backup, where there is something to keep.\<close>

definition back_up :: "'m disk_env_scheme \<Rightarrow> string \<Rightarrow> string \<Rightarrow> string \<Rightarrow> (Disk, Failure, unit) act" where
  "back_up E p ext c d =
     (if path_exists p d then act_context c (fs_rename E p (with_extension p ext)) d else (Inr (), d))"

definition regenerate_certificates :: "'k cert_env \<Rightarrow> string \<Rightarrow> (Disk, Failure, unit) act" where
  "regenerate_certificates E data_dir =
     (let cert_dir = path_push data_dir ''certs'';
          cert_path = path_push cert_dir ''server.crt'';
          key_path = path_push cert_dir ''server.key'' in
      act_bind (back_up E cert_path ''crt.backup'' ''Failed to backup certificate'') (\<lambda>_.
      act_bind (back_up E key_path ''key.backup'' ''Failed to backup key'') (\<lambda>_.
      generate_certificates E cert_dir)))"

section \<open>Checking certificates\<close>

definition begin_marker :: string where
  "begin_marker = ''-----BEGIN CERTIFICATE-----''"

definition end_marker :: string where
  "end_marker = ''-----END CERTIFICATE-----''"

definition str_find :: "string \<Rightarrow> string \<Rightarrow> nat option" where
  "str_find p s = map_option (\<lambda>(before, _). length before) (split_at_str p s)"

text \<open>
  The first certificate of the file without its marker lines. Slicing panics when the end marker lies
  more than its own length before the start.
\<close>

definition pem_content :: "string \<Rightarrow> Failure + string" where
  "pem_content cert_pem =
     (case str_find begin_marker cert_pem of
        None \<Rightarrow> failed ''No certificate found in PEM''
      | Some start \<Rightarrow>
          (case str_find end_marker cert_pem of
             None \<Rightarrow> failed ''No certificate end found in PEM''
           | Some stop \<Rightarrow>
               if stop + 25 < start then Inl (Panicked ''slice index starts after its end'')
               else Inr (concat (filter (\<lambda>line. \<not> str_starts_with line ''-----'')
                      (str_lines (take (stop + 25 - start) (drop start cert_pem)))))))"

definition certificate_end :: "'k cert_env \<Rightarrow> string \<Rightarrow> Failure + int" where
  "certificate_end E cert_pem =
     res_bind (pem_content cert_pem) (\<lambda>base64_content.
     res_bind (res_context ''Failed to decode certificate base64'' (ks_base64 E base64_content)) (\<lambda>cert_der.
     res_bind (map_err (\<lambda>e. FailedWith (AnyMsg (''Failed to parse certificate: '' @ e))) (ks_not_after E cert_der)) (\<lambda>expiry_timestamp.
     if ks_timestamp_ok E expiry_timestamp then Inr (expiry_timestamp * 1000000000)
     else failed ''Invalid expiry timestamp'')))"

definition num_days :: "int \<Rightarrow> int" where
  "num_days duration = duration sdiv nanos_per_day"

definition check_certificate_expiry :: "'k cert_env \<Rightarrow> string \<Rightarrow> (Disk, Failure, int) act" where
  "check_certificate_expiry E cert_path =
     act_bind (act_context ''Failed to read certificate'' (fs_read_to_string E cert_path)) (\<lambda>cert_pem.
     act_bind (act_lift (certificate_end E cert_pem)) (\<lambda>expiry_time.
     act_bind (clock_now E) (\<lambda>now. act_ret (num_days (expiry_time - now)))))"

definition ensure_valid_certificates :: "'k cert_env \<Rightarrow> string \<Rightarrow> bool \<Rightarrow> (Disk, Failure, unit) act" where
  "ensure_valid_certificates E data_dir interactive d =
     (let cert_dir = path_push data_dir ''certs'';
          cert_path = path_push cert_dir ''server.crt'';
          key_path = path_push cert_dir ''server.key'' in
      if \<not> path_exists cert_path d \<or> \<not> path_exists key_path d then generate_certificates E cert_dir d
      else act_bind (check_certificate_expiry E cert_path) (\<lambda>days.
        if days < 0 then act_err (FailedWith (AnyMsg
          ''Certificate expired. Run 'harness daemon regenerate-certs' to create new certificates''))
        else act_ret ()) d)"

text \<open>\<open>{:?}\<close> of a path without quotes, backslashes and control characters\<close>

definition debug_path :: "string \<Rightarrow> string" where
  "debug_path p = CHR 0x22 # p @ [CHR 0x22]"

definition get_certificate_info :: "'k cert_env \<Rightarrow> string \<Rightarrow> (Disk, Failure, string) act" where
  "get_certificate_info E data_dir d =
     (let cert_path = path_push data_dir ''certs/server.crt'' in
      if \<not> path_exists cert_path d then (Inr ''No certificate found'', d)
      else act_bind (check_certificate_expiry E cert_path) (\<lambda>days.
        act_ret (''Certificate status: '' @
          (if days < 0 then ''EXPIRED '' @ show_int (- days) @ '' days ago''
           else if days < 30 then ''Valid for '' @ show_int days @ '' more days (expires soon!)''
           else ''Valid for '' @ show_int days @ '' more days'') @
          [CHR 0x0A] @ ''Location: '' @ debug_path cert_path)) d)"

section \<open>Files are found again\<close>

abbreviation cert_file :: "string \<Rightarrow> string" where
  "cert_file data_dir \<equiv> path_push (path_push data_dir ''certs'') ''server.crt''"

abbreviation key_file :: "string \<Rightarrow> string" where
  "key_file data_dir \<equiv> path_push (path_push data_dir ''certs'') ''server.key''"

abbreviation readme_file :: "string \<Rightarrow> string" where
  "readme_file data_dir \<equiv> path_push (path_push data_dir ''certs'') ''README.md''"

text \<open>What a successful generation has done: it replaces what is there.\<close>

lemma generate_certificates_ok:
  assumes "generate_certificates E dir d = (Inr (), d')"
  obtains cert pem readme where
    "ks_from_params E (dk_ticks d + 2) (server_params (de_clock E (dk_ticks d)) (de_clock E (dk_ticks d + 1))) = Inr cert"
    "ks_serialize_pem E cert = Inr pem"
    "dk_files d' = hm_insert (path_push dir ''README.md'') readme (hm_insert (path_push dir ''server.key'')
       (ks_private_key_pem E cert) (hm_insert (path_push dir ''server.crt'') pem (dk_files d)))"
    "hm_get (dk_modes d') (path_push dir ''server.key'') = Some 384"
    "dk_ticks d' = dk_ticks d + 4"
  using assms
  by (auto simp: generate_certificates_def act_bind_Inr_iff clock_now_def Let_def path_push_eq_iff
      dest!: fs_write_ok fs_create_dir_ok fs_set_mode_ok)

section \<open>Generation succeeds\<close>

definition tools_never_fail :: "'k cert_env \<Rightarrow> bool" where
  "tools_never_fail E \<longleftrightarrow> (\<forall>seed p. is_ok (ks_from_params E seed p)) \<and> (\<forall>cert. is_ok (ks_serialize_pem E cert))"

text \<open>
  Where no call and no library fails and nothing is in the way, making certificates succeeds.
\<close>

lemma generation_succeeds:
  assumes works: "disk_works E" "tools_never_fail E" and dir: "dir \<noteq> []" "last dir \<noteq> CHR ''/''"
    and free: "\<forall>q\<in>set (path_prefixes dir). \<not> hm_has (dk_files d) q"
      "\<forall>name\<in>{''server.crt'', ''server.key'', ''README.md''}. path_push dir name \<notin> set (dk_dirs d)"
  shows "\<exists>d'. generate_certificates E dir d = (Inr (), d') \<and> dk_ticks d' = dk_ticks d + 4"
proof -
  let ?dirs = "foldl (\<lambda>ds q. hs_insert q ds) (dk_dirs d) (path_prefixes dir)"
  have names: "CHR ''/'' \<notin> set name" if "name \<in> {''server.crt'', ''server.key'', ''README.md''}" for name
    using that by auto
  have inside: "path_push dir name \<notin> set ?dirs" "parent_dir (path_push dir name) = dir"
    if "name \<in> {''server.crt'', ''server.key'', ''README.md''}" for name
  proof -
    have "length (path_push dir name) > length dir" using that by (auto simp: path_push_def)
    then have "path_push dir name \<notin> set (path_prefixes dir)" using path_prefixes_length by fastforce
    then show "path_push dir name \<notin> set ?dirs" using free(2) that unfolding set_foldl_hs by blast
    show "parent_dir (path_push dir name) = dir" by (rule parent_dir_push [OF dir names [OF that]])
  qed
  have created: "fs_create_dir_all E dir d = (Inr (), d\<lparr>dk_dirs := ?dirs\<rparr>)"
    using works(1) free(1) by (auto simp: fs_create_dir_all_def disk_works_def list_ex_iff)
  have writes: "fs_write E (path_push dir name) c d1 = (Inr (), put_file E (path_push dir name) c d1)"
    if "name \<in> {''server.crt'', ''server.key'', ''README.md''}" "dk_dirs d1 = ?dirs" for name c d1
    using works(1) inside [OF that(1)] that(2) by (simp add: fs_write_def disk_works_def set_foldl_hs)
  have mode: "fs_set_mode E p m d1 = (Inr (), d1\<lparr>dk_modes := hm_insert p m (dk_modes d1)\<rparr>)"
    if "hm_has (dk_files d1) p" for p m d1
    using works(1) that by (simp add: fs_set_mode_def disk_works_def path_exists_def)
  obtain cert where cert: "ks_from_params E (dk_ticks d + 2)
      (server_params (de_clock E (dk_ticks d)) (de_clock E (dk_ticks d + 1))) = Inr cert"
    using works(2) unfolding tools_never_fail_def is_ok_def by (metis sum.case_eq_if sum.exhaust_sel sum.collapse(2))
  obtain pem where pem: "ks_serialize_pem E cert = Inr pem"
    using works(2) unfolding tools_never_fail_def is_ok_def by (metis sum.case_eq_if sum.exhaust_sel sum.collapse(2))
  show ?thesis
    using cert pem
    by (simp add: generate_certificates_def act_bind_def act_context_def created clock_now_def Let_def
        res_context_def writes mode)
qed

section \<open>The expiry check\<close>

text \<open>Whole days are counted towards zero, so a certificate that ended less than a day ago has none left, not minus one.\<close>

lemma num_days_negative: "num_days x < 0 \<longleftrightarrow> x \<le> - nanos_per_day"
proof (cases "x \<ge> 0")
  case True
  then have "num_days x = x div nanos_per_day"
    by (simp add: num_days_def signed_divide_int_def sgn_if nanos_per_day_def)
  then show ?thesis using True by (simp add: nanos_per_day_def pos_imp_zdiv_nonneg_iff not_less)
next
  case False
  then have "num_days x = - (- x div nanos_per_day)"
    by (simp add: num_days_def signed_divide_int_def sgn_if nanos_per_day_def)
  moreover have "- x div nanos_per_day > 0 \<longleftrightarrow> - x \<ge> nanos_per_day"
    by (simp add: pos_imp_zdiv_pos_iff nanos_per_day_def)
  ultimately show ?thesis by auto
qed

lemma check_certificate_expiry_ok:
  "check_certificate_expiry E p d = (Inr days, d') \<longleftrightarrow>
     (\<exists>pem ends. de_read E p d = None \<and> hm_get (dk_files d) p = Some pem \<and> certificate_end E pem = Inr ends \<and>
        days = num_days (ends - de_clock E (dk_ticks d)) \<and> d' = d\<lparr>dk_ticks := dk_ticks d + 1\<rparr>)"
  by (auto simp: check_certificate_expiry_def act_bind_Inr_iff read_ok_iff clock_now_def)

lemma check_certificate_expiry_state:
  "snd (check_certificate_expiry E p d) \<in> {d, d\<lparr>dk_ticks := dk_ticks d + 1\<rparr>}"
proof -
  obtain r where r: "act_context ''Failed to read certificate'' (fs_read_to_string E p) d = (r, d)"
    by (metis read_files snd_act_context prod.collapse)
  show ?thesis
    by (cases r; cases "certificate_end E (projr r)")
      (simp_all add: check_certificate_expiry_def act_bind_def r clock_now_def)
qed

lemma ensure_existing:
  assumes "path_exists (cert_file data_dir) d" "path_exists (key_file data_dir) d"
  shows "ensure_valid_certificates E data_dir i d = (Inr (), d') \<longleftrightarrow>
      (\<exists>pem ends. de_read E (cert_file data_dir) d = None \<and> hm_get (dk_files d) (cert_file data_dir) = Some pem \<and>
         certificate_end E pem = Inr ends \<and> de_clock E (dk_ticks d) < ends + nanos_per_day \<and>
         d' = d\<lparr>dk_ticks := dk_ticks d + 1\<rparr>)"
    and "snd (ensure_valid_certificates E data_dir i d) \<in> {d, d\<lparr>dk_ticks := dk_ticks d + 1\<rparr>}"
proof -
  have days: "\<not> num_days (ends - t) < 0 \<longleftrightarrow> t < ends + nanos_per_day" for ends t
    unfolding num_days_negative by linarith
  let ?check = "check_certificate_expiry E (cert_file data_dir)"
  have ensure: "ensure_valid_certificates E data_dir i d =
      act_bind ?check (\<lambda>days. if days < 0 then act_err (FailedWith (AnyMsg
          ''Certificate expired. Run 'harness daemon regenerate-certs' to create new certificates''))
        else act_ret ()) d"
    using assms by (simp add: ensure_valid_certificates_def)
  show "ensure_valid_certificates E data_dir i d = (Inr (), d') \<longleftrightarrow>
      (\<exists>pem ends. de_read E (cert_file data_dir) d = None \<and> hm_get (dk_files d) (cert_file data_dir) = Some pem \<and>
         certificate_end E pem = Inr ends \<and> de_clock E (dk_ticks d) < ends + nanos_per_day \<and>
         d' = d\<lparr>dk_ticks := dk_ticks d + 1\<rparr>)"
    unfolding ensure act_bind_Inr_iff check_certificate_expiry_ok
    by (auto simp: days [symmetric] split: if_splits)
  have "snd (ensure_valid_certificates E data_dir i d) = snd (?check d)"
    unfolding ensure by (cases "?check d"; cases "fst (?check d)") (auto simp: act_bind_def)
  then show "snd (ensure_valid_certificates E data_dir i d) \<in> {d, d\<lparr>dk_ticks := dk_ticks d + 1\<rparr>}"
    using check_certificate_expiry_state by metis
qed

lemma ensure_puts_files:
  assumes "ensure_valid_certificates E data_dir i d = (Inr (), d')" and "\<not> path_exists (cert_file data_dir) d"
  shows "hm_has (dk_files d') (cert_file data_dir)" "hm_has (dk_files d') (key_file data_dir)"
  using assms by (auto simp: ensure_valid_certificates_def elim!: generate_certificates_ok)

text \<open>A certificate whose key is missing is replaced, and nothing of it is kept.\<close>

lemma lone_certificate_replaced:
  assumes "ensure_valid_certificates E data_dir i d = (Inr (), d')" and "\<not> path_exists (key_file data_dir) d"
  obtains cert pem where "ks_serialize_pem E cert = Inr pem" "hm_get (dk_files d') (cert_file data_dir) = Some pem"
    "hm_get (dk_files d') (path_push (path_push data_dir ''certs'') ''server.crt.backup'') =
       hm_get (dk_files d) (path_push (path_push data_dir ''certs'') ''server.crt.backup'')"
proof -
  have "generate_certificates E (path_push data_dir ''certs'') d = (Inr (), d')"
    using assms by (simp add: ensure_valid_certificates_def)
  then obtain cert pem readme where "ks_serialize_pem E cert = Inr pem"
    "dk_files d' = hm_insert (readme_file data_dir) readme (hm_insert (key_file data_dir)
       (ks_private_key_pem E cert) (hm_insert (cert_file data_dir) pem (dk_files d)))"
    by (rule generate_certificates_ok)
  then show thesis by (intro that [of cert pem]) (simp_all add: path_push_eq_iff)
qed

text \<open>
  C39. When the daemon's check of its certificates passes, certificate and key are there: either both were,
  the files are untouched, the certificate can be read and ended less than a day ago at the latest; or one
  was missing and both are new, made for the time from now on, the key for the owner only. No other file
  but the README changes.
\<close>

theorem certificates_ready:
  assumes "ensure_valid_certificates E data_dir interactive d = (Inr (), d')"
  shows "if path_exists (cert_file data_dir) d \<and> path_exists (key_file data_dir) d
    then d' = d\<lparr>dk_ticks := dk_ticks d + 1\<rparr> \<and>
      (\<exists>pem ends. hm_get (dk_files d) (cert_file data_dir) = Some pem \<and> certificate_end E pem = Inr ends \<and>
         de_clock E (dk_ticks d) < ends + nanos_per_day)
    else (\<exists>cert pem readme.
      ks_from_params E (dk_ticks d + 2)
        (server_params (de_clock E (dk_ticks d)) (de_clock E (dk_ticks d + 1))) = Inr cert \<and>
      ks_serialize_pem E cert = Inr pem \<and>
      dk_files d' = hm_insert (readme_file data_dir) readme (hm_insert (key_file data_dir)
        (ks_private_key_pem E cert) (hm_insert (cert_file data_dir) pem (dk_files d))) \<and>
      hm_get (dk_modes d') (key_file data_dir) = Some 384)"
proof (cases "path_exists (cert_file data_dir) d \<and> path_exists (key_file data_dir) d")
  case True
  then show ?thesis using assms ensure_existing(1) [of data_dir d E interactive d'] by auto
next
  case False
  then have made: "generate_certificates E (path_push data_dir ''certs'') d = (Inr (), d')"
    using assms by (auto simp: ensure_valid_certificates_def)
  then show ?thesis using False by (elim generate_certificates_ok) auto
qed

section \<open>Backups\<close>

lemma back_up_ok:
  assumes "back_up E p ext c d = (Inr (), d')" and "hm_get (dk_files d) p = Some content"
  shows "dk_files d' = hm_insert (with_extension p ext) content (hm_remove p (dk_files d))"
    and "dk_ticks d' = dk_ticks d"
    and "with_extension p ext \<noteq> p \<Longrightarrow> hm_get (dk_modes d) p = Some mode \<Longrightarrow> hm_get (dk_modes d') (with_extension p ext) = Some mode"
  using assms
  by (auto simp: back_up_def path_exists_def hm_has_iff fs_rename_def failed_def split: option.splits if_splits)

lemma backup_names:
  "with_extension (cert_file data_dir) ''crt.backup'' = path_push (path_push data_dir ''certs'') ''server.crt.backup''"
  "with_extension (key_file data_dir) ''key.backup'' = path_push (path_push data_dir ''certs'') ''server.key.backup''"
  using with_extension_file [of "''server''" "''crt''" "path_push data_dir ''certs''" "''crt.backup''"]
    with_extension_file [of "''server''" "''key''" "path_push data_dir ''certs''" "''key.backup''"] by simp_all

lemma regeneration_keeps_old:
  assumes "regenerate_certificates E data_dir d = (Inr (), d')"
    and "hm_get (dk_files d) (cert_file data_dir) = Some old_cert"
    and "hm_get (dk_files d) (key_file data_dir) = Some old_key"
  shows "hm_get (dk_files d') (path_push (path_push data_dir ''certs'') ''server.crt.backup'') = Some old_cert"
    and "hm_get (dk_files d') (path_push (path_push data_dir ''certs'') ''server.key.backup'') = Some old_key"
    and "\<exists>cert pem. ks_serialize_pem E cert = Inr pem \<and> hm_get (dk_files d') (cert_file data_dir) = Some pem \<and>
       hm_get (dk_files d') (key_file data_dir) = Some (ks_private_key_pem E cert)"
proof -
  let ?dir = "path_push data_dir ''certs''"
  obtain d1 d2 where cert: "back_up E (cert_file data_dir) ''crt.backup'' ''Failed to backup certificate'' d = (Inr (), d1)"
    and key: "back_up E (key_file data_dir) ''key.backup'' ''Failed to backup key'' d1 = (Inr (), d2)"
    and made: "generate_certificates E ?dir d2 = (Inr (), d')"
    using assms(1) by (auto simp: regenerate_certificates_def act_bind_Inr_iff Let_def)
  have names: "path_push ?dir ''server.crt.backup'' \<noteq> key_file data_dir" "cert_file data_dir \<noteq> key_file data_dir"
    by (simp_all add: path_push_eq_iff)
  have d1: "dk_files d1 = hm_insert (path_push ?dir ''server.crt.backup'') old_cert (hm_remove (cert_file data_dir) (dk_files d))"
    using back_up_ok(1) [OF cert assms(2)] by (simp add: backup_names)
  then have "hm_get (dk_files d1) (key_file data_dir) = Some old_key" using assms(3) names by auto
  from back_up_ok(1) [OF key this] have d2: "dk_files d2 = hm_insert (path_push ?dir ''server.key.backup'') old_key
      (hm_remove (key_file data_dir) (dk_files d1))" by (simp add: backup_names)
  obtain cert pem readme where new: "ks_serialize_pem E cert = Inr pem"
    "dk_files d' = hm_insert (readme_file data_dir) readme (hm_insert (key_file data_dir)
       (ks_private_key_pem E cert) (hm_insert (cert_file data_dir) pem (dk_files d2)))"
    using made by (rule generate_certificates_ok)
  show "hm_get (dk_files d') (path_push ?dir ''server.crt.backup'') = Some old_cert"
    "hm_get (dk_files d') (path_push ?dir ''server.key.backup'') = Some old_key"
    unfolding new d2 d1 by (simp_all add: path_push_eq_iff)
  show "\<exists>cert pem. ks_serialize_pem E cert = Inr pem \<and> hm_get (dk_files d') (cert_file data_dir) = Some pem \<and>
       hm_get (dk_files d') (key_file data_dir) = Some (ks_private_key_pem E cert)"
    using new(1) unfolding new(2) by (auto simp: path_push_eq_iff)
qed

section \<open>Reading back a certificate\<close>

lemma split_at_clean:
  assumes "\<forall>c\<in>set a. c \<noteq> x"
  shows "split_at_str (x # p) (a @ (x # p) @ b) = Some (a, b)"
  using assms
proof (induction a)
  case Nil
  have "str_starts_with (q @ b) q" for q by (induction q) auto
  then show ?case by simp
qed simp

lemma str_split_line: "sep \<notin> set l \<Longrightarrow> str_split sep (l @ sep # r) = l # str_split sep r"
  by (induction l) auto

lemma str_split_single: "sep \<notin> set l \<Longrightarrow> str_split sep l = [l]"
  by (induction l) auto

lemma str_split_rows:
  "\<forall>l\<in>set ls. sep \<notin> set l \<Longrightarrow> str_split sep (concat (map (\<lambda>l. l @ [sep]) ls) @ r) = ls @ str_split sep r"
  by (induction ls) (auto simp: str_split_line)

definition base64_char :: "char \<Rightarrow> bool" where
  "base64_char c \<longleftrightarrow> is_alnum c \<or> c \<in> {CHR ''+'', CHR ''/'', CHR ''=''}"

definition base64_line :: "string \<Rightarrow> bool" where
  "base64_line l \<longleftrightarrow> l \<noteq> [] \<and> list_all base64_char l"

text \<open>The PEM form of a certificate: the markers around lines of base64.\<close>

definition pem_of_lines :: "string list \<Rightarrow> string" where
  "pem_of_lines ls = begin_marker @ [CHR 0x0A] @ concat (map (\<lambda>l. l @ [CHR 0x0A]) ls) @ end_marker @ [CHR 0x0A]"

lemma base64_line_plain:
  assumes "base64_line l"
  shows "CHR 0x0A \<notin> set l" "chop_cr l = l" "\<not> str_starts_with l ''-----''" "CHR ''-'' \<notin> set l"
proof -
  have plain: "\<not> base64_char (CHR 0x0A)" "\<not> base64_char (CHR 0x0D)" "\<not> base64_char (CHR ''-'')"
    by (simp_all add: base64_char_def is_alnum_def is_alpha_def is_upper_def is_lower_def is_digit_def)
  have all: "c \<in> set l \<Longrightarrow> base64_char c" for c using assms by (simp add: base64_line_def list_all_iff)
  show nl: "CHR 0x0A \<notin> set l" and dash: "CHR ''-'' \<notin> set l" using all plain by blast+
  have "l \<noteq> []" using assms by (simp add: base64_line_def)
  then have "last l \<noteq> CHR 0x0D" using all [of "last l"] plain(2) by (metis last_in_set)
  then show "chop_cr l = l" by (simp add: chop_cr_def)
  show "\<not> str_starts_with l ''-----''" using assms dash by (cases l) (auto simp: base64_line_def)
qed

lemma find_past_begin:
  "split_at_str end_marker t = Some (u, v) \<Longrightarrow> str_find end_marker (begin_marker @ CHR 0x0A # t) = Some (28 + length u)"
  by (simp add: str_find_def begin_marker_def end_marker_def)

lemma pem_content_of_lines:
  assumes "list_all base64_line ls"
  shows "pem_content (pem_of_lines ls) = Inr (concat ls)"
proof -
  let ?body = "concat (map (\<lambda>l. l @ [CHR 0x0A]) ls)"
  have lines: "base64_line l" if "l \<in> set ls" for l using assms that by (simp add: list_all_iff)
  have clean: "\<forall>c\<in>set ?body. c \<noteq> CHR ''-''" 
  proof
    fix c assume "c \<in> set ?body"
    then have "c = CHR 0x0A \<or> (\<exists>l\<in>set ls. c \<in> set l)" by (auto split: if_splits)
    then show "c \<noteq> CHR ''-''" using lines base64_line_plain(4) by auto
  qed
  have "split_at_str end_marker (?body @ end_marker @ [CHR 0x0A]) = Some (?body, [CHR 0x0A])"
    using split_at_clean [of ?body "CHR ''-''" "tl end_marker" "[CHR 0x0A]"] clean by (simp add: end_marker_def)
  from find_past_begin [OF this]
  have stop: "str_find end_marker (pem_of_lines ls) = Some (28 + length ?body)" by (simp add: pem_of_lines_def)
  have "str_starts_with (begin_marker @ r) begin_marker" for r by (simp add: begin_marker_def)
  then have start: "str_find begin_marker (pem_of_lines ls) = Some 0"
    by (simp add: str_find_def pem_of_lines_def begin_marker_def)
  have cut: "take (28 + length ?body + 25 - 0) (drop 0 (pem_of_lines ls)) =
      begin_marker @ CHR 0x0A # ?body @ end_marker" (is "?cut = ?section")
  proof -
    have "pem_of_lines ls = ?section @ [CHR 0x0A]" by (simp add: pem_of_lines_def)
    moreover have "length ?section = 28 + length ?body + 25" by (simp add: begin_marker_def end_marker_def)
    ultimately show ?thesis by (metis append_eq_conv_conj diff_zero drop_0)
  qed
  have "str_split (CHR 0x0A) (begin_marker @ CHR 0x0A # ?body @ end_marker) = begin_marker # ls @ [end_marker]"
    using lines base64_line_plain(1)
    by (simp add: str_split_line str_split_rows str_split_single begin_marker_def end_marker_def)
  then have "str_lines (begin_marker @ CHR 0x0A # ?body @ end_marker) = map chop_cr (begin_marker # ls) @ [end_marker]"
    by (simp add: str_lines_def Let_def butlast_append end_marker_def)
  also have "map chop_cr (begin_marker # ls) = begin_marker # ls"
    using lines base64_line_plain(2) by (simp add: map_idI chop_cr_def begin_marker_def)
  finally have "filter (\<lambda>line. \<not> str_starts_with line ''-----'') (str_lines (begin_marker @ CHR 0x0A # ?body @ end_marker)) = ls"
    using lines base64_line_plain(3) by (simp add: filter_True begin_marker_def end_marker_def)
  then show ?thesis unfolding pem_content_def start stop option.case cut by simp
qed

section \<open>A generated certificate\<close>

text \<open>
  What the libraries promise: a certificate is written as lines of base64 between the markers, decoding
  them gives one whose validity ends in the second given to the generator, and times up to the year 9999
  are in the range of the calendar.
\<close>

definition last_timestamp :: int where
  "last_timestamp = 253402300799"

definition cert_tools_ok :: "'k cert_env \<Rightarrow> bool" where
  "cert_tools_ok E \<longleftrightarrow>
     (\<forall>seed p cert pem. ks_from_params E seed p = Inr cert \<and> ks_serialize_pem E cert = Inr pem \<and>
        0 \<le> cp_not_after p \<and> cp_not_after p div 1000000000 \<le> last_timestamp \<longrightarrow>
        (\<exists>ls der. list_all base64_line ls \<and> pem = pem_of_lines ls \<and> ks_base64 E (concat ls) = Inr der \<and>
           ks_not_after E der = Inr (cp_not_after p div 1000000000))) \<and>
     (\<forall>t. 0 \<le> t \<and> t \<le> last_timestamp \<longrightarrow> ks_timestamp_ok E t)"

definition whole_seconds :: "int \<Rightarrow> int" where
  "whole_seconds t = t div 1000000000 * 1000000000"

lemma made_certificate_ends:
  assumes "cert_tools_ok E" "ks_from_params E seed p = Inr cert" "ks_serialize_pem E cert = Inr pem"
    and "0 \<le> cp_not_after p" "cp_not_after p div 1000000000 \<le> last_timestamp"
  shows "certificate_end E pem = Inr (whole_seconds (cp_not_after p))"
proof -
  obtain ls der where made: "list_all base64_line ls" "pem = pem_of_lines ls" "ks_base64 E (concat ls) = Inr der"
    "ks_not_after E der = Inr (cp_not_after p div 1000000000)"
    using assms unfolding cert_tools_ok_def by metis
  have "ks_timestamp_ok E (cp_not_after p div 1000000000)"
    using assms(1,4,5) by (simp add: cert_tools_ok_def pos_imp_zdiv_nonneg_iff)
  then show ?thesis
    using made by (simp add: certificate_end_def pem_content_of_lines res_context_def whole_seconds_def)
qed

text \<open>
  C40. The certificate the daemon makes at a first start is accepted at every later start, without another
  change to the files, until 366 days after it was made (its 365 days and one day more, the day that the
  count in whole days forgives), and refused from then on.
\<close>

theorem generated_certificate_lasts:
  assumes tools: "cert_tools_ok E"
    and made: "ensure_valid_certificates E data_dir i d = (Inr (), d1)" "\<not> path_exists (cert_file data_dir) d"
    and kept: "dk_files d2 = dk_files d1" and reads: "de_read E (cert_file data_dir) d2 = None"
    and epoch: "0 \<le> de_clock E (dk_ticks d + 1)"
      "(de_clock E (dk_ticks d + 1) + 365 * nanos_per_day) div 1000000000 \<le> last_timestamp"
  shows "(fst (ensure_valid_certificates E data_dir i d2) = Inr () \<longleftrightarrow>
      de_clock E (dk_ticks d2) < whole_seconds (de_clock E (dk_ticks d + 1) + 365 * nanos_per_day) + nanos_per_day) \<and>
    dk_files (snd (ensure_valid_certificates E data_dir i d2)) = dk_files d1"
proof -
  have "generate_certificates E (path_push data_dir ''certs'') d = (Inr (), d1)"
    using made by (simp add: ensure_valid_certificates_def)
  then obtain cert pem readme where new:
    "ks_from_params E (dk_ticks d + 2) (server_params (de_clock E (dk_ticks d)) (de_clock E (dk_ticks d + 1))) = Inr cert"
    "ks_serialize_pem E cert = Inr pem"
    "dk_files d1 = hm_insert (readme_file data_dir) readme (hm_insert (key_file data_dir)
       (ks_private_key_pem E cert) (hm_insert (cert_file data_dir) pem (dk_files d)))"
    by (rule generate_certificates_ok)
  have found: "hm_get (dk_files d2) (cert_file data_dir) = Some pem"
    unfolding kept new by (simp add: path_push_eq_iff)
  have there: "path_exists (cert_file data_dir) d2" "path_exists (key_file data_dir) d2"
    unfolding path_exists_def kept new by simp_all
  have ends: "certificate_end E pem = Inr (whole_seconds (de_clock E (dk_ticks d + 1) + 365 * nanos_per_day))"
    using made_certificate_ends [OF tools new(1,2)] epoch by (simp add: server_params_def nanos_per_day_def)
  have "fst (ensure_valid_certificates E data_dir i d2) = Inr () \<longleftrightarrow>
      de_clock E (dk_ticks d2) < whole_seconds (de_clock E (dk_ticks d + 1) + 365 * nanos_per_day) + nanos_per_day"
    using ensure_existing(1) [OF there, of E i] found ends reads by (cases "ensure_valid_certificates E data_dir i d2") auto
  moreover have "dk_files (snd (ensure_valid_certificates E data_dir i d2)) = dk_files d1"
    using ensure_existing(2) [OF there, of E i] kept by auto
  ultimately show ?thesis by (rule conjI)
qed

section \<open>Witnesses\<close>

text \<open>Libraries for which the text in a certificate is the number of its last second.\<close>

definition demo_certs :: "(nat \<Rightarrow> int) \<Rightarrow> nat cert_env" where
  "demo_certs clock = \<lparr>de_create_dir = \<lambda>_ _. None, de_open = \<lambda>_ _. None, de_read = \<lambda>_ _. None, de_write = \<lambda>_ _ _. None,
     de_rename = \<lambda>_ _ _. None, de_permissions = \<lambda>_ _. None, de_new_mode = 420, de_clock = clock,
     ks_from_params = \<lambda>_ p. Inr (nat (cp_not_after p div 1000000000)),
     ks_serialize_pem = \<lambda>k. Inr (pem_of_lines [show_nat k]), ks_private_key_pem = show_nat,
     ks_base64 = \<lambda>s. Inr (map (\<lambda>c. of_nat (of_char c)) s),
     ks_not_after = \<lambda>der. (case read_digits 0 (map (\<lambda>b. char_of (unat b)) der) of
        Some n \<Rightarrow> Inr (int n) | None \<Rightarrow> Inl ''not a number''),
     ks_timestamp_ok = \<lambda>_. True, ks_format = show_int\<rparr>"

definition empty_disk :: Disk where
  "empty_disk = \<lparr>dk_files = [], dk_modes = [], dk_dirs = [], dk_ticks = 0\<rparr>"

lemma demo_fields:
  "de_read (demo_certs clock) p d = None" "de_clock (demo_certs clock) = clock"
  "\<not> path_exists p empty_disk" "dk_ticks empty_disk = 0"
  by (simp_all add: demo_certs_def empty_disk_def path_exists_def)

lemma not_both: "\<not> (path_exists p empty_disk \<and> path_exists q empty_disk)"
  by (simp add: demo_fields)

lemma demo_certs_ok: "cert_tools_ok (demo_certs clock)"
proof -
  have line: "base64_line (show_nat n)" for n
    using show_nat_digits [of _ n] by (auto simp: base64_line_def list_all_iff base64_char_def is_alnum_def)
  have byte: "char_of (unat (of_nat (of_char c) :: 8 word)) = c" for c :: char
    by (simp add: unat_of_nat take_bit_eq_mod)
  have end_of: "list_all base64_line [show_nat n] \<and> pem_of_lines [show_nat n] = pem_of_lines [show_nat n] \<and>
      ks_base64 (demo_certs clock) (concat [show_nat n]) = Inr (map (\<lambda>c. of_nat (of_char c)) (show_nat n)) \<and>
      ks_not_after (demo_certs clock) (map (\<lambda>c. of_nat (of_char c)) (show_nat n)) = Inr (int n)" for n
    by (simp add: demo_certs_def line byte read_show_nat comp_def)
  show ?thesis
    unfolding cert_tools_ok_def
  proof (intro conjI allI impI)
    fix seed p cert pem
    assume made: "ks_from_params (demo_certs clock) seed p = Inr cert \<and> ks_serialize_pem (demo_certs clock) cert = Inr pem \<and>
      0 \<le> cp_not_after p \<and> cp_not_after p div 1000000000 \<le> last_timestamp"
    then have "pem = pem_of_lines [show_nat cert]" "int cert = cp_not_after p div 1000000000"
      by (auto simp: demo_certs_def pos_imp_zdiv_nonneg_iff)
    with end_of [of cert] show "\<exists>ls der. list_all base64_line ls \<and> pem = pem_of_lines ls \<and>
        ks_base64 (demo_certs clock) (concat ls) = Inr der \<and>
        ks_not_after (demo_certs clock) der = Inr (cp_not_after p div 1000000000)" by metis
  next
    fix t :: int
    show "ks_timestamp_ok (demo_certs clock) t" by (simp add: demo_certs_def)
  qed
qed

text \<open>The disk after the first start.\<close>

definition started_disk :: Disk where
  "started_disk = snd (ensure_valid_certificates (demo_certs int) ''/u/harness'' False empty_disk)"

lemma demo_starts:
  "ensure_valid_certificates (demo_certs int) ''/u/harness'' False empty_disk = (Inr (), started_disk)" "dk_ticks started_disk = 4"
proof -
  have "path_push ''/u/harness'' ''certs'' = ''/u/harness/certs''" by code_simp
  note paths = this
  have "disk_works (demo_certs int)" "tools_never_fail (demo_certs int)"
    by (simp_all add: demo_certs_def disk_works_def tools_never_fail_def)
  then have "\<exists>d'. generate_certificates (demo_certs int) ''/u/harness/certs'' empty_disk = (Inr (), d') \<and> dk_ticks d' = dk_ticks empty_disk + 4"
    by (rule generation_succeeds) (simp_all add: empty_disk_def)
  then show "ensure_valid_certificates (demo_certs int) ''/u/harness'' False empty_disk = (Inr (), started_disk)"
    "dk_ticks started_disk = 4"
    by (auto simp: started_disk_def ensure_valid_certificates_def paths demo_fields)
qed

theorem certificates_ready_witness:
  "fst (ensure_valid_certificates (demo_certs int) ''/u/harness'' False empty_disk) = Inr () \<and>
   hm_get (dk_modes started_disk) (key_file ''/u/harness'') = Some 384"
proof -
  have "hm_get (dk_modes started_disk) (key_file ''/u/harness'') = Some 384"
    using certificates_ready [OF demo_starts(1)] unfolding if_not_P [OF not_both] by metis
  with demo_starts(1) show ?thesis by simp
qed

theorem generated_certificate_lasts_witness:
  "fst (ensure_valid_certificates (demo_certs int) ''/u/harness'' False started_disk) = Inr ()"
  using conjunct1 [OF generated_certificate_lasts [OF demo_certs_ok demo_starts(1), of started_disk]]
  by (simp add: demo_fields demo_starts(2) nanos_per_day_def last_timestamp_def whole_seconds_def)

end
