(* ===== verification/Reg_Tls.thy ===== *)
theory Reg_Tls
  imports Host_Files Reg_Websocket
begin

text \<open>
  Opening the connections of the registry, plain and over TLS: \<^verbatim>\<open>crates/service-registry/src/tls.rs\<close>, the
  server of \<^verbatim>\<open>websocket.rs\<close> and the connecting of \<^verbatim>\<open>client.rs\<close>. The readers of PEM files, rustls and the
  sockets are parameters.
\<close>

section \<open>The libraries\<close>

text \<open>
  \<open>rustls_pemfile\<close> yields the certificates of a file one by one and its first private key, if any;
  rustls makes a server configuration from a chain and its key, and a store of trusted roots.
\<close>

record ('der, 'key, 'scfg, 'roots) tls_lib =
  tb_certs :: "string \<Rightarrow> (string + 'der) list"
  tb_private_key :: "string \<Rightarrow> string + 'key option"
  tb_single_cert :: "'der list \<Rightarrow> 'key \<Rightarrow> string + 'scfg"
  tb_no_roots :: 'roots
  tb_add_root :: "'roots \<Rightarrow> 'der \<Rightarrow> string + 'roots"
  tb_webpki_roots :: 'roots

text \<open>Sockets and handshakes; an error is its text.\<close>

record ('lis, 'scfg, 'roots, 'tcp, 'tls, 'ws) net_lib =
  nl_bind :: "string \<Rightarrow> string + 'lis"
  nl_tcp_connect :: "string \<Rightarrow> string + 'tcp"
  nl_server_name :: "string \<Rightarrow> string + string"
  nl_tls_accept :: "'scfg \<Rightarrow> 'tcp \<Rightarrow> string + 'tls"
  nl_tls_connect :: "'roots \<Rightarrow> string \<Rightarrow> 'tcp \<Rightarrow> string + 'tls"
  nl_accept_async :: "'tcp + 'tls \<Rightarrow> string + 'ws"
  nl_client_async :: "string \<Rightarrow> 'tcp + 'tls \<Rightarrow> string + 'ws"

text \<open>Collecting an iterator of results: the first error, or all values.\<close>

fun collect_results :: "('e + 'a) list \<Rightarrow> 'e + 'a list" where
  "collect_results [] = Inr []"
| "collect_results (Inl e # rs) = Inl e"
| "collect_results (Inr x # rs) = res_bind (collect_results rs) (\<lambda>xs. Inr (x # xs))"

lemma collect_results_ok: "collect_results rs = Inr xs \<longleftrightarrow> rs = map Inr xs"
proof (induction rs arbitrary: xs)
  case (Cons r rs)
  then show ?case by (cases r) (auto simp: res_bind_Inr_iff)
qed auto

section \<open>Configurations\<close>

fun failure_text :: "Failure \<Rightarrow> string" where
  "failure_text (FailedWith e) = any_text e"
| "failure_text (Panicked m) = m"

definition package_error :: "string \<Rightarrow> string \<Rightarrow> RegError" where
  "package_error context e = PackageErr (MsgText (context @ e))"

definition or_package_error :: "string \<Rightarrow> ('s, Failure, 'a) act \<Rightarrow> ('s, RegError, 'a) act" where
  "or_package_error context m d = (case m d of (r, d') \<Rightarrow> (map_err (package_error context \<circ> failure_text) r, d'))"

definition from_files ::
    "'m disk_env_scheme \<Rightarrow> ('der, 'key, 'scfg, 'roots) tls_lib \<Rightarrow> string \<Rightarrow> string \<Rightarrow> (Disk, RegError, 'scfg) act" where
  "from_files E T cert_path key_path =
     act_bind (or_package_error ''Failed to open certificate file: '' (fs_open E cert_path)) (\<lambda>_.
     act_bind (or_package_error ''Failed to read certificate: '' (fs_read_to_string E cert_path)) (\<lambda>cert_bytes.
     act_bind (or_package_error ''Failed to open key file: '' (fs_open E key_path)) (\<lambda>_.
     act_bind (or_package_error ''Failed to read key: '' (fs_read_to_string E key_path)) (\<lambda>key_bytes.
     act_bind (act_lift (map_err (package_error ''Failed to parse certificates: '') (collect_results (tb_certs T cert_bytes)))) (\<lambda>certs.
     if certs = [] then act_err (PackageErr (MsgText ''No certificates found in file''))
     else
       act_bind (act_lift (map_err (package_error ''Failed to parse private key: '') (tb_private_key T key_bytes))) (\<lambda>found.
       act_bind (act_lift (ok_or found (PackageErr (MsgText ''No private key found in file'')))) (\<lambda>key.
       act_lift (map_err (package_error ''Failed to create TLS config: '') (tb_single_cert T certs key)))))))))"

text \<open>The client trusts the roots of the web, or the certificates of a file, one after the other.\<close>

fun add_roots :: "(string \<Rightarrow> 'e) \<Rightarrow> ('der, 'key, 'scfg, 'roots) tls_lib \<Rightarrow> 'der list \<Rightarrow> 'roots \<Rightarrow> 'e + 'roots" where
  "add_roots refused T [] root_store = Inr root_store"
| "add_roots refused T (cert # certs) root_store =
     res_bind (map_err refused (tb_add_root T root_store cert)) (add_roots refused T certs)"

definition tls_client_config_new :: "('der, 'key, 'scfg, 'roots) tls_lib \<Rightarrow> RegError + 'roots" where
  "tls_client_config_new T = Inr (tb_webpki_roots T)"

definition with_ca_cert ::
    "'m disk_env_scheme \<Rightarrow> ('der, 'key, 'scfg, 'roots) tls_lib \<Rightarrow> string \<Rightarrow> (Disk, RegError, 'roots) act" where
  "with_ca_cert E T ca_cert_path =
     act_bind (or_package_error ''Failed to open CA certificate file: '' (fs_open E ca_cert_path)) (\<lambda>_.
     act_bind (or_package_error ''Failed to read CA certificate: '' (fs_read_to_string E ca_cert_path)) (\<lambda>ca_bytes.
     act_bind (act_lift (map_err (package_error ''Failed to parse CA certificates: '') (collect_results (tb_certs T ca_bytes)))) (\<lambda>ca_certs.
     act_lift (add_roots (package_error ''Failed to add CA certificate: '') T ca_certs (tb_no_roots T)))))"

lemma map_err_ok [simp]: "map_err f r = Inr x \<longleftrightarrow> r = Inr x"
  by (cases r) simp_all

lemma or_package_error_ok [simp]: "or_package_error c m d = (Inr x, d') \<longleftrightarrow> m d = (Inr x, d')"
  by (auto simp: or_package_error_def split: prod.splits)

lemma open_ok_iff: "fs_open E p d = (Inr (), d') \<longleftrightarrow> de_open E p d = None \<and> path_exists p d \<and> d' = d"
  by (auto simp: fs_open_def failed_def split: option.splits)

lemma ok_or_ok: "ok_or m e = Inr x \<longleftrightarrow> m = Some x"
  by (cases m) simp_all

lemma unless_ok: "(if b then act_err e else f) d = (Inr x, d') \<longleftrightarrow> \<not> b \<and> f d = (Inr x, d')"
  by simp

text \<open>What a configuration was made from.\<close>

lemma from_files_ok:
  "from_files E T cert_path key_path d = (Inr cfg, d') \<longleftrightarrow>
     d' = d \<and> de_open E cert_path d = None \<and> de_read E cert_path d = None \<and> de_open E key_path d = None \<and> de_read E key_path d = None \<and>
     (\<exists>cert_pem key_pem certs key. hm_get (dk_files d) cert_path = Some cert_pem \<and> hm_get (dk_files d) key_path = Some key_pem \<and>
        tb_certs T cert_pem = map Inr certs \<and> certs \<noteq> [] \<and> tb_private_key T key_pem = Inr (Some key) \<and>
        tb_single_cert T certs key = Inr cfg)"
  by (auto simp: from_files_def act_bind_Inr_iff open_ok_iff read_ok_iff collect_results_ok path_exists_def hm_has_iff
      ok_or_ok unless_ok)

text \<open>A file without any certificate is no error for the client: it then trusts nobody.\<close>

lemma empty_ca_file_accepted:
  "\<lbrakk>de_open E p d = None; de_read E p d = None; hm_get (dk_files d) p = Some pem; tb_certs T pem = []\<rbrakk> \<Longrightarrow>
   with_ca_cert E T p d = (Inr (tb_no_roots T), d)"
  by (simp add: with_ca_cert_def act_bind_def or_package_error_def fs_open_def path_exists_def hm_has_iff fs_read_to_string_def)

section \<open>The server\<close>

record ('b, 'lis, 'scfg) ws_server =
  wv_registry :: "'b registry"
  wv_listener :: 'lis
  wv_tls_config :: "'scfg option"

definition ws_server_new :: "('lis, 'scfg, 'roots, 'tcp, 'tls, 'ws) net_lib \<Rightarrow> string \<Rightarrow> 'b registry \<Rightarrow>
    RegError + ('b, 'lis, 'scfg) ws_server" where
  "ws_server_new N addr registry =
     map_sum IoErr (\<lambda>listener. \<lparr>wv_registry = registry, wv_listener = listener, wv_tls_config = None\<rparr>) (nl_bind N addr)"

definition ws_server_new_tls :: "('lis, 'scfg, 'roots, 'tcp, 'tls, 'ws) net_lib \<Rightarrow> string \<Rightarrow> 'b registry \<Rightarrow> 'scfg \<Rightarrow>
    RegError + ('b, 'lis, 'scfg) ws_server" where
  "ws_server_new_tls N addr registry tls_config =
     map_sum IoErr (\<lambda>listener. \<lparr>wv_registry = registry, wv_listener = listener, wv_tls_config = Some tls_config\<rparr>) (nl_bind N addr)"

text \<open>Either handler runs the same code on its stream; the tag tells them apart.\<close>

datatype 'h connection_handler = PlainHandler 'h | TlsHandler 'h

definition fresh_handler :: "('b, 'lis, 'scfg) ws_server \<Rightarrow> 'ws \<Rightarrow> SocketAddr \<Rightarrow> ('b, 'ws) ws_conn" where
  "fresh_handler server ws addr =
     \<lparr>wc_registry = wv_registry server, wc_socket = ws, wc_addr = addr, wc_subscriptions = []\<rparr>"

definition ws_accept ::
    "('lis, 'scfg, 'roots, 'tcp, 'tls, 'ws) net_lib \<Rightarrow> ('b, 'lis, 'scfg) ws_server \<Rightarrow> string + 'tcp \<times> SocketAddr \<Rightarrow>
       RegError + ('b, 'ws) ws_conn connection_handler" where
  "ws_accept N server incoming =
     res_bind (map_err IoErr incoming) (\<lambda>(tcp_stream, addr).
     case wv_tls_config server of
       Some config \<Rightarrow>
         res_bind (map_err IoErr (nl_tls_accept N config tcp_stream)) (\<lambda>tls_stream.
         res_bind (map_err WebSocketErr (nl_accept_async N (Inr tls_stream))) (\<lambda>ws_stream.
         Inr (TlsHandler (fresh_handler server ws_stream addr))))
     | None \<Rightarrow>
         res_bind (map_err WebSocketErr (nl_accept_async N (Inl tcp_stream))) (\<lambda>ws_stream.
         Inr (PlainHandler (fresh_handler server ws_stream addr))))"

text \<open>\<open>handle\<close> of either handler is the loop of the connection.\<close>

fun handle_either :: "('b, 's, 'x) ws_env \<Rightarrow> (Timestamp \<times> 'x in_frame) list \<Rightarrow> ('b, 's) ws_conn connection_handler \<Rightarrow>
    (RegError + unit) \<times> ('b, 's) ws_conn" where
  "handle_either E frames (PlainHandler h) = handle_connection E frames h"
| "handle_either E frames (TlsHandler h) = handle_connection E frames h"

section \<open>The client\<close>

datatype 'ws reg_client = WsPlainClient 'ws string ws_client | WsTlsClient 'ws string ws_client

definition ws_connect :: "('lis, 'scfg, 'roots, 'tcp, 'tls, 'ws) net_lib \<Rightarrow> string \<Rightarrow> RegError + 'ws reg_client" where
  "ws_connect N addr =
     res_bind (map_err IoErr (nl_tcp_connect N addr)) (\<lambda>stream.
     res_bind (map_err WebSocketErr (nl_client_async N (''ws://'' @ addr) (Inl stream))) (\<lambda>ws.
     Inr (WsPlainClient ws addr client_new)))"

definition ws_connect_tls :: "('lis, 'scfg, 'roots, 'tcp, 'tls, 'ws) net_lib \<Rightarrow> string \<Rightarrow> 'roots \<Rightarrow> string \<Rightarrow> RegError + 'ws reg_client" where
  "ws_connect_tls N addr tls_config server_name =
     res_bind (map_err IoErr (nl_tcp_connect N addr)) (\<lambda>tcp_stream.
     res_bind (map_err (package_error ''Invalid server name: '') (nl_server_name N server_name)) (\<lambda>name.
     res_bind (map_err IoErr (nl_tls_connect N tls_config name tcp_stream)) (\<lambda>tls_stream.
     res_bind (map_err WebSocketErr (nl_client_async N (''wss://'' @ addr) (Inr tls_stream))) (\<lambda>ws.
     Inr (WsTlsClient ws addr client_new)))))"

end
