(* ===== verification/Dmn_Server.thy ===== *)
theory Dmn_Server
  imports Dmn_Certs Reg_Tls
begin

text \<open>
  Starting the executor daemon, \<^verbatim>\<open>crates/harness/src/daemon/mod.rs\<close> and \<^verbatim>\<open>server.rs\<close>, and connecting to it,
  \<^verbatim>\<open>client/mod.rs\<close>, \<^verbatim>\<open>commands/client.rs\<close> and \<^verbatim>\<open>commands/daemon.rs\<close>. What a connection does once it is open is
  in \<open>Dmn_Handlers\<close> and \<open>Dmn_Json\<close>. The service manager and the registry are opened by parameters.
\<close>

section \<open>The server\<close>

record ('m, 'r) daemon_parts =
  dn_new_manager :: "string + 'm"
  dn_open_registry :: "string \<Rightarrow> string + 'r"

record ('m, 'r) daemon_state =
  ds_service_manager :: 'm
  ds_registry :: 'r

record ('m, 'r, 'lis, 'scfg) listening =
  ln_state :: "('m, 'r) daemon_state"
  ln_tls_acceptor :: 'scfg
  ln_addr :: string
  ln_listener :: 'lis

definition local_addr :: "16 word \<Rightarrow> string" where
  "local_addr port = ''127.0.0.1:'' @ show_nat (unat port)"

text \<open>Up to the loop that accepts connections. The conversion of the key cannot fail.\<close>

definition start_server ::
    "('m, 'r) daemon_parts \<Rightarrow> 'k cert_env \<Rightarrow> ('der, 'key, 'scfg, 'roots) tls_lib \<Rightarrow>
     ('lis, 'scfg, 'roots, 'tcp, 'tls, 'ws) net_lib \<Rightarrow> string \<Rightarrow> 16 word \<Rightarrow>
     (Disk, Failure, ('m, 'r, 'lis, 'scfg) listening) act" where
  "start_server W E T N data_dir port =
     act_bind (act_lift (res_context ''Failed to create service manager'' (dn_new_manager W))) (\<lambda>service_manager.
     act_bind (act_lift (map_err (\<lambda>_. Panicked ''Failed to create persistent backend'')
       (dn_open_registry W (path_push data_dir ''registry.json'')))) (\<lambda>registry.
     let state = \<lparr>ds_service_manager = service_manager, ds_registry = registry\<rparr>;
         cert_path = path_push data_dir ''certs/server.crt'';
         key_path = path_push data_dir ''certs/server.key'' in
     act_bind (act_context ''Failed to read certificate'' (fs_read_to_string E cert_path)) (\<lambda>cert_pem.
     act_bind (act_context ''Failed to read private key'' (fs_read_to_string E key_path)) (\<lambda>key_pem.
     act_bind (act_lift (map_err (\<lambda>e. FailedWith (AnyMsg (''Failed to parse certificate: '' @ e)))
       (collect_results (tb_certs T cert_pem)))) (\<lambda>certs.
     act_bind (act_lift (map_err (\<lambda>e. FailedWith (AnyMsg (''Failed to parse private key: '' @ e)))
       (tb_private_key T key_pem))) (\<lambda>found.
     act_bind (act_lift (ok_or found (FailedWith (AnyMsg ''No private keys found in key file'')))) (\<lambda>key.
     act_bind (act_lift (res_context ''Failed to create TLS config'' (tb_single_cert T certs key))) (\<lambda>tls_config.
     act_bind (act_lift (res_context ''Failed to bind to address'' (nl_bind N (local_addr port)))) (\<lambda>listener.
     act_ret \<lparr>ln_state = state, ln_tls_acceptor = tls_config, ln_addr = local_addr port, ln_listener = listener\<rparr>)))))))))"

text \<open>
  The loop over what \<open>accept\<close> yields: each connection gets a task of its own, which completes the handshake
  and handles the connection; failures of either are logged. The result lists the streams that are handled.
\<close>

fun accept_connections ::
    "('lis, 'scfg, 'roots, 'tcp, 'tls, 'ws) net_lib \<Rightarrow> ('m, 'r, 'lis, 'scfg) listening \<Rightarrow> (string + 'tcp) list \<Rightarrow> 'tls list" where
  "accept_connections N server [] = []"
| "accept_connections N server (Inl e # incoming) = accept_connections N server incoming"
| "accept_connections N server (Inr stream # incoming) =
     (case nl_tls_accept N (ln_tls_acceptor server) stream of
        Inr tls_stream \<Rightarrow> [tls_stream]
      | Inl e \<Rightarrow> []) @ accept_connections N server incoming"

definition daemon_run ::
    "('m, 'r) daemon_parts \<Rightarrow> 'k cert_env \<Rightarrow> ('der, 'key, 'scfg, 'roots) tls_lib \<Rightarrow>
     ('lis, 'scfg, 'roots, 'tcp, 'tls, 'ws) net_lib \<Rightarrow> string \<Rightarrow> 16 word \<Rightarrow>
     (Disk, Failure, ('m, 'r, 'lis, 'scfg) listening) act" where
  "daemon_run W E T N data_dir port =
     act_bind (ensure_valid_certificates E data_dir False) (\<lambda>_. start_server W E T N data_dir port)"

section \<open>The client\<close>

datatype 'ws daemon_client = PlainClient 'ws | TlsClient 'ws

definition daemon_connect ::
    "('lis, 'scfg, 'roots, 'tcp, 'tls, 'ws) net_lib \<Rightarrow> 16 word \<Rightarrow> Failure + 'ws daemon_client" where
  "daemon_connect N port =
     (let addr = local_addr port; url = ''ws://'' @ addr @ ''/'' in
      res_bind (res_context ''Failed to connect to daemon'' (nl_tcp_connect N addr)) (\<lambda>stream.
      res_bind (res_context ''Failed to establish WebSocket connection'' (nl_client_async N url (Inl stream))) (\<lambda>ws.
      Inr (PlainClient ws))))"

definition root_refused :: "string \<Rightarrow> Failure" where
  "root_refused e = FailedWith (AnyMsg (''Failed to add certificate to root store: '' @ e))"

definition trusting_connection ::
    "('lis, 'scfg, 'roots, 'tcp, 'tls, 'ws) net_lib \<Rightarrow> 'roots \<Rightarrow> 16 word \<Rightarrow> Failure + 'ws daemon_client" where
  "trusting_connection N root_store port =
     (let addr = local_addr port; url = ''wss://'' @ addr @ ''/'' in
      res_bind (map_err (\<lambda>e. FailedWith (AnyMsg e)) (nl_tcp_connect N addr)) (\<lambda>tcp_stream.
      res_bind (map_err (\<lambda>e. FailedWith (AnyMsg (''Invalid server name: '' @ e))) (nl_server_name N ''localhost'')) (\<lambda>server_name.
      res_bind (res_context ''TLS handshake failed'' (nl_tls_connect N root_store server_name tcp_stream)) (\<lambda>tls_stream.
      res_bind (res_context ''Failed to establish WebSocket connection'' (nl_client_async N url (Inr tls_stream))) (\<lambda>ws.
      Inr (TlsClient ws))))))"

text \<open>The first argument is the directory of the user's data, if the system names one. \<open>verify_cert\<close> is not used.\<close>

definition connect_tls ::
    "string option \<Rightarrow> 'm disk_env_scheme \<Rightarrow> ('der, 'key, 'scfg, 'roots) tls_lib \<Rightarrow>
     ('lis, 'scfg, 'roots, 'tcp, 'tls, 'ws) net_lib \<Rightarrow> 16 word \<Rightarrow> bool \<Rightarrow> (Disk, Failure, 'ws daemon_client) act" where
  "connect_tls local E T N port verify_cert d =
     (let cert_path = path_push (case local of Some dir \<Rightarrow> dir | None \<Rightarrow> ''.'') ''harness/certs/server.crt'' in
      if \<not> path_exists cert_path d then
        (failed (''Daemon certificate not found at '' @ debug_path cert_path @ ''. Has the daemon been started?''), d)
      else
        act_bind (act_context ''Failed to read daemon certificate'' (fs_read_to_string E cert_path)) (\<lambda>cert_pem.
        act_bind (act_lift (map_err (\<lambda>e. FailedWith (AnyMsg (''Failed to parse certificate: '' @ e)))
          (collect_results (tb_certs T cert_pem)))) (\<lambda>certs.
        if certs = [] then act_lift (failed (''No certificates found in '' @ debug_path cert_path))
        else
          act_bind (act_lift (add_roots root_refused T certs (tb_no_roots T))) (\<lambda>root_store.
          act_lift (trusting_connection N root_store port)))) d)"

definition default_daemon_port :: "16 word" where
  "default_daemon_port = 9443"

definition unreachable_text :: string where
  "unreachable_text = str_join [CHR 0x0A] [
     ''Cannot connect to harness daemon on port '' @ show_nat (unat default_daemon_port) @ ''.'', [],
     ''Start the daemon with:'', ''  harness-executor-daemon'', [],
     ''For more information:'', ''  https://github.com/graphprotocol/graph-network-harness#daemon'']"

definition connect_to_daemon ::
    "string option \<Rightarrow> 'm disk_env_scheme \<Rightarrow> ('der, 'key, 'scfg, 'roots) tls_lib \<Rightarrow>
     ('lis, 'scfg, 'roots, 'tcp, 'tls, 'ws) net_lib \<Rightarrow> (Disk, Failure, 'ws daemon_client) act" where
  "connect_to_daemon local E T N d =
     (case connect_tls local E T N default_daemon_port True d of
        (Inl (FailedWith e), d') \<Rightarrow>
          (if str_contains (any_text e) ''Connection refused'' \<or> str_contains (any_text e) ''Connection reset''
           then failed unreachable_text else Inl (FailedWith e), d')
      | r \<Rightarrow> r)"

text \<open>What the command prints, without the marks before the first words, and its result; the argument closes
  a connection.\<close>

definition daemon_status ::
    "('ws daemon_client \<Rightarrow> string + unit) \<Rightarrow> Failure + 'ws daemon_client \<Rightarrow> string list \<times> (Failure + unit)" where
  "daemon_status close connected = (case connected of
     Inr client \<Rightarrow>
       ([''Checking daemon status...'',
         ''Daemon is running on port '' @ show_nat (unat default_daemon_port), ''  Status: Connected''],
        map_err (\<lambda>e. FailedWith (AnyMsg e)) (close client))
   | Inl (FailedWith e) \<Rightarrow>
       ([''Checking daemon status...'', ''Daemon is not reachable'', ''  Error: '' @ any_text e, [],
         ''To start the daemon:'', ''  harness-executor-daemon'', [],
         ''For more information:'', ''  https://github.com/graphprotocol/graph-network-harness#daemon''],
        Inl (FailedWith e))
   | Inl (Panicked m) \<Rightarrow> ([''Checking daemon status...''], Inl (Panicked m)))"

section \<open>What a running daemon serves\<close>

lemma path_push_twice:
  assumes "a \<noteq> []" "hd a \<noteq> CHR ''/''" "last a \<noteq> CHR ''/''" "b \<noteq> []" "hd b \<noteq> CHR ''/''"
  shows "path_push (path_push d a) b = path_push d (a @ ''/'' @ b)"
  using assms by (cases a; cases b) (auto simp: path_push_def)

lemma cert_paths:
  "path_push data_dir ''certs/server.crt'' = cert_file data_dir" "path_push data_dir ''certs/server.key'' = key_file data_dir"
  "path_push dir ''harness/certs/server.crt'' = cert_file (path_push dir ''harness'')"
proof -
  show crt: "path_push data_dir ''certs/server.crt'' = cert_file data_dir" for data_dir
    using path_push_twice [of "''certs''" "''server.crt''" data_dir] by simp
  show "path_push data_dir ''certs/server.key'' = key_file data_dir"
    using path_push_twice [of "''certs''" "''server.key''" data_dir] by simp
  show "path_push dir ''harness/certs/server.crt'' = cert_file (path_push dir ''harness'')"
    using path_push_twice [of "''harness''" "''certs/server.crt''" dir] by (simp add: crt)
qed

lemma start_server_ok:
  "start_server W E T N data_dir port d = (Inr server, d') \<longleftrightarrow>
     d' = d \<and> de_read E (cert_file data_dir) d = None \<and> de_read E (key_file data_dir) d = None \<and>
     (\<exists>m r cert_pem key_pem certs key cfg listener.
        dn_new_manager W = Inr m \<and> dn_open_registry W (path_push data_dir ''registry.json'') = Inr r \<and>
        hm_get (dk_files d) (cert_file data_dir) = Some cert_pem \<and> hm_get (dk_files d) (key_file data_dir) = Some key_pem \<and>
        tb_certs T cert_pem = map Inr certs \<and> tb_private_key T key_pem = Inr (Some key) \<and>
        tb_single_cert T certs key = Inr cfg \<and> nl_bind N (local_addr port) = Inr listener \<and>
        server = \<lparr>ln_state = \<lparr>ds_service_manager = m, ds_registry = r\<rparr>, ln_tls_acceptor = cfg,
          ln_addr = local_addr port, ln_listener = listener\<rparr>)"
  by (auto simp: start_server_def act_bind_Inr_iff Let_def read_ok_iff collect_results_ok ok_or_ok cert_paths)

text \<open>The daemon's own loading agrees with the one of the registry server but for the empty chain, which only the latter refuses itself.\<close>

lemma daemon_loads_like_registry:
  assumes "start_server W E T N data_dir port d = (Inr server, d')"
    and "de_open E (cert_file data_dir) d = None" "de_open E (key_file data_dir) d = None"
    and "\<forall>key. \<not> is_ok (tb_single_cert T [] key)"
  shows "from_files E T (cert_file data_dir) (key_file data_dir) d = (Inr (ln_tls_acceptor server), d)"
proof -
  from assms(1) obtain cert_pem key_pem certs key where served:
    "hm_get (dk_files d) (cert_file data_dir) = Some cert_pem" "hm_get (dk_files d) (key_file data_dir) = Some key_pem"
    "tb_certs T cert_pem = map Inr certs" "tb_private_key T key_pem = Inr (Some key)"
    "tb_single_cert T certs key = Inr (ln_tls_acceptor server)" "de_read E (cert_file data_dir) d = None" "de_read E (key_file data_dir) d = None"
    by (auto simp: start_server_ok)
  moreover have "certs \<noteq> []" using assms(4) served(5) by (metis is_ok_simps(2))
  ultimately show ?thesis using assms(2,3) by (auto simp: from_files_ok)
qed

text \<open>The certificate that is on disk after the daemon's check: the old one, looked at, or a new one.\<close>

lemma ensured_certificate:
  assumes "ensure_valid_certificates E data_dir i d = (Inr (), d')"
  obtains pem where "hm_get (dk_files d') (cert_file data_dir) = Some pem"
    "if path_exists (cert_file data_dir) d \<and> path_exists (key_file data_dir) d
     then hm_get (dk_files d) (cert_file data_dir) = Some pem \<and>
       (\<exists>ends. certificate_end E pem = Inr ends \<and> de_clock E (dk_ticks d) < ends + nanos_per_day)
     else \<exists>cert. ks_from_params E (dk_ticks d + 2)
         (server_params (de_clock E (dk_ticks d)) (de_clock E (dk_ticks d + 1))) = Inr cert \<and>
       ks_serialize_pem E cert = Inr pem"
proof (cases "path_exists (cert_file data_dir) d \<and> path_exists (key_file data_dir) d")
  case True
  then show thesis using assms ensure_existing(1) [of data_dir d E i d'] that by auto
next
  case False
  then have "generate_certificates E (path_push data_dir ''certs'') d = (Inr (), d')"
    using assms by (auto simp: ensure_valid_certificates_def)
  then show thesis
  proof (rule generate_certificates_ok)
    fix cert pem readme
    assume "ks_from_params E (dk_ticks d + 2)
        (server_params (de_clock E (dk_ticks d)) (de_clock E (dk_ticks d + 1))) = Inr cert"
      and "ks_serialize_pem E cert = Inr pem"
      and "dk_files d' = hm_insert (readme_file data_dir) readme (hm_insert (key_file data_dir)
        (ks_private_key_pem E cert) (hm_insert (cert_file data_dir) pem (dk_files d)))"
    with False show thesis by (intro that [of pem]) (auto simp: path_push_eq_iff)
  qed
qed

lemma add_roots_ok:
  "add_roots refused T chain roots0 = Inr roots \<longleftrightarrow>
     foldl (\<lambda>r cert. res_bind r (\<lambda>roots. tb_add_root T roots cert)) (Inr roots0) chain = Inr roots"
proof (induction chain arbitrary: roots0)
  case (Cons cert chain)
  have "foldl (\<lambda>r cert. res_bind r (\<lambda>roots. tb_add_root T roots cert)) (Inl e) chain = Inl e" for e
    by (induction chain) simp_all
  with Cons show ?case by (cases "tb_add_root T roots0 cert") simp_all
qed simp

lemma trusting_connection_ok:
  "trusting_connection N roots port = Inr client \<longleftrightarrow>
     (\<exists>tcp name tls ws. nl_tcp_connect N (local_addr port) = Inr tcp \<and> nl_server_name N ''localhost'' = Inr name \<and>
        nl_tls_connect N roots name tcp = Inr tls \<and>
        nl_client_async N (''wss://'' @ local_addr port @ ''/'') (Inr tls) = Inr ws \<and> client = TlsClient ws)"
  by (auto simp: trusting_connection_def Let_def res_bind_Inr_iff)

lemma connect_tls_reads:
  assumes "hm_get (dk_files d) (cert_file (path_push dir ''harness'')) = Some pem"
    and "de_read C (cert_file (path_push dir ''harness'')) d = None"
    and "tb_certs T pem = map Inr chain" and "chain \<noteq> []"
  shows "connect_tls (Some dir) C T N port verify d =
    (res_bind (add_roots root_refused T chain (tb_no_roots T)) (\<lambda>roots. trusting_connection N roots port), d)"
proof -
  have "path_exists (cert_file (path_push dir ''harness'')) d"
    using assms(1) by (simp add: path_exists_def hm_has_iff)
  moreover have "fs_read_to_string C (cert_file (path_push dir ''harness'')) d = (Inr pem, d)"
    using assms(1,2) by (simp add: read_ok_iff)
  moreover have "collect_results (tb_certs T pem) = Inr chain" by (simp add: collect_results_ok assms(3))
  ultimately show ?thesis using assms(4)
    by (cases "add_roots root_refused T chain (tb_no_roots T)")
      (simp_all add: connect_tls_def cert_paths act_bind_def act_context_def)
qed

text \<open>
  C38. A daemon that runs from the user's data directory and a client of the same user agree. The daemon
  presents the chain of the certificate file, which was there before and ended less than a day ago at
  the latest, or was made at this start; it is bound to the port given, on the loopback address. The client
  connects exactly if the same address can be dialled, the handshake for \<open>localhost\<close> succeeds with the
  certificates of that chain, added one by one to no others, as the roots it trusts, and the
  WebSocket opens at that address; it leaves the disk alone. The premise on the empty chain is what
  rustls documents.
\<close>

theorem client_trusts_daemon:
  assumes runs: "daemon_run W E T N (path_push dir ''harness'') port d = (Inr server, d1)"
    and chains: "\<forall>key. \<not> is_ok (tb_single_cert T [] key)"
    and kept: "dk_files d2 = dk_files d1" and reads: "de_read C (cert_file (path_push dir ''harness'')) d2 = None"
  shows "\<exists>pem chain key addr.
      (if path_exists (cert_file (path_push dir ''harness'')) d \<and> path_exists (key_file (path_push dir ''harness'')) d
       then hm_get (dk_files d) (cert_file (path_push dir ''harness'')) = Some pem \<and>
         (\<exists>ends. certificate_end E pem = Inr ends \<and> de_clock E (dk_ticks d) < ends + nanos_per_day)
       else \<exists>cert. ks_from_params E (dk_ticks d + 2)
           (server_params (de_clock E (dk_ticks d)) (de_clock E (dk_ticks d + 1))) = Inr cert \<and>
         ks_serialize_pem E cert = Inr pem) \<and>
      tb_certs T pem = map Inr chain \<and> tb_single_cert T chain key = Inr (ln_tls_acceptor server) \<and>
      addr = ''127.0.0.1:'' @ show_nat (unat port) \<and> nl_bind N addr = Inr (ln_listener server) \<and>
      snd (connect_tls (Some dir) C T N port verify d2) = d2 \<and>
      (\<forall>client. fst (connect_tls (Some dir) C T N port verify d2) = Inr client \<longleftrightarrow>
        (\<exists>roots tcp name tls ws.
           foldl (\<lambda>r cert. res_bind r (\<lambda>roots. tb_add_root T roots cert)) (Inr (tb_no_roots T)) chain = Inr roots \<and>
           nl_tcp_connect N addr = Inr tcp \<and> nl_server_name N ''localhost'' = Inr name \<and>
           nl_tls_connect N roots name tcp = Inr tls \<and>
           nl_client_async N (''wss://'' @ addr @ ''/'') (Inr tls) = Inr ws \<and> client = TlsClient ws))"
proof -
  let ?dir = "path_push dir ''harness''"
  from runs have ensured: "ensure_valid_certificates E ?dir False d = (Inr (), d1)"
    and started: "start_server W E T N ?dir port d1 = (Inr server, d1)"
    by (auto simp: daemon_run_def act_bind_Inr_iff start_server_ok)
  from ensured obtain pem where pem: "hm_get (dk_files d1) (cert_file ?dir) = Some pem"
    "if path_exists (cert_file ?dir) d \<and> path_exists (key_file ?dir) d
     then hm_get (dk_files d) (cert_file ?dir) = Some pem \<and>
       (\<exists>ends. certificate_end E pem = Inr ends \<and> de_clock E (dk_ticks d) < ends + nanos_per_day)
     else \<exists>cert. ks_from_params E (dk_ticks d + 2)
         (server_params (de_clock E (dk_ticks d)) (de_clock E (dk_ticks d + 1))) = Inr cert \<and>
       ks_serialize_pem E cert = Inr pem"
    by (rule ensured_certificate)
  from started pem(1) obtain chain key where served: "tb_certs T pem = map Inr chain"
    "tb_single_cert T chain key = Inr (ln_tls_acceptor server)" "nl_bind N (local_addr port) = Inr (ln_listener server)"
    by (auto simp: start_server_ok)
  have "chain \<noteq> []" using chains served(2) by (metis is_ok_simps(2))
  with connect_tls_reads [OF _ reads served(1)] pem(1)
  have connect: "connect_tls (Some dir) C T N port verify d2 =
      (res_bind (add_roots root_refused T chain (tb_no_roots T)) (\<lambda>roots. trusting_connection N roots port), d2)"
    by (simp add: kept)
  let ?addr = "''127.0.0.1:'' @ show_nat (unat port)"
  have connects: "fst (connect_tls (Some dir) C T N port verify d2) = Inr client \<longleftrightarrow>
      (\<exists>roots tcp name tls ws.
         foldl (\<lambda>r cert. res_bind r (\<lambda>roots. tb_add_root T roots cert)) (Inr (tb_no_roots T)) chain = Inr roots \<and>
         nl_tcp_connect N ?addr = Inr tcp \<and> nl_server_name N ''localhost'' = Inr name \<and>
         nl_tls_connect N roots name tcp = Inr tls \<and>
         nl_client_async N (''wss://'' @ ?addr @ ''/'') (Inr tls) = Inr ws \<and> client = TlsClient ws)" for client
    unfolding connect fst_conv res_bind_Inr_iff add_roots_ok trusting_connection_ok local_addr_def
    by (simp only: ex_simps)
  have disk: "snd (connect_tls (Some dir) C T N port verify d2) = d2" by (simp only: connect snd_conv)
  show ?thesis
    by (rule exI [of _ pem], rule exI [of _ chain], rule exI [of _ key], rule exI [of _ ?addr], intro conjI allI)
      (use pem(2) served [unfolded local_addr_def] in \<open>simp_all only: disk connects\<close>)
qed

section \<open>Witness\<close>

definition demo_parts :: "(unit, unit) daemon_parts" where
  "demo_parts = \<lparr>dn_new_manager = Inr (), dn_open_registry = \<lambda>_. Inr ()\<rparr>"

definition demo_tls :: "(string, unit, string list, string list) tls_lib" where
  "demo_tls = \<lparr>tb_certs = \<lambda>pem. [Inr pem], tb_private_key = \<lambda>_. Inr (Some ()),
     tb_single_cert = \<lambda>certs _. if certs = [] then Inl ''no certificate'' else Inr certs, tb_no_roots = [],
     tb_add_root = \<lambda>roots cert. Inr (cert # roots), tb_webpki_roots = []\<rparr>"

definition demo_net :: "(unit, string list, string list, unit, unit, unit) net_lib" where
  "demo_net = \<lparr>nl_bind = \<lambda>_. Inr (), nl_tcp_connect = \<lambda>_. Inr (), nl_server_name = Inr, nl_tls_accept = \<lambda>_ _. Inr (),
     nl_tls_connect = \<lambda>roots _ _. if roots = [] then Inl ''unknown issuer'' else Inr (),
     nl_accept_async = \<lambda>_. Inr (), nl_client_async = \<lambda>_ _. Inr ()\<rparr>"

lemma one_chain: "[Inr c] = map Inr certs \<and> certs \<noteq> [] \<longleftrightarrow> certs = [c]" "[Inr c] = map Inr certs \<longleftrightarrow> certs = [c]"
  by (cases certs; auto)+

lemma demo_daemon_runs:
  "\<exists>server. daemon_run demo_parts (demo_certs int) demo_tls demo_net (path_push ''/u'' ''harness'') 9443 empty_disk = (Inr server, started_disk)"
proof -
  have "hm_has (dk_files started_disk) (cert_file ''/u/harness'')" "hm_has (dk_files started_disk) (key_file ''/u/harness'')"
    using ensure_puts_files [OF demo_starts(1)] by (simp_all add: demo_fields)
  then have "\<exists>server. start_server demo_parts (demo_certs int) demo_tls demo_net ''/u/harness'' 9443 started_disk = (Inr server, started_disk)"
    by (auto simp: start_server_ok demo_parts_def demo_tls_def demo_net_def demo_fields hm_has_iff one_chain)
  moreover have "path_push ''/u'' ''harness'' = ''/u/harness''" by code_simp
  ultimately show ?thesis using demo_starts(1) by (auto simp: daemon_run_def)
qed

lemma demo_roots:
  "roots \<noteq> [] \<Longrightarrow> \<exists>roots'. roots' \<noteq> [] \<and>
     foldl (\<lambda>r cert. res_bind r (\<lambda>roots. tb_add_root demo_tls roots cert)) (Inr roots) chain = Inr roots'"
  by (induction chain arbitrary: roots) (simp_all add: demo_tls_def)

lemma demo_chain: "tb_single_cert demo_tls chain key = Inr cfg \<Longrightarrow> chain \<noteq> []"
  by (auto simp: demo_tls_def)

theorem client_trusts_daemon_witness:
  "fst (connect_tls (Some ''/u'') (demo_certs int) demo_tls demo_net 9443 True started_disk) = Inr (TlsClient ())"
proof -
  obtain server where runs: "daemon_run demo_parts (demo_certs int) demo_tls demo_net (path_push ''/u'' ''harness'') 9443 empty_disk = (Inr server, started_disk)"
    using demo_daemon_runs by blast
  have chains: "\<forall>key. \<not> is_ok (tb_single_cert demo_tls [] key)" by (simp add: demo_tls_def)
  have reads: "de_read (demo_certs int) (cert_file (path_push ''/u'' ''harness'')) started_disk = None" by (simp add: demo_fields)
  from client_trusts_daemon [OF runs chains refl reads, of True] obtain chain key addr where
    chain: "tb_single_cert demo_tls chain key = Inr (ln_tls_acceptor server)" and
    connects: "\<forall>client. fst (connect_tls (Some ''/u'') (demo_certs int) demo_tls demo_net 9443 True started_disk) = Inr client \<longleftrightarrow>
      (\<exists>roots tcp name tls ws.
         foldl (\<lambda>r cert. res_bind r (\<lambda>roots. tb_add_root demo_tls roots cert)) (Inr (tb_no_roots demo_tls)) chain = Inr roots \<and>
         nl_tcp_connect demo_net addr = Inr tcp \<and> nl_server_name demo_net ''localhost'' = Inr name \<and>
         nl_tls_connect demo_net roots name tcp = Inr tls \<and>
         nl_client_async demo_net (''wss://'' @ addr @ ''/'') (Inr tls) = Inr ws \<and> client = TlsClient ws)"
    by blast
  from demo_chain [OF chain] obtain c cs where c: "chain = c # cs" by (cases chain) simp_all
  from demo_roots [of "[c]" cs] obtain roots where "roots \<noteq> []"
    "foldl (\<lambda>r cert. res_bind r (\<lambda>roots. tb_add_root demo_tls roots cert)) (Inr [c]) cs = Inr roots" by auto
  with connects show ?thesis by (simp add: c) (simp add: demo_tls_def demo_net_def)
qed

end
