(* ===== verification/Core_Action.thy ===== *)
theory Core_Action
  imports Orch_Config Cfg_Types
begin

text \<open>
  The actions of a daemon, \<^verbatim>\<open>crates/harness-core/src/action.rs\<close>, with the errors of \<^verbatim>\<open>error.rs\<close> and the
  service states of \<^verbatim>\<open>service.rs\<close> that the errors show. An action is an operation on the world
  \<open>'w\<close>; the \<open>IndexMap\<close> of actions keeps insertion order, as an association list does.
\<close>

section \<open>Errors\<close>

datatype CoreState =
    CsNotStarted
  | CsStarting
  | CsRunning
  | CsSetupRequired
  | CsSettingUp
  | CsSetupComplete
  | CsFailed string

datatype core_msg =
    CText string
  | CUnknownType string string string "string list"
  | CNotInState string CoreState CoreState
  | CStateTimeout string CoreState

datatype CoreError =
    CeOrchestration OrchError
  | CeRegistry RegError
  | CeConfig ConfigError
  | CeAction core_msg
  | CeServiceType core_msg
  | CeClient core_msg
  | CeDaemon core_msg
  | CeSerialization string
  | CeWebSocket core_msg
  | CeIo string
  | CeValidation core_msg

section \<open>The action registry\<close>

type_synonym 'w action_fn = "json \<Rightarrow> ('w, CoreError, json) act"

record ActionInfo =
  ai_name :: string
  ai_description :: string
  ai_params_schema :: "json option"
  ai_returns_schema :: "json option"
  ai_category :: "string option"
  ai_deprecated :: bool

definition action_info_new :: "string \<Rightarrow> string \<Rightarrow> ActionInfo" where
  "action_info_new name description =
     \<lparr>ai_name = name, ai_description = description, ai_params_schema = None, ai_returns_schema = None,
      ai_category = None, ai_deprecated = False\<rparr>"

definition with_params_schema :: "json \<Rightarrow> ActionInfo \<Rightarrow> ActionInfo" where
  "with_params_schema schema i = i\<lparr>ai_params_schema := Some schema\<rparr>"

definition with_returns_schema :: "json \<Rightarrow> ActionInfo \<Rightarrow> ActionInfo" where
  "with_returns_schema schema i = i\<lparr>ai_returns_schema := Some schema\<rparr>"

definition with_category :: "string \<Rightarrow> ActionInfo \<Rightarrow> ActionInfo" where
  "with_category category i = i\<lparr>ai_category := Some category\<rparr>"

definition as_deprecated :: "ActionInfo \<Rightarrow> ActionInfo" where
  "as_deprecated i = i\<lparr>ai_deprecated := True\<rparr>"

record 'w ActionRegistry =
  ar_actions :: "(string, 'w action_fn) hmap"
  ar_metadata :: "(string, ActionInfo) hmap"

definition action_registry_new :: "'w ActionRegistry" where
  "action_registry_new = \<lparr>ar_actions = [], ar_metadata = []\<rparr>"

definition register_action :: "ActionInfo \<Rightarrow> 'w action_fn \<Rightarrow> ('w ActionRegistry, CoreError, unit) act" where
  "register_action info action r =
     (let name = ai_name info in
      if hm_has (ar_actions r) name then
        (Inl (CeAction (CText (''Action '' @ quoted name @ '' already registered''))), r)
      else
        (Inr (), r\<lparr>ar_actions := hm_insert name action (ar_actions r),
           ar_metadata := hm_insert name info (ar_metadata r)\<rparr>))"

definition register_simple :: "string \<Rightarrow> string \<Rightarrow> 'w action_fn \<Rightarrow> ('w ActionRegistry, CoreError, unit) act" where
  "register_simple name description action = register_action (action_info_new name description) action"

definition invoke :: "'w ActionRegistry \<Rightarrow> string \<Rightarrow> json \<Rightarrow> ('w, CoreError, json) act" where
  "invoke r name params =
     act_bind (act_lift (ok_or (hm_get (ar_actions r) name)
       (CeAction (CText (''Action '' @ quoted name @ '' not found''))))) (\<lambda>action. action params)"

definition get_info :: "'w ActionRegistry \<Rightarrow> string \<Rightarrow> ActionInfo option" where
  "get_info r name = hm_get (ar_metadata r) name"

definition list_actions :: "'w ActionRegistry \<Rightarrow> ActionInfo list" where
  "list_actions r = List.map_filter (hm_get (ar_metadata r)) (hm_keys (ar_actions r))"

definition actions_by_category :: "'w ActionRegistry \<Rightarrow> string \<Rightarrow> ActionInfo list" where
  "actions_by_category r category = filter (\<lambda>info. ai_category info = Some category) (hm_values (ar_metadata r))"

definition has_action :: "'w ActionRegistry \<Rightarrow> string \<Rightarrow> bool" where
  "has_action r name = hm_has (ar_actions r) name"

section \<open>Runs of registrations\<close>

text \<open>Registrations in sequence, refused ones leaving the registry as it was.\<close>

fun register_actions :: "(ActionInfo \<times> 'w action_fn) list \<Rightarrow> 'w ActionRegistry \<Rightarrow> 'w ActionRegistry" where
  "register_actions [] r = r"
| "register_actions ((info, f) # regs) r = register_actions regs (snd (register_action info f r))"

text \<open>The registrations that are accepted: the first of each name.\<close>

fun first_named :: "string set \<Rightarrow> (ActionInfo \<times> 'f) list \<Rightarrow> (ActionInfo \<times> 'f) list" where
  "first_named seen [] = []"
| "first_named seen ((info, f) # regs) =
     (if ai_name info \<in> seen then first_named seen regs
      else (info, f) # first_named (insert (ai_name info) seen) regs)"

definition action_table :: "(ActionInfo \<times> 'w action_fn) list \<Rightarrow> (string, 'w action_fn) hmap" where
  "action_table regs = map (\<lambda>(info, f). (ai_name info, f)) regs"

definition info_table :: "(ActionInfo \<times> 'w action_fn) list \<Rightarrow> (string, ActionInfo) hmap" where
  "info_table regs = map (\<lambda>(info, f). (ai_name info, info)) regs"

lemma hm_insert_new: "k \<notin> fst ` set m \<Longrightarrow> hm_insert k v m = m @ [(k, v)]"
  unfolding hm_insert_def by (induction m) auto

lemma names_of_tables [simp]:
  "fst ` set (action_table regs) = (ai_name \<circ> fst) ` set regs" "fst ` set (info_table regs) = (ai_name \<circ> fst) ` set regs"
  by (force simp: action_table_def info_table_def image_iff)+

lemma register_actions_tables:
  "ar_actions r = action_table acc \<Longrightarrow> ar_metadata r = info_table acc \<Longrightarrow>
     (let k = acc @ first_named ((ai_name \<circ> fst) ` set acc) regs in
      ar_actions (register_actions regs r) = action_table k \<and> ar_metadata (register_actions regs r) = info_table k)"
proof (induction regs arbitrary: r acc)
  case (Cons reg regs)
  obtain info f where reg: "reg = (info, f)" by (cases reg)
  show ?case
  proof (cases "ai_name info \<in> (ai_name \<circ> fst) ` set acc")
    case True
    then have "snd (register_action info f r) = r"
      using Cons(2) by (simp add: register_action_def hm_has_def Let_def)
    with Cons True show ?thesis by (simp add: reg)
  next
    case False
    let ?r = "snd (register_action info f r)" and ?acc = "acc @ [(info, f)]"
    have "ar_actions ?r = action_table ?acc" "ar_metadata ?r = info_table ?acc"
      using False Cons(2,3) by (simp_all add: register_action_def hm_has_def Let_def hm_insert_new)
        (simp_all add: action_table_def info_table_def)
    from Cons(1) [OF this] False show ?thesis by (simp add: reg)
  qed
qed simp

lemma first_named_distinct: "distinct (map (ai_name \<circ> fst) (first_named seen regs))"
  and first_named_unseen: "(ai_name \<circ> fst) ` set (first_named seen regs) \<inter> seen = {}"
  by (induction seen regs rule: first_named.induct) auto

lemma first_named_find:
  "map_of (action_table (first_named seen regs)) n =
     (if n \<in> seen then None else map_option snd (find (\<lambda>(info, f). ai_name info = n) regs))"
  by (induction seen regs rule: first_named.induct) (auto simp: action_table_def)

lemma list_of_tables:
  assumes "distinct (map (ai_name \<circ> fst) regs)" "ar_actions r = action_table regs" "ar_metadata r = info_table regs"
  shows "list_actions r = map fst regs"
proof -
  have "hm_get (info_table regs) (ai_name info) = Some info" if "(info, f) \<in> set regs" for info f
    using that assms(1)
    by (auto simp: hm_get_def info_table_def comp_def case_prod_unfold intro!: map_of_is_SomeI rev_image_eqI [of "(info, f)"])
  then have "\<forall>x\<in>set regs. hm_get (info_table regs) (ai_name (fst x)) = Some (fst x)" by auto
  then have "List.map_filter (hm_get (info_table regs)) (map (ai_name \<circ> fst) xs) = map fst xs" if "set xs \<subseteq> set regs" for xs
    using that by (induction xs) (auto simp: List.map_filter_simps)
  from this [of regs] show ?thesis
    using assms(2,3) by (simp add: list_actions_def hm_keys_def action_table_def case_prod_unfold comp_def)
qed

text \<open>
  The first registration of a name counts. After any registrations, refused ones
  included, the registry lists the information of the first registration of each name, in the order they were
  made; a name is known if it was registered, has the information given first, and invoking it
  runs the function given first; any other name is an error and runs nothing.
\<close>

theorem actions_first_registration:
  fixes regs :: "(ActionInfo \<times> 'w action_fn) list"
  shows "list_actions (register_actions regs action_registry_new) = map fst (first_named {} regs) \<and>
    (case find (\<lambda>(info, f). ai_name info = name) regs of
       Some (info, f) \<Rightarrow> has_action (register_actions regs action_registry_new) name \<and>
         get_info (register_actions regs action_registry_new) name = Some info \<and>
         invoke (register_actions regs action_registry_new) name params w = f params w
     | None \<Rightarrow> \<not> has_action (register_actions regs action_registry_new) name \<and>
         get_info (register_actions regs action_registry_new) name = None \<and>
         (\<exists>e. invoke (register_actions regs action_registry_new) name params w = (Inl e, w)))"
proof -
  let ?r = "register_actions regs action_registry_new" and ?k = "first_named {} regs"
  have t: "ar_actions ?r = action_table ?k" "ar_metadata ?r = info_table ?k"
    using register_actions_tables [of action_registry_new "[]" regs]
    by (simp_all add: action_registry_new_def action_table_def info_table_def Let_def)
  have list: "list_actions ?r = map fst ?k"
    by (rule list_of_tables [OF first_named_distinct t])
  have get: "hm_get (ar_actions ?r) name = map_option snd (find (\<lambda>(info, f). ai_name info = name) regs)"
    using first_named_find [of "{}" regs name] by (simp add: t hm_get_def)
  have info: "map_of (info_table (first_named seen regs)) name =
      (if name \<in> seen then None else map_option fst (find (\<lambda>(info, f). ai_name info = name) regs))" for seen
    by (induction seen regs rule: first_named.induct) (auto simp: info_table_def)
  have "get_info ?r name = map_option fst (find (\<lambda>(info, f). ai_name info = name) regs)"
    using info [of "{}"] by (simp add: get_info_def t hm_get_def)
  with list get show ?thesis
    by (auto simp: has_action_def hm_has_iff invoke_def act_bind_def split: option.split)
qed

end
