(* ===== verification/Core_Stacks.thy ===== *)
theory Core_Stacks
  imports Core_Action
begin

text \<open>
  The stacks of services and tasks, \<^verbatim>\<open>crates/harness-core/src/service.rs\<close> and \<^verbatim>\<open>task.rs\<close>: typed
  implementations, their wrappers that speak JSON, the two stacks, and the task that converts
  typed events to JSON. A trait is a record of its methods; \<open>'a\<close> and \<open>'ev\<close> are its action and
  event types with the decoder and encoder serde gives them. What a channel will still deliver is a list.
\<close>

section \<open>Services\<close>

definition is_healthy :: "CoreState \<Rightarrow> bool" where
  "is_healthy s = (s = CsRunning \<or> s = CsSetupComplete)"

definition needs_setup :: "CoreState \<Rightarrow> bool" where
  "needs_setup s = (s = CsSetupRequired)"

definition is_setting_up :: "CoreState \<Rightarrow> bool" where
  "is_setting_up s = (s = CsSettingUp)"

record ('w, 'a, 'ev) service_impl =
  si_service_type :: string
  si_name :: string
  si_description :: string
  si_decode :: "json \<Rightarrow> string + 'a"
  si_encode :: "'ev \<Rightarrow> json option"
  si_action_schema :: json
  si_event_schema :: json
  si_dispatch_action :: "'a \<Rightarrow> ('w, CoreError, 'ev list) act"

record ('w, 'a, 'ev) stateful_impl =
  sf_service :: "('w, 'a, 'ev) service_impl"
  sf_get_state :: "('w, CoreError, CoreState) act"
  sf_wait_for_state :: "CoreState \<Rightarrow> nat \<Rightarrow> ('w, CoreError, unit) act"
  sf_is_setup_complete :: "('w, CoreError, bool) act"
  sf_perform_setup :: "('w, CoreError, unit) act"

text \<open>
  The default polling of a stateful service: \<open>elapsed\<close> reads the clock; \<open>None\<close> if it does not return.
\<close>

partial_function (option) poll_for_state ::
    "('w \<Rightarrow> nat \<times> 'w) \<Rightarrow> ('w, CoreError, CoreState) act \<Rightarrow> string \<Rightarrow> CoreState \<Rightarrow> nat \<Rightarrow> 'w \<Rightarrow>
      ((CoreError + unit) \<times> 'w) option" where
  "poll_for_state elapsed get_state name target timeout w =
     (case elapsed w of (t, w) \<Rightarrow>
        if t < timeout then
          (case get_state w of
             (Inl e, w) \<Rightarrow> Some (Inl e, w)
           | (Inr current, w) \<Rightarrow>
               if current = target then Some (Inr (), w)
               else poll_for_state elapsed get_state name target timeout w)
        else Some (Inl (CeServiceType (CStateTimeout name target)), w))"

record ActionDescriptor =
  ad_name :: string
  ad_description :: string
  ad_input_schema :: json
  ad_event_schema :: json

definition available_actions :: "('w, 'a, 'ev) service_impl \<Rightarrow> ActionDescriptor list" where
  "available_actions s = [\<lparr>ad_name = ''default'', ad_description = si_description s,
     ad_input_schema = si_action_schema s, ad_event_schema = si_event_schema s\<rparr>]"

definition deserialize_failed :: "string \<Rightarrow> CoreError" where
  "deserialize_failed e = CeServiceType (CText (''Failed to deserialize action: '' @ e))"

definition dispatch_typed :: "('w, 'a, 'ev) service_impl \<Rightarrow> string \<Rightarrow> json \<Rightarrow> ('w, CoreError, 'ev list) act" where
  "dispatch_typed s action_name input =
     act_bind (act_lift (map_err deserialize_failed (si_decode s input))) (\<lambda>action. si_dispatch_action s action)"

text \<open>
  A service behind JSON. Dispatching yields the events the converter will read, each as
  \<open>to_value\<close> sees it: \<open>None\<close> where it cannot be converted.
\<close>

record 'w json_service =
  js_name :: string
  js_description :: string
  js_available_actions :: "ActionDescriptor list"
  js_dispatch_json :: "string \<Rightarrow> json \<Rightarrow> ('w, CoreError, json option list) act"
  js_get_state :: "('w, CoreError, CoreState) act"
  js_wait_for_state :: "CoreState \<Rightarrow> nat \<Rightarrow> ('w, CoreError, unit) act"
  js_has_setup :: bool
  js_perform_setup :: "('w, CoreError, unit) act"
  js_is_setup_complete :: "('w, CoreError, bool) act"

definition dispatch_json :: "('w, 'a, 'ev) service_impl \<Rightarrow> string \<Rightarrow> json \<Rightarrow> ('w, CoreError, json option list) act" where
  "dispatch_json s action_name input =
     act_bind (dispatch_typed s action_name input) (\<lambda>events. act_ret (map (si_encode s) events))"

definition default_get_state :: "('w, CoreError, CoreState) act" where
  "default_get_state = act_ret CsRunning"

definition default_wait_for_state :: "string \<Rightarrow> CoreState \<Rightarrow> nat \<Rightarrow> ('w, CoreError, unit) act" where
  "default_wait_for_state name target timeout =
     act_bind default_get_state (\<lambda>current.
       if current = target then act_ret () else act_err (CeServiceType (CNotInState name current target)))"

definition service_wrapper :: "('w, 'a, 'ev) service_impl \<Rightarrow> 'w json_service" where
  "service_wrapper s = \<lparr>js_name = si_name s, js_description = si_description s,
     js_available_actions = available_actions s, js_dispatch_json = dispatch_json s,
     js_get_state = default_get_state, js_wait_for_state = default_wait_for_state (si_name s),
     js_has_setup = False, js_perform_setup = act_ret (), js_is_setup_complete = act_ret True\<rparr>"

definition stateful_wrapper :: "('w, 'a, 'ev) stateful_impl \<Rightarrow> 'w json_service" where
  "stateful_wrapper f = (let s = sf_service f in
     \<lparr>js_name = si_name s, js_description = si_description s,
     js_available_actions = available_actions s, js_dispatch_json = dispatch_json s,
     js_get_state = sf_get_state f, js_wait_for_state = sf_wait_for_state f,
     js_has_setup = True, js_perform_setup = sf_perform_setup f, js_is_setup_complete = sf_is_setup_complete f\<rparr>)"

section \<open>The service stack\<close>

record 'w ServiceStack =
  svs_services :: "(string, 'w json_service) hmap"
  svs_service_types :: "string list"

definition service_stack_new :: "'w ServiceStack" where
  "service_stack_new = \<lparr>svs_services = [], svs_service_types = []\<rparr>"

text \<open>Both registrations do this with the wrapper of the kind they are for.\<close>

definition register_wrapped :: "string \<Rightarrow> string \<Rightarrow> 'w json_service \<Rightarrow> ('w ServiceStack, CoreError, unit) act" where
  "register_wrapped instance_name service_type wrapper st =
     (if hm_has (svs_services st) instance_name then
        (Inl (CeServiceType (CText (''Service instance '' @ quoted instance_name @ '' already registered''))), st)
      else
        (Inr (), st\<lparr>svs_services := hm_insert instance_name wrapper (svs_services st),
           svs_service_types := hs_insert service_type (svs_service_types st)\<rparr>))"

definition register_service :: "string \<Rightarrow> ('w, 'a, 'ev) service_impl \<Rightarrow> ('w ServiceStack, CoreError, unit) act" where
  "register_service instance_name s = register_wrapped instance_name (si_service_type s) (service_wrapper s)"

definition register_stateful :: "string \<Rightarrow> ('w, 'a, 'ev) stateful_impl \<Rightarrow> ('w ServiceStack, CoreError, unit) act" where
  "register_stateful instance_name f =
     register_wrapped instance_name (si_service_type (sf_service f)) (stateful_wrapper f)"

definition stack_get :: "'w ServiceStack \<Rightarrow> string \<Rightarrow> 'w json_service option" where
  "stack_get st instance_name = hm_get (svs_services st) instance_name"

definition stack_all_actions :: "'w ServiceStack \<Rightarrow> (string \<times> ActionDescriptor) list" where
  "stack_all_actions st = concat (map (\<lambda>(i, s). map (Pair i) (js_available_actions s)) (svs_services st))"

definition list_types :: "'w ServiceStack \<Rightarrow> string list" where
  "list_types st = svs_service_types st"

text \<open>The receiver of a dispatch, with the converter spawned.\<close>

record conversion =
  cv_incoming :: "json option list"
  cv_queue :: "json list"
  cv_received :: "json list"
  cv_open :: bool

definition conversion_start :: "json option list \<Rightarrow> conversion" where
  "conversion_start events = \<lparr>cv_incoming = events, cv_queue = [], cv_received = [], cv_open = True\<rparr>"

definition dispatch :: "'w ServiceStack \<Rightarrow> string \<Rightarrow> string \<Rightarrow> json \<Rightarrow> ('w, CoreError, conversion) act" where
  "dispatch st instance_name action_name input =
     act_bind (act_lift (ok_or (stack_get st instance_name)
       (CeServiceType (CText (''Service instance '' @ quoted instance_name @ '' not found''))))) (\<lambda>service.
     act_bind (js_dispatch_json service action_name input) (\<lambda>events.
     act_ret (conversion_start events)))"

section \<open>Tasks\<close>

datatype TaskState = TkNotStarted | TkRunning | TkCompleted | TkFailed string

definition is_terminal :: "TaskState \<Rightarrow> bool" where
  "is_terminal s = (case s of TkCompleted \<Rightarrow> True | TkFailed _ \<Rightarrow> True | _ \<Rightarrow> False)"

definition task_is_completed :: "TaskState \<Rightarrow> bool" where
  "task_is_completed s = (s = TkCompleted)"

record TaskResult =
  tr_state :: TaskState
  tr_output :: "json option"
  tr_metadata :: "(string, string) hmap"

record ('w, 'a, 'ev) task_impl =
  ti_task_type :: string
  ti_name :: string
  ti_description :: string
  ti_decode :: "json \<Rightarrow> string + 'a"
  ti_encode :: "'ev \<Rightarrow> json option"
  ti_action_schema :: json
  ti_event_schema :: json
  ti_is_completed :: "('w, CoreError, bool) act"
  ti_execute :: "'a \<Rightarrow> ('w, CoreError, 'ev list) act"

record 'w json_task =
  jt_name :: string
  jt_description :: string
  jt_is_completed :: "('w, CoreError, bool) act"
  jt_execute_json :: "json \<Rightarrow> ('w, CoreError, json option list) act"
  jt_action_schema :: json
  jt_event_schema :: json

definition execute_typed :: "('w, 'a, 'ev) task_impl \<Rightarrow> json \<Rightarrow> ('w, CoreError, 'ev list) act" where
  "execute_typed t input =
     act_bind (act_lift (map_err deserialize_failed (ti_decode t input))) (\<lambda>action. ti_execute t action)"

definition execute_json :: "('w, 'a, 'ev) task_impl \<Rightarrow> json \<Rightarrow> ('w, CoreError, json option list) act" where
  "execute_json t input = act_bind (execute_typed t input) (\<lambda>events. act_ret (map (ti_encode t) events))"

definition task_wrapper :: "('w, 'a, 'ev) task_impl \<Rightarrow> 'w json_task" where
  "task_wrapper t = \<lparr>jt_name = ti_name t, jt_description = ti_description t, jt_is_completed = ti_is_completed t,
     jt_execute_json = execute_json t, jt_action_schema = ti_action_schema t, jt_event_schema = ti_event_schema t\<rparr>"

record 'w TaskStack =
  ts_tasks :: "(string, 'w json_task) hmap"
  ts_task_types :: "string list"

definition task_stack_new :: "'w TaskStack" where
  "task_stack_new = \<lparr>ts_tasks = [], ts_task_types = []\<rparr>"

definition register_task_wrapped :: "string \<Rightarrow> string \<Rightarrow> 'w json_task \<Rightarrow> ('w TaskStack, CoreError, unit) act" where
  "register_task_wrapped instance_name task_type wrapper st =
     (if hm_has (ts_tasks st) instance_name then
        (Inl (CeServiceType (CText (''Task instance '' @ quoted instance_name @ '' already registered''))), st)
      else
        (Inr (), st\<lparr>ts_tasks := hm_insert instance_name wrapper (ts_tasks st),
           ts_task_types := hs_insert task_type (ts_task_types st)\<rparr>))"

definition register_task :: "string \<Rightarrow> ('w, 'a, 'ev) task_impl \<Rightarrow> ('w TaskStack, CoreError, unit) act" where
  "register_task instance_name t = register_task_wrapped instance_name (ti_task_type t) (task_wrapper t)"

definition task_get :: "'w TaskStack \<Rightarrow> string \<Rightarrow> 'w json_task option" where
  "task_get st instance_name = hm_get (ts_tasks st) instance_name"

definition list_task_types :: "'w TaskStack \<Rightarrow> string list" where
  "list_task_types st = ts_task_types st"

definition task_or_missing :: "'w TaskStack \<Rightarrow> string \<Rightarrow> CoreError + 'w json_task" where
  "task_or_missing st instance_name =
     ok_or (task_get st instance_name)
       (CeServiceType (CText (''Task instance '' @ quoted instance_name @ '' not found'')))"

definition execute_task :: "'w TaskStack \<Rightarrow> string \<Rightarrow> json \<Rightarrow> ('w, CoreError, conversion) act" where
  "execute_task st instance_name input =
     act_bind (act_lift (task_or_missing st instance_name)) (\<lambda>task.
     act_bind (jt_execute_json task input) (\<lambda>events.
     act_ret (conversion_start events)))"

definition stack_is_completed :: "'w TaskStack \<Rightarrow> string \<Rightarrow> ('w, CoreError, bool) act" where
  "stack_is_completed st instance_name =
     act_bind (act_lift (task_or_missing st instance_name)) jt_is_completed"

section \<open>Registering in a stack\<close>

text \<open>
  What both stacks promise of a registration: a taken name is refused and changes nothing, a free
  one is entered with the type of what is registered.
\<close>

fun register_all :: "(string \<Rightarrow> 'i \<Rightarrow> ('s, CoreError, unit) act) \<Rightarrow> (string \<times> 'i) list \<Rightarrow> 's \<Rightarrow> 's" where
  "register_all put [] s = s"
| "register_all put ((n, i) # regs) s = register_all put regs (snd (put n i s))"

locale instance_stack =
  fixes table :: "'s \<Rightarrow> (string, 'j) hmap"
    and types :: "'s \<Rightarrow> string list"
    and put :: "string \<Rightarrow> 'i \<Rightarrow> ('s, CoreError, unit) act"
    and type_of :: "'i \<Rightarrow> string"
    and wrap :: "'i \<Rightarrow> 'j"
  assumes put_taken: "hm_has (table s) n \<Longrightarrow> \<exists>e. put n i s = (Inl e, s)"
    and put_free: "\<not> hm_has (table s) n \<Longrightarrow> \<exists>s'. put n i s = (Inr (), s') \<and>
      table s' = hm_insert n (wrap i) (table s) \<and> types s' = hs_insert (type_of i) (types s)"
begin

lemma put_get:
  "hm_get (table (snd (put n i s))) m =
     (case hm_get (table s) m of Some j \<Rightarrow> Some j | None \<Rightarrow> if m = n then Some (wrap i) else None)"
  using put_taken [of s n i] put_free [of s n i] by (cases "hm_has (table s) n") (auto simp: hm_has_iff split: option.split)

lemma put_types:
  "set (types (snd (put n i s))) = (if hm_has (table s) n then set (types s) else insert (type_of i) (set (types s)))"
  using put_taken [of s n i] put_free [of s n i] by auto

lemma register_all_get:
  "hm_get (table (register_all put regs s)) m =
     (case hm_get (table s) m of Some j \<Rightarrow> Some j | None \<Rightarrow> map_option wrap (map_of regs m))"
proof (induction regs arbitrary: s)
  case (Cons reg regs)
  then show ?case by (cases reg) (auto simp: put_get split: option.split)
qed (simp split: option.split)

text \<open>The types are those of the registrations that were accepted.\<close>

lemma register_all_types:
  "set (types (register_all put regs s)) =
     set (types s) \<union> {type_of i | n i. \<not> hm_has (table s) n \<and> map_of regs n = Some i}"
proof (induction regs arbitrary: s)
  case (Cons reg regs)
  obtain n i where reg: "reg = (n, i)" by (cases reg)
  have has: "hm_has (table (snd (put n i s))) m \<longleftrightarrow> hm_has (table s) m \<or> m = n" for m
    by (simp add: hm_has_iff put_get split: option.split)
  show ?case
    by (auto simp: reg Cons put_types has)
qed simp

end

interpretation services: instance_stack svs_services svs_service_types
  "\<lambda>n (ty, js). register_wrapped n ty js" fst snd
  by (rule instance_stack.intro) (auto simp: register_wrapped_def)

interpretation tasks: instance_stack ts_tasks ts_task_types
  "\<lambda>n (ty, jt). register_task_wrapped n ty jt" fst snd
  by (rule instance_stack.intro) (auto simp: register_task_wrapped_def)

abbreviation register_services :: "(string \<times> string \<times> 'w json_service) list \<Rightarrow> 'w ServiceStack \<Rightarrow> 'w ServiceStack" where
  "register_services \<equiv> register_all (\<lambda>n (ty, js). register_wrapped n ty js)"

abbreviation register_tasks :: "(string \<times> string \<times> 'w json_task) list \<Rightarrow> 'w TaskStack \<Rightarrow> 'w TaskStack" where
  "register_tasks \<equiv> register_all (\<lambda>n (ty, jt). register_task_wrapped n ty jt)"

section \<open>Converting events\<close>

text \<open>
  The spawned converter and its consumer: the converter takes an event and passes it on if it can be
  converted and the receiver is still there; the consumer takes from the queue, or drops the receiver.
\<close>

definition convert_next :: "json option \<Rightarrow> json option list \<Rightarrow> conversion \<Rightarrow> conversion" where
  "convert_next event rest c =
     c\<lparr>cv_incoming := rest,
       cv_queue := (case event of
         Some j \<Rightarrow> if cv_open c then cv_queue c @ [j] else cv_queue c
       | None \<Rightarrow> cv_queue c)\<rparr>"

inductive conv_step :: "conversion \<Rightarrow> conversion \<Rightarrow> bool" where
  convert: "cv_incoming c = event # rest \<Longrightarrow> conv_step c (convert_next event rest c)"
| receive: "cv_open c \<Longrightarrow> cv_queue c = j # q \<Longrightarrow>
    conv_step c (c\<lparr>cv_queue := q, cv_received := cv_received c @ [j]\<rparr>)"
| close: "cv_open c \<Longrightarrow> conv_step c (c\<lparr>cv_queue := [], cv_open := False\<rparr>)"

inductive_cases conv_stepE: "conv_step c c'"

definition delivered :: "json option list \<Rightarrow> json list" where
  "delivered events = List.map_filter id events"

lemma delivered_simps [simp]:
  "delivered [] = []" "delivered (None # es) = delivered es" "delivered (Some j # es) = j # delivered es"
  by (simp_all add: delivered_def List.map_filter_simps)

lemma conv_step_keeps:
  assumes "conv_step c c'" and
    "if cv_open c then cv_received c @ cv_queue c @ delivered (cv_incoming c) = all
     else (\<exists>rest. all = cv_received c @ rest) \<and> cv_queue c = []"
  shows "if cv_open c' then cv_received c' @ cv_queue c' @ delivered (cv_incoming c') = all
     else (\<exists>rest. all = cv_received c' @ rest) \<and> cv_queue c' = []"
  using assms
  by (cases rule: conv_step.cases) (auto simp: convert_next_def split: if_splits option.splits)

lemma conv_run_keeps:
  assumes "conv_step\<^sup>*\<^sup>* (conversion_start events) c"
  shows "if cv_open c then cv_received c @ cv_queue c @ delivered (cv_incoming c) = delivered events
     else (\<exists>rest. delivered events = cv_received c @ rest) \<and> cv_queue c = []"
  using assms
proof (induction rule: rtranclp_induct)
  case base
  then show ?case by (simp add: conversion_start_def)
next
  case (step c c')
  from conv_step_keeps [OF step(2,3)] show ?case .
qed

definition conv_size :: "conversion \<Rightarrow> nat" where
  "conv_size c = 2 * length (cv_incoming c) + length (cv_queue c) + (if cv_open c then 1 else 0)"

lemma conv_step_smaller: "conv_step c c' \<Longrightarrow> conv_size c' < conv_size c"
  by (cases rule: conv_step.cases, assumption) (auto simp: conv_size_def convert_next_def split: option.splits)

lemma conv_step_wf: "wfP conv_step\<inverse>\<inverse>"
  by (rule wfp_if_convertible_to_nat [of _ conv_size]) (simp add: conv_step_smaller)

section \<open>Properties\<close>

text \<open>
  C16. A dispatched action delivers its events. Once a service is registered, whatever is registered
  after it, an action on its name that decodes is run by the service, and a receiver that is kept
  gets exactly the events that can be converted, in order: at every moment a prefix of
  them, all of them when nothing is left to convert or take, and no interleaving goes on for ever. An input
  that does not decode is an error and runs nothing.
\<close>

theorem dispatch_delivers:
  assumes registered: "register_service name s st0 = (Inr (), st1)"
    and st: "st = register_services regs st1"
  shows "(case si_decode s input of
      Inl e \<Rightarrow> dispatch st name action input w = (Inl (deserialize_failed e), w)
    | Inr a \<Rightarrow>
        (case si_dispatch_action s a w of
           (Inl e, w') \<Rightarrow> dispatch st name action input w = (Inl e, w')
         | (Inr events, w') \<Rightarrow>
             (\<exists>c0. dispatch st name action input w = (Inr c0, w') \<and> wfP conv_step\<inverse>\<inverse> \<and>
               (\<forall>c. conv_step\<^sup>*\<^sup>* c0 c \<longrightarrow>
                 (\<exists>rest. delivered (map (si_encode s) events) = cv_received c @ rest) \<and>
                 (cv_open c \<and> cv_incoming c = [] \<and> cv_queue c = [] \<longrightarrow>
                    cv_received c = delivered (map (si_encode s) events))))))"
proof -
  have "hm_get (svs_services st1) name = Some (service_wrapper s)"
    using registered by (auto simp: register_service_def register_wrapped_def split: if_splits)
  then have "hm_get (svs_services st) name = Some (service_wrapper s)"
    using services.register_all_get [of regs st1 name] by (simp add: st)
  then have run: "dispatch st name action input =
      act_bind (dispatch_json s action input) (\<lambda>events. act_ret (conversion_start events))"
    by (auto simp: dispatch_def stack_get_def service_wrapper_def act_bind_def)
  show ?thesis
  proof (cases "si_decode s input")
    case (Inl e)
    then show ?thesis by (simp add: run dispatch_json_def dispatch_typed_def act_bind_def)
  next
    case (Inr a)
    obtain r w' where r: "si_dispatch_action s a w = (r, w')" by (cases "si_dispatch_action s a w")
    show ?thesis
    proof (cases r)
      case (Inl e)
      with Inr r show ?thesis by (simp add: run dispatch_json_def dispatch_typed_def act_bind_def)
    next
      case (Inr events)
      let ?es = "map (si_encode s) events"
      have "dispatch st name action input w = (Inr (conversion_start ?es), w')"
        using \<open>si_decode s input = Inr a\<close> r Inr by (simp add: run dispatch_json_def dispatch_typed_def act_bind_def)
      moreover have "(\<exists>rest. delivered ?es = cv_received c @ rest) \<and>
          (cv_open c \<and> cv_incoming c = [] \<and> cv_queue c = [] \<longrightarrow> cv_received c = delivered ?es)"
        if "conv_step\<^sup>*\<^sup>* (conversion_start ?es) c" for c
        using conv_run_keeps [OF that] by (auto split: if_splits intro: exI [of _ "cv_queue c @ delivered (cv_incoming c)"])
      ultimately show ?thesis using \<open>si_decode s input = Inr a\<close> r Inr conv_step_wf by auto
    qed
  qed
qed

text \<open>An echo service for the examples.\<close>

definition echo_service :: "(unit, string, string) service_impl" where
  "echo_service = \<lparr>si_service_type = ''test-service'', si_name = ''test-service'', si_description = ''A test service'',
     si_decode = (\<lambda>j. ok_or (json_field json_str ''message'' j) ''missing field''),
     si_encode = (\<lambda>e. Some (JObj [(''response'', JStr e)])), si_action_schema = JNull, si_event_schema = JNull,
     si_dispatch_action = (\<lambda>a. act_ret [''Echo: '' @ a])\<rparr>"

theorem dispatch_delivers_witness:
  "\<exists>c0. dispatch (register_services [] (snd (register_service ''test-1'' echo_service service_stack_new))) ''test-1'' ''default''
     (JObj [(''message'', JStr ''Hello'')]) () = (Inr c0, ()) \<and>
     (\<forall>c. conv_step\<^sup>*\<^sup>* c0 c \<longrightarrow> cv_open c \<and> cv_incoming c = [] \<and> cv_queue c = [] \<longrightarrow>
        cv_received c = [JObj [(''response'', JStr ''Echo: Hello'')]])"
proof -
  let ?st = "snd (register_service ''test-1'' echo_service service_stack_new)"
  have reg: "register_service ''test-1'' echo_service service_stack_new = (Inr (), ?st)"
    by (simp add: register_service_def register_wrapped_def service_stack_new_def)
  show ?thesis
    using dispatch_delivers [OF reg refl, where input = "JObj [(''message'', JStr ''Hello'')]" and regs = "[]"
        and action = "''default''" and w = "()"]
    by (auto simp: echo_service_def json_field_def opt_bind_def)
qed

end
