(* ===== verification/Core_Daemon.thy ===== *)
theory Core_Daemon
  imports Core_Stacks
begin

text \<open>
  The base daemon and its builder, \<^verbatim>\<open>crates/harness-core/src/daemon.rs\<close>. The service manager \<open>'m\<close> and
  the registry \<open>'r\<close> are made by operations on the world, a parameter here: both open a database,
  and opening the registry panics where it fails, which is an error value of its operation.
\<close>

section \<open>The daemon\<close>

record ('m, 'r, 'w) BaseDaemon =
  bd_service_manager :: 'm
  bd_service_registry :: 'r
  bd_action_registry :: "'w ActionRegistry"
  bd_service_stack :: "'w ServiceStack"
  bd_task_stack :: "'w TaskStack"
  bd_endpoint :: string
  bd_running :: bool

definition daemon_start :: "('m, 'r, 'w) BaseDaemon \<Rightarrow> (CoreError + unit) \<times> ('m, 'r, 'w) BaseDaemon" where
  "daemon_start d = (Inr (), d\<lparr>bd_running := True\<rparr>)"

definition daemon_stop :: "('m, 'r, 'w) BaseDaemon \<Rightarrow> (CoreError + unit) \<times> ('m, 'r, 'w) BaseDaemon" where
  "daemon_stop d = (Inr (), d\<lparr>bd_running := False\<rparr>)"

definition invoke_action :: "('m, 'r, 'w) BaseDaemon \<Rightarrow> string \<Rightarrow> json \<Rightarrow> ('w, CoreError, json) act" where
  "invoke_action d name params = invoke (bd_action_registry d) name params"

record 'w DaemonBuilder =
  db_endpoint :: string
  db_registry_path :: "string option"
  db_action_registry :: "'w ActionRegistry"
  db_service_stack :: "'w ServiceStack"
  db_task_stack :: "'w TaskStack"
  db_config :: "json option"

definition builder_new :: "'w DaemonBuilder" where
  "builder_new = \<lparr>db_endpoint = ''127.0.0.1:9443'', db_registry_path = None, db_action_registry = action_registry_new,
     db_service_stack = service_stack_new, db_task_stack = task_stack_new, db_config = None\<rparr>"

definition with_endpoint :: "string \<Rightarrow> 'w DaemonBuilder \<Rightarrow> 'w DaemonBuilder" where
  "with_endpoint endpoint b = b\<lparr>db_endpoint := endpoint\<rparr>"

definition with_registry_path :: "string \<Rightarrow> 'w DaemonBuilder \<Rightarrow> 'w DaemonBuilder" where
  "with_registry_path path b = b\<lparr>db_registry_path := Some path\<rparr>"

definition with_config :: "json \<Rightarrow> 'w DaemonBuilder \<Rightarrow> 'w DaemonBuilder" where
  "with_config config b = b\<lparr>db_config := Some config\<rparr>"

definition service_stack_mut :: "('w ServiceStack, CoreError, 'a) act \<Rightarrow> ('w DaemonBuilder, CoreError, 'a) act" where
  "service_stack_mut m b = (case m (db_service_stack b) of (r, st) \<Rightarrow> (r, b\<lparr>db_service_stack := st\<rparr>))"

definition task_stack_mut :: "('w TaskStack, CoreError, 'a) act \<Rightarrow> ('w DaemonBuilder, CoreError, 'a) act" where
  "task_stack_mut m b = (case m (db_task_stack b) of (r, st) \<Rightarrow> (r, b\<lparr>db_task_stack := st\<rparr>))"

text \<open>Registering an action consumes the builder: on an error there is none left.\<close>

definition builder_register_action ::
    "string \<Rightarrow> string \<Rightarrow> 'w action_fn \<Rightarrow> 'w DaemonBuilder \<Rightarrow> CoreError + 'w DaemonBuilder" where
  "builder_register_action name description action b =
     (case register_simple name description action (db_action_registry b) of
        (Inl e, _) \<Rightarrow> Inl e
      | (Inr _, r) \<Rightarrow> Inr (b\<lparr>db_action_registry := r\<rparr>))"

section \<open>Validating a configuration\<close>

definition as_object :: "json \<Rightarrow> (string \<times> json) list option" where
  "as_object j = (case j of JObj m \<Rightarrow> Some m | _ \<Rightarrow> None)"

definition as_array :: "json \<Rightarrow> json list option" where
  "as_array j = (case j of JArr xs \<Rightarrow> Some xs | _ \<Rightarrow> None)"

definition object_field :: "string \<Rightarrow> json \<Rightarrow> (string \<times> json) list option" where
  "object_field k j = opt_bind (json_get k j) as_object"

definition array_field :: "string \<Rightarrow> json \<Rightarrow> json list option" where
  "array_field k j = opt_bind (json_get k j) as_array"

definition str_field :: "string \<Rightarrow> json \<Rightarrow> string option" where
  "str_field k j = opt_bind (json_get k j) json_str"

definition validate_dependency :: "json \<Rightarrow> (string \<times> json) list \<Rightarrow> json \<Rightarrow> CoreError + unit" where
  "validate_dependency dep services config =
     (case str_field ''service'' dep of
        Some service_name \<Rightarrow>
          if hm_has services service_name then Inr ()
          else Inl (CeValidation (CText (''Dependency references unknown service '' @ quoted service_name)))
      | None \<Rightarrow>
          (case str_field ''task'' dep of
             Some task_name \<Rightarrow>
               (case object_field ''tasks'' config of
                  Some tasks \<Rightarrow>
                    if hm_has tasks task_name then Inr ()
                    else Inl (CeValidation (CText (''Dependency references unknown task '' @ quoted task_name)))
                | None \<Rightarrow> Inl (CeValidation (CText
                    (''Dependency references task '' @ quoted task_name @ '' but no tasks are defined''))))
           | None \<Rightarrow> Inr ()))"

fun validate_dependencies :: "json list \<Rightarrow> (string \<times> json) list \<Rightarrow> json \<Rightarrow> CoreError + unit" where
  "validate_dependencies [] services config = Inr ()"
| "validate_dependencies (dep # deps) services config =
     res_bind (validate_dependency dep services config) (\<lambda>_. validate_dependencies deps services config)"

text \<open>
  The loop over the entries of a section, services or tasks: \<open>kind\<close> and \<open>type_key\<close> are \<open>Service\<close> and
  \<open>service_type\<close>, or \<open>Task\<close> and \<open>task_type\<close>.
\<close>

fun validate_entries ::
    "string \<Rightarrow> string \<Rightarrow> string list \<Rightarrow> (string \<times> json) list \<Rightarrow> json \<Rightarrow> (string \<times> json) list \<Rightarrow> CoreError + unit" where
  "validate_entries kind type_key types services config [] = Inr ()"
| "validate_entries kind type_key types services config ((name, entry) # entries) =
     res_bind
       (case str_field type_key entry of
          Some ty \<Rightarrow> if ty \<in> set types then Inr () else Inl (CeValidation (CUnknownType kind name ty types))
        | None \<Rightarrow> Inr ())
       (\<lambda>_. res_bind
         (case array_field ''dependencies'' entry of
            Some deps \<Rightarrow> validate_dependencies deps services config
          | None \<Rightarrow> Inr ())
         (\<lambda>_. validate_entries kind type_key types services config entries))"

definition validate_daemon_config :: "'w ServiceStack \<Rightarrow> 'w TaskStack \<Rightarrow> json \<Rightarrow> CoreError + unit" where
  "validate_daemon_config services tasks config =
     res_bind
       (case object_field ''services'' config of
          Some m \<Rightarrow> validate_entries ''Service'' ''service_type'' (list_types services) m config m
        | None \<Rightarrow> Inr ())
       (\<lambda>_. case object_field ''tasks'' config of
          Some m \<Rightarrow> validate_entries ''Task'' ''task_type'' (list_task_types tasks)
            (case object_field ''services'' config of Some s \<Rightarrow> s | None \<Rightarrow> []) config m
        | None \<Rightarrow> Inr ())"

section \<open>Building\<close>

text \<open>\<open>Path::parent\<close>, for a path without dot components.\<close>

definition strip_slashes :: "string \<Rightarrow> string" where
  "strip_slashes p = rev (dropWhile (\<lambda>c. c = CHR ''/'') (rev p))"

definition path_parent :: "string \<Rightarrow> string option" where
  "path_parent p =
     (let q = strip_slashes p in
      if q = [] then None
      else let d = rev (dropWhile (\<lambda>c. c \<noteq> CHR ''/'') (rev q)) in
        Some (if d = [] then [] else if strip_slashes d = [] then ''/'' else strip_slashes d))"

record ('m, 'r, 'w) daemon_env =
  de_manager_new :: "('w, OrchError, 'm) act"
  de_manager_with_state_dir :: "string \<Rightarrow> ('w, OrchError, 'm) act"
  de_registry_new :: "('w, CoreError, 'r) act"
  de_registry_with_persistence :: "string \<Rightarrow> ('w, CoreError, 'r) act"

definition map_act_err :: "('e \<Rightarrow> 'f) \<Rightarrow> ('s, 'e, 'a) act \<Rightarrow> ('s, 'f, 'a) act" where
  "map_act_err f m s = (case m s of (r, s') \<Rightarrow> (map_err f r, s'))"

definition build :: "('m, 'r, 'w) daemon_env \<Rightarrow> 'w DaemonBuilder \<Rightarrow> ('w, CoreError, ('m, 'r, 'w) BaseDaemon) act" where
  "build D b =
     act_bind (act_lift (case db_config b of
         Some config \<Rightarrow> validate_daemon_config (db_service_stack b) (db_task_stack b) config
       | None \<Rightarrow> Inr ())) (\<lambda>_.
     act_bind (map_act_err CeOrchestration (case db_registry_path b of
         Some registry_path \<Rightarrow>
           de_manager_with_state_dir D (case path_parent registry_path of Some d \<Rightarrow> d | None \<Rightarrow> ''.'')
       | None \<Rightarrow> de_manager_new D)) (\<lambda>service_manager.
     act_bind (case db_registry_path b of
         Some path \<Rightarrow> de_registry_with_persistence D path
       | None \<Rightarrow> de_registry_new D) (\<lambda>service_registry.
     act_ret \<lparr>bd_service_manager = service_manager, bd_service_registry = service_registry,
       bd_action_registry = db_action_registry b, bd_service_stack = db_service_stack b,
       bd_task_stack = db_task_stack b, bd_endpoint = db_endpoint b, bd_running = False\<rparr>)))"

section \<open>What a valid configuration is\<close>

text \<open>
  A dependency that names a service must name one of the configuration; one that names no service but
  a task must name a task of the configuration. The code lets a dependency that names neither through,
  and so does this.
\<close>

definition dep_typed :: "json \<Rightarrow> json \<Rightarrow> bool" where
  "dep_typed config dep =
     (case str_field ''service'' dep of
        Some n \<Rightarrow> (\<exists>m. object_field ''services'' config = Some m \<and> hm_has m n)
      | None \<Rightarrow>
          (case str_field ''task'' dep of
             Some n \<Rightarrow> (\<exists>m. object_field ''tasks'' config = Some m \<and> hm_has m n)
           | None \<Rightarrow> True))"

definition entry_typed :: "string \<Rightarrow> string set \<Rightarrow> json \<Rightarrow> json \<Rightarrow> bool" where
  "entry_typed type_key types config entry \<longleftrightarrow>
     (\<forall>ty. str_field type_key entry = Some ty \<longrightarrow> ty \<in> types) \<and>
     (\<forall>deps. array_field ''dependencies'' entry = Some deps \<longrightarrow> (\<forall>dep\<in>set deps. dep_typed config dep))"

definition config_typed :: "string set \<Rightarrow> string set \<Rightarrow> json \<Rightarrow> bool" where
  "config_typed service_types task_types config \<longleftrightarrow>
     (\<forall>m name entry. object_field ''services'' config = Some m \<and> (name, entry) \<in> set m \<longrightarrow>
        entry_typed ''service_type'' service_types config entry) \<and>
     (\<forall>m name entry. object_field ''tasks'' config = Some m \<and> (name, entry) \<in> set m \<longrightarrow>
        entry_typed ''task_type'' task_types config entry)"

lemma is_ok_bind: "is_ok (res_bind m (\<lambda>_. n)) \<longleftrightarrow> is_ok m \<and> is_ok n"
  by (cases m) simp_all

lemma is_ok_if: "is_ok (if P then Inr x else Inl e) \<longleftrightarrow> P"
  by simp

lemma validate_dependency_ok:
  assumes "services = (case object_field ''services'' config of Some s \<Rightarrow> s | None \<Rightarrow> [])"
  shows "is_ok (validate_dependency dep services config) \<longleftrightarrow> dep_typed config dep"
  using assms by (auto simp: validate_dependency_def dep_typed_def split: option.split)

lemma validate_dependencies_ok:
  "services = (case object_field ''services'' config of Some s \<Rightarrow> s | None \<Rightarrow> []) \<Longrightarrow>
     is_ok (validate_dependencies deps services config) \<longleftrightarrow> (\<forall>dep\<in>set deps. dep_typed config dep)"
  by (induction deps) (simp_all add: is_ok_bind validate_dependency_ok)

lemma validate_entries_ok:
  "services = (case object_field ''services'' config of Some s \<Rightarrow> s | None \<Rightarrow> []) \<Longrightarrow>
     is_ok (validate_entries kind type_key types services config entries) \<longleftrightarrow>
       (\<forall>(name, entry)\<in>set entries. entry_typed type_key (set types) config entry)"
  by (induction entries)
    (auto simp: is_ok_bind is_ok_if validate_dependencies_ok entry_typed_def split: option.split)

lemma validate_daemon_config_ok:
  "is_ok (validate_daemon_config services tasks config) \<longleftrightarrow>
     config_typed (set (list_types services)) (set (list_task_types tasks)) config"
  by (auto simp: validate_daemon_config_def config_typed_def is_ok_bind validate_entries_ok split: option.split)

text \<open>Validation fails with validation errors only.\<close>

lemma res_bind_err:
  "res_bind m (\<lambda>_. n) = Inl e \<Longrightarrow> (\<And>x. m = Inl x \<Longrightarrow> P x) \<Longrightarrow> (\<And>x. n = Inl x \<Longrightarrow> P x) \<Longrightarrow> P e"
  by (cases m) simp_all

lemma validate_dependencies_err: "validate_dependencies deps services config = Inl e \<Longrightarrow> \<exists>m. e = CeValidation m"
proof (induction deps arbitrary: e)
  case (Cons dep deps)
  from Cons(2) have "res_bind (validate_dependency dep services config)
      (\<lambda>_. validate_dependencies deps services config) = Inl e" by simp
  then show ?case
    by (rule res_bind_err) (auto simp: validate_dependency_def Cons(1) split: option.splits if_splits)
qed simp

lemma validate_entries_err:
  "validate_entries kind type_key types services config entries = Inl e \<Longrightarrow> \<exists>m. e = CeValidation m"
proof (induction entries arbitrary: e)
  case (Cons x entries)
  obtain name entry where x: "x = (name, entry)" by (cases x)
  show ?case using Cons(2) unfolding x validate_entries.simps
    by (elim res_bind_err) (auto simp: Cons(1) split: option.splits if_splits dest: validate_dependencies_err)
qed simp

lemma validate_daemon_config_err: "validate_daemon_config services tasks config = Inl e \<Longrightarrow> \<exists>m. e = CeValidation m"
  unfolding validate_daemon_config_def
  by (elim res_bind_err) (auto split: option.splits dest: validate_entries_err)

lemma build_ok:
  assumes "build D b w = (Inr d, w')"
  shows "(\<forall>config. db_config b = Some config \<longrightarrow> is_ok (validate_daemon_config (db_service_stack b) (db_task_stack b) config)) \<and>
    bd_service_stack d = db_service_stack b \<and> bd_task_stack d = db_task_stack b \<and> bd_endpoint d = db_endpoint b \<and>
    bd_action_registry d = db_action_registry b \<and> \<not> bd_running d"
  using assms by (auto simp: build_def act_bind_Inr_iff)

lemma build_run:
  "build D b w =
     (case (case db_config b of
         Some config \<Rightarrow> validate_daemon_config (db_service_stack b) (db_task_stack b) config
       | None \<Rightarrow> Inr ()) of
        Inl e \<Rightarrow> (Inl e, w)
      | Inr _ \<Rightarrow>
        (case (case db_registry_path b of
             Some path \<Rightarrow> de_manager_with_state_dir D (case path_parent path of Some d \<Rightarrow> d | None \<Rightarrow> ''.'')
           | None \<Rightarrow> de_manager_new D) w of
           (Inl e, w1) \<Rightarrow> (Inl (CeOrchestration e), w1)
         | (Inr manager, w1) \<Rightarrow>
           (case (case db_registry_path b of
                Some path \<Rightarrow> de_registry_with_persistence D path
              | None \<Rightarrow> de_registry_new D) w1 of
              (Inl e, w2) \<Rightarrow> (Inl e, w2)
            | (Inr registry, w2) \<Rightarrow>
              (Inr \<lparr>bd_service_manager = manager, bd_service_registry = registry,
                 bd_action_registry = db_action_registry b, bd_service_stack = db_service_stack b,
                 bd_task_stack = db_task_stack b, bd_endpoint = db_endpoint b, bd_running = False\<rparr>, w2))))"
  by (auto simp: build_def act_bind_def act_lift_def act_ret_def map_act_err_def split: sum.splits prod.splits)

text \<open>
  C14. A daemon is only built on a configuration that types, and on each that does. With any services
  and tasks registered, validation accepts exactly the configurations in which every
  \<open>service_type\<close> and \<open>task_type\<close> is one of a registered service or task, every dependency on a service
  names a service of the configuration and every dependency on a task one of its tasks (a
  dependency that names neither is let through). Building with a configuration that does not type is a
  validation error before anything is opened. With one that does, the manager is opened, in the
  directory of the registry's path when there is one, then the registry, at that path; the error of
  either ends the building, and otherwise there is a daemon that holds both, the builder's stacks,
  actions and endpoint, and is not running. So under every daemon that is built the configuration
  types, and each type used has an instance in the daemon's stack, registered with that type.
\<close>

theorem built_daemon_typed:
  assumes services: "db_service_stack b = register_services sregs service_stack_new"
    and tasks: "db_task_stack b = register_tasks tregs task_stack_new"
    and config: "db_config b = Some config"
  shows "(is_ok (validate_daemon_config (db_service_stack b) (db_task_stack b) config) \<longleftrightarrow> config_typed {ty. \<exists>n js. map_of sregs n = Some (ty, js)} {ty. \<exists>n jt. map_of tregs n = Some (ty, jt)} config) \<and>
    (\<not> config_typed {ty. \<exists>n js. map_of sregs n = Some (ty, js)} {ty. \<exists>n jt. map_of tregs n = Some (ty, jt)} config \<longrightarrow> (\<exists>m. build D b w = (Inl (CeValidation m), w))) \<and>
    (config_typed {ty. \<exists>n js. map_of sregs n = Some (ty, js)} {ty. \<exists>n jt. map_of tregs n = Some (ty, jt)} config \<longrightarrow> build D b w =
      (case (case db_registry_path b of
           Some path \<Rightarrow> de_manager_with_state_dir D (case path_parent path of Some d \<Rightarrow> d | None \<Rightarrow> ''.'')
         | None \<Rightarrow> de_manager_new D) w of
         (Inl e, w1) \<Rightarrow> (Inl (CeOrchestration e), w1)
       | (Inr manager, w1) \<Rightarrow>
         (case (case db_registry_path b of
              Some path \<Rightarrow> de_registry_with_persistence D path
            | None \<Rightarrow> de_registry_new D) w1 of
            (Inl e, w2) \<Rightarrow> (Inl e, w2)
          | (Inr registry, w2) \<Rightarrow>
            (Inr \<lparr>bd_service_manager = manager, bd_service_registry = registry,
               bd_action_registry = db_action_registry b, bd_service_stack = db_service_stack b,
               bd_task_stack = db_task_stack b, bd_endpoint = db_endpoint b, bd_running = False\<rparr>, w2)))) \<and>
    (\<forall>d w'. build D b w = (Inr d, w') \<longrightarrow> config_typed {ty. \<exists>n js. map_of sregs n = Some (ty, js)} {ty. \<exists>n jt. map_of tregs n = Some (ty, jt)} config \<and>
       (\<forall>m name entry ty. object_field ''services'' config = Some m \<and> (name, entry) \<in> set m \<and>
          str_field ''service_type'' entry = Some ty \<longrightarrow>
          (\<exists>n js. map_of sregs n = Some (ty, js) \<and> stack_get (bd_service_stack d) n = Some js)) \<and>
       (\<forall>m name entry ty. object_field ''tasks'' config = Some m \<and> (name, entry) \<in> set m \<and>
          str_field ''task_type'' entry = Some ty \<longrightarrow>
          (\<exists>n jt. map_of tregs n = Some (ty, jt) \<and> task_get (bd_task_stack d) n = Some jt)))"
proof -
  have types: "set (list_types (db_service_stack b)) = {ty. \<exists>n js. map_of sregs n = Some (ty, js)}" "set (list_task_types (db_task_stack b)) = {ty. \<exists>n jt. map_of tregs n = Some (ty, jt)}"
    by (force simp: list_types_def list_task_types_def services tasks services.register_all_types
        tasks.register_all_types service_stack_new_def task_stack_new_def)+
  note ok = validate_daemon_config_ok [of "db_service_stack b" "db_task_stack b" config, unfolded types]
  have get: "stack_get (db_service_stack b) n = map_option snd (map_of sregs n)"
    "task_get (db_task_stack b) n = map_option snd (map_of tregs n)" for n
    by (simp_all add: stack_get_def task_get_def services tasks services.register_all_get tasks.register_all_get
        service_stack_new_def task_stack_new_def)
  show ?thesis
  proof (cases "validate_daemon_config (db_service_stack b) (db_task_stack b) config")
    case (Inl e)
    with validate_daemon_config_err [OF this] ok show ?thesis by (auto simp: build_run config)
  next
    case (Inr u)
    with ok have typed: "config_typed {ty. \<exists>n js. map_of sregs n = Some (ty, js)} {ty. \<exists>n jt. map_of tregs n = Some (ty, jt)} config" by simp
    then have used: "\<exists>n js. map_of sregs n = Some (ty, js)"
      if "object_field ''services'' config = Some m" "(name, entry) \<in> set m" "str_field ''service_type'' entry = Some ty"
      for m name entry ty using that by (fastforce simp: config_typed_def entry_typed_def)
    from typed have used_task: "\<exists>n jt. map_of tregs n = Some (ty, jt)"
      if "object_field ''tasks'' config = Some m" "(name, entry) \<in> set m" "str_field ''task_type'' entry = Some ty"
      for m name entry ty using that by (fastforce simp: config_typed_def entry_typed_def)
    have services_in: "\<exists>n js. map_of sregs n = Some (ty, js) \<and> stack_get (bd_service_stack d) n = Some js"
      if "build D b w = (Inr d, w')" "object_field ''services'' config = Some m" "(name, entry) \<in> set m"
        "str_field ''service_type'' entry = Some ty" for d w' m name entry ty
      using used [OF that(2-)] build_ok [OF that(1)] get(1) by fastforce
    have tasks_in: "\<exists>n jt. map_of tregs n = Some (ty, jt) \<and> task_get (bd_task_stack d) n = Some jt"
      if "build D b w = (Inr d, w')" "object_field ''tasks'' config = Some m" "(name, entry) \<in> set m"
        "str_field ''task_type'' entry = Some ty" for d w' m name entry ty
      using used_task [OF that(2-)] build_ok [OF that(1)] get(2) by fastforce
    show ?thesis
    proof (intro conjI allI impI)
      show "is_ok (validate_daemon_config (db_service_stack b) (db_task_stack b) config) \<longleftrightarrow> config_typed {ty. \<exists>n js. map_of sregs n = Some (ty, js)} {ty. \<exists>n jt. map_of tregs n = Some (ty, jt)} config"
        by (rule ok)
    qed (use Inr typed in \<open>auto simp: build_run config intro: services_in tasks_in\<close>)
  qed
qed

text \<open>A daemon for the examples: nothing to open, and one service registered.\<close>

definition demo_daemon_env :: "(unit, unit, unit) daemon_env" where
  "demo_daemon_env = \<lparr>de_manager_new = act_ret (), de_manager_with_state_dir = (\<lambda>_. act_ret ()),
     de_registry_new = act_ret (), de_registry_with_persistence = (\<lambda>_. act_ret ())\<rparr>"

definition demo_daemon_config :: "string \<Rightarrow> json" where
  "demo_daemon_config ty = JObj [(''services'', JObj [(''svc1'', JObj [(''service_type'', JStr ty)])])]"

theorem built_daemon_typed_witness:
  "(\<exists>e. build demo_daemon_env (with_config (demo_daemon_config ''unknown'')
       (snd (service_stack_mut (register_service ''test-1'' echo_service) builder_new))) () = (Inl (CeValidation e), ())) \<and>
   (\<exists>d. build demo_daemon_env (with_config (demo_daemon_config ''test-service'')
       (snd (service_stack_mut (register_service ''test-1'' echo_service) builder_new))) () = (Inr d, ()))"
proof -
  let ?b = "\<lambda>ty. with_config (demo_daemon_config ty)
       (snd (service_stack_mut (register_service ''test-1'' echo_service) builder_new))"
  let ?regs = "[(''test-1'', ''test-service'', service_wrapper echo_service)]"
  have services: "db_service_stack (?b ty) = register_services ?regs service_stack_new" for ty
    by (simp add: with_config_def service_stack_mut_def builder_new_def register_service_def echo_service_def
        split: prod.split)
  have tasks: "db_task_stack (?b ty) = register_tasks [] task_stack_new" for ty
    by (simp add: with_config_def service_stack_mut_def builder_new_def split: prod.split)
  have config: "db_config (?b ty) = Some (demo_daemon_config ty)" for ty by (simp add: with_config_def)
  have typed: "config_typed {ty. \<exists>n js. map_of ?regs n = Some (ty, js)}
      {ty. \<exists>n (jt :: unit json_task). map_of [] n = Some (ty, jt)} (demo_daemon_config ty) \<longleftrightarrow> ty = ''test-service''" for ty
    by (auto simp: config_typed_def entry_typed_def demo_daemon_config_def object_field_def str_field_def opt_bind_def
        as_object_def array_field_def)
  have path: "db_registry_path (?b ty) = None" for ty
    by (simp add: with_config_def service_stack_mut_def builder_new_def split: prod.split)
  note built = built_daemon_typed [OF services tasks config, where D = demo_daemon_env and w = "()"]
  from built [of "''unknown''"] have "\<exists>e. build demo_daemon_env (?b ''unknown'') () = (Inl (CeValidation e), ())"
    by (simp only: typed) simp
  moreover from built [of "''test-service''"] have "\<exists>d. build demo_daemon_env (?b ''test-service'') () = (Inr d, ())"
    by (simp only: typed path) (simp add: demo_daemon_env_def act_ret_def)
  ultimately show ?thesis by blast
qed

end
