(* ===== verification/Gtd_Services.thy ===== *)
theory Gtd_Services
  imports Core_Daemon Cfg_Resolver Reg_Json
begin

text \<open>
  The services of the test daemon, \<^verbatim>\<open>crates/graph-test-daemon/src/services.rs\<close>: Graph Node, Anvil,
  PostgreSQL, IPFS and the contracts, each with its actions, its events, the JSON their serde
  attributes prescribe (tag \<open>type\<close> for actions, \<open>event\<close> for events), and what an action sends. The
  clock, the timer, the schemas and the text of a decoding error are parameters. A dispatch returns its
  receiver when everything has been sent, so its result is the list of the events in the channel.
\<close>

section \<open>What the services run on\<close>

record 'w gtd_env =
  ge_now :: "'w \<Rightarrow> string \<times> 'w"
  ge_sleep_ms :: "nat \<Rightarrow> 'w \<Rightarrow> 'w"
  ge_schema :: "string \<Rightarrow> json"
  ge_serde_error :: "json \<Rightarrow> string"

text \<open>A panic unwinds past every handler.\<close>

abbreviation core_panic :: CoreError where "core_panic \<equiv> CeOrchestration OPanic"

definition serde_from :: "'w gtd_env \<Rightarrow> (json \<Rightarrow> 'a option) \<Rightarrow> json \<Rightarrow> string + 'a" where
  "serde_from E read j = ok_or (read j) (ge_serde_error E j)"

fun lower_hex :: "nat \<Rightarrow> string" where
  "lower_hex n =
     (let digit = (\<lambda>d. char_of (if d < 10 then 48 + d else 87 + d)) in
      if n < 16 then [digit n] else lower_hex (n div 16) @ [digit (n mod 16)])"

declare lower_hex.simps [simp del]

definition hex_padded :: "nat \<Rightarrow> nat \<Rightarrow> string" where
  "hex_padded width n = replicate (width - length (lower_hex n)) (CHR ''0'') @ lower_hex n"

section \<open>Graph Node\<close>

record GraphNodeService =
  gn_endpoint :: string

definition graph_node_new :: "string \<Rightarrow> GraphNodeService" where
  "graph_node_new endpoint = \<lparr>gn_endpoint = endpoint\<rparr>"

datatype GraphNodeAction =
    DeploySubgraph string string "string option"
  | QuerySubgraph string string
  | RemoveSubgraph string

datatype GraphNodeEvent =
    GnDeploymentStarted string string
  | GnDeploymentProgress string string "8 word"
  | GnDeploymentCompleted string "string list"
  | GnQueryResult json
  | GnError string

fun graph_node_action_json :: "GraphNodeAction \<Rightarrow> json" where
  "graph_node_action_json (DeploySubgraph name ipfs_hash version_label) = JObj [(''type'', JStr ''DeploySubgraph''),
     (''name'', JStr name), (''ipfs_hash'', JStr ipfs_hash), (''version_label'', opt_json JStr version_label)]"
| "graph_node_action_json (QuerySubgraph subgraph_name query) = JObj [(''type'', JStr ''QuerySubgraph''),
     (''subgraph_name'', JStr subgraph_name), (''query'', JStr query)]"
| "graph_node_action_json (RemoveSubgraph deployment_id) = JObj [(''type'', JStr ''RemoveSubgraph''),
     (''deployment_id'', JStr deployment_id)]"

definition json_graph_node_action :: "json \<Rightarrow> GraphNodeAction option" where
  "json_graph_node_action j = opt_bind (json_field json_str ''type'' j) (\<lambda>tag.
     if tag = ''DeploySubgraph'' then
       opt_bind (json_field json_str ''name'' j) (\<lambda>name.
       opt_bind (json_field json_str ''ipfs_hash'' j) (\<lambda>ipfs_hash.
       map_option (DeploySubgraph name ipfs_hash) (json_opt_field json_str ''version_label'' j)))
     else if tag = ''QuerySubgraph'' then
       opt_bind (json_field json_str ''subgraph_name'' j) (\<lambda>subgraph_name.
       map_option (QuerySubgraph subgraph_name) (json_field json_str ''query'' j))
     else if tag = ''RemoveSubgraph'' then
       map_option RemoveSubgraph (json_field json_str ''deployment_id'' j)
     else None)"

fun graph_node_event_json :: "GraphNodeEvent \<Rightarrow> json" where
  "graph_node_event_json (GnDeploymentStarted deployment_id timestamp) = JObj [(''event'', JStr ''DeploymentStarted''),
     (''deployment_id'', JStr deployment_id), (''timestamp'', JStr timestamp)]"
| "graph_node_event_json (GnDeploymentProgress deployment_id status percent) = JObj [(''event'', JStr ''DeploymentProgress''),
     (''deployment_id'', JStr deployment_id), (''status'', JStr status), (''percent'', word_json percent)]"
| "graph_node_event_json (GnDeploymentCompleted deployment_id endpoints) = JObj [(''event'', JStr ''DeploymentCompleted''),
     (''deployment_id'', JStr deployment_id), (''endpoints'', JArr (map JStr endpoints))]"
| "graph_node_event_json (GnQueryResult data) = JObj [(''event'', JStr ''QueryResult''), (''data'', data)]"
| "graph_node_event_json (GnError message) = JObj [(''event'', JStr ''Error''), (''message'', JStr message)]"

text \<open>The loop over the percentages: every twentieth is announced, followed by a pause.\<close>

fun deploy_progress :: "'w gtd_env \<Rightarrow> string \<Rightarrow> nat list \<Rightarrow> 'w \<Rightarrow> GraphNodeEvent list \<times> 'w" where
  "deploy_progress E deployment_id [] w = ([], w)"
| "deploy_progress E deployment_id (i # is) w =
     (if i mod 20 = 0 then
        (case deploy_progress E deployment_id is (ge_sleep_ms E 100 w) of
           (events, w) \<Rightarrow> (GnDeploymentProgress deployment_id ''Syncing blockchain data'' (of_nat i) # events, w))
      else deploy_progress E deployment_id is w)"

definition graph_node_dispatch ::
    "'w gtd_env \<Rightarrow> GraphNodeService \<Rightarrow> GraphNodeAction \<Rightarrow> ('w, CoreError, GraphNodeEvent list) act" where
  "graph_node_dispatch E s action w =
     (case action of
        DeploySubgraph name ipfs_hash version_label \<Rightarrow>
          (case str_slice ipfs_hash 2 (length ipfs_hash) of
             None \<Rightarrow> (Inl core_panic, w)
           | Some hash_tail \<Rightarrow>
               (case ge_now E w of (timestamp, w) \<Rightarrow>
                case deploy_progress E (''Qm'' @ hash_tail) [0..<101] w of (progress, w) \<Rightarrow>
                (Inr (GnDeploymentStarted (''Qm'' @ hash_tail) timestamp # progress @
                   [GnDeploymentCompleted (''Qm'' @ hash_tail)
                      [''http://'' @ gn_endpoint s @ '':8000/subgraphs/name/'' @ name,
                       ''ws://'' @ gn_endpoint s @ '':8001/subgraphs/name/'' @ name]]), w)))
      | QuerySubgraph subgraph_name query \<Rightarrow>
          (Inr [GnQueryResult (JObj [(''data'', JObj [(''example'', JStr ''result'')])])], w)
      | RemoveSubgraph deployment_id \<Rightarrow> (Inr [GnDeploymentCompleted deployment_id []], w))"

definition graph_node_service :: "'w gtd_env \<Rightarrow> GraphNodeService \<Rightarrow> ('w, GraphNodeAction, GraphNodeEvent) service_impl" where
  "graph_node_service E s = \<lparr>si_service_type = ''graph-node'', si_name = ''graph-node'',
     si_description = ''Graph Node service for subgraph deployment and querying'',
     si_decode = serde_from E json_graph_node_action, si_encode = Some \<circ> graph_node_event_json,
     si_action_schema = ge_schema E ''GraphNodeAction'', si_event_schema = ge_schema E ''GraphNodeEvent'',
     si_dispatch_action = graph_node_dispatch E s\<rparr>"

text \<open>The setup of a service: whether it is complete, performing it, validating it.\<close>

record 'w setup_impl =
  su_is_setup_complete :: "('w, CoreError, bool) act"
  su_perform_setup :: "('w, CoreError, unit) act"
  su_validate_setup :: "('w, CoreError, unit) act"

definition graph_node_setup :: "GraphNodeService \<Rightarrow> 'w setup_impl" where
  "graph_node_setup s = \<lparr>su_is_setup_complete = act_ret True, su_perform_setup = act_ret (), su_validate_setup = act_ret ()\<rparr>"

section \<open>Anvil\<close>

record AnvilService =
  av_chain_id :: u64
  av_port :: u16

definition anvil_new :: "u64 \<Rightarrow> u16 \<Rightarrow> AnvilService" where
  "anvil_new chain_id port = \<lparr>av_chain_id = chain_id, av_port = port\<rparr>"

definition anvil_default :: AnvilService where "anvil_default = anvil_new 31337 8545"

datatype AnvilAction =
    MineBlocks u64 "u64 option"
  | SetBalance string string
  | Fork string "u64 option"

datatype AnvilEvent =
    BlockMined u64 string
  | BalanceUpdated string string
  | ForkCreated string u64
  | AnvilError string

fun anvil_action_json :: "AnvilAction \<Rightarrow> json" where
  "anvil_action_json (MineBlocks count interval_secs) = JObj [(''type'', JStr ''MineBlocks''),
     (''count'', word_json count), (''interval_secs'', opt_json word_json interval_secs)]"
| "anvil_action_json (SetBalance address balance) = JObj [(''type'', JStr ''SetBalance''),
     (''address'', JStr address), (''balance'', JStr balance)]"
| "anvil_action_json (Fork url block_number) = JObj [(''type'', JStr ''Fork''),
     (''url'', JStr url), (''block_number'', opt_json word_json block_number)]"

definition json_anvil_action :: "json \<Rightarrow> AnvilAction option" where
  "json_anvil_action j = opt_bind (json_field json_str ''type'' j) (\<lambda>tag.
     if tag = ''MineBlocks'' then
       opt_bind (json_field json_word ''count'' j) (\<lambda>count.
       map_option (MineBlocks count) (json_opt_field json_word ''interval_secs'' j))
     else if tag = ''SetBalance'' then
       opt_bind (json_field json_str ''address'' j) (\<lambda>address.
       map_option (SetBalance address) (json_field json_str ''balance'' j))
     else if tag = ''Fork'' then
       opt_bind (json_field json_str ''url'' j) (\<lambda>url.
       map_option (Fork url) (json_opt_field json_word ''block_number'' j))
     else None)"

fun anvil_event_json :: "AnvilEvent \<Rightarrow> json" where
  "anvil_event_json (BlockMined block_number block_hash) = JObj [(''event'', JStr ''BlockMined''),
     (''block_number'', word_json block_number), (''block_hash'', JStr block_hash)]"
| "anvil_event_json (BalanceUpdated address new_balance) = JObj [(''event'', JStr ''BalanceUpdated''),
     (''address'', JStr address), (''new_balance'', JStr new_balance)]"
| "anvil_event_json (ForkCreated fork_url forked_at_block) = JObj [(''event'', JStr ''ForkCreated''),
     (''fork_url'', JStr fork_url), (''forked_at_block'', word_json forked_at_block)]"
| "anvil_event_json (AnvilError message) = JObj [(''event'', JStr ''Error''), (''message'', JStr message)]"

text \<open>Block \<open>i\<close> of those that remain; the sum \<open>1000 + i\<close> is checked.\<close>

fun mine_blocks :: "'w gtd_env \<Rightarrow> nat \<Rightarrow> nat \<Rightarrow> nat \<Rightarrow> ('w, CoreError, AnvilEvent list) act" where
  "mine_blocks E interval i 0 w = (Inr [], w)"
| "mine_blocks E interval i (Suc remaining) w =
     (if 2 ^ 64 \<le> 1000 + i then (Inl core_panic, w)
      else
        (case mine_blocks E interval (Suc i) remaining (if interval > 0 then ge_sleep_ms E (1000 * interval) w else w) of
           (r, w) \<Rightarrow> (map_sum id ((#) (BlockMined (of_nat (1000 + i)) (''0x'' @ hex_padded 64 i))) r, w)))"

definition anvil_dispatch :: "'w gtd_env \<Rightarrow> AnvilService \<Rightarrow> AnvilAction \<Rightarrow> ('w, CoreError, AnvilEvent list) act" where
  "anvil_dispatch E s action w =
     (case action of
        MineBlocks count interval_secs \<Rightarrow>
          mine_blocks E (case interval_secs of Some n \<Rightarrow> unat n | None \<Rightarrow> 0) 0 (unat count) w
      | SetBalance address balance \<Rightarrow> (Inr [BalanceUpdated address balance], w)
      | Fork url block_number \<Rightarrow>
          (Inr [ForkCreated url (case block_number of Some n \<Rightarrow> n | None \<Rightarrow> 0)], w))"

definition anvil_service :: "'w gtd_env \<Rightarrow> AnvilService \<Rightarrow> ('w, AnvilAction, AnvilEvent) service_impl" where
  "anvil_service E s = \<lparr>si_service_type = ''anvil'', si_name = ''anvil'',
     si_description = ''Anvil local Ethereum blockchain for testing'',
     si_decode = serde_from E json_anvil_action, si_encode = Some \<circ> anvil_event_json,
     si_action_schema = ge_schema E ''AnvilAction'', si_event_schema = ge_schema E ''AnvilEvent'',
     si_dispatch_action = anvil_dispatch E s\<rparr>"

section \<open>PostgreSQL\<close>

record PostgresService =
  pg_db_name :: string
  pg_port :: u16

definition postgres_new :: "string \<Rightarrow> u16 \<Rightarrow> PostgresService" where
  "postgres_new db_name port = \<lparr>pg_db_name = db_name, pg_port = port\<rparr>"

definition postgres_default :: PostgresService where "postgres_default = postgres_new ''graph-node'' 5432"

datatype PostgresAction =
    CreateDatabase string
  | ExecuteQuery string
  | Backup string

datatype PostgresEvent =
    DatabaseCreated string
  | QueryExecuted u64
  | BackupCompleted string u64
  | PostgresError string

fun postgres_action_json :: "PostgresAction \<Rightarrow> json" where
  "postgres_action_json (CreateDatabase name) = JObj [(''type'', JStr ''CreateDatabase''), (''name'', JStr name)]"
| "postgres_action_json (ExecuteQuery query) = JObj [(''type'', JStr ''ExecuteQuery''), (''query'', JStr query)]"
| "postgres_action_json (Backup backup_path) = JObj [(''type'', JStr ''Backup''), (''backup_path'', JStr backup_path)]"

definition json_postgres_action :: "json \<Rightarrow> PostgresAction option" where
  "json_postgres_action j = opt_bind (json_field json_str ''type'' j) (\<lambda>tag.
     if tag = ''CreateDatabase'' then map_option CreateDatabase (json_field json_str ''name'' j)
     else if tag = ''ExecuteQuery'' then map_option ExecuteQuery (json_field json_str ''query'' j)
     else if tag = ''Backup'' then map_option Backup (json_field json_str ''backup_path'' j)
     else None)"

fun postgres_event_json :: "PostgresEvent \<Rightarrow> json" where
  "postgres_event_json (DatabaseCreated name) = JObj [(''event'', JStr ''DatabaseCreated''), (''name'', JStr name)]"
| "postgres_event_json (QueryExecuted rows_affected) = JObj [(''event'', JStr ''QueryExecuted''),
     (''rows_affected'', word_json rows_affected)]"
| "postgres_event_json (BackupCompleted path size_bytes) = JObj [(''event'', JStr ''BackupCompleted''),
     (''path'', JStr path), (''size_bytes'', word_json size_bytes)]"
| "postgres_event_json (PostgresError message) = JObj [(''event'', JStr ''Error''), (''message'', JStr message)]"

definition postgres_dispatch :: "PostgresService \<Rightarrow> PostgresAction \<Rightarrow> ('w, CoreError, PostgresEvent list) act" where
  "postgres_dispatch s action = act_ret
     (case action of
        CreateDatabase name \<Rightarrow> [DatabaseCreated name]
      | ExecuteQuery query \<Rightarrow> [QueryExecuted 42]
      | Backup backup_path \<Rightarrow> [BackupCompleted backup_path (1024 * 1024)])"

definition postgres_service :: "'w gtd_env \<Rightarrow> PostgresService \<Rightarrow> ('w, PostgresAction, PostgresEvent) service_impl" where
  "postgres_service E s = \<lparr>si_service_type = ''postgres'', si_name = ''postgres'',
     si_description = ''PostgreSQL database service'',
     si_decode = serde_from E json_postgres_action, si_encode = Some \<circ> postgres_event_json,
     si_action_schema = ge_schema E ''PostgresAction'', si_event_schema = ge_schema E ''PostgresEvent'',
     si_dispatch_action = postgres_dispatch s\<rparr>"

section \<open>IPFS\<close>

record IpfsService =
  ip_api_port :: u16
  ip_gateway_port :: u16

definition ipfs_new :: "u16 \<Rightarrow> u16 \<Rightarrow> IpfsService" where
  "ipfs_new api_port gateway_port = \<lparr>ip_api_port = api_port, ip_gateway_port = gateway_port\<rparr>"

definition ipfs_default :: IpfsService where "ipfs_default = ipfs_new 5001 8080"

datatype IpfsAction =
    AddContent string
  | Pin string
  | Unpin string
  | Cat string

datatype IpfsEvent =
    ContentAdded string u64
  | Pinned string
  | Unpinned string
  | ContentRetrieved string string
  | IpfsError string

fun ipfs_action_json :: "IpfsAction \<Rightarrow> json" where
  "ipfs_action_json (AddContent content) = JObj [(''type'', JStr ''AddContent''), (''content'', JStr content)]"
| "ipfs_action_json (Pin hash) = JObj [(''type'', JStr ''Pin''), (''hash'', JStr hash)]"
| "ipfs_action_json (Unpin hash) = JObj [(''type'', JStr ''Unpin''), (''hash'', JStr hash)]"
| "ipfs_action_json (Cat hash) = JObj [(''type'', JStr ''Cat''), (''hash'', JStr hash)]"

definition json_ipfs_action :: "json \<Rightarrow> IpfsAction option" where
  "json_ipfs_action j = opt_bind (json_field json_str ''type'' j) (\<lambda>tag.
     if tag = ''AddContent'' then map_option AddContent (json_field json_str ''content'' j)
     else if tag = ''Pin'' then map_option Pin (json_field json_str ''hash'' j)
     else if tag = ''Unpin'' then map_option Unpin (json_field json_str ''hash'' j)
     else if tag = ''Cat'' then map_option Cat (json_field json_str ''hash'' j)
     else None)"

fun ipfs_event_json :: "IpfsEvent \<Rightarrow> json" where
  "ipfs_event_json (ContentAdded hash sz) = JObj [(''event'', JStr ''ContentAdded''),
     (''hash'', JStr hash), (''size'', word_json sz)]"
| "ipfs_event_json (Pinned hash) = JObj [(''event'', JStr ''Pinned''), (''hash'', JStr hash)]"
| "ipfs_event_json (Unpinned hash) = JObj [(''event'', JStr ''Unpinned''), (''hash'', JStr hash)]"
| "ipfs_event_json (ContentRetrieved hash content) = JObj [(''event'', JStr ''ContentRetrieved''),
     (''hash'', JStr hash), (''content'', JStr content)]"
| "ipfs_event_json (IpfsError message) = JObj [(''event'', JStr ''Error''), (''message'', JStr message)]"

definition ipfs_dispatch :: "IpfsService \<Rightarrow> IpfsAction \<Rightarrow> ('w, CoreError, IpfsEvent list) act" where
  "ipfs_dispatch s action = act_ret
     (case action of
        AddContent content \<Rightarrow> [ContentAdded (''Qm'' @ lower_hex (length content)) (of_nat (length content))]
      | Pin hash \<Rightarrow> [Pinned hash]
      | Unpin hash \<Rightarrow> [Unpinned hash]
      | Cat hash \<Rightarrow> [ContentRetrieved hash ''Example content''])"

definition ipfs_service :: "'w gtd_env \<Rightarrow> IpfsService \<Rightarrow> ('w, IpfsAction, IpfsEvent) service_impl" where
  "ipfs_service E s = \<lparr>si_service_type = ''ipfs'', si_name = ''ipfs'',
     si_description = ''IPFS distributed storage service'',
     si_decode = serde_from E json_ipfs_action, si_encode = Some \<circ> ipfs_event_json,
     si_action_schema = ge_schema E ''IpfsAction'', si_event_schema = ge_schema E ''IpfsEvent'',
     si_dispatch_action = ipfs_dispatch s\<rparr>"

section \<open>Contracts\<close>

record GraphContractsService =
  gc_deployed_addresses :: "(string, string) hmap option"

definition graph_contracts_new :: GraphContractsService where
  "graph_contracts_new = \<lparr>gc_deployed_addresses = None\<rparr>"

datatype ContractsAction = DeployContracts | VerifyAddresses | GetStatus

datatype ContractsEvent =
    GcDeploymentStarted
  | GcContractDeployed string string
  | GcDeploymentCompleted "(string, string) hmap"
  | GcAddressesVerified
  | GcSubgraphDeployed string
  | GcError string

fun contracts_action_json :: "ContractsAction \<Rightarrow> json" where
  "contracts_action_json DeployContracts = JObj [(''type'', JStr ''DeployContracts'')]"
| "contracts_action_json VerifyAddresses = JObj [(''type'', JStr ''VerifyAddresses'')]"
| "contracts_action_json GetStatus = JObj [(''type'', JStr ''GetStatus'')]"

definition json_contracts_action :: "json \<Rightarrow> ContractsAction option" where
  "json_contracts_action j = opt_bind (json_field json_str ''type'' j) (\<lambda>tag.
     if tag = ''DeployContracts'' then Some DeployContracts
     else if tag = ''VerifyAddresses'' then Some VerifyAddresses
     else if tag = ''GetStatus'' then Some GetStatus
     else None)"

fun contracts_event_json :: "ContractsEvent \<Rightarrow> json" where
  "contracts_event_json GcDeploymentStarted = JObj [(''event'', JStr ''DeploymentStarted'')]"
| "contracts_event_json (GcContractDeployed name address) = JObj [(''event'', JStr ''ContractDeployed''),
     (''name'', JStr name), (''address'', JStr address)]"
| "contracts_event_json (GcDeploymentCompleted addresses) = JObj [(''event'', JStr ''DeploymentCompleted''),
     (''addresses'', map_json JStr addresses)]"
| "contracts_event_json GcAddressesVerified = JObj [(''event'', JStr ''AddressesVerified'')]"
| "contracts_event_json (GcSubgraphDeployed deployment_id) = JObj [(''event'', JStr ''SubgraphDeployed''),
     (''deployment_id'', JStr deployment_id)]"
| "contracts_event_json (GcError message) = JObj [(''event'', JStr ''Error''), (''message'', JStr message)]"

definition contract_names :: "string list" where
  "contract_names = [''Controller'', ''EpochManager'', ''GraphToken'', ''DisputeManager'', ''L1Staking'',
     ''StakingExtension'', ''Curation'', ''RewardsManager'', ''ServiceRegistry'', ''L1GNS'', ''SubgraphNFT'',
     ''L1GraphTokenGateway'']"

fun deploy_each ::
    "'w gtd_env \<Rightarrow> string list \<Rightarrow> (string, string) hmap \<Rightarrow> ContractsEvent list \<Rightarrow> 'w \<Rightarrow>
      ((string, string) hmap \<times> ContractsEvent list) \<times> 'w" where
  "deploy_each E [] addresses events w = ((addresses, events), w)"
| "deploy_each E (contract # contracts) addresses events w =
     (let address = ''0x'' @ hex_padded 40 (length contract) in
      deploy_each E contracts (hm_insert contract address addresses) (events @ [GcContractDeployed contract address])
        (ge_sleep_ms E 100 w))"

definition contracts_dispatch ::
    "'w gtd_env \<Rightarrow> GraphContractsService \<Rightarrow> ContractsAction \<Rightarrow> ('w, CoreError, ContractsEvent list) act" where
  "contracts_dispatch E s action w =
     (case action of
        DeployContracts \<Rightarrow>
          (case deploy_each E contract_names [] [GcDeploymentStarted] w of
             ((addresses, events), w) \<Rightarrow>
               (Inr (events @ [GcDeploymentCompleted addresses, GcSubgraphDeployed ''QmGraphNetwork123'']), w))
      | VerifyAddresses \<Rightarrow> (Inr [GcAddressesVerified], w)
      | GetStatus \<Rightarrow>
          (Inr (case gc_deployed_addresses s of
             Some addresses \<Rightarrow> [GcDeploymentCompleted addresses]
           | None \<Rightarrow> []), w))"

definition contracts_service :: "'w gtd_env \<Rightarrow> GraphContractsService \<Rightarrow> ('w, ContractsAction, ContractsEvent) service_impl" where
  "contracts_service E s = \<lparr>si_service_type = ''graph-contracts'', si_name = ''graph-contracts'',
     si_description = ''Graph Protocol contract deployment service'',
     si_decode = serde_from E json_contracts_action, si_encode = Some \<circ> contracts_event_json,
     si_action_schema = ge_schema E ''GraphContractsAction'', si_event_schema = ge_schema E ''GraphContractsEvent'',
     si_dispatch_action = contracts_dispatch E s\<rparr>"

definition contracts_setup :: "GraphContractsService \<Rightarrow> 'w setup_impl" where
  "contracts_setup s = \<lparr>su_is_setup_complete = act_ret (gc_deployed_addresses s \<noteq> None),
     su_perform_setup = act_ret (), su_validate_setup = act_ret ()\<rparr>"

text \<open>The services with their defaults, by the type they are created for.\<close>

definition service_constructors :: "'w gtd_env \<Rightarrow> (string, 'w json_service) hmap" where
  "service_constructors E =
     foldl (\<lambda>m (ty, js). hm_insert ty js m) []
       [(''graph-node'', service_wrapper (graph_node_service E (graph_node_new []))),
        (''anvil'', service_wrapper (anvil_service E anvil_default)),
        (''postgres'', service_wrapper (postgres_service E postgres_default)),
        (''ipfs'', service_wrapper (ipfs_service E ipfs_default)),
        (''graph-contracts'', service_wrapper (contracts_service E graph_contracts_new))]"

definition create_service :: "'w gtd_env \<Rightarrow> string \<Rightarrow> 'w json_service option" where
  "create_service E service_type = hm_get (service_constructors E) service_type"

definition registered_types :: "'w gtd_env \<Rightarrow> string list" where
  "registered_types E = hm_keys (service_constructors E)"

section \<open>Lemmas\<close>

lemma graph_node_action_round [simp]: "json_graph_node_action (graph_node_action_json a) = Some a"
  by (cases a) (auto simp: json_graph_node_action_def json_defs split: option.splits)

lemma anvil_action_round [simp]: "json_anvil_action (anvil_action_json a) = Some a"
  by (cases a) (auto simp: json_anvil_action_def json_defs split: option.splits)

lemma postgres_action_round [simp]: "json_postgres_action (postgres_action_json a) = Some a"
  by (cases a) (auto simp: json_postgres_action_def json_defs)

lemma ipfs_action_round [simp]: "json_ipfs_action (ipfs_action_json a) = Some a"
  by (cases a) (auto simp: json_ipfs_action_def json_defs)

lemma contracts_action_round [simp]: "json_contracts_action (contracts_action_json a) = Some a"
  by (cases a) (auto simp: json_contracts_action_def json_defs)

lemma serde_from_Inr [simp]: "serde_from E read j = Inr a \<longleftrightarrow> read j = Some a"
  by (simp add: serde_from_def)

text \<open>The progress of a deployment, whatever the clock does.\<close>

lemma deploy_progress_events:
  "fst (deploy_progress E i ns w) =
     map (\<lambda>n. GnDeploymentProgress i ''Syncing blockchain data'' (of_nat n)) (filter (\<lambda>n. n mod 20 = 0) ns)"
  by (induction ns arbitrary: w) (simp_all add: case_prod_unfold)

lemma mine_blocks_events:
  "i + remaining + 1000 \<le> 2 ^ 64 \<Longrightarrow>
     fst (mine_blocks E interval i remaining w) =
       Inr (map (\<lambda>k. BlockMined (of_nat (1000 + k)) (''0x'' @ hex_padded 64 k)) [i..<i + remaining])"
proof (induction remaining arbitrary: i w)
  case (Suc remaining)
  let ?w = "if interval > 0 then ge_sleep_ms E (1000 * interval) w else w"
  have "fst (mine_blocks E interval (Suc i) remaining ?w) =
      Inr (map (\<lambda>k. BlockMined (of_nat (1000 + k)) (''0x'' @ hex_padded 64 k)) [Suc i..<Suc i + remaining])"
    using Suc.prems by (intro Suc.IH) simp
  moreover have "[i..<i + Suc remaining] = i # [Suc i..<Suc i + remaining]" by (simp add: upt_conv_Cons)
  ultimately show ?case using Suc.prems by (simp add: case_prod_unfold del: upt_Suc)
qed simp

lemma deploy_each_events:
  "fst (deploy_each E contracts addresses events w) =
     (hm_extend addresses (map (\<lambda>c. (c, ''0x'' @ hex_padded 40 (length c))) contracts),
      events @ map (\<lambda>c. GcContractDeployed c (''0x'' @ hex_padded 40 (length c))) contracts)"
  by (induction contracts arbitrary: addresses events w) (simp_all add: Let_def)

end
