(* ===== verification/Gtd_Tasks.thy ===== *)
theory Gtd_Tasks
  imports Gtd_Services Cmd_Process
begin

text \<open>
  The deployment tasks of the test daemon, \<^verbatim>\<open>crates/graph-test-daemon/src/tasks.rs\<close>: a run of hardhat
  whose output is turned into events, and the TAP task. A launched process is known by a number: its handle
  kills it when it is dropped, and its stream delivers what it has written. The file system and
  the texts of errors are parameters. A slice out of bounds is \<open>None\<close>.
\<close>

section \<open>What the tasks run on\<close>

record 'w gtd_tools =
  gt_launch :: "Command \<Rightarrow> ('w, CmdError, nat) act"
  gt_drop_handle :: "nat \<Rightarrow> 'w \<Rightarrow> 'w"
  gt_read_all :: "nat \<Rightarrow> 'w \<Rightarrow> ProcessEvent list \<times> 'w"
  gt_exists :: "string \<Rightarrow> 'w \<Rightarrow> bool"
  gt_display :: "CmdError \<Rightarrow> string"

text \<open>\<open>split_whitespace\<close>, and joining a file name to a directory.\<close>

fun split_spaces :: "string \<Rightarrow> string list" where
  "split_spaces [] = [[]]"
| "split_spaces (c # s) =
     (if is_space c then [] # split_spaces s
      else (case split_spaces s of [] \<Rightarrow> [[c]] | w # ws \<Rightarrow> (c # w) # ws))"

definition split_whitespace :: "string \<Rightarrow> string list" where
  "split_whitespace s = filter (\<lambda>w. w \<noteq> []) (split_spaces s)"

definition join_path :: "string \<Rightarrow> string \<Rightarrow> string" where
  "join_path dir file = (if dir = [] \<or> last dir = CHR ''/'' then dir @ file else dir @ ''/'' @ file)"

section \<open>Reading the output of hardhat\<close>

record GraphContractsTask =
  gk_ethereum_url :: string
  gk_working_dir :: string

definition graph_contracts_task_new :: "string \<Rightarrow> string \<Rightarrow> GraphContractsTask" where
  "graph_contracts_task_new ethereum_url working_dir =
     \<lparr>gk_ethereum_url = ethereum_url, gk_working_dir = working_dir\<rparr>"

definition extract_contract_name :: "string \<Rightarrow> string option" where
  "extract_contract_name line =
     (case split_at_str ''contracts/'' line of
        Some (before, _) \<Rightarrow>
          (let start = length before in
           case split_at_str ''.sol'' (drop start line) of
             Some (found, _) \<Rightarrow> str_slice line (start + 10) (start + length found)
           | None \<Rightarrow> Some line)
      | None \<Rightarrow> Some line)"

definition extract_deployment_info :: "string \<Rightarrow> (string \<times> string) option" where
  "extract_deployment_info line =
     (if str_contains line ''deployed at'' then
        (let parts = split_whitespace line in
         if length parts \<ge> 4 then Some (parts ! 0, parts ! 3) else None)
      else None)"

datatype TaskAction = DeployAll | DeployContract string | VerifyDeployment

datatype TaskEvent =
    TeDeploymentStarted nat
  | TeContractCompiling string
  | TeContractDeployed string string
  | TeDeploymentProgress nat nat
  | TeDeploymentCompleted "(string, string) hmap"
  | TeVerificationResult bool string
  | TeError string

fun task_action_json :: "TaskAction \<Rightarrow> json" where
  "task_action_json DeployAll = JObj [(''type'', JStr ''DeployAll'')]"
| "task_action_json (DeployContract name) = JObj [(''type'', JStr ''DeployContract''), (''name'', JStr name)]"
| "task_action_json VerifyDeployment = JObj [(''type'', JStr ''VerifyDeployment'')]"

definition json_task_action :: "json \<Rightarrow> TaskAction option" where
  "json_task_action j = opt_bind (json_field json_str ''type'' j) (\<lambda>tag.
     if tag = ''DeployAll'' then Some DeployAll
     else if tag = ''DeployContract'' then map_option DeployContract (json_field json_str ''name'' j)
     else if tag = ''VerifyDeployment'' then Some VerifyDeployment
     else None)"

fun task_event_json :: "TaskEvent \<Rightarrow> json" where
  "task_event_json (TeDeploymentStarted total_contracts) = JObj [(''event'', JStr ''DeploymentStarted''),
     (''total_contracts'', JNum (int total_contracts))]"
| "task_event_json (TeContractCompiling name) = JObj [(''event'', JStr ''ContractCompiling''), (''name'', JStr name)]"
| "task_event_json (TeContractDeployed name address) = JObj [(''event'', JStr ''ContractDeployed''),
     (''name'', JStr name), (''address'', JStr address)]"
| "task_event_json (TeDeploymentProgress completed overall) = JObj [(''event'', JStr ''DeploymentProgress''),
     (''completed'', JNum (int completed)), (''total'', JNum (int overall))]"
| "task_event_json (TeDeploymentCompleted addresses) = JObj [(''event'', JStr ''DeploymentCompleted''),
     (''addresses'', map_json JStr addresses)]"
| "task_event_json (TeVerificationResult success message) = JObj [(''event'', JStr ''VerificationResult''),
     (''success'', JBool success), (''message'', JStr message)]"
| "task_event_json (TeError message) = JObj [(''event'', JStr ''Error''), (''message'', JStr message)]"

text \<open>One event of the process: what is sent on, with the contracts deployed so far and their count.\<close>

type_synonym hardhat_state = "(string, string) hmap \<times> nat"

definition process_hardhat_event :: "ProcessEvent \<Rightarrow> hardhat_state \<Rightarrow> (TaskEvent option \<times> hardhat_state) option" where
  "process_hardhat_event event st =
     (case pe_event_type event of
        PStdout \<Rightarrow>
          (case pe_data event of
             None \<Rightarrow> Some (None, st)
           | Some data \<Rightarrow>
               if str_contains data ''Compiling'' \<and> str_contains data ''.sol'' then
                 map_option (\<lambda>name. (Some (TeContractCompiling name), st)) (extract_contract_name data)
               else case extract_deployment_info data of
                 Some (name, address) \<Rightarrow>
                   Some (Some (TeContractDeployed name address), (hm_insert name address (fst st), snd st + 1))
               | None \<Rightarrow>
                   if str_contains data ''deploying'' \<or> str_contains data ''Deploying'' then
                     Some (Some (TeDeploymentProgress (snd st) 12), st)
                   else Some (None, st))
      | PStderr \<Rightarrow>
          (case pe_data event of
             None \<Rightarrow> Some (None, st)
           | Some data \<Rightarrow>
               if str_contains data ''Error'' \<or> str_contains data ''error'' then Some (Some (TeError data), st)
               else Some (None, st))
      | PExited code signal \<Rightarrow>
          (case code of
             None \<Rightarrow> Some (None, st)
           | Some c \<Rightarrow>
               if c \<noteq> 0 then Some (Some (TeError (''Deployment failed with exit code '' @ show_int c)), st)
               else Some (None, st))
      | PStarted _ \<Rightarrow> Some (None, st))"

text \<open>The spawned translation, to the end of the stream.\<close>

fun translate :: "ProcessEvent list \<Rightarrow> hardhat_state \<Rightarrow> TaskEvent list option" where
  "translate [] st = Some [TeDeploymentCompleted (fst st)]"
| "translate (event # events) st =
     (case process_hardhat_event event st of
        None \<Rightarrow> None
      | Some (translated, st) \<Rightarrow>
          map_option (\<lambda>out. (case translated of Some e \<Rightarrow> e # out | None \<Rightarrow> out)) (translate events st))"

section \<open>The tasks\<close>

definition hardhat_command :: "GraphContractsTask \<Rightarrow> Command" where
  "hardhat_command t =
     set_env ''ETHEREUM_URL'' (gk_ethereum_url t)
       (set_current_dir (gk_working_dir t)
         (add_args [''hardhat'', ''deploy'', ''--network'', ''localhost''] (cmd_new ''npx'')))"

definition contracts_file :: "GraphContractsTask \<Rightarrow> string" where
  "contracts_file t = join_path (gk_working_dir t) ''contracts.json''"

definition contracts_is_completed :: "'w gtd_tools \<Rightarrow> GraphContractsTask \<Rightarrow> ('w, CoreError, bool) act" where
  "contracts_is_completed T t w = (Inr (gt_exists T (contracts_file t) w), w)"

text \<open>
  The handle of the process lives to the end of the arm that launched it, so it is dropped before the
  stream, which a spawned translation reads to its end, is over. A translation that panics closes the
  channel without a completion.
\<close>

definition contracts_execute :: "'w gtd_tools \<Rightarrow> GraphContractsTask \<Rightarrow> TaskAction \<Rightarrow> ('w, CoreError, TaskEvent list) act" where
  "contracts_execute T t action w =
     (case action of
        DeployAll \<Rightarrow>
          (case gt_launch T (hardhat_command t) w of
             (Inl e, w) \<Rightarrow> (Inl (CeDaemon (CText (''Failed to launch hardhat: '' @ gt_display T e))), w)
           | (Inr h, w) \<Rightarrow>
               (case gt_read_all T h (gt_drop_handle T h w) of (events, w) \<Rightarrow>
               (Inr (TeDeploymentStarted 12 # (case translate events ([], 0) of Some out \<Rightarrow> out | None \<Rightarrow> [])), w)))
      | DeployContract name \<Rightarrow> (Inr [TeError ''Single contract deployment not yet implemented''], w)
      | VerifyDeployment \<Rightarrow>
          (Inr [if gt_exists T (contracts_file t) w then TeVerificationResult True ''Contracts deployed successfully''
             else TeVerificationResult False ''No contracts.json found''], w))"

definition contracts_task :: "'w gtd_env \<Rightarrow> 'w gtd_tools \<Rightarrow> GraphContractsTask \<Rightarrow> ('w, TaskAction, TaskEvent) task_impl" where
  "contracts_task E T t = \<lparr>ti_task_type = ''graph-contracts-deployment'', ti_name = ''graph-contracts'',
     ti_description = ''Deploy Graph Protocol smart contracts'',
     ti_decode = serde_from E json_task_action, ti_encode = Some \<circ> task_event_json,
     ti_action_schema = ge_schema E ''GraphContractsAction'', ti_event_schema = ge_schema E ''GraphContractsEvent'',
     ti_is_completed = contracts_is_completed T t, ti_execute = contracts_execute T t\<rparr>"

record TapContractsTask =
  tp_ethereum_url :: string
  tp_working_dir :: string

definition tap_contracts_task_new :: "string \<Rightarrow> string \<Rightarrow> TapContractsTask" where
  "tap_contracts_task_new ethereum_url working_dir =
     \<lparr>tp_ethereum_url = ethereum_url, tp_working_dir = working_dir\<rparr>"

datatype TapAction = TapDeployAll | TapVerifyDeployment

datatype TapEvent =
    TapDeploymentStarted
  | TapContractDeployed string string
  | TapDeploymentCompleted "(string, string) hmap"
  | TapError string

fun tap_action_json :: "TapAction \<Rightarrow> json" where
  "tap_action_json TapDeployAll = JObj [(''type'', JStr ''DeployAll'')]"
| "tap_action_json TapVerifyDeployment = JObj [(''type'', JStr ''VerifyDeployment'')]"

definition json_tap_action :: "json \<Rightarrow> TapAction option" where
  "json_tap_action j = opt_bind (json_field json_str ''type'' j) (\<lambda>tag.
     if tag = ''DeployAll'' then Some TapDeployAll
     else if tag = ''VerifyDeployment'' then Some TapVerifyDeployment
     else None)"

fun tap_event_json :: "TapEvent \<Rightarrow> json" where
  "tap_event_json TapDeploymentStarted = JObj [(''event'', JStr ''DeploymentStarted'')]"
| "tap_event_json (TapContractDeployed name address) = JObj [(''event'', JStr ''ContractDeployed''),
     (''name'', JStr name), (''address'', JStr address)]"
| "tap_event_json (TapDeploymentCompleted addresses) = JObj [(''event'', JStr ''DeploymentCompleted''),
     (''addresses'', map_json JStr addresses)]"
| "tap_event_json (TapError message) = JObj [(''event'', JStr ''Error''), (''message'', JStr message)]"

definition tap_execute :: "TapContractsTask \<Rightarrow> TapAction \<Rightarrow> ('w, CoreError, TapEvent list) act" where
  "tap_execute t action = act_ret
     (case action of
        TapDeployAll \<Rightarrow> [TapDeploymentStarted]
      | TapVerifyDeployment \<Rightarrow> [])"

definition tap_task :: "'w gtd_env \<Rightarrow> TapContractsTask \<Rightarrow> ('w, TapAction, TapEvent) task_impl" where
  "tap_task E t = \<lparr>ti_task_type = ''tap-contracts-deployment'', ti_name = ''tap-contracts'',
     ti_description = ''Deploy TAP (Timeline Aggregation Protocol) contracts'',
     ti_decode = serde_from E json_tap_action, ti_encode = Some \<circ> tap_event_json,
     ti_action_schema = ge_schema E ''TapContractsAction'', ti_event_schema = ge_schema E ''TapContractsEvent'',
     ti_is_completed = act_ret False, ti_execute = tap_execute t\<rparr>"

section \<open>Lemmas\<close>

lemma task_action_round [simp]: "json_task_action (task_action_json a) = Some a"
  by (cases a) (auto simp: json_task_action_def json_defs)

lemma tap_action_round [simp]: "json_tap_action (tap_action_json a) = Some a"
  by (cases a) (auto simp: json_tap_action_def json_defs)

text \<open>The name of a contract is cut within the line.\<close>

lemma split_at_str_first: "split_at_str p s = Some (a, b) \<Longrightarrow> k < length a \<Longrightarrow> \<not> str_starts_with (drop k s) p"
proof (induction p s arbitrary: a k rule: split_at_str.induct)
  case (2 p c s)
  then show ?case by (cases k) (auto split: if_splits)
qed (simp split: if_splits)

lemma extract_contract_name_total: "\<exists>name. extract_contract_name line = Some name"
proof (cases "split_at_str ''contracts/'' line")
  case None
  then show ?thesis by (simp add: extract_contract_name_def)
next
  case (Some ab)
  obtain a b where ab: "ab = (a, b)" by (cases ab)
  have line: "line = a @ ''contracts/'' @ b" by (rule split_at_str_Some [OF Some [unfolded ab]])
  show ?thesis
  proof (cases "split_at_str ''.sol'' (drop (length a) line)")
    case None
    with Some ab show ?thesis by (simp add: extract_contract_name_def)
  next
    case (Some cd)
    obtain c d where cd: "cd = (c, d)" by (cases cd)
    have rest: "''contracts/'' @ b = c @ ''.sol'' @ d"
      using split_at_str_Some [OF Some [unfolded cd]] by (simp add: line)
    have "10 \<le> length c"
    proof (rule ccontr)
      assume short: "\<not> 10 \<le> length c"
      have "str_starts_with (drop (length c) (''contracts/'' @ b)) ''.sol''" unfolding rest by simp
      moreover have "length c \<in> {0, 1, 2, 3, 4, 5, 6, 7, 8, 9}" using short unfolding insert_iff empty_iff by presburger
      ultimately show False by auto
    qed
    moreover have "length a + length c \<le> length line" using arg_cong [OF rest, of length] by (simp add: line)
    ultimately show ?thesis using Some cd \<open>split_at_str ''contracts/'' line = Some ab\<close> ab
      by (simp add: extract_contract_name_def str_slice_def)
  qed
qed

text \<open>What a line of the output announces, and what counts as a failure.\<close>

definition announced :: "ProcessEvent \<Rightarrow> (string \<times> string) option" where
  "announced event =
     (case (pe_event_type event, pe_data event) of
        (PStdout, Some data) \<Rightarrow>
          if str_contains data ''Compiling'' \<and> str_contains data ''.sol'' then None else extract_deployment_info data
      | _ \<Rightarrow> None)"

definition failure :: "ProcessEvent \<Rightarrow> bool" where
  "failure event =
     (case pe_event_type event of
        PStderr \<Rightarrow> (\<exists>data. pe_data event = Some data \<and> (str_contains data ''Error'' \<or> str_contains data ''error''))
      | PExited code signal \<Rightarrow> (\<exists>c. code = Some c \<and> c \<noteq> 0)
      | _ \<Rightarrow> False)"

definition announcements :: "ProcessEvent list \<Rightarrow> (string \<times> string) list" where
  "announcements events = List.map_filter announced events"

definition deployed_of :: "TaskEvent list \<Rightarrow> (string \<times> string) list" where
  "deployed_of out = List.map_filter (\<lambda>e. case e of TeContractDeployed n a \<Rightarrow> Some (n, a) | _ \<Rightarrow> None) out"

definition is_error :: "TaskEvent \<Rightarrow> bool" where
  "is_error e = (case e of TeError _ \<Rightarrow> True | _ \<Rightarrow> False)"

lemma process_hardhat_event_run:
  "\<exists>translated. process_hardhat_event event (deployed, n) =
     Some (translated, hm_extend deployed (case announced event of Some na \<Rightarrow> [na] | None \<Rightarrow> []),
       n + (if announced event = None then 0 else 1)) \<and>
     (case translated of
        None \<Rightarrow> announced event = None \<and> \<not> failure event
      | Some (TeContractDeployed name address) \<Rightarrow> announced event = Some (name, address) \<and> \<not> failure event
      | Some (TeError message) \<Rightarrow> announced event = None \<and> failure event
      | Some (TeDeploymentProgress completed overall) \<Rightarrow>
          announced event = None \<and> \<not> failure event \<and> completed = n \<and> overall = 12
      | Some (TeContractCompiling name) \<Rightarrow> announced event = None \<and> \<not> failure event
      | _ \<Rightarrow> False)"
proof (cases "pe_event_type event")
  case PStdout
  show ?thesis
  proof (cases "pe_data event")
    case None
    with PStdout show ?thesis by (simp add: process_hardhat_event_def announced_def failure_def)
  next
    case (Some data)
    obtain name where "extract_contract_name data = Some name" using extract_contract_name_total by blast
    with PStdout Some show ?thesis
      by (auto simp: process_hardhat_event_def announced_def failure_def split: option.split)
  qed
qed (auto simp: process_hardhat_event_def announced_def failure_def split: option.split)

lemma map_filter_Cons: "List.map_filter f (x # xs) = (case f x of None \<Rightarrow> List.map_filter f xs | Some y \<Rightarrow> y # List.map_filter f xs)"
  by (simp add: List.map_filter_simps split: option.split)

lemma translate_run:
  "\<exists>out. translate events (deployed, n) = Some (out @ [TeDeploymentCompleted (hm_extend deployed (announcements events))]) \<and>
     deployed_of out = announcements events \<and>
     (\<exists>e\<in>set out. is_error e) = (\<exists>e\<in>set events. failure e) \<and>
     (\<forall>c d. TeDeploymentProgress c d \<in> set out \<longrightarrow> c \<le> n + length (announcements events) \<and> d = 12) \<and>
     length out \<le> length events"
proof (induction events arbitrary: deployed n)
  case Nil
  show ?case by (intro exI [of _ "[]"]) (simp add: announcements_def deployed_of_def List.map_filter_simps)
next
  case (Cons event events)
  from process_hardhat_event_run [of event deployed n] obtain translated where
    step: "process_hardhat_event event (deployed, n) =
      Some (translated, hm_extend deployed (case announced event of Some na \<Rightarrow> [na] | None \<Rightarrow> []),
        n + (if announced event = None then 0 else 1))"
    and cases: "case translated of
        None \<Rightarrow> announced event = None \<and> \<not> failure event
      | Some (TeContractDeployed name address) \<Rightarrow> announced event = Some (name, address) \<and> \<not> failure event
      | Some (TeError message) \<Rightarrow> announced event = None \<and> failure event
      | Some (TeDeploymentProgress completed overall) \<Rightarrow>
          announced event = None \<and> \<not> failure event \<and> completed = n \<and> overall = 12
      | Some (TeContractCompiling name) \<Rightarrow> announced event = None \<and> \<not> failure event
      | _ \<Rightarrow> False" by blast
  obtain out where out: "translate events (hm_extend deployed (case announced event of Some na \<Rightarrow> [na] | None \<Rightarrow> []),
      n + (if announced event = None then 0 else 1)) = Some (out @ [TeDeploymentCompleted
        (hm_extend (hm_extend deployed (case announced event of Some na \<Rightarrow> [na] | None \<Rightarrow> [])) (announcements events))])"
    and ok: "deployed_of out = announcements events" "(\<exists>e\<in>set out. is_error e) = (\<exists>e\<in>set events. failure e)"
      "\<forall>c d. TeDeploymentProgress c d \<in> set out \<longrightarrow>
         c \<le> n + (if announced event = None then 0 else 1) + length (announcements events) \<and> d = 12"
      "length out \<le> length events"
    using Cons.IH by metis
  have ext: "hm_extend (hm_extend deployed (case announced event of Some na \<Rightarrow> [na] | None \<Rightarrow> [])) (announcements events) =
      hm_extend deployed (announcements (event # events))"
    by (auto simp: announcements_def map_filter_Cons split: option.split)
  let ?out = "case translated of Some e \<Rightarrow> e # out | None \<Rightarrow> out"
  have "translate (event # events) (deployed, n) =
      Some (?out @ [TeDeploymentCompleted (hm_extend deployed (announcements (event # events)))])"
    by (simp add: step out ext split: option.split)
  moreover have "deployed_of ?out = announcements (event # events)"
    using cases ok(1)
    by (auto simp: deployed_of_def announcements_def map_filter_Cons split: option.splits TaskEvent.splits)
  moreover have "(\<exists>e\<in>set ?out. is_error e) = (\<exists>e\<in>set (event # events). failure e)"
    using cases ok(2) by (auto simp: is_error_def split: option.splits TaskEvent.splits)
  moreover have "\<forall>c d. TeDeploymentProgress c d \<in> set ?out \<longrightarrow> c \<le> n + length (announcements (event # events)) \<and> d = 12"
    using cases ok(3) by (fastforce simp: announcements_def map_filter_Cons split: option.splits TaskEvent.splits)
  moreover have "length ?out \<le> length (event # events)" using ok(4) by (simp split: option.split)
  ultimately show ?case by blast
qed

section \<open>Properties\<close>

text \<open>
  C17. What a deployment reports. Hardhat is killed as soon as it has been launched, its handle being dropped;
  on any output it leaves the translation neither panics nor stops:
  the events begin with the start and end with a completion that carries exactly the addresses
  announced, the last one of each name; the contracts reported as deployed are those announced, in
  order; an error is reported exactly when the output has one or the exit status is not zero; and no
  progress counts more than was deployed. The completion is sent after an error all the same.
\<close>

theorem hardhat_deployment:
  assumes launched: "gt_launch T (hardhat_command t) w = (Inr h, w1)"
    and written: "gt_read_all T h (gt_drop_handle T h w1) = (events, w')"
  shows "\<exists>out. contracts_execute T t DeployAll w =
      (Inr (TeDeploymentStarted 12 # out @ [TeDeploymentCompleted (hm_extend [] (announcements events))]), w') \<and>
    deployed_of out = announcements events \<and>
    (\<exists>e\<in>set out. is_error e) = (\<exists>e\<in>set events. failure e) \<and>
    (\<forall>c d. TeDeploymentProgress c d \<in> set out \<longrightarrow> c \<le> length (announcements events) \<and> d = 12) \<and>
    length out \<le> length events"
proof -
  from translate_run [of events "[]" 0] obtain out where
    "translate events ([], 0) = Some (out @ [TeDeploymentCompleted (hm_extend [] (announcements events))])"
    "deployed_of out = announcements events" "(\<exists>e\<in>set out. is_error e) = (\<exists>e\<in>set events. failure e)"
    "\<forall>c d. TeDeploymentProgress c d \<in> set out \<longrightarrow> c \<le> 0 + length (announcements events) \<and> d = 12"
    "length out \<le> length events" by metis
  then show ?thesis by (intro exI [of _ out]) (simp add: contracts_execute_def launched written)
qed

definition demo_tools :: "ProcessEvent list \<Rightarrow> string list gtd_tools" where
  "demo_tools events = \<lparr>gt_launch = (\<lambda>c w. (Inr 0, w @ [cmd_program c])), gt_drop_handle = (\<lambda>h w. w),
     gt_read_all = (\<lambda>h w. (events, w)), gt_exists = (\<lambda>_ _. False),
     gt_display = (\<lambda>_. ''error'')\<rparr>"

theorem hardhat_deployment_witness:
  "\<exists>out. contracts_execute (demo_tools [event_new_with_data ''t'' PStdout ''GNS deployed at 0x2'',
       event_new ''t'' (PExited (Some 1) None)]) (graph_contracts_task_new ''http://localhost:8545'' ''./c'') DeployAll [] =
      (Inr (TeDeploymentStarted 12 # out @ [TeDeploymentCompleted [(''GNS'', ''0x2'')]]), [''npx'']) \<and>
    (\<exists>e\<in>set out. is_error e)"
proof -
  let ?es = "[event_new_with_data ''t'' PStdout ''GNS deployed at 0x2'', event_new ''t'' (PExited (Some 1) None)]"
  let ?t = "graph_contracts_task_new ''http://localhost:8545'' ''./c''"
  let ?T = "demo_tools ?es"
  have l: "gt_launch ?T (hardhat_command ?t) [] = (Inr 0, [''npx''])" by code_simp
  have o: "gt_read_all ?T 0 (gt_drop_handle ?T 0 [''npx'']) = (?es, [''npx''])" by (simp add: demo_tools_def)
  have a: "hm_extend [] (announcements ?es) = [(''GNS'', ''0x2'')]" by code_simp
  have f: "\<exists>e\<in>set ?es. failure e" by (simp add: failure_def event_new_def)
  from hardhat_deployment [OF l o] a f show ?thesis by auto
qed

text \<open>
  The same run of hardhat on a host on which dropping the handle kills the process before it has written
  anything: the deployment is reported as completed, with nothing deployed.
\<close>

definition killing_tools :: "ProcessEvent list \<Rightarrow> nat list gtd_tools" where
  "killing_tools events = \<lparr>gt_launch = (\<lambda>c w. (Inr 0, w)), gt_drop_handle = (#),
     gt_read_all = (\<lambda>h w. (if h \<in> set w then [] else events, w)), gt_exists = (\<lambda>_ _. False),
     gt_display = (\<lambda>_. ''error'')\<rparr>"

lemma hardhat_killed_at_once:
  "contracts_execute (killing_tools events) t DeployAll [] = (Inr [TeDeploymentStarted 12, TeDeploymentCompleted []], [0])"
  by (simp add: contracts_execute_def killing_tools_def)

text \<open>The stream of a local process tells of no exit, so no exit status is reported as an error.\<close>

lemma local_stream_no_exit:
  "poll_next now st = (Ready (Some e), st') \<Longrightarrow> pe_event_type e \<noteq> PExited code signal"
proof (induction now st arbitrary: st' rule: poll_next.induct)
  case (1 now st)
  obtain x p where p: "read_pipe (st_stdout st) = (x, p)" by fastforce
  obtain y q where q: "read_pipe (st_stderr st) = (y, q)" by fastforce
  from 1 p q show ?case
    by (auto simp: poll_next.simps [of now st] event_new_def event_new_with_data_def split: if_splits option.splits)
qed

text \<open>A word between the name and \<open>deployed at\<close> makes \<open>at\<close> the address.\<close>

lemma deployment_info_by_position:
  "extract_deployment_info ''GNS proxy deployed at 0x2'' = Some (''GNS'', ''at'')"
  by code_simp

end
