(* ===== verification/Gtd_Daemon.thy ===== *)
theory Gtd_Daemon
  imports Gtd_Tasks Orch_Json
begin

text \<open>
  The test daemon, \<^verbatim>\<open>crates/graph-test-daemon/src/daemon.rs\<close>: building it from the configuration of a
  stack, over the builder of the harness core. Reading the file and its YAML are parameters.
\<close>

section \<open>Instances of a stack\<close>

definition env_of :: "ServiceInstanceConfig \<Rightarrow> (string, string) hmap" where
  "env_of c = target_env (sc_target (sic_orchestration c))"

definition or_default :: "'a \<Rightarrow> 'a option \<Rightarrow> 'a" where
  "or_default d m = (case m of Some x \<Rightarrow> x | None \<Rightarrow> d)"

definition parse_word :: "string \<Rightarrow> 'a::len word option" where
  "parse_word s = map_option of_nat (parse_unsigned (2 ^ LENGTH('a)) s)"

text \<open>The argument after the first \<open>--port\<close>.\<close>

fun port_argument :: "string list \<Rightarrow> string option" where
  "port_argument [] = None"
| "port_argument (arg # args) =
     (if arg = ''--port'' then (case args of [] \<Rightarrow> None | p # _ \<Rightarrow> Some p) else port_argument args)"

definition first_port :: "u16 list \<Rightarrow> u16 option" where
  "first_port ports = (case ports of [] \<Rightarrow> None | p # _ \<Rightarrow> Some p)"

definition second_port :: "u16 list \<Rightarrow> u16 option" where
  "second_port ports = (case ports of _ # p # _ \<Rightarrow> Some p | _ \<Rightarrow> None)"

definition graph_node_of :: "ServiceInstanceConfig \<Rightarrow> GraphNodeService" where
  "graph_node_of c = graph_node_new (or_default ''localhost'' (hm_get (env_of c) ''GRAPH_ENDPOINT''))"

definition anvil_of :: "ServiceInstanceConfig \<Rightarrow> AnvilService" where
  "anvil_of c =
     anvil_new (or_default 31337 (opt_bind (hm_get (env_of c) ''CHAIN_ID'') parse_word))
       (case sc_target (sic_orchestration c) of
          TProcess _ args _ _ \<Rightarrow> or_default 8545 (opt_bind (port_argument args) parse_word)
        | TDocker _ _ ports _ \<Rightarrow> or_default 8545 (first_port ports)
        | _ \<Rightarrow> 8545)"

definition postgres_of :: "ServiceInstanceConfig \<Rightarrow> PostgresService" where
  "postgres_of c =
     postgres_new (or_default ''graph-node'' (hm_get (env_of c) ''POSTGRES_DB''))
       (case sc_target (sic_orchestration c) of TDocker _ _ ports _ \<Rightarrow> or_default 5432 (first_port ports) | _ \<Rightarrow> 5432)"

definition ipfs_of :: "ServiceInstanceConfig \<Rightarrow> IpfsService" where
  "ipfs_of c =
     (case sc_target (sic_orchestration c) of
        TDocker _ _ ports _ \<Rightarrow> ipfs_new (or_default 5001 (first_port ports)) (or_default 8080 (second_port ports))
      | _ \<Rightarrow> ipfs_new 5001 8080)"

text \<open>One entry of the configuration, by its type.\<close>

definition load_service :: "'w gtd_env \<Rightarrow> string \<Rightarrow> ServiceInstanceConfig \<Rightarrow> ('w ServiceStack, CoreError, unit) act" where
  "load_service E name c =
     (let ty = sic_service_type c in
      if ty = ''graph-node'' then register_service name (graph_node_service E (graph_node_of c))
      else if ty = ''anvil'' then register_service name (anvil_service E (anvil_of c))
      else if ty = ''postgres'' then register_service name (postgres_service E (postgres_of c))
      else if ty = ''ipfs'' then register_service name (ipfs_service E (ipfs_of c))
      else act_err (CeServiceType (CText (''Unknown service type '' @ quoted ty @ '' for instance '' @ quoted name))))"

fun load_services :: "'w gtd_env \<Rightarrow> (string \<times> ServiceInstanceConfig) list \<Rightarrow> ('w ServiceStack, CoreError, unit) act" where
  "load_services E [] = act_ret ()"
| "load_services E ((name, c) # cs) = act_bind (load_service E name c) (\<lambda>_. load_services E cs)"

definition load_tasks :: "'w gtd_env \<Rightarrow> 'w gtd_tools \<Rightarrow> ('w TaskStack, CoreError, unit) act" where
  "load_tasks E T =
     act_bind (register_task ''deploy-graph-contracts''
       (contracts_task E T (graph_contracts_task_new ''http://localhost:8545'' ''./contracts/graph-contracts''))) (\<lambda>_.
     register_task ''deploy-tap-contracts''
       (tap_task E (tap_contracts_task_new ''http://localhost:8545'' ''./contracts/tap-contracts'')))"

definition setup_test_stack :: "'w action_fn" where
  "setup_test_stack params = act_ret (JObj [(''status'', JStr ''success''),
     (''services'', JArr [JStr ''anvil'', JStr ''ipfs'', JStr ''postgres'', JStr ''graph-node'']),
     (''message'', JStr ''Test stack initialized'')])"

definition health_check_stack :: "'w action_fn" where
  "health_check_stack params = act_ret (JObj [(''anvil'', JStr ''healthy''), (''ipfs'', JStr ''healthy''),
     (''postgres'', JStr ''healthy''), (''graph-node'', JStr ''healthy'')])"

section \<open>Building the daemon\<close>

definition from_stack_config ::
    "('m, 'r, 'w) daemon_env \<Rightarrow> 'w gtd_env \<Rightarrow> 'w gtd_tools \<Rightarrow> string \<Rightarrow> StackConfig \<Rightarrow>
      ('w, CoreError, ('m, 'r, 'w) BaseDaemon) act" where
  "from_stack_config D E T endpoint config w =
     (let b0 = with_config (stack_json config) (with_endpoint endpoint builder_new) in
      case service_stack_mut (load_services E (stk_services config)) b0 of
        (Inl e, _) \<Rightarrow> (Inl e, w)
      | (Inr _, b1) \<Rightarrow>
          (case task_stack_mut (load_tasks E T) b1 of
             (Inl e, _) \<Rightarrow> (Inl e, w)
           | (Inr _, b2) \<Rightarrow>
               (case res_bind (builder_register_action ''setup-test-stack''
                    ''Set up a complete Graph Protocol test stack'' setup_test_stack b2)
                  (builder_register_action ''health-check-stack''
                    ''Check health of all Graph Protocol services'' health_check_stack) of
                  Inl e \<Rightarrow> (Inl e, w)
                | Inr b3 \<Rightarrow> build D b3 w)))"

definition from_config ::
    "('m, 'r, 'w) daemon_env \<Rightarrow> 'w gtd_env \<Rightarrow> 'w gtd_tools \<Rightarrow> ('w, string, string) act \<Rightarrow> (string \<Rightarrow> string + StackConfig) \<Rightarrow>
      string \<Rightarrow> ('w, CoreError, ('m, 'r, 'w) BaseDaemon) act" where
  "from_config D E T read_config from_yaml endpoint =
     act_bind (map_act_err (\<lambda>e. CeDaemon (CText (''Failed to read config file: '' @ e))) read_config) (\<lambda>content.
     act_bind (act_lift (map_err (\<lambda>e. CeDaemon (CText (''Failed to parse config YAML: '' @ e))) (from_yaml content)))
       (from_stack_config D E T endpoint))"

text \<open>Starting and stopping are those of the base daemon; what is logged is left out.\<close>

definition graph_daemon_start :: "('m, 'r, 'w) BaseDaemon \<Rightarrow> (CoreError + unit) \<times> ('m, 'r, 'w) BaseDaemon" where
  "graph_daemon_start base = daemon_start base"

definition graph_daemon_stop :: "('m, 'r, 'w) BaseDaemon \<Rightarrow> (CoreError + unit) \<times> ('m, 'r, 'w) BaseDaemon" where
  "graph_daemon_stop base = daemon_stop base"

section \<open>Lemmas\<close>

definition service_of :: "'w gtd_env \<Rightarrow> ServiceInstanceConfig \<Rightarrow> 'w json_service" where
  "service_of E c =
     (let ty = sic_service_type c in
      if ty = ''graph-node'' then service_wrapper (graph_node_service E (graph_node_of c))
      else if ty = ''anvil'' then service_wrapper (anvil_service E (anvil_of c))
      else if ty = ''postgres'' then service_wrapper (postgres_service E (postgres_of c))
      else service_wrapper (ipfs_service E (ipfs_of c)))"

definition stack_types :: "string set" where
  "stack_types = {''graph-node'', ''anvil'', ''postgres'', ''ipfs''}"

lemma load_service_known:
  "sic_service_type c \<in> stack_types \<Longrightarrow> load_service E name c = register_wrapped name (sic_service_type c) (service_of E c)"
  by (auto simp: load_service_def service_of_def stack_types_def Let_def register_service_def graph_node_service_def
      anvil_service_def postgres_service_def ipfs_service_def)

lemma load_service_unknown:
  "sic_service_type c \<notin> stack_types \<Longrightarrow> \<exists>e. load_service E name c st = (Inl e, st)"
  by (simp add: load_service_def stack_types_def Let_def)

abbreviation regs_of :: "'w gtd_env \<Rightarrow> (string \<times> ServiceInstanceConfig) list \<Rightarrow> (string \<times> string \<times> 'w json_service) list" where
  "regs_of E cs \<equiv> map (\<lambda>(n, c). (n, sic_service_type c, service_of E c)) cs"

lemma load_services_run:
  assumes "distinct (map fst cs)" and "\<forall>n\<in>fst ` set cs. \<not> hm_has (svs_services st) n"
  shows "if \<forall>(n, c)\<in>set cs. sic_service_type c \<in> stack_types
     then load_services E cs st = (Inr (), register_services (regs_of E cs) st)
     else \<exists>e st'. load_services E cs st = (Inl e, st')"
  using assms
proof (induction cs arbitrary: st)
  case (Cons nc cs)
  obtain n c where nc: "nc = (n, c)" by (cases nc)
  show ?case
  proof (cases "sic_service_type c \<in> stack_types")
    case False
    with load_service_unknown [of c E n st] show ?thesis by (auto simp: nc)
  next
    case True
    have free: "\<not> hm_has (svs_services st) n" using Cons.prems by (simp add: nc)
    let ?st = "st\<lparr>svs_services := hm_insert n (service_of E c) (svs_services st),
      svs_service_types := hs_insert (sic_service_type c) (svs_service_types st)\<rparr>"
    have step: "load_service E n c st = (Inr (), ?st)"
      by (simp add: load_service_known [OF True] register_wrapped_def free)
    have "\<forall>m\<in>fst ` set cs. \<not> hm_has (svs_services ?st) m" "distinct (map fst cs)"
      using Cons.prems by (auto simp: nc image_iff)
    from Cons.IH [OF this(2,1)] step True free show ?thesis
      by (auto simp: nc register_wrapped_def split: if_splits)
  qed
qed simp

definition task_regs :: "'w gtd_env \<Rightarrow> 'w gtd_tools \<Rightarrow> (string \<times> string \<times> 'w json_task) list" where
  "task_regs E T = [(''deploy-graph-contracts'', ''graph-contracts-deployment'', task_wrapper
      (contracts_task E T (graph_contracts_task_new ''http://localhost:8545'' ''./contracts/graph-contracts''))),
     (''deploy-tap-contracts'', ''tap-contracts-deployment'', task_wrapper
      (tap_task E (tap_contracts_task_new ''http://localhost:8545'' ''./contracts/tap-contracts'')))]"

lemma load_tasks_run: "load_tasks E T task_stack_new = (Inr (), register_tasks (task_regs E T) task_stack_new)"
  by (simp add: load_tasks_def task_regs_def register_task_def register_task_wrapped_def contracts_task_def tap_task_def
      task_stack_new_def)

text \<open>A stack whose parts fit: known types, and dependencies on what the stack has.\<close>

definition dependency_known :: "StackConfig \<Rightarrow> Dependency \<Rightarrow> bool" where
  "dependency_known s d = (case d of DepService n \<Rightarrow> hm_has (stk_services s) n | DepTask n \<Rightarrow> hm_has (stk_tasks s) n)"

definition stack_fits :: "StackConfig \<Rightarrow> bool" where
  "stack_fits s \<longleftrightarrow>
     (\<forall>(n, c)\<in>set (stk_services s). sic_service_type c \<in> stack_types \<and>
        (\<forall>d\<in>set (sc_dependencies (sic_orchestration c)). dependency_known s d)) \<and>
     (\<forall>(n, t)\<in>set (stk_tasks s). tk_task_type t \<in> {''graph-contracts-deployment'', ''tap-contracts-deployment''} \<and>
        (\<forall>d\<in>set (tk_dependencies t). dependency_known s d))"

lemma stack_json_objects:
  "object_field ''services'' (stack_json s) = Some (map (\<lambda>(n, c). (n, instance_json c)) (stk_services s))"
  "object_field ''tasks'' (stack_json s) = Some (map (\<lambda>(n, t). (n, task_config_json t)) (stk_tasks s))"
  by (simp_all add: object_field_def stack_json_def map_json_def as_object_def)

lemma hm_has_mapped: "hm_has (map (\<lambda>(n, c). (n, f c)) m) k = hm_has m k"
  by (force simp: hm_has_def)

lemma dep_typed_stack: "dep_typed (stack_json s) (dependency_json d) = dependency_known s d"
  by (cases d) (simp_all add: dep_typed_def dependency_known_def stack_json_objects str_field_def hm_has_mapped)

lemma instance_fields:
  "str_field ''service_type'' (instance_json c) = Some (sic_service_type c)"
  "array_field ''dependencies'' (instance_json c) = Some (map dependency_json (sc_dependencies (sic_orchestration c)))"
  "str_field ''task_type'' (task_config_json t) = Some (tk_task_type t)"
  "array_field ''dependencies'' (task_config_json t) = Some (map dependency_json (tk_dependencies t))"
  by (simp_all add: str_field_def array_field_def instance_json_def task_config_json_def service_fields_def as_array_def)

lemma config_typed_stack:
  "config_typed S K (stack_json s) \<longleftrightarrow>
     (\<forall>(n, c)\<in>set (stk_services s). sic_service_type c \<in> S \<and>
        (\<forall>d\<in>set (sc_dependencies (sic_orchestration c)). dependency_known s d)) \<and>
     (\<forall>(n, t)\<in>set (stk_tasks s). tk_task_type t \<in> K \<and> (\<forall>d\<in>set (tk_dependencies t). dependency_known s d))"
  by (fastforce simp: config_typed_def entry_typed_def stack_json_objects instance_fields dep_typed_stack)

text \<open>What is registered is found.\<close>

lemma regs_of_lookup: "map_of (regs_of E cs) n = map_option (\<lambda>c. (sic_service_type c, service_of E c)) (map_of cs n)"
  by (induction cs) auto

lemma loaded_stack:
  "stack_get (register_services (regs_of E cs) service_stack_new) n = map_option (service_of E) (hm_get cs n)"
proof -
  have "stack_get (register_services (regs_of E cs) service_stack_new) n = map_option snd (map_of (regs_of E cs) n)"
    by (simp add: stack_get_def services.register_all_get service_stack_new_def)
  then show ?thesis by (simp add: regs_of_lookup hm_get_def option.map_comp comp_def)
qed

lemma loaded_types:
  assumes "hm_wf cs"
  shows "set (list_types (register_services (regs_of E cs) service_stack_new)) = (sic_service_type \<circ> snd) ` set cs"
proof -
  have "\<exists>n i. map_of (regs_of E cs) n = Some i \<and> fst i = sic_service_type c" if "(m, c) \<in> set cs" for m c
    using that hm_get_iff_mem [OF assms, of m c] by (auto simp: regs_of_lookup hm_get_def)
  moreover have "\<exists>m c. (m, c) \<in> set cs \<and> sic_service_type c = fst i" if "map_of (regs_of E cs) n = Some i" for n i
    using that by (fastforce simp: regs_of_lookup dest: map_of_SomeD)
  ultimately show ?thesis
    by (force simp: list_types_def services.register_all_types service_stack_new_def)
qed

lemma loaded_tasks:
  "task_get (register_tasks (task_regs E T) task_stack_new) n = map_option snd (map_of (task_regs E T) n)"
  by (simp add: task_get_def tasks.register_all_get task_stack_new_def)

lemma loaded_task_types:
  "set (list_task_types (register_tasks (task_regs E T) task_stack_new)) =
     {''graph-contracts-deployment'', ''tap-contracts-deployment''}"
  by (auto simp: list_task_types_def task_stack_new_def task_regs_def register_task_wrapped_def)

lemma stack_actions_registered:
  "db_action_registry b = action_registry_new \<Longrightarrow>
    \<exists>r. res_bind (builder_register_action ''setup-test-stack'' d1 f1 b) (builder_register_action ''health-check-stack'' d2 f2) =
        Inr (b\<lparr>db_action_registry := r\<rparr>) \<and>
      map ai_name (list_actions r) = [''setup-test-stack'', ''health-check-stack''] \<and>
      invoke r ''setup-test-stack'' = f1 \<and> invoke r ''health-check-stack'' = f2"
proof -
  assume b: "db_action_registry b = action_registry_new"
  let ?i = "action_info_new ''setup-test-stack'' d1" and ?j = "action_info_new ''health-check-stack'' d2"
  let ?r = "\<lparr>ar_actions = [(ai_name ?i, f1), (ai_name ?j, f2)], ar_metadata = [(ai_name ?i, ?i), (ai_name ?j, ?j)]\<rparr>"
  show ?thesis
    using b
    by (intro exI [of _ ?r]) (simp add: builder_register_action_def register_simple_def register_action_def
        action_info_new_def action_registry_new_def hm_has_def hm_insert_def hm_get_def list_actions_def hm_keys_def
        List.map_filter_simps invoke_def fun_eq_iff act_bind_def Let_def)
qed

section \<open>Properties\<close>

text \<open>
  C15. The test daemon is built from exactly the stacks that fit. If every service is of one of
  the four types, every task of one of the two, and every dependency is on something the stack has, then
  the daemon is built, with a service of the declared type and settings under each name of the stack,
  the two deployment tasks, the two stack actions and the endpoint asked for, not running; a stack that does not
  fit is refused before the manager or the registry is opened.
\<close>

theorem graph_daemon_from_stack:
  fixes D :: "('m, 'r, 'w) daemon_env"
  assumes names: "hm_wf (stk_services config)"
    and manager: "de_manager_new D w = (Inr m, w1)" and registry: "de_registry_new D w1 = (Inr r, w2)"
  shows "if stack_fits config then
      (\<exists>d. from_stack_config D E T endpoint config w = (Inr d, w2) \<and>
        (\<forall>n. stack_get (bd_service_stack d) n = map_option (service_of E) (hm_get (stk_services config) n)) \<and>
        (\<forall>n. task_get (bd_task_stack d) n = map_option snd (map_of (task_regs E T) n)) \<and>
        map ai_name (list_actions (bd_action_registry d)) = [''setup-test-stack'', ''health-check-stack''] \<and>
        invoke_action d ''setup-test-stack'' = setup_test_stack \<and>
        invoke_action d ''health-check-stack'' = health_check_stack \<and>
        bd_endpoint d = endpoint \<and> \<not> bd_running d)
    else (\<exists>e. from_stack_config D E T endpoint config w = (Inl e, w))"
proof -
  let ?cs = "stk_services config"
  let ?b0 = "with_config (stack_json config) (with_endpoint endpoint builder_new) :: 'w DaemonBuilder"
  note defs = from_stack_config_def service_stack_mut_def task_stack_mut_def with_config_def with_endpoint_def
    builder_new_def Let_def
  have load: "if \<forall>(n, c)\<in>set ?cs. sic_service_type c \<in> stack_types
     then load_services E ?cs service_stack_new = (Inr (), register_services (regs_of E ?cs) service_stack_new)
     else \<exists>e st'. load_services E ?cs service_stack_new = (Inl e, st')"
    by (rule load_services_run) (use names in \<open>simp_all add: hm_wf_def service_stack_new_def\<close>)
  show ?thesis
  proof (cases "\<forall>(n, c)\<in>set ?cs. sic_service_type c \<in> stack_types")
    case False
    with load obtain e st' where "load_services E ?cs service_stack_new = (Inl e, st')" by auto
    moreover have "\<not> stack_fits config" using False by (auto simp: stack_fits_def)
    ultimately show ?thesis by (simp add: defs)
  next
    case True
    let ?b2 = "?b0\<lparr>db_service_stack := register_services (regs_of E ?cs) service_stack_new,
      db_task_stack := register_tasks (task_regs E T) task_stack_new\<rparr>"
    have b2: "db_action_registry ?b2 = action_registry_new" by (simp add: defs)
    from stack_actions_registered [OF b2, of "''Set up a complete Graph Protocol test stack''" setup_test_stack
        "''Check health of all Graph Protocol services''" health_check_stack] obtain reg where
      acts: "res_bind (builder_register_action ''setup-test-stack''
          ''Set up a complete Graph Protocol test stack'' setup_test_stack ?b2)
          (builder_register_action ''health-check-stack''
          ''Check health of all Graph Protocol services'' health_check_stack) = Inr (?b2\<lparr>db_action_registry := reg\<rparr>)"
      and reg: "map ai_name (list_actions reg) = [''setup-test-stack'', ''health-check-stack'']"
        "invoke reg ''setup-test-stack'' = setup_test_stack" "invoke reg ''health-check-stack'' = health_check_stack"
      by (elim exE conjE) (rule that)
    have "load_services E ?cs service_stack_new = (Inr (), register_services (regs_of E ?cs) service_stack_new)"
      using load True by simp
    then have s1: "service_stack_mut (load_services E ?cs) ?b0 =
        (Inr (), ?b0\<lparr>db_service_stack := register_services (regs_of E ?cs) service_stack_new\<rparr>)"
      by (simp add: service_stack_mut_def with_config_def with_endpoint_def builder_new_def)
    have s2: "task_stack_mut (load_tasks E T)
        (?b0\<lparr>db_service_stack := register_services (regs_of E ?cs) service_stack_new\<rparr>) = (Inr (), ?b2)"
      by (simp add: task_stack_mut_def with_config_def with_endpoint_def builder_new_def load_tasks_run)
    have run: "from_stack_config D E T endpoint config w = build D (?b2\<lparr>db_action_registry := reg\<rparr>) w"
      by (simp only: from_stack_config_def Let_def s1 s2 acts prod.case sum.case)
    have "is_ok (validate_daemon_config (db_service_stack ?b2) (db_task_stack ?b2) (stack_json config)) \<longleftrightarrow> stack_fits config"
      using True
      by (auto simp: validate_daemon_config_ok config_typed_stack loaded_types [OF names] loaded_task_types stack_fits_def
          intro!: image_eqI [where x = "(_, _)"])
    note ok = this
    show ?thesis
    proof (cases "validate_daemon_config (db_service_stack ?b2) (db_task_stack ?b2) (stack_json config)")
      case (Inl e)
      have "build D (?b2\<lparr>db_action_registry := reg\<rparr>) w = (Inl e, w)"
        using Inl by (simp add: build_def act_bind_def with_config_def)
      with ok Inl show ?thesis by (simp add: run)
    next
      case (Inr u)
      let ?d = "\<lparr>bd_service_manager = m, bd_service_registry = r, bd_action_registry = reg,
        bd_service_stack = db_service_stack ?b2, bd_task_stack = db_task_stack ?b2, bd_endpoint = endpoint,
        bd_running = False\<rparr>"
      have "build D (?b2\<lparr>db_action_registry := reg\<rparr>) w = (Inr ?d, w2)"
        using Inr manager registry
        by (simp add: build_def act_bind_def map_act_err_def with_config_def with_endpoint_def builder_new_def)
      moreover have "stack_fits config" using ok Inr by simp
      ultimately show ?thesis
        unfolding run using reg by (simp add: loaded_stack loaded_tasks invoke_action_def fun_eq_iff)
    qed
  qed
qed

text \<open>A daemon with the two databases of the chain and of the node for the examples.\<close>

definition demo_gtd_env :: "unit gtd_env" where
  "demo_gtd_env = \<lparr>ge_now = (\<lambda>w. (''now'', w)), ge_sleep_ms = (\<lambda>_ w. w), ge_schema = (\<lambda>_. JNull),
     ge_serde_error = (\<lambda>_. ''invalid'')\<rparr>"

definition demo_gtd_tools :: "unit gtd_tools" where
  "demo_gtd_tools = \<lparr>gt_launch = (\<lambda>c w. (Inr 0, w)), gt_drop_handle = (\<lambda>h w. w),
     gt_read_all = (\<lambda>h w. ([], w)), gt_exists = (\<lambda>_ _. False), gt_display = (\<lambda>_. ''error'')\<rparr>"

definition demo_instance :: "string \<Rightarrow> string list \<Rightarrow> ServiceInstanceConfig" where
  "demo_instance ty deps = \<lparr>sic_service_type = ty, sic_orchestration = \<lparr>sc_name = ty,
     sc_target = TDocker ty [] [9000] [], sc_dependencies = map DepService deps, sc_health_check = None\<rparr>\<rparr>"

definition demo_stack :: "string list \<Rightarrow> StackConfig" where
  "demo_stack deps = \<lparr>stk_name = ''demo'', stk_description = None,
     stk_services = [(''chain'', demo_instance ''anvil'' []), (''node'', demo_instance ''graph-node'' deps)], stk_tasks = []\<rparr>"

theorem graph_daemon_from_stack_witness:
  "(\<exists>d. from_stack_config demo_daemon_env demo_gtd_env demo_gtd_tools ''127.0.0.1:9'' (demo_stack [''chain'']) () = (Inr d, ()) \<and>
      stack_get (bd_service_stack d) ''chain'' = Some (service_wrapper (anvil_service demo_gtd_env (anvil_new 31337 9000)))) \<and>
   (\<exists>e. from_stack_config demo_daemon_env demo_gtd_env demo_gtd_tools ''127.0.0.1:9'' (demo_stack [''cache'']) () = (Inl e, ()))"
proof -
  have wf: "hm_wf (stk_services (demo_stack ds))" for ds by (simp add: demo_stack_def hm_wf_def)
  have man: "de_manager_new demo_daemon_env () = (Inr (), ())" "de_registry_new demo_daemon_env () = (Inr (), ())"
    by (simp_all add: demo_daemon_env_def)
  have fits: "stack_fits (demo_stack [''chain''])" "\<not> stack_fits (demo_stack [''cache''])" by code_simp+
  have chain: "map_option (service_of demo_gtd_env) (hm_get (stk_services (demo_stack [''chain''])) ''chain'') =
      Some (service_wrapper (anvil_service demo_gtd_env (anvil_new 31337 9000)))"
    by (simp add: demo_stack_def demo_instance_def hm_get_def service_of_def anvil_of_def env_of_def
        opt_bind_def or_default_def first_port_def)
  show ?thesis
    using graph_daemon_from_stack [OF wf man, of "[''chain'']" demo_gtd_env demo_gtd_tools "''127.0.0.1:9''"]
      graph_daemon_from_stack [OF wf man, of "[''cache'']" demo_gtd_env demo_gtd_tools "''127.0.0.1:9''"] fits chain
    by fastforce
qed

lemma dispatch_registered:
  assumes "stack_get st n = Some (service_wrapper s)" and "si_decode s j = Inr a"
  shows "fst (dispatch st n action j w) =
    map_sum id (\<lambda>events. conversion_start (map (si_encode s) events)) (fst (si_dispatch_action s a w))"
  using assms
  by (cases "si_dispatch_action s a w"; cases "fst (si_dispatch_action s a w)")
    (auto simp: dispatch_def service_wrapper_def act_bind_def dispatch_json_def dispatch_typed_def)

lemma percent_steps: "filter (\<lambda>n. n mod 20 = 0) [0..<101] = [0, 20, 40, 60, 80, 100]"
  by code_simp

text \<open>
  What the chain and the node send. The JSON of an action decodes to that action, on any instance
  of a stack. Deploying a subgraph sends the start, six progress events from 0 to 100 in steps of 20, and
  the completion with the two endpoints of the subgraph, all under the identifier made of the hash; a
  hash shorter than two characters is a panic. Mining sends one event for each block asked for, numbered
  consecutively from 1000 with its index as the hash, as long as the numbers fit in 64 bits.
\<close>

theorem graph_actions_send:
  assumes node: "stack_get st n = Some (service_wrapper (graph_node_service E s))"
    and chain: "stack_get st c = Some (service_wrapper (anvil_service E v))"
    and fits: "unat count + 1000 \<le> 2 ^ 64"
    and ident: "i = ''Qm'' @ drop 2 hash"
  shows "fst (dispatch st n action (graph_node_action_json (DeploySubgraph name hash label)) w) =
      (if 2 \<le> length hash then
         Inr (conversion_start (map (Some \<circ> graph_node_event_json)
           (GnDeploymentStarted i (fst (ge_now E w)) #
            map (GnDeploymentProgress i ''Syncing blockchain data'') [0, 20, 40, 60, 80, 100] @
            [GnDeploymentCompleted i
               [''http://'' @ gn_endpoint s @ '':8000/subgraphs/name/'' @ name,
                ''ws://'' @ gn_endpoint s @ '':8001/subgraphs/name/'' @ name]])))
       else Inl core_panic) \<and>
    fst (dispatch st c action (anvil_action_json (MineBlocks count secs)) w) =
      Inr (conversion_start (map (\<lambda>k. Some (anvil_event_json
        (BlockMined (of_nat (1000 + k)) (''0x'' @ hex_padded 64 k)))) [0..<unat count]))"
proof
  have decode: "si_decode (graph_node_service E s) (graph_node_action_json a) = Inr a"
    "si_decode (anvil_service E v) (anvil_action_json b) = Inr b" for a b
    by (simp_all add: graph_node_service_def anvil_service_def)
  have progress: "fst (deploy_progress E i [0..<101] w) =
      map (GnDeploymentProgress i ''Syncing blockchain data'') [0, 20, 40, 60, 80, 100]" for w
    unfolding deploy_progress_events percent_steps by simp
  have slice: "str_slice hash 2 (length hash) = (if 2 \<le> length hash then Some (drop 2 hash) else None)"
    by (simp add: str_slice_def)
  show "fst (dispatch st n action (graph_node_action_json (DeploySubgraph name hash label)) w) =
      (if 2 \<le> length hash then
         Inr (conversion_start (map (Some \<circ> graph_node_event_json)
           (GnDeploymentStarted i (fst (ge_now E w)) #
            map (GnDeploymentProgress i ''Syncing blockchain data'') [0, 20, 40, 60, 80, 100] @
            [GnDeploymentCompleted i
               [''http://'' @ gn_endpoint s @ '':8000/subgraphs/name/'' @ name,
                ''ws://'' @ gn_endpoint s @ '':8001/subgraphs/name/'' @ name]])))
       else Inl core_panic)"
    unfolding dispatch_registered [OF node decode(1)]
    using progress
    by (simp add: graph_node_service_def graph_node_dispatch_def slice ident case_prod_unfold del: upt.simps)
  show "fst (dispatch st c action (anvil_action_json (MineBlocks count secs)) w) =
      Inr (conversion_start (map (\<lambda>k. Some (anvil_event_json
        (BlockMined (of_nat (1000 + k)) (''0x'' @ hex_padded 64 k)))) [0..<unat count]))"
    unfolding dispatch_registered [OF chain decode(2)]
    using fits by (auto simp: anvil_service_def anvil_dispatch_def comp_def mine_blocks_events)
qed

theorem graph_actions_send_witness:
  "let st = register_services [(''n'', ''graph-node'', service_wrapper (graph_node_service demo_gtd_env (graph_node_new ''h''))),
       (''c'', ''anvil'', service_wrapper (anvil_service demo_gtd_env anvil_default))] service_stack_new in
   fst (dispatch st ''n'' ''a'' (graph_node_action_json (DeploySubgraph ''s'' ''Q'' None)) ()) = Inl core_panic \<and>
   fst (dispatch st ''c'' ''a'' (anvil_action_json (MineBlocks 2 None)) ()) = Inr (conversion_start
     [Some (anvil_event_json (BlockMined 1000 (''0x'' @ hex_padded 64 0))),
      Some (anvil_event_json (BlockMined 1001 (''0x'' @ hex_padded 64 1)))])"
proof -
  let ?st = "register_services [(''n'', ''graph-node'', service_wrapper (graph_node_service demo_gtd_env (graph_node_new ''h''))),
       (''c'', ''anvil'', service_wrapper (anvil_service demo_gtd_env anvil_default))] service_stack_new"
  have get: "stack_get ?st ''n'' = Some (service_wrapper (graph_node_service demo_gtd_env (graph_node_new ''h'')))"
    "stack_get ?st ''c'' = Some (service_wrapper (anvil_service demo_gtd_env anvil_default))"
    by (simp_all add: stack_get_def register_wrapped_def service_stack_new_def)
  have count: "unat (2 :: u64) = 2" "[0..<2] = [0, 1 :: nat]" "unat (2 :: u64) + 1000 \<le> 2 ^ 64" by (simp_all add: upt_rec)
  have "fst (dispatch st ''n'' ''a'' (graph_node_action_json (DeploySubgraph ''s'' ''Q'' None)) ()) = Inl core_panic \<and>
     fst (dispatch st ''c'' ''a'' (anvil_action_json (MineBlocks 2 None)) ()) = Inr (conversion_start
       [Some (anvil_event_json (BlockMined 1000 (''0x'' @ hex_padded 64 0))),
        Some (anvil_event_json (BlockMined 1001 (''0x'' @ hex_padded 64 1)))])"
    if "stack_get st ''n'' = Some (service_wrapper (graph_node_service demo_gtd_env (graph_node_new ''h'')))"
      and "stack_get st ''c'' = Some (service_wrapper (anvil_service demo_gtd_env anvil_default))" for st
    using graph_actions_send [OF that count(3) refl, of "''a''" "''s''" "''Q''" None "()" None]
    by (simp add: count del: upt.simps graph_node_action_json.simps anvil_action_json.simps)
  from this [OF get] show ?thesis unfolding Let_def .
qed

text \<open>
  The contracts service is known by its type, but no stack can have one; and its setup leaves it as it
  was.
\<close>

lemma contracts_not_in_stacks: "create_service E ''graph-contracts'' \<noteq> None \<and> ''graph-contracts'' \<notin> stack_types"
  by (simp add: create_service_def service_constructors_def stack_types_def)

lemma contracts_setup_incomplete:
  "fst (su_perform_setup (contracts_setup graph_contracts_new) w) = Inr () \<and>
   fst (su_is_setup_complete (contracts_setup graph_contracts_new) (snd (su_perform_setup (contracts_setup graph_contracts_new) w))) =
     Inr False"
  by (simp add: contracts_setup_def graph_contracts_new_def)

end
