(* ===== verification/Gtd_Main.thy ===== *)
theory Gtd_Main
  imports Gtd_Daemon
begin

text \<open>
  The program of the graph daemon, \<^verbatim>\<open>crates/graph-test-daemon/src/main.rs\<close>, on arguments that were
  understood: it ends in a panic or an error, or goes on for ever with a daemon that was started.
\<close>

datatype ('m, 'r, 'w) program_end =
    BadEndpoint
  | MainFailed CoreError
  | RunsOn "('m, 'r, 'w) BaseDaemon"

definition gtd_main ::
    "('m, 'r, 'w) daemon_env \<Rightarrow> 'w gtd_env \<Rightarrow> 'w gtd_tools \<Rightarrow> (string \<Rightarrow> string option) \<Rightarrow> (string \<Rightarrow> ('w, string, string) act) \<Rightarrow>
      (string \<Rightarrow> string + StackConfig) \<Rightarrow> string option \<Rightarrow> string \<Rightarrow> 'w \<Rightarrow> ('m, 'r, 'w) program_end \<times> 'w" where
  "gtd_main D E T parse_endpoint read_to_string from_yaml endpoint_arg config_path w =
     (case parse_endpoint (case endpoint_arg of None \<Rightarrow> ''127.0.0.1:9443'' | Some e \<Rightarrow> e) of
        None \<Rightarrow> (BadEndpoint, w)
      | Some endpoint \<Rightarrow>
          (case from_config D E T (read_to_string config_path) from_yaml endpoint w of
             (Inl e, w) \<Rightarrow> (MainFailed e, w)
           | (Inr daemon, w) \<Rightarrow>
               (case graph_daemon_start daemon of
                  (Inl e, _) \<Rightarrow> (MainFailed e, w)
                | (Inr _, daemon) \<Rightarrow> (RunsOn daemon, w))))"

text \<open>
  It goes on exactly if the endpoint is an address and the daemon is built from the file, which then is the one
  that runs, marked as running; starting it touches nothing else.
\<close>

lemma gtd_main_runs:
  "(\<exists>w'. gtd_main D E T parse_endpoint read_to_string from_yaml arg path w = (RunsOn d, w')) \<longleftrightarrow>
     (\<exists>endpoint d0 w'. parse_endpoint (case arg of None \<Rightarrow> ''127.0.0.1:9443'' | Some e \<Rightarrow> e) = Some endpoint \<and>
        from_config D E T (read_to_string path) from_yaml endpoint w = (Inr d0, w') \<and> d = d0\<lparr>bd_running := True\<rparr>)"
  unfolding gtd_main_def graph_daemon_start_def daemon_start_def
  by (auto split: option.splits prod.splits sum.splits)

text \<open>A file that cannot be read, or is no configuration, ends the program before anything is opened.\<close>

lemma gtd_main_bad_file:
  assumes "parse_endpoint e = Some endpoint" and "read_to_string path w = (r, w')"
    and "r = Inl reason \<or> (\<exists>content. r = Inr content \<and> from_yaml content = Inl reason)"
  shows "\<exists>m. gtd_main D E T parse_endpoint read_to_string from_yaml (Some e) path w = (MainFailed (CeDaemon m), w')"
  using assms by (auto simp: gtd_main_def from_config_def map_act_err_def act_bind_def)

end
