(* ===== verification/Core_Client.thy ===== *)
theory Core_Client
  imports Core_Action
begin

text \<open>
  The test client, \<^verbatim>\<open>crates/harness-core/src/client.rs\<close>: its calls answer without talking to a daemon, and
  \<open>wait_for\<close> polls a condition until a time has passed. Endpoints are in their printed form.
\<close>

section \<open>Calls\<close>

record TestClient =
  tc_endpoint :: string
  tc_connected :: bool

definition test_client_new :: "string \<Rightarrow> TestClient" where
  "test_client_new endpoint = \<lparr>tc_endpoint = endpoint, tc_connected = False\<rparr>"

definition is_connected :: "TestClient \<Rightarrow> bool" where
  "is_connected c = tc_connected c"

definition test_connect :: "string \<Rightarrow> CoreError + TestClient" where
  "test_connect endpoint = Inr \<lparr>tc_endpoint = endpoint, tc_connected = True\<rparr>"

definition test_action :: "TestClient \<Rightarrow> string \<Rightarrow> json \<Rightarrow> CoreError + json" where
  "test_action c name params =
     (if \<not> tc_connected c then Inl (CeClient (CText ''Client not connected''))
      else Inr (JObj [(''action'', JStr name), (''params'', params), (''status'', JStr ''not_implemented''),
        (''message'', JStr ''Action invocation not yet implemented'')]))"

definition test_list_actions :: "TestClient \<Rightarrow> CoreError + json list" where
  "test_list_actions c =
     (if \<not> tc_connected c then Inl (CeClient (CText ''Client not connected''))
      else Inr [JObj [(''name'', JStr ''example''), (''description'', JStr ''Example action''),
        (''category'', JStr ''test'')]])"

definition test_disconnect :: "TestClient \<Rightarrow> CoreError + unit" where
  "test_disconnect c = Inr ()"

section \<open>Waiting\<close>

text \<open>
  The loop: \<open>now\<close> reads the clock in nanoseconds, \<open>condition\<close> is one poll, \<open>pass\<close> what happens while
  the loop gives way. \<open>start\<close> and \<open>timeout\<close> are in nanoseconds too.
\<close>

partial_function (option) wait_loop ::
    "('w \<Rightarrow> nat) \<Rightarrow> ('w \<Rightarrow> bool \<times> 'w) \<Rightarrow> ('w \<Rightarrow> 'w) \<Rightarrow> nat \<Rightarrow> nat \<Rightarrow> 'w \<Rightarrow> (bool \<times> 'w) option" where
  "wait_loop now condition pass start timeout w =
     (if now w - start < timeout then
        (case condition w of
           (met, w) \<Rightarrow> if met then Some (True, w) else wait_loop now condition pass start timeout (pass w))
      else Some (False, w))"

definition timeout_error :: "nat \<Rightarrow> CoreError" where
  "timeout_error timeout_ms = CeClient (CText (''Timeout after '' @ show_nat timeout_ms @ ''ms waiting for condition''))"

definition wait_for ::
    "('w \<Rightarrow> nat) \<Rightarrow> ('w \<Rightarrow> bool \<times> 'w) \<Rightarrow> ('w \<Rightarrow> 'w) \<Rightarrow> u64 \<Rightarrow> 'w \<Rightarrow> ((CoreError + unit) \<times> 'w) option" where
  "wait_for now condition pass timeout_ms w =
     map_option (\<lambda>(met, w). (if met then Inr () else Inl (timeout_error (unat timeout_ms)), w))
       (wait_loop now condition pass (now w) (unat timeout_ms * 1000000) w)"

text \<open>The two that ask for services have no query yet: their condition is false.\<close>

definition wait_for_service_state ::
    "('w \<Rightarrow> nat) \<Rightarrow> ('w \<Rightarrow> 'w) \<Rightarrow> string \<Rightarrow> string \<Rightarrow> u64 \<Rightarrow> 'w \<Rightarrow> ((CoreError + unit) \<times> 'w) option" where
  "wait_for_service_state now pass service_name expected_state timeout_ms =
     wait_for now (\<lambda>w. (False, w)) pass timeout_ms"

definition wait_for_healthy :: "('w \<Rightarrow> nat) \<Rightarrow> ('w \<Rightarrow> 'w) \<Rightarrow> u64 \<Rightarrow> 'w \<Rightarrow> ((CoreError + unit) \<times> 'w) option" where
  "wait_for_healthy now pass timeout_ms = wait_for now (\<lambda>w. (False, w)) pass timeout_ms"

section \<open>When it returns, and with what\<close>

text \<open>The world before the poll of each number, while the condition stays false.\<close>

fun world_before :: "('w \<Rightarrow> bool \<times> 'w) \<Rightarrow> ('w \<Rightarrow> 'w) \<Rightarrow> 'w \<Rightarrow> nat \<Rightarrow> 'w" where
  "world_before condition pass w 0 = w"
| "world_before condition pass w (Suc n) = world_before condition pass (pass (snd (condition w))) n"

definition passing_clock :: "('w \<Rightarrow> nat) \<Rightarrow> ('w \<Rightarrow> bool \<times> 'w) \<Rightarrow> ('w \<Rightarrow> 'w) \<Rightarrow> bool" where
  "passing_clock now condition pass \<longleftrightarrow> (\<forall>w. now w < now (pass (snd (condition w))))"

lemma ex_from_one: "\<not> P 0 \<Longrightarrow> (\<exists>n. P n) \<longleftrightarrow> (\<exists>n. P (Suc n))"
  by (metis not0_implies_Suc)

text \<open>
  On a clock that moves, the loop returns, and the condition was met exactly if some poll made in time found
  it so, all before it not.
\<close>

lemma wait_loop_result:
  assumes clock: "passing_clock now condition pass"
  shows "\<exists>met w'. wait_loop now condition pass start timeout w = Some (met, w') \<and>
    (met \<longleftrightarrow> (\<exists>n. fst (condition (world_before condition pass w n)) \<and>
      (\<forall>k<n. \<not> fst (condition (world_before condition pass w k))) \<and>
      (\<forall>k\<le>n. now (world_before condition pass w k) - start < timeout)))"
    (is "\<exists>met w'. _ \<and> (met \<longleftrightarrow> (\<exists>n. ?hit w n))")
proof (induction "start + timeout - now w" arbitrary: w rule: less_induct)
  case less
  obtain b w1 where c: "condition w = (b, w1)" by fastforce
  show ?case
  proof (cases "now w - start < timeout")
    case False
    then have "\<not> ?hit w n" for n by (metis le0 world_before.simps(1))
    with False show ?thesis by (simp add: wait_loop.simps)
  next
    case early: True
    show ?thesis
    proof (cases b)
      case True
      with c early have "\<exists>n. ?hit w n" by (intro exI [of _ 0]) simp
      moreover have "wait_loop now condition pass start timeout w = Some (True, w1)"
        using True c early by (simp add: wait_loop.simps)
      ultimately show ?thesis by blast
    next
      case False
      have "now w < now (pass w1)" using clock c unfolding passing_clock_def by (metis snd_conv)
      with early have "start + timeout - now (pass w1) < start + timeout - now w" by linarith
      from less.hyps [OF this] obtain met w' where rest: "wait_loop now condition pass start timeout (pass w1) = Some (met, w')"
        and met: "met \<longleftrightarrow> (\<exists>n. ?hit (pass w1) n)" by blast
      have shift: "?hit w (Suc n) \<longleftrightarrow> ?hit (pass w1) n" for n
        using c False early unfolding less_Suc_eq_le [symmetric] All_less_Suc2 by simp
      have "\<not> ?hit w 0" using c False by simp
      from ex_from_one [of "?hit w", OF this] have "(\<exists>n. ?hit w n) \<longleftrightarrow> (\<exists>n. ?hit (pass w1) n)"
        unfolding shift .
      with met have "met \<longleftrightarrow> (\<exists>n. ?hit w n)" by (rule trans [OF _ sym])
      moreover have "wait_loop now condition pass start timeout w = Some (met, w')"
        using False by (subst wait_loop.simps) (simp add: c early rest)
      ultimately show ?thesis by blast
    qed
  qed
qed

text \<open>A wait for services always ends in the time-out, however the services are.\<close>

lemma waiting_for_services_fails:
  assumes "\<forall>w. now w < now (pass w)"
  shows "\<exists>w'. wait_for_healthy now pass ms w = Some (Inl (timeout_error (unat ms)), w')"
    and "\<exists>w'. wait_for_service_state now pass name state ms w = Some (Inl (timeout_error (unat ms)), w')"
proof -
  have "passing_clock now (\<lambda>w. (False, w)) pass" using assms by (simp add: passing_clock_def)
  from wait_loop_result [OF this, of "now w" "unat ms * 1000000" w]
  obtain w' where "wait_loop now (\<lambda>w. (False, w)) pass (now w) (unat ms * 1000000) w = Some (False, w')"
    unfolding fst_conv by auto
  then show "\<exists>w'. wait_for_healthy now pass ms w = Some (Inl (timeout_error (unat ms)), w')"
    "\<exists>w'. wait_for_service_state now pass name state ms w = Some (Inl (timeout_error (unat ms)), w')"
    by (auto simp: wait_for_healthy_def wait_for_service_state_def wait_for_def)
qed

text \<open>A client that has not connected is refused; disconnecting does not undo a connection.\<close>

lemma unconnected_refused:
  "\<not> is_ok (test_action (test_client_new e) name params)" "\<not> is_ok (test_list_actions (test_client_new e))"
  by (simp_all add: test_action_def test_list_actions_def test_client_new_def)

lemma used_after_disconnect:
  "test_connect e = Inr c \<Longrightarrow> test_disconnect c = Inr () \<and> is_ok (test_action c name params)"
  by (auto simp: test_connect_def test_disconnect_def test_action_def)

end
