(* ===== verification/Reg_Package.thy ===== *)
theory Reg_Package
  imports Reg_Json Host_Files
begin

text \<open>
  Packages and settings of the registry, \<^verbatim>\<open>crates/service-registry/src/package.rs\<close> and \<^verbatim>\<open>config.rs\<close>: the
  manifest, the names a package gets on disk, building and installing, and the configuration with its
  serde defaults. Files and YAML are parameters.
\<close>

section \<open>Packages\<close>

record PkgPort =
  pp_name :: string
  pp_port :: u16
  pp_protocol :: string

record PkgService =
  ps_service_type :: string
  ps_ports :: "PkgPort list"

record PkgRequirements =
  pr_commands :: "string list"
  pr_libraries :: "string list"

record RegPkgHealth =
  rph_script :: string
  rph_interval :: string
  rph_timeout :: string

record RegManifest =
  rpm_name :: string
  rpm_version :: string
  rpm_description :: "string option"
  rpm_service :: PkgService
  rpm_depends_on :: "string list"
  rpm_requires :: PkgRequirements
  rpm_health :: "RegPkgHealth option"

record RegPackage =
  rp_manifest :: RegManifest
  rp_package_path :: string
  rp_install_path :: string

record PackageBuilder =
  pb_name :: string
  pb_version :: string
  pb_source_dir :: string
  pb_output_dir :: string

definition sanitize_name :: "string \<Rightarrow> string" where
  "sanitize_name name = map (\<lambda>c. if is_alnum c \<or> c = CHR ''-'' \<or> c = CHR ''_'' then c else CHR ''_'') name"

definition sanitize_version :: "string \<Rightarrow> string" where
  "sanitize_version version = map (\<lambda>c. if is_alnum c \<or> c = CHR ''.'' \<or> c = CHR ''-'' then c else CHR ''_'') version"

text \<open>The file system; reading yields the text, or the error.\<close>

record 'w pkg_env =
  pe_exists :: "string \<Rightarrow> 'w \<Rightarrow> bool"
  pe_read :: "string \<Rightarrow> ('w, RegError, string) act"
  pe_create_dir_all :: "string \<Rightarrow> ('w, RegError, unit) act"
  pe_from_yaml :: "string \<Rightarrow> string + RegManifest"

definition load_manifest :: "'w pkg_env \<Rightarrow> PackageBuilder \<Rightarrow> ('w, RegError, RegManifest) act" where
  "load_manifest E b w =
     (let manifest_path = path_push (pb_source_dir b) ''manifest.yaml'' in
      if \<not> pe_exists E manifest_path w then (Inl (PackageErr (MsgText ''No manifest.yaml found'')), w)
      else act_bind (pe_read E manifest_path) (\<lambda>contents.
        act_bind (act_lift (map_err (\<lambda>e. PackageErr (MsgText (''Invalid manifest: '' @ e))) (pe_from_yaml E contents))) (\<lambda>manifest.
        if rpm_name manifest \<noteq> pb_name b then
          act_err (PackageErr (MsgText (''Manifest name '' @ quoted (rpm_name manifest) @
            '' doesn't match package name '' @ quoted (pb_name b))))
        else if rpm_version manifest \<noteq> pb_version b then
          act_err (PackageErr (MsgText (''Manifest version '' @ quoted (rpm_version manifest) @
            '' doesn't match package version '' @ quoted (pb_version b))))
        else act_ret manifest)) w)"

definition create_tarball :: "string \<Rightarrow> ('w, RegError, unit) act" where
  "create_tarball output_path = act_err (PackageErr (MsgText ''Tarball creation not yet implemented''))"

definition package_install_path :: "PackageBuilder \<Rightarrow> string" where
  "package_install_path b = path_push ''/opt'' (sanitize_name (pb_name b) @ ''-'' @ sanitize_version (pb_version b))"

definition package_build :: "'w pkg_env \<Rightarrow> PackageBuilder \<Rightarrow> ('w, RegError, RegPackage) act" where
  "package_build E b =
     (let sanitized_name = sanitize_name (pb_name b);
          sanitized_version = sanitize_version (pb_version b);
          install_path = package_install_path b in
      act_bind (load_manifest E b) (\<lambda>manifest.
      let package_filename = sanitized_name @ ''-'' @ sanitized_version @ ''.tar.gz'';
          package_path = path_push (pb_output_dir b) package_filename in
      act_bind (create_tarball package_path) (\<lambda>_.
      act_ret \<lparr>rp_manifest = manifest, rp_package_path = package_path, rp_install_path = install_path\<rparr>)))"

definition reg_extract_package :: "string \<Rightarrow> string \<Rightarrow> ('w, RegError, unit) act" where
  "reg_extract_package package_path target_dir = act_err (PackageErr (MsgText ''Package extraction not yet implemented''))"

fun require_scripts :: "'w pkg_env \<Rightarrow> string \<Rightarrow> string list \<Rightarrow> ('w, RegError, unit) act" where
  "require_scripts E scripts_dir [] = act_ret ()"
| "require_scripts E scripts_dir (script # scripts) = (\<lambda>w.
     if \<not> pe_exists E (path_push scripts_dir script) w then
       (Inl (PackageErr (MsgText (''Required script missing: '' @ script))), w)
     else require_scripts E scripts_dir scripts w)"

definition validate_scripts :: "'w pkg_env \<Rightarrow> string \<Rightarrow> ('w, RegError, unit) act" where
  "validate_scripts E package_dir = require_scripts E (path_push package_dir ''scripts'') [''start.sh'', ''stop.sh'']"

definition package_install :: "'w pkg_env \<Rightarrow> RegPackage \<Rightarrow> string \<Rightarrow> ('w, RegError, unit) act" where
  "package_install E package target_dir =
     act_bind (pe_create_dir_all E target_dir) (\<lambda>_.
     act_bind (reg_extract_package (rp_package_path package) target_dir) (\<lambda>_.
     validate_scripts E target_dir))"

section \<open>Settings\<close>

record RegTls =
  tl_cert_path :: string
  tl_key_path :: string
  tl_require_client_cert :: bool

record RegServer =
  sv_listen_addr :: string
  sv_tls :: "RegTls option"

record RegClientTls =
  ct_server_name :: string
  ct_ca_cert_path :: "string option"
  ct_accept_invalid_certs :: bool

record RegClient =
  rcl_server_addr :: string
  rcl_tls :: "RegClientTls option"

record RegPackages =
  pk_install_dir :: string
  pk_verify_signatures :: bool

record RegistryConfig =
  rcf_server :: RegServer
  rcf_client :: "RegClient option"
  rcf_packages :: RegPackages

definition default_package_dir :: string where "default_package_dir = ''/opt''"

text \<open>The derived default: an empty path.\<close>

definition packages_default :: RegPackages where
  "packages_default = \<lparr>pk_install_dir = [], pk_verify_signatures = False\<rparr>"

definition registry_config_default :: RegistryConfig where
  "registry_config_default = \<lparr>rcf_server = \<lparr>sv_listen_addr = ''127.0.0.1:8080'', sv_tls = None\<rparr>, rcf_client = None,
     rcf_packages = packages_default\<rparr>"

definition registry_config_new :: RegistryConfig where "registry_config_new = registry_config_default"

definition registry_config_with_tls :: "string \<Rightarrow> string \<Rightarrow> RegistryConfig" where
  "registry_config_with_tls cert_path key_path =
     \<lparr>rcf_server = \<lparr>sv_listen_addr = ''127.0.0.1:8443'', sv_tls = Some \<lparr>tl_cert_path = cert_path, tl_key_path = key_path,
        tl_require_client_cert = False\<rparr>\<rparr>, rcf_client = None, rcf_packages = packages_default\<rparr>"

text \<open>A field with a default for when it is missing.\<close>

definition json_default_field :: "'a \<Rightarrow> (json \<Rightarrow> 'a option) \<Rightarrow> string \<Rightarrow> json \<Rightarrow> 'a option" where
  "json_default_field d f k j = (case json_get k j of None \<Rightarrow> Some d | Some v \<Rightarrow> f v)"

text \<open>A field that is left out when it is \<open>None\<close>.\<close>

definition some_field :: "string \<Rightarrow> ('a \<Rightarrow> json) \<Rightarrow> 'a option \<Rightarrow> (string \<times> json) list" where
  "some_field k f m = (case m of None \<Rightarrow> [] | Some x \<Rightarrow> [(k, f x)])"

definition tls_json :: "RegTls \<Rightarrow> json" where
  "tls_json t = JObj [(''cert_path'', JStr (tl_cert_path t)), (''key_path'', JStr (tl_key_path t)),
     (''require_client_cert'', JBool (tl_require_client_cert t))]"

definition json_tls :: "json \<Rightarrow> RegTls option" where
  "json_tls j =
     opt_bind (json_field json_str ''cert_path'' j) (\<lambda>cert.
     opt_bind (json_field json_str ''key_path'' j) (\<lambda>key.
     opt_bind (json_default_field False json_bool ''require_client_cert'' j) (\<lambda>req.
     Some \<lparr>tl_cert_path = cert, tl_key_path = key, tl_require_client_cert = req\<rparr>)))"

definition server_json :: "RegServer \<Rightarrow> json" where
  "server_json s = JObj ((''listen_addr'', JStr (sv_listen_addr s)) # some_field ''tls'' tls_json (sv_tls s))"

definition json_server :: "json \<Rightarrow> RegServer option" where
  "json_server j =
     opt_bind (json_field json_str ''listen_addr'' j) (\<lambda>addr.
     opt_bind (json_opt_field json_tls ''tls'' j) (\<lambda>tls.
     Some \<lparr>sv_listen_addr = addr, sv_tls = tls\<rparr>))"

definition client_tls_json :: "RegClientTls \<Rightarrow> json" where
  "client_tls_json t = JObj ([(''server_name'', JStr (ct_server_name t))] @
     some_field ''ca_cert_path'' JStr (ct_ca_cert_path t) @ [(''accept_invalid_certs'', JBool (ct_accept_invalid_certs t))])"

definition json_client_tls :: "json \<Rightarrow> RegClientTls option" where
  "json_client_tls j =
     opt_bind (json_field json_str ''server_name'' j) (\<lambda>server_name.
     opt_bind (json_opt_field json_str ''ca_cert_path'' j) (\<lambda>ca.
     opt_bind (json_default_field False json_bool ''accept_invalid_certs'' j) (\<lambda>acc.
     Some \<lparr>ct_server_name = server_name, ct_ca_cert_path = ca, ct_accept_invalid_certs = acc\<rparr>)))"

definition client_json :: "RegClient \<Rightarrow> json" where
  "client_json c = JObj ((''server_addr'', JStr (rcl_server_addr c)) # some_field ''tls'' client_tls_json (rcl_tls c))"

definition json_client :: "json \<Rightarrow> RegClient option" where
  "json_client j =
     opt_bind (json_field json_str ''server_addr'' j) (\<lambda>addr.
     opt_bind (json_opt_field json_client_tls ''tls'' j) (\<lambda>tls.
     Some \<lparr>rcl_server_addr = addr, rcl_tls = tls\<rparr>))"

definition packages_json :: "RegPackages \<Rightarrow> json" where
  "packages_json p = JObj [(''install_dir'', JStr (pk_install_dir p)), (''verify_signatures'', JBool (pk_verify_signatures p))]"

definition json_packages :: "json \<Rightarrow> RegPackages option" where
  "json_packages j =
     opt_bind (json_default_field default_package_dir json_str ''install_dir'' j) (\<lambda>dir.
     opt_bind (json_default_field False json_bool ''verify_signatures'' j) (\<lambda>ver.
     Some \<lparr>pk_install_dir = dir, pk_verify_signatures = ver\<rparr>))"

definition registry_config_json :: "RegistryConfig \<Rightarrow> json" where
  "registry_config_json c = JObj ([(''server'', server_json (rcf_server c))] @
     some_field ''client'' client_json (rcf_client c) @ [(''packages'', packages_json (rcf_packages c))])"

definition json_registry_config :: "json \<Rightarrow> RegistryConfig option" where
  "json_registry_config j =
     opt_bind (json_field json_server ''server'' j) (\<lambda>server.
     opt_bind (json_opt_field json_client ''client'' j) (\<lambda>client.
     opt_bind (json_default_field packages_default json_packages ''packages'' j) (\<lambda>packages.
     Some \<lparr>rcf_server = server, rcf_client = client, rcf_packages = packages\<rparr>)))"

section \<open>Lemmas\<close>

text \<open>A name on disk has no separator and is its own sanitized form.\<close>

lemma sanitize_name_facts:
  "CHR ''/'' \<notin> set (sanitize_name s)" "length (sanitize_name s) = length s"
  "sanitize_name (sanitize_name s) = sanitize_name s"
  by (auto simp: sanitize_name_def is_alnum_def is_alpha_def is_upper_def is_lower_def is_digit_def)

lemma sanitize_version_facts:
  "CHR ''/'' \<notin> set (sanitize_version s)" "length (sanitize_version s) = length s"
  "sanitize_version (sanitize_version s) = sanitize_version s"
  by (auto simp: sanitize_version_def is_alnum_def is_alpha_def is_upper_def is_lower_def is_digit_def)

text \<open>Two packages can share an installation directory.\<close>

lemma install_paths_collide:
  "package_install_path \<lparr>pb_name = ''a-1'', pb_version = ''2'', pb_source_dir = [], pb_output_dir = []\<rparr> =
   package_install_path \<lparr>pb_name = ''a'', pb_version = ''1-2'', pb_source_dir = [], pb_output_dir = []\<rparr>"
  by code_simp

text \<open>The installation directory when the section is missing, and when it is empty.\<close>

lemma package_dir_defaults:
  "map_option (pk_install_dir \<circ> rcf_packages) (json_registry_config
     (JObj [(''server'', JObj [(''listen_addr'', JStr ''h:1'')])])) = Some []"
  "map_option (pk_install_dir \<circ> rcf_packages) (json_registry_config
     (JObj [(''server'', JObj [(''listen_addr'', JStr ''h:1'')]), (''packages'', JObj [])])) = Some ''/opt''"
  by code_simp+

lemma tls_json_round [simp]: "json_opt json_tls (tls_json t) = Some (Some t)"
  by (rule opt_json_round) (simp_all add: json_tls_def tls_json_def json_defs json_default_field_def)

lemma server_json_round [simp]: "json_server (server_json s) = Some s"
  by (cases "sv_tls s") (simp_all add: json_server_def server_json_def some_field_def json_defs)

lemma client_tls_json_round [simp]: "json_opt json_client_tls (client_tls_json t) = Some (Some t)"
  by (rule opt_json_round; cases "ct_ca_cert_path t")
    (simp_all add: json_client_tls_def client_tls_json_def some_field_def json_defs json_default_field_def)

lemma client_json_round [simp]: "json_opt json_client (client_json c) = Some (Some c)"
  by (rule opt_json_round; cases "rcl_tls c")
    (simp_all add: json_client_def client_json_def some_field_def json_defs)

lemma packages_json_round [simp]: "json_packages (packages_json p) = Some p"
  by (simp add: json_packages_def packages_json_def json_default_field_def)

lemma registry_config_round: "json_registry_config (registry_config_json c) = Some c"
  by (cases "rcf_client c")
    (simp_all add: json_registry_config_def registry_config_json_def some_field_def json_defs json_default_field_def)

text \<open>The manifest that is loaded is the builder's.\<close>

lemma load_manifest_ok:
  "load_manifest E b w = (Inr m, w') \<Longrightarrow> rpm_name m = pb_name b \<and> rpm_version m = pb_version b"
  by (auto simp: load_manifest_def act_bind_Inr_iff Let_def split: if_splits)

lemma package_build_run:
  "\<exists>e. package_build E b w = (Inl e, snd (load_manifest E b w))"
  by (cases "load_manifest E b w"; cases "fst (load_manifest E b w)")
    (auto simp: package_build_def act_bind_def create_tarball_def Let_def)

lemma package_install_run:
  "\<exists>e. package_install E package target w = (Inl e, snd (pe_create_dir_all E target w))"
  by (cases "pe_create_dir_all E target w"; cases "fst (pe_create_dir_all E target w)")
    (auto simp: package_install_def act_bind_def reg_extract_package_def)

section \<open>Properties\<close>

text \<open>
  Where packages go, and that none gets there yet. Whatever the name and the version of a package, its
  installation path is a direct child of \<open>/opt\<close> whose name has no separator and is not a dot
  component; but building reads the manifest and then fails, installing creates the target
  directory and then fails, whatever the files are.
\<close>

theorem packages_stay_out:
  "(\<exists>child. package_install_path b = ''/opt/'' @ child \<and> CHR ''/'' \<notin> set child \<and> CHR ''-'' \<in> set child) \<and>
   (\<exists>e. package_build E b w = (Inl e, snd (load_manifest E b w))) \<and>
   (\<exists>e. package_install E package target w = (Inl e, snd (pe_create_dir_all E target w)))"
proof -
  let ?child = "sanitize_name (pb_name b) @ ''-'' @ sanitize_version (pb_version b)"
  have no: "CHR ''/'' \<notin> set ?child" using sanitize_name_facts(1) sanitize_version_facts(1) by simp
  have "\<not> str_starts_with c ''/''" if "CHR ''/'' \<notin> set c" for c using that by (cases c) auto
  with no have "\<not> str_starts_with ?child ''/''" by blast
  then have "package_install_path b = ''/opt/'' @ ?child" by (simp add: package_install_path_def path_push_def)
  with no show ?thesis using package_build_run package_install_run by (intro conjI exI [of _ ?child]) auto
qed

end
