(* ===== verification/Cmd_Targets.thy ===== *)
theory Cmd_Targets
  imports Cmd_Layers
begin

text \<open>
  The builders of \<^verbatim>\<open>crates/command-executor\<close>: the chaining form of a command (\<^verbatim>\<open>command.rs\<close>), the targets
  that are built step by step (\<^verbatim>\<open>target.rs\<close>), and the settings of the layers (\<^verbatim>\<open>layered/layers.rs\<close>).
\<close>

section \<open>Commands\<close>

datatype CommandBuilder = CommandBuilder (cb_command: Command)

definition command_builder :: "string \<Rightarrow> CommandBuilder" where
  "command_builder program = CommandBuilder (cmd_new program)"

definition cb_arg :: "string \<Rightarrow> CommandBuilder \<Rightarrow> CommandBuilder" where
  "cb_arg a b = CommandBuilder (add_arg a (cb_command b))"

definition cb_args :: "string list \<Rightarrow> CommandBuilder \<Rightarrow> CommandBuilder" where
  "cb_args as b = CommandBuilder (add_args as (cb_command b))"

definition cb_env :: "string \<Rightarrow> string \<Rightarrow> CommandBuilder \<Rightarrow> CommandBuilder" where
  "cb_env k v b = CommandBuilder (set_env k v (cb_command b))"

definition cb_current_dir :: "string \<Rightarrow> CommandBuilder \<Rightarrow> CommandBuilder" where
  "cb_current_dir dir b = CommandBuilder (set_current_dir dir (cb_command b))"

definition cb_build :: "CommandBuilder \<Rightarrow> Command" where
  "cb_build b = cb_command b"

section \<open>Managed processes\<close>

record ManagedProcessBuilder =
  mpb_process_group :: "int option"
  mpb_restart_on_failure :: bool

definition managed_process_builder :: ManagedProcessBuilder where
  "managed_process_builder = \<lparr>mpb_process_group = None, mpb_restart_on_failure = False\<rparr>"

definition mpb_with_process_group :: "int \<Rightarrow> ManagedProcessBuilder \<Rightarrow> ManagedProcessBuilder" where
  "mpb_with_process_group pgid b = b\<lparr>mpb_process_group := Some pgid\<rparr>"

definition mpb_with_restart_on_failure :: "bool \<Rightarrow> ManagedProcessBuilder \<Rightarrow> ManagedProcessBuilder" where
  "mpb_with_restart_on_failure enabled b = b\<lparr>mpb_restart_on_failure := enabled\<rparr>"

definition managed_process_build :: "ManagedProcessBuilder \<Rightarrow> ManagedProcess" where
  "managed_process_build b =
     \<lparr>mp_process_group = mpb_process_group b, mp_restart_on_failure = mpb_restart_on_failure b\<rparr>"

section \<open>Managed and attached services\<close>

definition msb_set_status :: "Command \<Rightarrow> ManagedServiceBuilder \<Rightarrow> ManagedServiceBuilder" where
  "msb_set_status c b = b\<lparr>msb_status_command := Some c\<rparr>"

definition msb_set_start :: "Command \<Rightarrow> ManagedServiceBuilder \<Rightarrow> ManagedServiceBuilder" where
  "msb_set_start c b = b\<lparr>msb_start_command := Some c\<rparr>"

definition msb_set_stop :: "Command \<Rightarrow> ManagedServiceBuilder \<Rightarrow> ManagedServiceBuilder" where
  "msb_set_stop c b = b\<lparr>msb_stop_command := Some c\<rparr>"

definition msb_set_restart :: "Command \<Rightarrow> ManagedServiceBuilder \<Rightarrow> ManagedServiceBuilder" where
  "msb_set_restart c b = b\<lparr>msb_restart_command := Some c\<rparr>"

definition msb_set_reload :: "Command \<Rightarrow> ManagedServiceBuilder \<Rightarrow> ManagedServiceBuilder" where
  "msb_set_reload c b = b\<lparr>msb_reload_command := Some c\<rparr>"

definition msb_set_log :: "Command \<Rightarrow> ManagedServiceBuilder \<Rightarrow> ManagedServiceBuilder" where
  "msb_set_log c b = b\<lparr>msb_log_command := Some c\<rparr>"

definition asb_set_status :: "Command \<Rightarrow> AttachedServiceBuilder \<Rightarrow> AttachedServiceBuilder" where
  "asb_set_status c b = b\<lparr>asb_status_command := Some c\<rparr>"

definition asb_set_log :: "Command \<Rightarrow> AttachedServiceBuilder \<Rightarrow> AttachedServiceBuilder" where
  "asb_set_log c b = b\<lparr>asb_log_command := Some c\<rparr>"

text \<open>The calls that set a command, in the order they are made, and the last of each kind.\<close>

datatype set_call = SetStatus | SetStart | SetStop | SetRestart | SetReload | SetLog

fun set_command :: "set_call \<times> Command \<Rightarrow> ManagedServiceBuilder \<Rightarrow> ManagedServiceBuilder" where
  "set_command (SetStatus, c) = msb_set_status c"
| "set_command (SetStart, c) = msb_set_start c"
| "set_command (SetStop, c) = msb_set_stop c"
| "set_command (SetRestart, c) = msb_set_restart c"
| "set_command (SetReload, c) = msb_set_reload c"
| "set_command (SetLog, c) = msb_set_log c"

definition last_set :: "set_call \<Rightarrow> (set_call \<times> Command) list \<Rightarrow> Command option" where
  "last_set k calls = map_of (rev calls) k"

lemma last_set_snoc: "last_set k (calls @ [(k', c)]) = (if k = k' then Some c else last_set k calls)"
  by (simp add: last_set_def)

lemma builder_after:
  "(\<lambda>b. (msb_name b, msb_status_command b, msb_start_command b, msb_stop_command b, msb_restart_command b,
       msb_reload_command b, msb_log_command b)) (foldl (\<lambda>b call. set_command call b) (managed_service_builder name) calls) =
     (name, last_set SetStatus calls, last_set SetStart calls, last_set SetStop calls, last_set SetRestart calls,
       last_set SetReload calls, last_set SetLog calls)"
proof (induction calls rule: rev_induct)
  case Nil
  then show ?case by (simp add: managed_service_builder_def last_set_def)
next
  case (snoc call calls)
  obtain k c where call: "call = (k, c)" by fastforce
  from snoc show ?case unfolding call
    by (cases k) (simp_all add: last_set_snoc msb_set_status_def msb_set_start_def msb_set_stop_def
        msb_set_restart_def msb_set_reload_def msb_set_log_def)
qed

text \<open>
  However a service is put together, it can be built exactly if the commands for status, start, stop and log were
  set, and then has the ones set last.
\<close>

lemma managed_service_built:
  "(\<exists>s. managed_service_build (foldl (\<lambda>b call. set_command call b) (managed_service_builder name) calls) = Inr s) \<longleftrightarrow>
     {SetStatus, SetStart, SetStop, SetLog} \<subseteq> fst ` set calls"
  "managed_service_build (foldl (\<lambda>b call. set_command call b) (managed_service_builder name) calls) = Inr s \<Longrightarrow>
     ms_name s = name \<and> last_set SetStatus calls = Some (ms_status_command s) \<and> last_set SetStart calls = Some (ms_start_command s) \<and>
     last_set SetStop calls = Some (ms_stop_command s) \<and> last_set SetLog calls = Some (ms_log_command s) \<and>
     ms_restart_command s = last_set SetRestart calls \<and> ms_reload_command s = last_set SetReload calls"
proof -
  let ?b = "foldl (\<lambda>b call. set_command call b) (managed_service_builder name) calls"
  have b: "msb_name ?b = name" "msb_status_command ?b = last_set SetStatus calls" "msb_start_command ?b = last_set SetStart calls"
    "msb_stop_command ?b = last_set SetStop calls" "msb_log_command ?b = last_set SetLog calls"
    "msb_restart_command ?b = last_set SetRestart calls" "msb_reload_command ?b = last_set SetReload calls"
    using builder_after [of name calls] by simp_all
  have some: "last_set k calls \<noteq> None \<longleftrightarrow> k \<in> fst ` set calls" for k
    unfolding last_set_def by (simp add: map_of_eq_None_iff)
  have "(\<exists>s. managed_service_build ?b = Inr s) \<longleftrightarrow> is_ok (managed_service_build ?b)"
    by (cases "managed_service_build ?b") simp_all
  also have "\<dots> \<longleftrightarrow> {SetStatus, SetStart, SetStop, SetLog} \<subseteq> fst ` set calls"
    unfolding managed_service_build_iff b some by simp
  finally show "(\<exists>s. managed_service_build ?b = Inr s) \<longleftrightarrow> {SetStatus, SetStart, SetStop, SetLog} \<subseteq> fst ` set calls" .
  show "managed_service_build ?b = Inr s \<Longrightarrow> ms_name s = name \<and> last_set SetStatus calls = Some (ms_status_command s) \<and>
      last_set SetStart calls = Some (ms_start_command s) \<and> last_set SetStop calls = Some (ms_stop_command s) \<and>
      last_set SetLog calls = Some (ms_log_command s) \<and> ms_restart_command s = last_set SetRestart calls \<and>
      ms_reload_command s = last_set SetReload calls"
    unfolding managed_service_build_def b by (auto simp: res_bind_Inr_iff ok_or_Inr_iff)
qed

section \<open>Settings of layers\<close>

definition ssh_with_port :: "u16 \<Rightarrow> SshLayer \<Rightarrow> SshLayer" where
  "ssh_with_port port l = l\<lparr>ssl_port := Some port\<rparr>"

definition ssh_with_identity_file :: "string \<Rightarrow> SshLayer \<Rightarrow> SshLayer" where
  "ssh_with_identity_file path l = l\<lparr>ssl_identity_file := Some path\<rparr>"

definition ssh_with_working_dir :: "string \<Rightarrow> SshLayer \<Rightarrow> SshLayer" where
  "ssh_with_working_dir dir l = l\<lparr>ssl_working_dir := Some dir\<rparr>"

definition ssh_with_agent_forwarding :: "bool \<Rightarrow> SshLayer \<Rightarrow> SshLayer" where
  "ssh_with_agent_forwarding enabled l = l\<lparr>ssl_agent_forwarding := enabled\<rparr>"

definition ssh_with_x11_forwarding :: "bool \<Rightarrow> SshLayer \<Rightarrow> SshLayer" where
  "ssh_with_x11_forwarding enabled l = l\<lparr>ssl_x11_forwarding := enabled\<rparr>"

definition ssh_with_tty :: "bool \<Rightarrow> SshLayer \<Rightarrow> SshLayer" where
  "ssh_with_tty enabled l = l\<lparr>ssl_allocate_tty := enabled\<rparr>"

definition docker_with_interactive :: "bool \<Rightarrow> DockerLayer \<Rightarrow> DockerLayer" where
  "docker_with_interactive interactive l = l\<lparr>dkl_interactive := interactive\<rparr>"

definition docker_with_tty :: "bool \<Rightarrow> DockerLayer \<Rightarrow> DockerLayer" where
  "docker_with_tty tty l = l\<lparr>dkl_tty := tty\<rparr>"

definition docker_with_user :: "string \<Rightarrow> DockerLayer \<Rightarrow> DockerLayer" where
  "docker_with_user user l = l\<lparr>dkl_user := Some user\<rparr>"

definition docker_with_working_dir :: "string \<Rightarrow> DockerLayer \<Rightarrow> DockerLayer" where
  "docker_with_working_dir workdir l = l\<lparr>dkl_workdir := Some workdir\<rparr>"

definition docker_with_env :: "string \<Rightarrow> string \<Rightarrow> DockerLayer \<Rightarrow> DockerLayer" where
  "docker_with_env k v l = l\<lparr>dkl_env := hm_insert k v (dkl_env l)\<rparr>"

definition local_with_env :: "string \<Rightarrow> string \<Rightarrow> LocalLayer \<Rightarrow> LocalLayer" where
  "local_with_env k v l = l\<lparr>lcl_env := hm_insert k v (lcl_env l)\<rparr>"

definition local_with_working_dir :: "string \<Rightarrow> LocalLayer \<Rightarrow> LocalLayer" where
  "local_with_working_dir dir l = l\<lparr>lcl_working_dir := Some dir\<rparr>"

text \<open>
  A port reaches \<^verbatim>\<open>ssh\<close> as an option, in decimal, whatever the other settings and the command are.
\<close>

lemma ssh_port_option:
  "\<exists>before after. cmd_args (ssh_wrap (ssh_with_port port l) command) = before @ [''-p'', show_nat (unat port)] @ after \<and>
     last after = ssh_remote_command (ssh_with_port port l) command"
proof -
  let ?l = "ssh_with_port port l"
  have "cmd_args (ssh_wrap ?l command) =
      (flag (ssl_agent_forwarding ?l) [''-A''] @ flag (ssl_x11_forwarding ?l) [''-X''] @ flag (ssl_allocate_tty ?l) [''-t'']) @
      [''-p'', show_nat (unat port)] @
      (opt_args ''-i'' (ssl_identity_file ?l) @ ssl_options ?l @ [ssl_destination ?l, ssh_remote_command ?l command])"
    by (simp add: ssh_wrap_def add_args_eq add_arg_def cmd_new_def opt_args_def ssh_with_port_def)
  moreover have "last (opt_args ''-i'' (ssl_identity_file ?l) @ ssl_options ?l @ [ssl_destination ?l, ssh_remote_command ?l command]) =
      ssh_remote_command ?l command" by (simp add: last_append)
  ultimately show ?thesis by (intro exI conjI)
qed

end
