(* ===== verification/Cmd_Attach.thy ===== *)
theory Cmd_Attach
  imports Cmd_Process
begin

text \<open>
  The rest of attaching and of the input of processes in \<^verbatim>\<open>crates/command-executor\<close>: the stream an
  attached service is followed by (\<^verbatim>\<open>backends/attacher.rs\<close>), the attacher with layers
  (\<^verbatim>\<open>layered/attacher.rs\<close>), writing to a process with its errors (\<^verbatim>\<open>stdin.rs\<close>), and the executor
  (\<^verbatim>\<open>executor.rs\<close>).
\<close>

section \<open>The stream of an attached service\<close>

record AttachedEventStream =
  aes_service_name :: string
  aes_stdout :: "poll_line list option"
  aes_filter :: log_filter

function attached_poll :: "string \<Rightarrow> AttachedEventStream \<Rightarrow> ProcessEvent option poll \<times> AttachedEventStream" where
  "attached_poll now st = (case aes_stdout st of
     None \<Rightarrow> (Ready None, st)
   | Some [] \<Rightarrow> (Ready None, st\<lparr>aes_stdout := None\<rparr>)
   | Some (PErr # r) \<Rightarrow> (Ready None, st\<lparr>aes_stdout := None\<rparr>)
   | Some (PPend # r) \<Rightarrow> (Pending, st\<lparr>aes_stdout := Some r\<rparr>)
   | Some (PLine line # r) \<Rightarrow>
       (case aes_filter st line SrcStdout of
          Some filtered \<Rightarrow> (Ready (Some (event_new_with_data now PStdout filtered)), st\<lparr>aes_stdout := Some r\<rparr>)
        | None \<Rightarrow> attached_poll now (st\<lparr>aes_stdout := Some r\<rparr>)))"
  by auto
termination by (relation "measure (\<lambda>(now, st). pipe_left (aes_stdout st))") (auto simp: pipe_left_def)

declare attached_poll.simps [simp del]

text \<open>The events until the stream ends; \<open>n\<close> bounds the polls.\<close>

fun attached_drain :: "nat \<Rightarrow> string \<Rightarrow> AttachedEventStream \<Rightarrow> ProcessEvent list option" where
  "attached_drain 0 now st = None"
| "attached_drain (Suc n) now st =
     (case attached_poll now st of
        (Ready None, st') \<Rightarrow> Some []
      | (Ready (Some e), st') \<Rightarrow> map_option ((#) e) (attached_drain n now st')
      | (Pending, st') \<Rightarrow> attached_drain n now st')"

lemma attached_poll_step:
  "attached_poll now st = (r, st') \<Longrightarrow> aes_filter st' = aes_filter st \<and>
    (r \<noteq> Ready None \<longrightarrow> pipe_left (aes_stdout st') < pipe_left (aes_stdout st)) \<and>
    kept (aes_filter st) SrcStdout (lines_of (aes_stdout st)) =
      (case r of Ready None \<Rightarrow> []
       | Ready (Some e) \<Rightarrow> the (pe_data e) # kept (aes_filter st) SrcStdout (lines_of (aes_stdout st'))
       | Pending \<Rightarrow> kept (aes_filter st) SrcStdout (lines_of (aes_stdout st'))) \<and>
    (\<forall>e. r = Ready (Some e) \<longrightarrow> pe_event_type e = PStdout)"
proof (induction now st arbitrary: r st' rule: attached_poll.induct)
  case (1 now st)
  show ?case
  proof (cases "aes_stdout st")
    case None
    with "1.prems" show ?thesis by (auto simp: attached_poll.simps [of now st] lines_of_def)
  next
    case (Some ls)
    show ?thesis
    proof (cases ls)
      case Nil
      with Some "1.prems" show ?thesis by (auto simp: attached_poll.simps [of now st] lines_of_def)
    next
      case (Cons p ls')
      show ?thesis
      proof (cases p)
        case (PLine line)
        show ?thesis
        proof (cases "aes_filter st line SrcStdout")
          case None
          have "attached_poll now (st\<lparr>aes_stdout := Some ls'\<rparr>) = (r, st')"
            using "1.prems" Some Cons PLine None by (simp add: attached_poll.simps [of now st])
          from "1.IH" [OF Some Cons PLine None this] show ?thesis
            using Some Cons PLine None by (auto simp: lines_of_def pipe_left_def split: poll.splits option.splits)
        next
          case filtered: (Some x)
          with "1.prems" Some Cons PLine show ?thesis
            by (auto simp: attached_poll.simps [of now st] lines_of_def pipe_left_def event_new_with_data_def)
        qed
      qed (use "1.prems" Some Cons in \<open>auto simp: attached_poll.simps [of now st] lines_of_def pipe_left_def\<close>)
    qed
  qed
qed

text \<open>
  An attached service's stream delivers the lines of standard output that the filter keeps, in order, until the
  pipe closes or fails, and nothing of what the log command writes to standard error.
\<close>

lemma attached_stream_lines:
  "pipe_left (aes_stdout st) < n \<Longrightarrow> \<exists>evs. attached_drain n now st = Some evs \<and>
     map (\<lambda>e. the (pe_data e)) evs = kept (aes_filter st) SrcStdout (lines_of (aes_stdout st)) \<and>
     (\<forall>e\<in>set evs. pe_event_type e = PStdout)"
proof (induction n arbitrary: st)
  case (Suc n)
  obtain r st' where r: "attached_poll now st = (r, st')" by fastforce
  note step = attached_poll_step [OF r]
  show ?case
  proof (cases "r = Ready None")
    case True
    with r step show ?thesis by simp
  next
    case False
    with step Suc.prems have "pipe_left (aes_stdout st') < n" by simp
    from Suc.IH [OF this] obtain evs where "attached_drain n now st' = Some evs"
      "map (\<lambda>e. the (pe_data e)) evs = kept (aes_filter st) SrcStdout (lines_of (aes_stdout st'))"
      "\<forall>e\<in>set evs. pe_event_type e = PStdout" using step by auto
    with r step False show ?thesis by (auto split: poll.splits option.splits)
  qed
qed simp

section \<open>Layers around an attacher\<close>

text \<open>An attacher over a world \<open>'w\<close>, with the operations of its handles.\<close>

record ('t, 's, 'h, 'w) attacher_ops =
  ao_attach :: "'t \<Rightarrow> AttachConfig \<Rightarrow> ('w, CmdError, 's \<times> 'h) act"
  ao_id :: "'h \<Rightarrow> string"
  ao_status :: "'h \<Rightarrow> ('w, CmdError, SvcStatus) act"
  ao_disconnect :: "'h \<Rightarrow> ('w, CmdError, 'h) act"

datatype 'h dyn_handle =
    BaseHandle 'h
  | SshWrappedHandle "'h dyn_handle" string
  | DockerWrappedHandle "'h dyn_handle" string

fun dyn_id :: "('t, 's, 'h, 'w) attacher_ops \<Rightarrow> 'h dyn_handle \<Rightarrow> string" where
  "dyn_id A (BaseHandle h) = ao_id A h"
| "dyn_id A (SshWrappedHandle inner ssh_target) = ''ssh:'' @ ssh_target @ ''/'' @ dyn_id A inner"
| "dyn_id A (DockerWrappedHandle inner container_id) = ''docker:'' @ container_id @ ''/'' @ dyn_id A inner"

fun dyn_status :: "('t, 's, 'h, 'w) attacher_ops \<Rightarrow> 'h dyn_handle \<Rightarrow> ('w, CmdError, SvcStatus) act" where
  "dyn_status A (BaseHandle h) = ao_status A h"
| "dyn_status A (SshWrappedHandle inner ssh_target) = dyn_status A inner"
| "dyn_status A (DockerWrappedHandle inner container_id) = dyn_status A inner"

fun dyn_disconnect :: "('t, 's, 'h, 'w) attacher_ops \<Rightarrow> 'h dyn_handle \<Rightarrow> ('w, CmdError, 'h dyn_handle) act" where
  "dyn_disconnect A (BaseHandle h) = act_bind (ao_disconnect A h) (\<lambda>h. act_ret (BaseHandle h))"
| "dyn_disconnect A (SshWrappedHandle inner ssh_target) =
     act_bind (dyn_disconnect A inner) (\<lambda>inner. act_ret (SshWrappedHandle inner ssh_target))"
| "dyn_disconnect A (DockerWrappedHandle inner container_id) =
     act_bind (dyn_disconnect A inner) (\<lambda>inner. act_ret (DockerWrappedHandle inner container_id))"

fun wrap_handle :: "AttachLayer \<Rightarrow> 'h dyn_handle \<Rightarrow> ExecutionContext \<Rightarrow> CmdError + 'h dyn_handle" where
  "wrap_handle (SshAttach ssh_target) h ctx = Inr (SshWrappedHandle h ssh_target)"
| "wrap_handle (DockerAttach container_id) h ctx = Inr (DockerWrappedHandle h container_id)"
| "wrap_handle (LocalAttach prefix) h ctx = Inr h"

definition wrap_event_stream :: "AttachLayer \<Rightarrow> 's \<Rightarrow> ExecutionContext \<Rightarrow> CmdError + 's" where
  "wrap_event_stream layer stream ctx = Inr stream"

record 'a LayeredAttacher =
  la_attacher :: 'a
  la_layers :: "AttachLayer list"
  la_context :: ExecutionContext

definition layered_attacher_new :: "'a \<Rightarrow> 'a LayeredAttacher" where
  "layered_attacher_new a = \<lparr>la_attacher = a, la_layers = [], la_context = context_new\<rparr>"

definition la_with_layer :: "AttachLayer \<Rightarrow> 'a LayeredAttacher \<Rightarrow> 'a LayeredAttacher" where
  "la_with_layer layer x = x\<lparr>la_layers := la_layers x @ [layer]\<rparr>"

definition la_with_context :: "ExecutionContext \<Rightarrow> 'a LayeredAttacher \<Rightarrow> 'a LayeredAttacher" where
  "la_with_context ctx x = x\<lparr>la_context := ctx\<rparr>"

definition la_with_env :: "string \<Rightarrow> string \<Rightarrow> 'a LayeredAttacher \<Rightarrow> 'a LayeredAttacher" where
  "la_with_env k v x = x\<lparr>la_context := ctx_with_env k v (la_context x)\<rparr>"

definition la_layer_count :: "'a LayeredAttacher \<Rightarrow> nat" where
  "la_layer_count x = length (la_layers x)"

definition la_layer_descriptions :: "'a LayeredAttacher \<Rightarrow> string list" where
  "la_layer_descriptions x = map attach_description (la_layers x)"

fun fold_res :: "('l \<Rightarrow> 'x \<Rightarrow> 'e + 'x) \<Rightarrow> 'l list \<Rightarrow> 'x \<Rightarrow> 'e + 'x" where
  "fold_res f [] x = Inr x"
| "fold_res f (l # ls) x = res_bind (f l x) (fold_res f ls)"

definition la_attach ::
    "('t, 's, 'h, 'w) attacher_ops LayeredAttacher \<Rightarrow> 't \<Rightarrow> AttachConfig \<Rightarrow> ('w, CmdError, 's \<times> 'h dyn_handle) act" where
  "la_attach x target config =
     act_bind (ao_attach (la_attacher x) target config) (\<lambda>(stream, handle).
     act_bind (act_lift (fold_res (\<lambda>layer s. wrap_event_stream layer s (la_context x)) (la_layers x) stream)) (\<lambda>boxed.
     act_bind (act_lift (fold_res (\<lambda>layer h. wrap_handle layer h (la_context x)) (rev (la_layers x)) (BaseHandle handle)))
       (\<lambda>wrapped. act_ret (boxed, wrapped))))"

lemma fold_wrap_stream: "fold_res (\<lambda>layer s. wrap_event_stream layer s ctx) layers s = Inr s"
  by (induction layers) (simp_all add: wrap_event_stream_def)

lemma fold_res_append: "fold_res f (xs @ ys) x = res_bind (fold_res f xs x) (fold_res f ys)"
  by (induction xs arbitrary: x) (auto simp: res_bind_def split: sum.splits)

lemma wrap_handle_ok:
  "\<exists>h'. wrap_handle layer h ctx = Inr h' \<and> dyn_id A h' = wrap_handle_id layer (dyn_id A h) \<and>
     dyn_status A h' = dyn_status A h"
  by (cases layer) simp_all

lemma fold_wrap_handle:
  "\<exists>h'. fold_res (\<lambda>layer h. wrap_handle layer h ctx) (rev layers) h = Inr h' \<and>
     dyn_id A h' = foldr wrap_handle_id layers (dyn_id A h) \<and> dyn_status A h' = dyn_status A h"
proof (induction layers)
  case (Cons layer layers)
  then obtain h1 where "fold_res (\<lambda>layer h. wrap_handle layer h ctx) (rev layers) h = Inr h1"
    "dyn_id A h1 = foldr wrap_handle_id layers (dyn_id A h)" "dyn_status A h1 = dyn_status A h" by blast
  moreover obtain h2 where "wrap_handle layer h1 ctx = Inr h2" "dyn_id A h2 = wrap_handle_id layer (dyn_id A h1)"
    "dyn_status A h2 = dyn_status A h1" using wrap_handle_ok by blast
  ultimately show ?case by (simp add: fold_res_append)
qed simp

text \<open>
  Layers only name: an attachment through any layers, in any context, is the attachment without them, to the
  same target on the same machine, whose handle has a longer identifier and the same status.
\<close>

lemma layers_only_name:
  "la_attach x target config w =
     (case ao_attach (la_attacher x) target config w of
        (Inl e, w') \<Rightarrow> (Inl e, w')
      | (Inr (stream, handle), w') \<Rightarrow>
          (case fold_res (\<lambda>layer h. wrap_handle layer h (la_context x)) (rev (la_layers x)) (BaseHandle handle) of
             Inl e \<Rightarrow> (Inl e, w') | Inr wrapped \<Rightarrow> (Inr (stream, wrapped), w')))"
  "\<exists>wrapped. fold_res (\<lambda>layer h. wrap_handle layer h (la_context x)) (rev (la_layers x)) (BaseHandle handle) = Inr wrapped \<and>
     dyn_id (la_attacher x) wrapped = foldr wrap_handle_id (la_layers x) (ao_id (la_attacher x) handle) \<and>
     dyn_status (la_attacher x) wrapped = ao_status (la_attacher x) handle"
  using fold_wrap_handle [of "la_context x" "la_layers x" "BaseHandle handle" "la_attacher x"]
  by (auto simp: la_attach_def act_bind_def act_lift_def act_ret_def fold_wrap_stream split: prod.splits sum.splits)

section \<open>Writing to a process\<close>

text \<open>The pipe of a process: both operations may fail with the text of an I/O error.\<close>

record 'w stdin_pipe =
  sp_write_all :: "string \<Rightarrow> ('w, string, unit) act"
  sp_flush :: "('w, string, unit) act"

definition io_step :: "('w, string, unit) act \<Rightarrow> ('w, CmdError, unit) act" where
  "io_step m w = (case m w of (r, w') \<Rightarrow> (map_err CmdIo r, w'))"

definition stdin_new :: "nat option \<Rightarrow> StdinHandle" where
  "stdin_new channel = \<lparr>sh_open = True, sh_channel = channel\<rparr>"

definition stdin_from_optional :: "'p option \<Rightarrow> nat option \<Rightarrow> StdinHandle option" where
  "stdin_from_optional stdin channel = map_option (\<lambda>_. stdin_new channel) stdin"

definition stdin_close :: "StdinHandle \<Rightarrow> StdinHandle" where
  "stdin_close h = h\<lparr>sh_open := False\<rparr>"

definition take_channel :: "StdinHandle \<Rightarrow> nat option \<times> StdinHandle" where
  "take_channel h = (sh_channel h, h\<lparr>sh_channel := None\<rparr>)"

definition has_channel :: "StdinHandle \<Rightarrow> bool" where
  "has_channel h = (sh_channel h \<noteq> None)"

definition stdin_write_line :: "'w stdin_pipe \<Rightarrow> StdinHandle \<Rightarrow> string \<Rightarrow> ('w, CmdError, unit) act" where
  "stdin_write_line P h line =
     (if sh_open h then
        act_bind (io_step (sp_write_all P line)) (\<lambda>_.
        act_bind (io_step (sp_write_all P [CHR 0x0A])) (\<lambda>_. io_step (sp_flush P)))
      else act_ret ())"

definition stdin_write :: "'w stdin_pipe \<Rightarrow> StdinHandle \<Rightarrow> string \<Rightarrow> ('w, CmdError, unit) act" where
  "stdin_write P h data =
     (if sh_open h then act_bind (io_step (sp_write_all P data)) (\<lambda>_. io_step (sp_flush P)) else act_ret ())"

text \<open>Forwarding takes the lines the channel delivers until it closes, and ends at the first error.\<close>

fun forward_each :: "'w stdin_pipe \<Rightarrow> StdinHandle \<Rightarrow> string list \<Rightarrow> ('w, CmdError, unit) act" where
  "forward_each P h [] = act_ret ()"
| "forward_each P h (line # ls) = act_bind (stdin_write_line P h line) (\<lambda>_. forward_each P h ls)"

definition forward_stdin :: "'w stdin_pipe \<Rightarrow> (nat \<Rightarrow> string list) \<Rightarrow> StdinHandle \<Rightarrow> ('w, CmdError, unit) act" where
  "forward_stdin P recv h =
     (case take_channel h of
        (None, h) \<Rightarrow> act_ret ()
      | (Some channel, h) \<Rightarrow> forward_each P h (recv channel))"

text \<open>
  On a pipe that takes all it is given, forwarding writes what \<open>forward_channel\<close> says; on one that takes a
  limited number of lines, it ends with the error and the lines after it are lost to the process.
\<close>

definition good_pipe :: "string stdin_pipe" where
  "good_pipe = \<lparr>sp_write_all = (\<lambda>data w. (Inr (), w @ data)), sp_flush = act_ret ()\<rparr>"

lemma good_pipe_line: "stdin_write_line good_pipe h line w = (Inr (), w @ (if sh_open h then line @ [CHR 0x0A] else []))"
  by (simp add: stdin_write_line_def good_pipe_def io_step_def act_bind_def)

lemma forward_each_good: "forward_each good_pipe h ls w = (Inr (), w @ forward_lines h ls)"
  by (induction ls arbitrary: w) (simp_all add: good_pipe_line)

lemma forward_lines_channel: "forward_lines (h\<lparr>sh_channel := c\<rparr>) ls = forward_lines h ls"
  by (induction ls) simp_all

lemma forward_stdin_refines: "forward_stdin good_pipe recv h w = (Inr (), w @ forward_channel recv h)"
  by (cases "sh_channel h")
    (simp_all add: forward_stdin_def take_channel_def forward_each_good forward_channel_def forward_lines_channel)

lemma forward_ends_at_error:
  "forward_each P h ls w = (Inl e, w') \<Longrightarrow>
     \<exists>done line rest v. ls = done @ line # rest \<and> forward_each P h done w = (Inr (), v) \<and>
       stdin_write_line P h line v = (Inl e, w')"
proof (induction ls arbitrary: w)
  case (Cons line ls)
  obtain r v where v: "stdin_write_line P h line w = (r, v)" by fastforce
  show ?case
  proof (cases r)
    case (Inl e')
    with Cons.prems v have "e' = e" "v = w'" by simp_all
    with v Inl show ?thesis by (intro exI [of _ "[]"] exI [of _ line] exI [of _ ls] exI [of _ w]) simp
  next
    case (Inr u)
    with Cons.prems v have "forward_each P h ls v = (Inl e, w')" by simp
    from Cons.IH [OF this] obtain d l rest x where "ls = d @ l # rest" "forward_each P h d v = (Inr (), x)"
      "stdin_write_line P h l x = (Inl e, w')" by blast
    with v Inr show ?thesis by (intro exI [of _ "line # d"] exI [of _ l] exI [of _ rest] exI [of _ x]) simp
  qed
qed simp

section \<open>The executor\<close>

text \<open>The launcher's operations on a target are the two arguments.\<close>

record 'l Executor =
  exe_service_name :: string
  exe_launcher :: 'l
  exe_log_filter :: "log_filter option"

definition executor_new :: "string \<Rightarrow> 'l \<Rightarrow> 'l Executor" where
  "executor_new service_name launcher =
     \<lparr>exe_service_name = service_name, exe_launcher = launcher, exe_log_filter = None\<rparr>"

definition exe_with_log_filter :: "log_filter \<Rightarrow> 'l Executor \<Rightarrow> 'l Executor" where
  "exe_with_log_filter f x = x\<lparr>exe_log_filter := Some f\<rparr>"

definition executor_launch :: "('l \<Rightarrow> 't \<Rightarrow> Command \<Rightarrow> 'r) \<Rightarrow> 'l Executor \<Rightarrow> 't \<Rightarrow> Command \<Rightarrow> 'r" where
  "executor_launch launch x target command = launch (exe_launcher x) target command"

definition executor_execute :: "('l \<Rightarrow> 't \<Rightarrow> Command \<Rightarrow> 'r) \<Rightarrow> 'l Executor \<Rightarrow> 't \<Rightarrow> Command \<Rightarrow> 'r" where
  "executor_execute execute x target command = execute (exe_launcher x) target command"

text \<open>A filter set on an executor filters nothing.\<close>

lemma log_filter_unused:
  "executor_launch launch (exe_with_log_filter f x) = executor_launch launch x"
  "executor_execute execute (exe_with_log_filter f x) = executor_execute execute x"
  by (simp_all add: executor_launch_def executor_execute_def exe_with_log_filter_def fun_eq_iff)

end
