(* ===== verification/Orch_Attached.thy ===== *)
theory Orch_Attached
  imports Orch_Exec
begin

text \<open>
  The executors that attach to services they did not start,
  \<^verbatim>\<open>crates/service-orchestration/src/executors/attached.rs\<close>: systemd units, Docker containers
  and local processes. Each keeps a table of what it is attached to, by service name, and the
  machine of \<^verbatim>\<open>Orch_Host\<close>; the trait \<open>AttachedService\<close> is a record of operations. The locale
  \<open>attached_exec\<close> states what the three share, and what follows for every run of operations.
\<close>

record ('w, 'h) att_state =
  at_world :: 'w
  at_attached :: "(string, 'h) hmap"

type_synonym ('w, 'h, 'a) att_act = "(('w, 'h) att_state, OrchError, 'a) act"

record ('w, 'h) attacher =
  aa_attach :: "ServiceConfig \<Rightarrow> ('w, 'h, RunningService) att_act"
  aa_detach :: "RunningService \<Rightarrow> ('w, 'h, unit) att_act"
  aa_is_accessible :: "RunningService \<Rightarrow> ('w, 'h, bool) att_act"
  aa_stream_events :: "RunningService \<Rightarrow> ('w, 'h, ProcessEventStream) att_act"
  aa_can_handle :: "ServiceConfig \<Rightarrow> bool"

definition on_machine :: "('w, 'e, 'a) act \<Rightarrow> (('w, 'h) att_state, 'e, 'a) act" where
  "on_machine m s = (case m (at_world s) of (r, w) \<Rightarrow> (r, s\<lparr>at_world := w\<rparr>))"

definition attached_service :: "'w host \<Rightarrow> ServiceConfig \<Rightarrow> ('w, 'h, RunningService) att_act" where
  "attached_service H config =
     on_machine (\<lambda>w. case fresh_service H (sc_name config) config w of (r, w') \<Rightarrow> (Inr r, w'))"

definition remember :: "string \<Rightarrow> 'h \<Rightarrow> ('w, 'h, unit) att_act" where
  "remember name h s = (Inr (), s\<lparr>at_attached := hm_insert name h (at_attached s)\<rparr>)"

text \<open>
  The log streams are those of a launched follower process, whose handle is a local variable of
  \<open>stream_events\<close> and is dropped when it returns.
\<close>

definition follow_command :: "'w host \<Rightarrow> Command \<Rightarrow> ('w, OrchError, ProcessEventStream) act" where
  "follow_command H cmd w =
     (case host_launch H TgtCommand cmd w of
        (Inl e, w') \<Rightarrow> (Inl (OCommand e), w')
      | (Inr (events, handle), w') \<Rightarrow> (Inr events, handle_drop H handle w'))"

definition no_streaming :: OrchError where
  "no_streaming = ONotImplemented ''Event streaming not implemented for this service''"

section \<open>Systemd units\<close>

text \<open>\<open>output()\<close> runs a prepared command to its end; attaching checks the status, then follows the log.\<close>

definition host_output :: "'w host \<Rightarrow> AsyncCommand \<Rightarrow> ('w, string, int option) act" where
  "host_output H c = act_bind (h_spawn H c) (\<lambda>child. act_bind (h_wait H child) (\<lambda>st. act_ret (ex_code st)))"

definition host_attach :: "'w host \<Rightarrow> AttachedService \<Rightarrow> AttachConfig \<Rightarrow> ('w, CmdError, LocalAttachedHandle) act" where
  "host_attach H target config w =
     (let status_cmd = cmd_prepare (as_status_command target);
          w1 = snd (host_output H status_cmd w);
          r = local_attach (\<lambda>c. fst (host_output H c w)) (\<lambda>c. fst (h_spawn H c w1)) target config in
      (map_sum id snd r,
       if check_service_status (\<lambda>c. fst (host_output H c w)) target = Inr SvRunning
       then snd (h_spawn H (log_command target config) w1) else w1))"

definition drop_attached :: "'w host \<Rightarrow> LocalAttachedHandle \<Rightarrow> 'w \<Rightarrow> 'w" where
  "drop_attached H h w = (case lah_log_child h of None \<Rightarrow> w | Some child \<Rightarrow> h_child_kill H child w)"

definition systemd_target :: "string \<Rightarrow> CmdError + AttachedService" where
  "systemd_target service_name =
     attached_service_build ((attached_service_builder service_name)
       \<lparr>asb_status_command := Some (add_arg service_name (add_arg ''is-active'' (cmd_new ''systemctl''))),
        asb_log_command := Some (add_arg ''-f'' (add_arg service_name (add_arg ''-u'' (cmd_new ''journalctl''))))\<rparr>)"

text \<open>Inserting under a name that has a handle drops the old one.\<close>

definition remember_handle :: "'w host \<Rightarrow> string \<Rightarrow> LocalAttachedHandle \<Rightarrow> ('w, LocalAttachedHandle, unit) att_act" where
  "remember_handle H name h s =
     (Inr (), s\<lparr>at_attached := hm_insert name h (at_attached s),
        at_world := (case hm_get (at_attached s) name of None \<Rightarrow> at_world s | Some old \<Rightarrow> drop_attached H old (at_world s))\<rparr>)"

definition systemd_attach :: "'w host \<Rightarrow> ServiceConfig \<Rightarrow> ('w, LocalAttachedHandle, RunningService) att_act" where
  "systemd_attach H config =
     act_bind (act_lift (ok_or (hm_get (target_env (sc_target config)) ''SYSTEMD_SERVICE'')
       (OConfig (OText ''SYSTEMD_SERVICE not specified'')))) (\<lambda>service_name.
     act_bind (act_lift (map_err OCommand (systemd_target service_name))) (\<lambda>target.
     act_bind (on_machine (\<lambda>w. case host_attach H target attach_config_default w of (r, w') \<Rightarrow> (map_err OCommand r, w'))) (\<lambda>handle.
     act_bind (remember_handle H (sc_name config) handle) (\<lambda>_.
     act_bind (attached_service H config) (\<lambda>service.
     act_ret (rs_with_metadata ''attached_id'' (lah_service_name handle)
       (rs_with_metadata ''systemd_unit'' service_name service)))))))"

definition systemd_detach :: "'w host \<Rightarrow> RunningService \<Rightarrow> ('w, LocalAttachedHandle, unit) att_act" where
  "systemd_detach H service s =
     (Inr (), s\<lparr>at_attached := hm_remove (rs_name service) (at_attached s),
        at_world := (case hm_get (at_attached s) (rs_name service) of
          None \<Rightarrow> at_world s | Some handle \<Rightarrow> drop_attached H handle (at_world s))\<rparr>)"

definition systemd_is_accessible :: "'w host \<Rightarrow> RunningService \<Rightarrow> ('w, LocalAttachedHandle, bool) att_act" where
  "systemd_is_accessible H service s =
     (case hm_get (at_attached s) (rs_name service) of
        None \<Rightarrow> (Inr False, s)
      | Some handle \<Rightarrow>
          (map_sum OCommand (\<lambda>st. st = SvRunning)
             (check_service_status (\<lambda>c. fst (host_output H c (at_world s))) (lah_service handle)),
           s\<lparr>at_world := snd (host_output H (cmd_prepare (as_status_command (lah_service handle))) (at_world s))\<rparr>))"

definition systemd_stream_events :: "'w host \<Rightarrow> RunningService \<Rightarrow> ('w, LocalAttachedHandle, ProcessEventStream) att_act" where
  "systemd_stream_events H service s =
     (if hm_has (at_attached s) (rs_name service) then
        (case hm_get (rs_metadata service) ''systemd_unit'' of
           None \<Rightarrow> (Inl no_streaming, s)
         | Some unit_name \<Rightarrow>
             on_machine (follow_command H (add_args [''-u'', unit_name, ''-f'', ''-n'', ''0''] (cmd_new ''journalctl''))) s)
      else (Inl no_streaming, s))"

definition systemd_can_handle :: "ServiceConfig \<Rightarrow> bool" where
  "systemd_can_handle config = hm_has (target_env (sc_target config)) ''SYSTEMD_SERVICE''"

definition systemd_attacher :: "'w host \<Rightarrow> ('w, LocalAttachedHandle) attacher" where
  "systemd_attacher H = \<lparr>aa_attach = systemd_attach H, aa_detach = systemd_detach H,
     aa_is_accessible = systemd_is_accessible H, aa_stream_events = systemd_stream_events H,
     aa_can_handle = systemd_can_handle\<rparr>"

section \<open>Docker containers\<close>

definition docker_attach :: "'w host \<Rightarrow> ServiceConfig \<Rightarrow> ('w, string, RunningService) att_act" where
  "docker_attach H config =
     (case sc_target config of
        TDocker _ env _ _ \<Rightarrow>
          act_bind (act_lift (ok_or (hm_get (target_env (sc_target config)) ''CONTAINER_NAME'')
            (OConfig (OText ''CONTAINER_NAME not specified for attachment'')))) (\<lambda>container_name.
          act_bind (remember (sc_name config) container_name) (\<lambda>_.
          act_bind (attached_service H config) (\<lambda>service.
          act_ret (rs_with_container_id container_name service))))
      | _ \<Rightarrow> act_err (OConfig (OText ''Docker attacher requires Docker target'')))"

definition forget :: "RunningService \<Rightarrow> ('w, 'h, unit) att_act" where
  "forget service s = (Inr (), s\<lparr>at_attached := hm_remove (rs_name service) (at_attached s)\<rparr>)"

definition docker_is_accessible :: "RunningService \<Rightarrow> ('w, string, bool) att_act" where
  "docker_is_accessible service s = (Inr (hm_has (at_attached s) (rs_name service)), s)"

definition docker_logs :: "'w host \<Rightarrow> RunningService \<Rightarrow> ('w, string, ProcessEventStream) att_act" where
  "docker_logs H service =
     (case rs_container_id service of
        None \<Rightarrow> act_err no_streaming
      | Some container_id \<Rightarrow> on_machine (follow_command H
          (add_args [''logs'', ''-f'', ''--tail'', ''0'', container_id] (cmd_new ''docker''))))"

definition docker_attach_can_handle :: "ServiceConfig \<Rightarrow> bool" where
  "docker_attach_can_handle config =
     (docker_can_handle config \<and> hm_has (target_env (sc_target config)) ''CONTAINER_NAME'')"

definition docker_attacher :: "'w host \<Rightarrow> ('w, string) attacher" where
  "docker_attacher H = \<lparr>aa_attach = docker_attach H, aa_detach = forget,
     aa_is_accessible = docker_is_accessible, aa_stream_events = docker_logs H,
     aa_can_handle = docker_attach_can_handle\<rparr>"

section \<open>Local processes\<close>

definition parse_pid :: "string \<Rightarrow> OrchError + u32" where
  "parse_pid s = map_sum id of_nat (ok_or (parse_unsigned (2 ^ 32) s) (OConfig (OText ''Invalid PID format'')))"

definition find_pid_by_name :: "'w host \<Rightarrow> string \<Rightarrow> ('w, OrchError, u32) act" where
  "find_pid_by_name H process_name =
     act_bind (run_command H (add_arg process_name (add_arg ''-f'' (cmd_new ''pgrep'')))) (\<lambda>result.
     if result_success result then
       (case str_lines (er_output result) of
          [] \<Rightarrow> act_err (OConfig (OText ''No matching process found''))
        | first_line # _ \<Rightarrow> act_lift (parse_pid (str_trim first_line)))
     else act_err (OConfig (OText (''Process '' @ [CHR 0x27] @ process_name @ [CHR 0x27] @ '' not found''))))"

definition is_process_running :: "'w host \<Rightarrow> u32 \<Rightarrow> ('w, OrchError, bool) act" where
  "is_process_running H pid =
     act_bind (run_command H (add_arg (show_u32 pid) (add_arg ''-0'' (cmd_new ''kill'')))) (\<lambda>result.
     act_ret (result_success result))"

definition wanted_pid :: "'w host \<Rightarrow> (string, string) hmap \<Rightarrow> ('w, OrchError, u32) act" where
  "wanted_pid H env =
     (case hm_get env ''PID'' of
        Some pid_str \<Rightarrow> act_lift (parse_pid pid_str)
      | None \<Rightarrow>
          (case hm_get env ''PROCESS_NAME'' of
             Some process_name \<Rightarrow> find_pid_by_name H process_name
           | None \<Rightarrow> act_err (OConfig (OText ''Either PID or PROCESS_NAME must be specified''))))"

definition process_attach :: "'w host \<Rightarrow> ServiceConfig \<Rightarrow> ('w, u32, RunningService) att_act" where
  "process_attach H config =
     act_bind (on_machine (wanted_pid H (target_env (sc_target config)))) (\<lambda>pid.
     act_bind (on_machine (is_process_running H pid)) (\<lambda>running.
     if \<not> running then act_err (OConfig (OText (''Process with PID '' @ show_u32 pid @ '' is not running'')))
     else
       act_bind (remember (sc_name config) pid) (\<lambda>_.
       act_bind (attached_service H config) (\<lambda>service.
       act_ret (rs_with_metadata ''attachment_type'' ''local_process'' (rs_with_pid pid service))))))"

definition process_is_accessible :: "'w host \<Rightarrow> RunningService \<Rightarrow> ('w, u32, bool) att_act" where
  "process_is_accessible H service =
     (case rs_pid service of Some pid \<Rightarrow> on_machine (is_process_running H pid) | None \<Rightarrow> act_ret False)"

definition process_journal :: "'w host \<Rightarrow> RunningService \<Rightarrow> ('w, u32, ProcessEventStream) att_act" where
  "process_journal H service =
     (case rs_pid service of
        None \<Rightarrow> act_err (ONotImplemented ''Event streaming requires PID'')
      | Some pid \<Rightarrow> on_machine (follow_command H
          (add_args [''_PID='' @ show_u32 pid, ''-f'', ''-n'', ''0''] (cmd_new ''journalctl''))))"

definition process_attach_can_handle :: "ServiceConfig \<Rightarrow> bool" where
  "process_attach_can_handle config =
     (let env = target_env (sc_target config) in hm_has env ''PID'' \<or> hm_has env ''PROCESS_NAME'')"

definition process_attacher :: "'w host \<Rightarrow> ('w, u32) attacher" where
  "process_attacher H = \<lparr>aa_attach = process_attach H, aa_detach = forget,
     aa_is_accessible = process_is_accessible H, aa_stream_events = process_journal H,
     aa_can_handle = process_attach_can_handle\<rparr>"

section \<open>What the attachers share\<close>

locale attached_exec =
  fixes A :: "('w, 'h) attacher"
  assumes attach_ok: "aa_attach A config s = (Inr service, s') \<Longrightarrow>
      rs_name service = sc_name config \<and> rs_config service = config \<and> aa_can_handle A config \<and>
      (\<forall>n. hm_has (at_attached s') n \<longleftrightarrow> n = sc_name config \<or> hm_has (at_attached s) n)"
    and attach_fails: "aa_attach A config s = (Inl e, s') \<Longrightarrow> at_attached s' = at_attached s"
    and detach_ok: "aa_detach A service s = (r, s') \<Longrightarrow>
      r = Inr () \<and> (\<forall>n. hm_has (at_attached s') n \<longleftrightarrow> n \<noteq> rs_name service \<and> hm_has (at_attached s) n)"
    and access_reads: "aa_is_accessible A service s = (b, s') \<Longrightarrow> at_attached s' = at_attached s"
    and stream_reads: "aa_stream_events A service s = (st, s') \<Longrightarrow> at_attached s' = at_attached s"

datatype att_op = AttAttach ServiceConfig | AttDetach RunningService | AttAccess RunningService | AttStream RunningService

definition attached_names :: "('w, 'h) att_state \<Rightarrow> string set" where
  "attached_names s = {n. hm_has (at_attached s) n}"

text \<open>A run of operations, with the names that its successful attachments and its detachments leave.\<close>

fun att_run :: "('w, 'h) attacher \<Rightarrow> att_op list \<Rightarrow> ('w, 'h) att_state \<Rightarrow> string set \<Rightarrow> ('w, 'h) att_state \<times> string set" where
  "att_run A [] s N = (s, N)"
| "att_run A (AttAttach config # ops) s N =
     (case aa_attach A config s of
        (Inr _, s') \<Rightarrow> att_run A ops s' (insert (sc_name config) N)
      | (Inl _, s') \<Rightarrow> att_run A ops s' N)"
| "att_run A (AttDetach service # ops) s N = att_run A ops (snd (aa_detach A service s)) (N - {rs_name service})"
| "att_run A (AttAccess service # ops) s N = att_run A ops (snd (aa_is_accessible A service s)) N"
| "att_run A (AttStream service # ops) s N = att_run A ops (snd (aa_stream_events A service s)) N"

context attached_exec
begin

lemma run_names: "att_run A ops s (attached_names s) = (s', N) \<Longrightarrow> attached_names s' = N"
proof (induction ops arbitrary: s)
  case (Cons op ops)
  show ?case
  proof (cases op)
    case (AttAttach config)
    obtain r t where r: "aa_attach A config s = (r, t)" by fastforce
    have "attached_names t = (case r of Inr _ \<Rightarrow> insert (sc_name config) (attached_names s) | Inl _ \<Rightarrow> attached_names s)"
      using attach_ok [of config s _ t] attach_fails [of config s _ t] r
      by (auto simp: attached_names_def split: sum.splits)
    with Cons.IH [of t] Cons.prems r AttAttach show ?thesis by (auto split: sum.splits)
  next
    case (AttDetach service)
    obtain r t where r: "aa_detach A service s = (r, t)" by fastforce
    with detach_ok [OF r] have "attached_names t = attached_names s - {rs_name service}"
      by (auto simp: attached_names_def)
    with Cons.IH [of t] Cons.prems r AttDetach show ?thesis by auto
  next
    case (AttAccess service)
    obtain r t where r: "aa_is_accessible A service s = (r, t)" by fastforce
    with access_reads [OF r] Cons.IH [of t] Cons.prems r AttAccess show ?thesis by (simp add: attached_names_def)
  next
    case (AttStream service)
    obtain r t where r: "aa_stream_events A service s = (r, t)" by fastforce
    with stream_reads [OF r] Cons.IH [of t] Cons.prems r AttStream show ?thesis by (simp add: attached_names_def)
  qed
qed simp

end

section \<open>The three attachers\<close>

lemma on_machine_run:
  "on_machine m s = (r, s') \<longleftrightarrow> (\<exists>w. m (at_world s) = (r, w) \<and> s' = s\<lparr>at_world := w\<rparr>)"
  by (auto simp: on_machine_def split: prod.splits)

lemma attached_service_run:
  "attached_service H config s = (r, s') \<longleftrightarrow>
     r = Inr (running_new (fst (h_uuid H (at_world s))) (sc_name config) config) \<and>
     s' = s\<lparr>at_world := snd (h_uuid H (at_world s))\<rparr>"
  by (auto simp: attached_service_def on_machine_run fresh_service_def split: prod.splits)

lemmas att_run_simps = act_bind_Inr_iff act_bind_Inl_iff on_machine_run attached_service_run remember_def

interpretation systemd_att: attached_exec "systemd_attacher H" for H :: "'w host"
proof
  fix config service and s s' :: "('w, LocalAttachedHandle) att_state"
  assume "aa_attach (systemd_attacher H) config s = (Inr service, s')"
  then show "rs_name service = sc_name config \<and> rs_config service = config \<and>
      aa_can_handle (systemd_attacher H) config \<and>
      (\<forall>n. hm_has (at_attached s') n \<longleftrightarrow> n = sc_name config \<or> hm_has (at_attached s) n)"
    by (auto simp: systemd_attacher_def systemd_attach_def att_run_simps remember_handle_def systemd_can_handle_def
        hm_has_iff [of "target_env t" for t])
qed (auto simp: systemd_attacher_def systemd_attach_def att_run_simps remember_handle_def systemd_detach_def
    systemd_is_accessible_def systemd_stream_events_def split: option.splits if_splits)

interpretation docker_att: attached_exec "docker_attacher H" for H :: "'w host"
proof
  fix config service and s s' :: "('w, string) att_state"
  assume "aa_attach (docker_attacher H) config s = (Inr service, s')"
  then show "rs_name service = sc_name config \<and> rs_config service = config \<and>
      aa_can_handle (docker_attacher H) config \<and>
      (\<forall>n. hm_has (at_attached s') n \<longleftrightarrow> n = sc_name config \<or> hm_has (at_attached s) n)"
    by (auto simp: docker_attacher_def docker_attach_def att_run_simps docker_attach_can_handle_def
        docker_can_handle_def hm_has_iff [of env for env :: "(string, string) hmap"] split: ServiceTarget.splits)
qed (auto simp: docker_attacher_def docker_attach_def att_run_simps forget_def docker_is_accessible_def docker_logs_def
    split: option.splits ServiceTarget.splits)

interpretation process_att: attached_exec "process_attacher H" for H :: "'w host"
proof
  fix config service and s s' :: "('w, u32) att_state"
  assume "aa_attach (process_attacher H) config s = (Inr service, s')"
  then show "rs_name service = sc_name config \<and> rs_config service = config \<and>
      aa_can_handle (process_attacher H) config \<and>
      (\<forall>n. hm_has (at_attached s') n \<longleftrightarrow> n = sc_name config \<or> hm_has (at_attached s) n)"
    by (auto simp: process_attacher_def process_attach_def att_run_simps wanted_pid_def process_attach_can_handle_def
        Let_def hm_has_iff [of "target_env t" for t] split: if_splits option.splits)
qed (auto simp: process_attacher_def process_attach_def att_run_simps forget_def process_is_accessible_def
    process_journal_def split: option.splits if_splits)

lemma follow_killed:
  assumes "follow_command H cmd w = (Inr events, w')"
  shows "\<exists>child w1. h_spawn H (cmd_prepare (snd (take_stdin_channel cmd))) w = (Inr child, w1) \<and>
    events = child_stream child \<and> w' = h_child_kill H child w1"
  using assms
  by (cases "h_spawn H (cmd_prepare (snd (take_stdin_channel cmd))) w")
    (auto simp: follow_command_def host_launch_def local_launch_def Let_def child_stream_def handle_drop_def
      split: prod.splits sum.splits)

section \<open>Properties\<close>

text \<open>
  Attachment tables. For each of the three attachers and every run of attach, detach,
  access and stream operations, with every error they may return, the names in the table are
  those it started with, and those of the successful attachments, less those detached since.
\<close>

theorem attachment_tables:
  "attached_names (fst (att_run (systemd_attacher H) ops s1 (attached_names s1))) =
     snd (att_run (systemd_attacher H) ops s1 (attached_names s1)) \<and>
   attached_names (fst (att_run (docker_attacher H) ops s2 (attached_names s2))) =
     snd (att_run (docker_attacher H) ops s2 (attached_names s2)) \<and>
   attached_names (fst (att_run (process_attacher H) ops s3 (attached_names s3))) =
     snd (att_run (process_attacher H) ops s3 (attached_names s3))"
  using systemd_att.run_names [OF surjective_pairing] docker_att.run_names [OF surjective_pairing]
    process_att.run_names [OF surjective_pairing] by blast

text \<open>
  Log followers do not outlive the call. Whenever an attacher hands out a log stream, the
  process that follows the log was spawned for it and killed before the stream is returned,
  because its handle is dropped at the end of \<open>stream_events\<close>.
\<close>

theorem log_followers_killed:
  assumes "systemd_stream_events H service s1 = (Inr events, s1') \<and> at_world s1 = w \<and> at_world s1' = w' \<or>
     docker_logs H service s2 = (Inr events, s2') \<and> at_world s2 = w \<and> at_world s2' = w' \<or>
     process_journal H service s3 = (Inr events, s3') \<and> at_world s3 = w \<and> at_world s3' = w'"
  shows "\<exists>cmd child w1. h_spawn H (cmd_prepare cmd) w = (Inr child, w1) \<and>
    events = child_stream child \<and> w' = h_child_kill H child w1"
proof -
  from assms obtain cmd where "follow_command H cmd w = (Inr events, w')"
    by (auto simp: systemd_stream_events_def docker_logs_def process_journal_def on_machine_run
        split: option.splits if_splits)
  from follow_killed [OF this] show ?thesis by blast
qed

theorem log_followers_killed_witness:
  "\<exists>cmd. at_world (snd (docker_logs demo_host (rs_with_container_id ''c1'' (running_new ''u'' ''db'' (demo_config ''db'')))
     \<lparr>at_world = [], at_attached = []\<rparr>)) = [ac_program (cmd_prepare cmd), ''kill'']"
proof -
  let ?s = "\<lparr>at_world = [], at_attached = []\<rparr> :: (string list, string) att_state"
  let ?r = "docker_logs demo_host (rs_with_container_id ''c1'' (running_new ''u'' ''db'' (demo_config ''db''))) ?s"
  have "is_ok (fst ?r)" by code_simp
  then obtain events where run: "?r = (Inr events, snd ?r)"
    by (auto simp: is_ok_def prod_eq_iff split: sum.splits)
  have "\<exists>cmd child w1. h_spawn demo_host (cmd_prepare cmd) [] = (Inr child, w1) \<and>
      events = child_stream child \<and> at_world (snd ?r) = h_child_kill demo_host child w1"
    by (rule log_followers_killed [where service = "rs_with_container_id ''c1'' (running_new ''u'' ''db'' (demo_config ''db''))"
          and ?s2.0 = ?s and ?s2' = "snd ?r"]) (rule disjI2, rule disjI1, use run in simp)
  then show ?thesis by (auto simp: demo_host_def)
qed

end
