(* ===== verification/Orch_Open.thy ===== *)
theory Orch_Open
  imports Orch_Manager Core_Daemon Host_Files
begin

text \<open>
  How the databases are opened: \<^verbatim>\<open>SledBackend::new\<close> and \<^verbatim>\<open>in_memory\<close>
  (\<^verbatim>\<open>service-registry/src/backend/sled.rs\<close>), the constructors of the registry (\<^verbatim>\<open>registry.rs\<close>) and of the
  service manager (\<^verbatim>\<open>service-orchestration/src/manager.rs\<close>), and with them a daemon of \<^verbatim>\<open>harness-core\<close>. What
  opens a database is a parameter; \<open>exclusive\<close> is its documented lock.
\<close>

section \<open>The database\<close>

record ('w, 'db, 't) storage =
  so_data_local_dir :: "string option"
  so_create_dir_all :: "string \<Rightarrow> ('w, string, unit) act"
  so_open :: "string \<Rightarrow> ('w, string, 'db) act"
  so_open_temporary :: "('w, string, 'db) act"
  so_open_tree :: "'db \<Rightarrow> string \<Rightarrow> ('w, string, 't) act"

definition sled_trees :: "('w, 'db, 't) storage \<Rightarrow> 'db \<Rightarrow> ('w, RegError, 't sled_store) act" where
  "sled_trees L db =
     act_bind (map_act_err DatabaseErr (so_open_tree L db ''services'')) (\<lambda>services.
     act_bind (map_act_err DatabaseErr (so_open_tree L db ''subscriptions'')) (\<lambda>subscriptions.
     act_ret \<lparr>ss_services = services, ss_subscriptions = subscriptions\<rparr>))"

definition sled_new :: "('w, 'db, 't) storage \<Rightarrow> string \<Rightarrow> ('w, RegError, 't sled_store) act" where
  "sled_new L path =
     act_bind (case path_parent path of
         Some parent \<Rightarrow> map_act_err IoErr (so_create_dir_all L parent)
       | None \<Rightarrow> act_ret ()) (\<lambda>_.
     act_bind (map_act_err DatabaseErr (so_open L path)) (sled_trees L))"

definition sled_in_memory :: "('w, 'db, 't) storage \<Rightarrow> ('w, RegError, 't sled_store) act" where
  "sled_in_memory L = act_bind (map_act_err DatabaseErr (so_open_temporary L)) (sled_trees L)"

section \<open>The registry\<close>

text \<open>In the first two an error of the backend is a panic, with this text.\<close>

definition registry_new :: "('w, 'db, 't) storage \<Rightarrow> ('w, string, 't sled_store registry) act" where
  "registry_new L =
     act_bind (map_act_err (\<lambda>_. ''Failed to create in-memory backend'') (sled_in_memory L)) (\<lambda>b. act_ret (with_backend b))"

definition registry_with_persistence :: "('w, 'db, 't) storage \<Rightarrow> string \<Rightarrow> ('w, string, 't sled_store registry) act" where
  "registry_with_persistence L path =
     act_bind (map_act_err (\<lambda>_. ''Failed to create persistent backend'') (sled_new L path)) (\<lambda>b. act_ret (with_backend b))"

definition registry_load ::
    "('t, 'x) sled \<Rightarrow> ('w, 'db, 't) storage \<Rightarrow> string \<Rightarrow> ('w, RegError, 't sled_store registry) act" where
  "registry_load S L path =
     act_bind (sled_new L path) (\<lambda>b.
     case sled_init S b of
       (Inl e, _) \<Rightarrow> act_err e
     | (Inr _, b) \<Rightarrow> act_ret (with_backend b))"

section \<open>The manager\<close>

definition manager_with_state_dir ::
    "('w, 'db, 't) storage \<Rightarrow> 'w host \<Rightarrow> subnet \<Rightarrow> string \<Rightarrow> ('w, OrchError, ('t sled_store, 'w) manager) act" where
  "manager_with_state_dir L H default_subnet state_dir =
     act_bind (map_act_err OIo (so_create_dir_all L state_dir)) (\<lambda>_.
     let registry_db_path = path_push state_dir ''registry_db'' in
     act_bind (map_act_err OIo (so_create_dir_all L registry_db_path)) (\<lambda>_.
     act_bind (map_act_err (\<lambda>_. OPanic) (registry_with_persistence L registry_db_path)) (\<lambda>registry w.
     (manager_with_state H default_subnet registry w, w))))"

definition default_state_dir :: "('w, 'db, 't) storage \<Rightarrow> string" where
  "default_state_dir L = path_push (case so_data_local_dir L of Some d \<Rightarrow> d | None \<Rightarrow> ''.'') ''harness''"

definition manager_default ::
    "('w, 'db, 't) storage \<Rightarrow> 'w host \<Rightarrow> subnet \<Rightarrow> ('w, OrchError, ('t sled_store, 'w) manager) act" where
  "manager_default L H default_subnet = manager_with_state_dir L H default_subnet (default_state_dir L)"

text \<open>The daemon of \<^verbatim>\<open>harness-core\<close> over these: a panic of the registry passes its error handling.\<close>

definition opening_env ::
    "('w, 'db, 't) storage \<Rightarrow> 'w host \<Rightarrow> subnet \<Rightarrow> (('t sled_store, 'w) manager, 't sled_store registry, 'w) daemon_env" where
  "opening_env L H default_subnet =
     \<lparr>de_manager_new = manager_default L H default_subnet,
      de_manager_with_state_dir = manager_with_state_dir L H default_subnet,
      de_registry_new = map_act_err (\<lambda>_. CeOrchestration OPanic) (registry_new L),
      de_registry_with_persistence = (\<lambda>p. map_act_err (\<lambda>_. CeOrchestration OPanic) (registry_with_persistence L p))\<rparr>"

section \<open>One opener at a time\<close>

text \<open>
  What sled documents: while a database is open it cannot be opened again. \<open>held\<close> are the paths of the
  open ones; making directories and opening trees closes none.
\<close>

definition exclusive :: "('w, 'db, 't) storage \<Rightarrow> ('w \<Rightarrow> string set) \<Rightarrow> bool" where
  "exclusive L held \<longleftrightarrow>
     (\<forall>p w. p \<in> held w \<longrightarrow> \<not> is_ok (fst (so_open L p w))) \<and>
     (\<forall>p w db w'. so_open L p w = (Inr db, w') \<longrightarrow> insert p (held w) \<subseteq> held w') \<and>
     (\<forall>p w. held w \<subseteq> held (snd (so_create_dir_all L p w))) \<and>
     (\<forall>db n w. held w \<subseteq> held (snd (so_open_tree L db n w)))"

lemma map_act_err_Inr_iff: "map_act_err f m w = (Inr x, w') \<longleftrightarrow> m w = (Inr x, w')"
  by (auto simp: map_act_err_def split: prod.splits)

lemma map_act_err_Inl: "m w = (Inl e, w') \<Longrightarrow> map_act_err f m w = (Inl (f e), w')"
  by (simp add: map_act_err_def)

lemma sled_trees_held:
  assumes "exclusive L held" and "sled_trees L db w = (Inr b, w')"
  shows "held w \<subseteq> held w'"
proof -
  have tree: "held w \<subseteq> held w'" if "so_open_tree L db n w = (Inr t, w')" for n w t w'
    using assms(1) that unfolding exclusive_def by (metis snd_conv)
  from assms(2) show ?thesis
    unfolding sled_trees_def act_bind_Inr_iff map_act_err_Inr_iff by (auto simp: act_ret_def dest!: tree)
qed

lemma made_dir_held:
  assumes "exclusive L held" and "so_create_dir_all L p w = (r, w')"
  shows "held w \<subseteq> held w'"
  using assms unfolding exclusive_def by (metis snd_conv)

lemma sled_new_steps:
  assumes "sled_new L p w = (Inr b, w')"
  shows "\<exists>w1 db w2. (w1 = w \<or> (\<exists>q r. so_create_dir_all L q w = (r, w1))) \<and> so_open L p w1 = (Inr db, w2) \<and>
    sled_trees L db w2 = (Inr b, w')"
proof (cases "path_parent p")
  case None
  with assms show ?thesis by (auto simp: sled_new_def act_bind_Inr_iff map_act_err_Inr_iff)
next
  case (Some q)
  with assms obtain w1 db w2 where "so_create_dir_all L q w = (Inr (), w1)" "so_open L p w1 = (Inr db, w2)"
    "sled_trees L db w2 = (Inr b, w')" by (auto simp: sled_new_def act_bind_Inr_iff map_act_err_Inr_iff)
  then show ?thesis by blast
qed

lemma sled_new_held:
  assumes ex: "exclusive L held" and new: "sled_new L p w = (Inr b, w')"
  shows "insert p (held w) \<subseteq> held w'"
proof -
  from new obtain w1 db w2 where dirs: "w1 = w \<or> (\<exists>q r. so_create_dir_all L q w = (r, w1))"
    and db: "so_open L p w1 = (Inr db, w2)" and trees: "sled_trees L db w2 = (Inr b, w')"
    by (blast dest: sled_new_steps)
  have "held w \<subseteq> held w1" using dirs made_dir_held [OF ex] by blast
  moreover have "insert p (held w1) \<subseteq> held w2" using ex db unfolding exclusive_def by blast
  ultimately show ?thesis using sled_trees_held [OF ex trees] by blast
qed

lemma sled_new_refused:
  assumes ex: "exclusive L held" and "p \<in> held w"
  shows "\<exists>e w'. sled_new L p w = (Inl e, w')"
proof -
  obtain r w' where r: "sled_new L p w = (r, w')" by fastforce
  have "r \<noteq> Inr b" for b
  proof
    assume "r = Inr b"
    with r obtain w1 db w2 where "w1 = w \<or> (\<exists>q s. so_create_dir_all L q w = (s, w1))" "so_open L p w1 = (Inr db, w2)"
      by (blast dest: sled_new_steps)
    moreover from this(1) have "p \<in> held w1" using assms made_dir_held [OF ex] by blast
    ultimately show False using ex unfolding exclusive_def by (metis fst_conv is_ok_simps(2))
  qed
  with r show ?thesis by (cases r) auto
qed

lemma manager_opened:
  assumes "manager_with_state_dir L H sn dir w = (Inr mg, w1)"
  shows "\<exists>b w0 wa. sled_new L (path_push dir ''registry_db'') w0 = (Inr b, wa) \<and> w1 = wa \<and>
    manager_with_state H sn (with_backend b) wa = Inr mg"
  using assms
  by (auto simp: manager_with_state_dir_def act_bind_Inr_iff map_act_err_Inr_iff registry_with_persistence_def
      act_ret_def Let_def)

lemma manager_opened_held:
  assumes "exclusive L held" and "manager_with_state_dir L H sn dir w = (Inr mg, w1)"
  shows "path_push dir ''registry_db'' \<in> held w1"
  using manager_opened [OF assms(2)] sled_new_held [OF assms(1)] by blast

text \<open>A manager whose database is open elsewhere: the error of the directories, or a panic.\<close>

lemma manager_refused:
  assumes ex: "exclusive L held" and open_db: "path_push dir ''registry_db'' \<in> held w"
  shows "\<exists>e w'. manager_with_state_dir L H sn dir w = (Inl e, w') \<and>
    (case so_create_dir_all L dir w of
       (Inl m, _) \<Rightarrow> e = OIo m
     | (Inr _, wa) \<Rightarrow> (case so_create_dir_all L (path_push dir ''registry_db'') wa of
           (Inl m, _) \<Rightarrow> e = OIo m
         | (Inr _, _) \<Rightarrow> e = OPanic))"
proof -
  let ?db = "path_push dir ''registry_db''"
  obtain r wa where ra: "so_create_dir_all L dir w = (r, wa)" by fastforce
  obtain s wb where sb: "so_create_dir_all L ?db wa = (s, wb)" by fastforce
  have "?db \<in> held wb" using open_db made_dir_held [OF ex ra] made_dir_held [OF ex sb] by blast
  from sled_new_refused [OF ex this] obtain e w' where "sled_new L ?db wb = (Inl e, w')" by blast
  then show ?thesis
    using ra sb by (cases r; cases s)
      (simp_all add: manager_with_state_dir_def act_bind_def map_act_err_def registry_with_persistence_def Let_def)
qed

text \<open>
  A daemon of \<^verbatim>\<open>harness-core\<close> that was built keeps a registry of its own beside the one of its manager: the path
  it was given is not the manager's.
\<close>

lemma registry_beside_manager:
  assumes ex: "exclusive L held" and path: "db_registry_path b = Some p"
    and built: "build (opening_env L H sn) b w = (Inr d, w')"
  shows "p \<noteq> path_push (case path_parent p of Some dir \<Rightarrow> dir | None \<Rightarrow> ''.'') ''registry_db''"
proof -
  let ?dir = "case path_parent p of Some dir \<Rightarrow> dir | None \<Rightarrow> ''.''"
  from built path obtain m w0 w1 r w2 where manager: "manager_with_state_dir L H sn ?dir w0 = (Inr m, w1)"
    and registry: "registry_with_persistence L p w1 = (Inr r, w2)"
    by (auto simp: build_def act_bind_Inr_iff map_act_err_Inr_iff opening_env_def)
  have "path_push ?dir ''registry_db'' \<in> held w1" by (rule manager_opened_held [OF ex manager])
  moreover have "p \<notin> held w1"
    using registry sled_new_refused [OF ex, of p w1]
    by (auto simp: registry_with_persistence_def act_bind_Inr_iff map_act_err_Inr_iff)
  ultimately show ?thesis by metis
qed

text \<open>
  Without a path every daemon takes the same directory: while one runs, no other is built, whichever its
  configuration.
\<close>

lemma second_daemon_refused:
  assumes ex: "exclusive L held" and first: "manager_default L H sn w = (Inr mg, w1)" and still: "held w1 \<subseteq> held w2"
    and path: "db_registry_path b = None"
  shows "\<not> is_ok (fst (build (opening_env L H2 sn2) b w2))"
proof
  assume "is_ok (fst (build (opening_env L H2 sn2) b w2))"
  then obtain d w' where "build (opening_env L H2 sn2) b w2 = (Inr d, w')" by (auto simp: is_ok_def prod_eq_iff split: sum.splits)
  with path obtain m w3 where "manager_with_state_dir L H2 sn2 (default_state_dir L) w2 = (Inr m, w3)"
    by (auto simp: build_def act_bind_Inr_iff map_act_err_Inr_iff opening_env_def manager_default_def
        split: option.splits)
  moreover have "path_push (default_state_dir L) ''registry_db'' \<in> held w2"
    using manager_opened_held [OF ex first [unfolded manager_default_def]] still by blast
  ultimately show False using manager_refused [OF ex, of "default_state_dir L" w2 H2 sn2] by auto
qed

section \<open>Properties\<close>

text \<open>
  C29. A manager is opened once. A manager that was opened has nothing active or monitored, and keeps the
  invariant of managers if what the database holds is well formed; while its database is open, opening another
  on the same directory fails: with the error of making a directory, or else in a panic, never with an error for the lock.
\<close>

theorem manager_opens_once:
  assumes locks: "exclusive L held" and opened: "manager_with_state_dir L H sn dir w = (Inr mg, w1)"
    and still: "held w1 \<subseteq> held w2"
  shows "mg_active_services mg = [] \<and> mg_health_monitors mg = [] \<and> xs_running_processes (mg_exec mg) = [] \<and>
    (keyed storable (view (rg_backend (mg_registry mg))) \<longrightarrow> mg_inv view storable H mg) \<and>
    (\<exists>e w3. manager_with_state_dir L H2 sn2 dir w2 = (Inl e, w3) \<and>
       (case so_create_dir_all L dir w2 of
          (Inl m, _) \<Rightarrow> e = OIo m
        | (Inr _, wa) \<Rightarrow> (case so_create_dir_all L (path_push dir ''registry_db'') wa of
              (Inl m, _) \<Rightarrow> e = OIo m
            | (Inr _, _) \<Rightarrow> e = OPanic)))"
proof -
  from manager_opened [OF opened] obtain b where "manager_with_state H sn (with_backend b) w1 = Inr mg" by blast
  then have fresh: "mg_active_services mg = []" "mg_health_monitors mg = []" "xs_running_processes (mg_exec mg) = []"
    "mg_executors mg = std_executors H" "mg_registry mg = with_backend b"
    by (auto simp: manager_with_state_def res_bind_Inr_iff)
  then have "keyed storable (view (rg_backend (mg_registry mg))) \<longrightarrow> mg_inv view storable H mg"
    by (simp add: mg_inv_def rg_inv_def covered_def with_backend_def)
  moreover have "path_push dir ''registry_db'' \<in> held w2" using manager_opened_held [OF locks opened] still by blast
  ultimately show ?thesis using fresh manager_refused [OF locks] by blast
qed

text \<open>A machine whose world is the list of the databases that are open.\<close>

definition demo_storage :: "(string list, unit, (string, json) hmap) storage" where
  "demo_storage = \<lparr>so_data_local_dir = Some ''/home/u/.local/share'', so_create_dir_all = (\<lambda>_. act_ret ()),
     so_open = (\<lambda>p w. if p \<in> set w then (Inl ''could not acquire lock'', w) else (Inr (), p # w)),
     so_open_temporary = act_ret (), so_open_tree = (\<lambda>_ _. act_ret [])\<rparr>"

lemma demo_storage_sel [simp]:
  "so_create_dir_all demo_storage p w = (Inr (), w)"
  "so_open demo_storage p w = (if p \<in> set w then (Inl ''could not acquire lock'', w) else (Inr (), p # w))"
  "so_open_tree demo_storage db n w = (Inr [], w)"
  by (simp_all add: demo_storage_def)

lemma demo_storage_opens:
  "\<exists>mg. manager_with_state_dir demo_storage demo_host net_10_42 ''/s'' [] = (Inr mg, [''/s/registry_db'']) \<and>
     mg_registry mg = empty_registry"
proof -
  have "sled_new demo_storage ''/s/registry_db'' [] =
      (Inr \<lparr>ss_services = [], ss_subscriptions = []\<rparr>, [''/s/registry_db''])"
    by (simp add: sled_new_def sled_trees_def act_bind_def map_act_err_def path_parent_def strip_slashes_def)
  then show ?thesis
    by (simp add: manager_with_state_dir_def registry_with_persistence_def act_bind_def map_act_err_def Let_def
        path_push_def manager_with_state_def start_manager_new empty_registry_def)
qed

theorem manager_opens_once_witness:
  "\<exists>mg w. manager_with_state_dir demo_storage demo_host net_10_42 ''/s'' [] = (Inr mg, w) \<and>
     mg_inv (sled_view hm_get mem_json) (entry_encodable (jt_is_addr mem_json)) demo_host mg \<and>
     fst (manager_with_state_dir demo_storage demo_host net_10_42 ''/s'' w) = Inl OPanic"
proof -
  obtain mg where mg: "manager_with_state_dir demo_storage demo_host net_10_42 ''/s'' [] = (Inr mg, [''/s/registry_db''])"
    "mg_registry mg = empty_registry" using demo_storage_opens by blast
  have "exclusive demo_storage set" by (auto simp: exclusive_def split: if_splits)
  from manager_opens_once [OF this mg(1) subset_refl, of "entry_encodable (jt_is_addr mem_json)" "sled_view hm_get mem_json"
      demo_host net_10_42]
  show ?thesis using mg empty_registry_inv by (auto simp: rg_inv_def)
qed

end
