(* ===== verification/Spec2Isabelle.thy ===== *)
theory Spec2Isabelle
  imports Cli_Report Cli_Daemon_Stop Dmn_Server Gtd_Main Core_Client Reg_Package Net_Topology
    Cmd_Targets Cmd_Attach Orch_Attached Orch_Open
begin

text \<open>
  A verification library for the service harness: its command line, its configuration, the daemon
  that runs services, the service registry, the network bookkeeping, command execution, the
  core of typed services and tasks, and the daemon for Graph Protocol stacks built on it.

  \<^bold>\<open>The program.\<close> \<^verbatim>\<open>crates/harness\<close> is the command line and its daemon: a command reads a configuration
  (\<^verbatim>\<open>crates/harness-config\<close>), puts the services into dependency order and asks the daemon to start
  or stop them. The daemon holds a \<open>ServiceManager\<close> (\<^verbatim>\<open>crates/service-orchestration\<close>), which
  picks an executor for each service (processes, containers), keeps the active services and
  their health monitors, and registers them with the registry (\<^verbatim>\<open>crates/service-registry\<close>),
  a store of service entries with a state machine, subscriptions and network information, which a
  websocket server offers to clients. Executors and health checks run commands through
  \<^verbatim>\<open>crates/command-executor\<close>, directly or through layers such as SSH and Docker.
  \<^verbatim>\<open>crates/harness-core\<close> is a second kind of daemon, of typed services and tasks behind JSON, and
  \<^verbatim>\<open>crates/graph-test-daemon\<close> builds one from the configuration of a stack.

  \<^bold>\<open>Theories and sources.\<close>

  \<^item> \<open>Prelude\<close>: results, hash maps, hash sets, strings, and state-passing operations with errors.
  \<^item> \<open>Cfg_Types\<close>, \<open>Cfg_Resolver\<close>, \<open>Cfg_Parser\<close> (\<^verbatim>\<open>harness-config/src\<close>: \<^verbatim>\<open>lib.rs\<close>, \<^verbatim>\<open>resolver.rs\<close>,
    \<^verbatim>\<open>parser.rs\<close>): the parsed configuration, variables and their resolution, validation and
    conversion.
  \<^item> \<open>Depth_First\<close>: the locales for depth-first traversal and for collecting what is reachable.
    \<open>Cli_Deps\<close>, \<open>Cli_Start\<close>, \<open>Cli_Stop\<close>, \<open>Cli_Validate\<close>, \<open>Cli_Status\<close> (\<^verbatim>\<open>harness/src/commands\<close>:
    \<^verbatim>\<open>dependencies.rs\<close>, \<^verbatim>\<open>start.rs\<close>, \<^verbatim>\<open>stop.rs\<close>, \<^verbatim>\<open>validate.rs\<close>, \<^verbatim>\<open>status.rs\<close> and \<^verbatim>\<open>env.rs\<close>): the commands, over the
    environment and the polling of \<open>Cli_Client\<close>; \<open>Cli_Report\<close> (\<^verbatim>\<open>harness/src/main.rs\<close> too): what they print at the end, the rounds
    of the watch mode and the exit code. \<open>Dmn_Handlers\<close>, \<open>Dmn_Json\<close> (\<^verbatim>\<open>harness/src\<close>:
    \<^verbatim>\<open>protocol.rs\<close>, \<^verbatim>\<open>daemon/handlers.rs\<close>, \<^verbatim>\<open>daemon/server.rs\<close>, \<^verbatim>\<open>client/mod.rs\<close>): the daemon's handlers and
    connection loop, its protocol as JSON and its client. \<open>Host_Files\<close>, \<open>Dmn_Certs\<close>, \<open>Dmn_Server\<close>
    (\<^verbatim>\<open>daemon/certificates.rs\<close>, \<^verbatim>\<open>daemon/mod.rs\<close>, \<^verbatim>\<open>commands/client.rs\<close>, \<^verbatim>\<open>commands/daemon.rs\<close>): files as a state, the
    daemon's certificates, its start and the connecting of clients. \<open>Cli_Daemon\<close> and
    \<open>Cli_Daemon_Stop\<close> join them: the commands against the daemon and its manager.
  \<^item> \<open>Reg_Models\<close>, \<open>Reg_Json\<close> (\<^verbatim>\<open>service-registry/src/models.rs\<close>, \<^verbatim>\<open>error.rs\<close>): entries, messages, and
    the JSON their serde attributes prescribe. \<open>Reg_Backend\<close> (\<^verbatim>\<open>backend/mod.rs\<close>, \<^verbatim>\<open>backend/sled.rs\<close>):
    the backend trait with its contract, and the sled backend as a map. \<open>Reg_Registry\<close>
    (\<^verbatim>\<open>registry.rs\<close>): the registry over any backend that keeps the contract. \<open>Reg_Websocket\<close> (\<^verbatim>\<open>websocket.rs\<close>,
    \<^verbatim>\<open>client.rs\<close>): the server's connections and the client, opened by \<open>Reg_Tls\<close> (\<^verbatim>\<open>tls.rs\<close>). \<open>Reg_Package\<close> (\<^verbatim>\<open>package.rs\<close>, \<^verbatim>\<open>config.rs\<close>): packages
    and settings.
  \<^item> \<open>Net_Alloc\<close>, \<open>Net_Topology\<close> (\<^verbatim>\<open>service-registry/src/network\<close>): address allocation on 32 and
    128-bit words, topology, resolution, the environment a service gets.
  \<^item> \<open>Cmd_Command\<close>, \<open>Cmd_Targets\<close>, \<open>Cmd_Layers\<close>, \<open>Cmd_Process\<close>, \<open>Cmd_Attach\<close> (\<^verbatim>\<open>command-executor/src\<close>): the command builder and what a
    child receives of it, the targets, the layers and their quoting, the event stream of a process, signals,
    its input, attachment and the layers around it.
  \<^item> \<open>Orch_Config\<close>, \<open>Orch_Json\<close>, \<open>Orch_Host\<close>, \<open>Orch_Health\<close>, \<open>Orch_Exec\<close>, \<open>Orch_Attached\<close>, \<open>Orch_Package\<close>,
    \<open>Orch_Manager\<close> (\<^verbatim>\<open>service-orchestration/src\<close>): configuration and its serde form, the machine that runs
    commands, health checks, managed and attached executors, package deployment, and the manager;
    \<open>Orch_Open\<close> (with \<^verbatim>\<open>backend/sled.rs\<close> and \<^verbatim>\<open>registry.rs\<close>): how registry and manager are opened.
  \<^item> \<open>Core_Action\<close>, \<open>Core_Stacks\<close>, \<open>Core_Daemon\<close> (\<^verbatim>\<open>harness-core/src\<close>): actions, typed services and tasks with
    their JSON wrappers and stacks, the conversion of events, the builder of a daemon and its validation; \<open>Core_Client\<close>, the test client.
    \<open>Gtd_Services\<close>, \<open>Gtd_Tasks\<close>, \<open>Gtd_Daemon\<close>, \<open>Gtd_Main\<close> (\<^verbatim>\<open>graph-test-daemon/src\<close>): the services and tasks of a Graph
    stack, the daemon built from its configuration, and the program.

  \<^bold>\<open>State and operations.\<close> A struct with state is a record; a method that changes it is a function
  from the state to a result and the state afterwards (\<open>act\<close> in the prelude), with every error
  of the source a value of the error type: the state is the one the code leaves behind when it
  returns early. A trait is a record of its methods. Panics are error values too, or \<open>None\<close> around a
  result where the code has no error. An \<open>async\<close> method is one step, except where the
  interleaving matters: registration is also split at its two awaits, and the conversion of events and
  the client of the registry are step relations. A hash map is an
  association list whose order is the iteration order, so that a statement for all lists covers
  every order. The operating system, the database, the JSON printer, YAML, the clock, the parser combinators and the
  address types of libraries are parameters with named hypotheses; the examples instantiate them
  (an in-memory database, a machine that logs what it is asked to do, a clock turned by pauses).

  \<^bold>\<open>Interfaces.\<close> \<open>depth_first\<close> and \<open>reach_collect\<close> are used by the four traversals of the command line.
  \<open>nom_library\<close> is what the resolver needs of the parser combinators, with a reference implementation.
  \<open>registry_store\<close> is what the registry needs of a backend; \<open>sled_db\<close>, what the sled backend
  needs of the database, gives it. \<open>service_exec\<close> is what the manager needs of an executor, and
  \<open>orchestrator\<close> what it needs of its executors together; the process and Docker executors
  provide it. \<open>attached_exec\<close> is shared by the three attachers. \<open>instance_stack\<close> is what the stacks of services and of
  tasks have in common.

  \<^bold>\<open>What is shown.\<close>

  \<^item> Commands: start and stop orders contain exactly the services reachable from those asked for, each once and
    after what it needs; sorting fails exactly on a cycle; \<open>start\<close> asks in that order and stops at
    a refusal, comes to an end, and against the daemon leaves active what was active and, when it
    succeeds, everything it reached; \<open>stop\<close> takes dependents first, asks before it does, and leaves
    active exactly what it should when it reports no failure; the report of \<open>start\<close> accounts for every service;
    validation reports exactly what is wrong; the status tables show what the manager has.
  \<^item> Configuration: validation decides well-formedness, what is parsed converts, templates resolve to their
    text with the values filled in, positions of variables are within the text, and the syntax of a variable is read
    exactly.
  \<^item> The daemon: any conversation gets one answer for each request and keeps the manager's invariant; a client
    over JSON gets exactly the answers of the handlers. When it has started, its certificate and key are
    there, a client of the same user dials the address it is bound to and trusts exactly the chain it
    presents, and the certificate it made lasts its 365 days, and one day more.
  \<^item> Core and stacks: a daemon is built exactly on configurations that type, for Graph stacks exactly on those that fit; a
    dispatched action delivers its events in order; deploying and mining send the stated events.
  \<^item> The registry keeps its invariant under all operations, follows its state machine, and addresses events to
    exactly the subscribers; its messages survive the wire; the sled backend is a map; a remote client sees
    the registry; a connection is cleaned up unless an answer cannot be sent; a client's request gets the first
    response to it, or stays pending.
  \<^item> Address allocation keeps its books consistent, finds a free address exactly when there is one, and
    terminates.
  \<^item> Commands reach the child, through any stack of layers, with the same words; the event stream delivers
    every line in order; executors start what is configured and track it; the manager keeps its invariant
    over every run and behaves as stated on every branch, errors included; it is opened once for a directory.
  \<^item> Several lemmas and statements fix behaviour that a reader would not expect, among them
    \<open>specific_allocation_leaks\<close>, \<open>wireguard_registration_unusable\<close>, \<open>remote_layers_forget_environment\<close>,
    \<open>docker_start_never_adopts\<close>, \<open>log_followers_killed\<close>, \<open>registry_entries_frozen\<close>, \<open>subscription_reply_diverges\<close>,
    \<open>start_continues_after_failed_conversion\<close>, \<open>failed_service_counts_as_started\<close>, \<open>stop_report_counts_unattempted\<close>,
    \<open>hardhat_killed_at_once\<close>, \<open>contracts_not_in_stacks\<close>, \<open>waiting_for_services_fails\<close>, \<open>layers_only_name\<close>, \<open>log_filter_unused\<close>, \<open>second_daemon_refused\<close>,
    \<open>lone_certificate_replaced\<close> and \<open>package_dir_defaults\<close>.

  \<^bold>\<open>Termination.\<close> The traversals of the command line recurse on the graph; they carry fuel, and
  \<open>dep_fuel\<close>, one more than the number of names there are, is shown to be enough. The
  search for a free address goes round the address space and is a partial function shown to
  return. Polling a status is a partial function too, shown to return on a clock that the pauses
  turn (\<open>steady_clock\<close>); the default wait for a state is one whose end depends on the service. Polling an event
  stream decreases the unread lines; reading it to the end takes at most the number of unread lines
  plus three polls.

  \<^bold>\<open>Not modelled.\<close> Serialisation syntax other than JSON values; cryptography, sockets and handshakes beyond
  the operations that are parameters; the argument parsing of the binaries and progress output; the runtime shims and the build tooling, which have no state of their own. Logging
  has no effect in the model, and the arguments of log messages are not evaluated.
\<close>

end
